(* ===== verification/Prelude.thy ===== *)
theory Prelude
  imports Main
begin

text \<open>
  Shared vocabulary: identifiers and times, the HTTP errors the services raise, the result of a
  transaction body, and the list operations that stand for the SQL the services issue
  (\<open>SELECT ... LIMIT 1\<close> as \<open>find\<close>, \<open>ORDER BY k DESC LIMIT 1\<close> as \<open>latestBy\<close>, \<open>UPDATE ... WHERE\<close>
  as \<open>updw\<close>, \<open>INSERT\<close> as \<open>@ [row]\<close>), with the lemmas that make them compute. The collection
  \<open>table\<close> holds the rewriting rules of these operations, \<open>tx\<close> those of transactions.
\<close>

named_theorems table \<open>rewriting rules of the table operations\<close>
named_theorems tx \<open>rewriting rules of transactions and their results\<close>

section \<open>Identifiers, times, errors\<close>

type_synonym uuid = nat
type_synonym time = int
type_synonym date = int

definition DAY_MS :: int where
  "DAY_MS = 86400000"

datatype http_error =
    NotFound string
  | Conflict string
  | Unprocessable string
  | Forbidden string
  | BadRequest string
  | TooMany string
  | Unauthorized string
  | Unavailable string
  | BadGateway string
  | Internal string

text \<open>
  A transaction body reads and writes the tables its tenant can see. It yields the events it
  emitted and either an error or a value with the new tables: the events are kept apart because
  \<open>EventsService.emit\<close> commits each one in a transaction of its own.
\<close>

type_synonym ('s, 'a) body = "'s \<Rightarrow> string list \<times> (http_error + 'a \<times> 's)"

definition fails :: "http_error \<Rightarrow> string list \<times> (http_error + 'a \<times> 's)" where
  "fails e = ([], Inl e)"

definition returns :: "'a \<Rightarrow> 's \<Rightarrow> string list \<times> (http_error + 'a \<times> 's)" where
  "returns a s = ([], Inr (a, s))"

definition committed :: "string list \<times> (http_error + 'a \<times> 's) \<Rightarrow> 'a \<Rightarrow> 's \<Rightarrow> bool" where
  "committed r a s \<longleftrightarrow> snd r = Inr (a, s)"

definition failed :: "string list \<times> (http_error + 'a \<times> 's) \<Rightarrow> http_error \<Rightarrow> bool" where
  "failed r e \<longleftrightarrow> snd r = Inl e"

lemma fails_tx [tx, simp]: "\<not> committed (fails e) a s" "failed (fails e) e' \<longleftrightarrow> e' = e"
  by (auto simp: committed_def failed_def fails_def)

lemma returns_tx [tx, simp]: "committed (returns a s) a' s' \<longleftrightarrow> a' = a \<and> s' = s" "\<not> failed (returns a s) e"
  by (auto simp: committed_def failed_def returns_def)

lemma pair_tx [tx, simp]:
  "committed (es, Inr (a, s)) a' s' \<longleftrightarrow> a' = a \<and> s' = s" "\<not> failed (es, Inr (a, s)) e"
  "\<not> committed (es, Inl e) a s" "failed (es, Inl e) e' \<longleftrightarrow> e' = e"
  by (auto simp: committed_def failed_def)

lemma not_committed_and_failed: "committed r a s \<Longrightarrow> failed r e \<Longrightarrow> False"
  by (simp add: committed_def failed_def)

text \<open>\<open>x || null\<close> on an optional string.\<close>

definition nonEmpty :: "string option \<Rightarrow> string option" where
  "nonEmpty s = (case s of Some [] \<Rightarrow> None | _ \<Rightarrow> s)"

section \<open>Tables\<close>

definition updw :: "('a \<Rightarrow> bool) \<Rightarrow> ('a \<Rightarrow> 'a) \<Rightarrow> 'a list \<Rightarrow> 'a list" where
  "updw p f rows = map (\<lambda>r. if p r then f r else r) rows"

fun latestBy :: "('a \<Rightarrow> int) \<Rightarrow> 'a list \<Rightarrow> 'a option" where
  "latestBy k [] = None"
| "latestBy k (x # xs) =
     (case latestBy k xs of
        None \<Rightarrow> Some x
      | Some y \<Rightarrow> if k x < k y then Some y else Some x)"

fun insort_desc :: "('a \<Rightarrow> int) \<Rightarrow> 'a \<Rightarrow> 'a list \<Rightarrow> 'a list" where
  "insort_desc k x [] = [x]"
| "insort_desc k x (y # ys) = (if k y \<le> k x then x # y # ys else y # insort_desc k x ys)"

definition orderByDesc :: "('a \<Rightarrow> int) \<Rightarrow> 'a list \<Rightarrow> 'a list" where
  "orderByDesc k xs = foldr (insort_desc k) xs []"

lemma updw_Nil [table, simp]: "updw p f [] = []"
  by (simp add: updw_def)

lemma updw_Cons [table, simp]: "updw p f (r # rs) = (if p r then f r else r) # updw p f rs"
  by (simp add: updw_def)

lemma updw_append [table, simp]: "updw p f (xs @ ys) = updw p f xs @ updw p f ys"
  by (simp add: updw_def)

lemma length_updw [table, simp]: "length (updw p f rows) = length rows"
  by (simp add: updw_def)

lemma set_updw: "set (updw p f rows) = {r \<in> set rows. \<not> p r} \<union> f ` {r \<in> set rows. p r}"
  by (auto simp: updw_def)

lemma in_updw: "x \<in> set (updw p f rows) \<longleftrightarrow> (\<exists>r \<in> set rows. x = (if p r then f r else r))"
  by (auto simp: updw_def)

lemma updw_hit:
  "x \<in> set (updw (\<lambda>r. g r = k) f rows) \<Longrightarrow> g x = k \<Longrightarrow> (\<And>r. g (f r) = g r) \<Longrightarrow> \<exists>r \<in> set rows. g r = k \<and> x = f r"
  by (auto simp: in_updw split: if_splits)

lemma updw_miss:
  "x \<in> set (updw (\<lambda>r. g r = k) f rows) \<Longrightarrow> g x \<noteq> k \<Longrightarrow> (\<And>r. g (f r) = g r) \<Longrightarrow> x \<in> set rows"
  by (auto simp: in_updw split: if_splits)

lemma updw_id: "(\<And>r. r \<in> set rows \<Longrightarrow> \<not> p r) \<Longrightarrow> updw p f rows = rows"
  by (induction rows) auto

lemma map_updw: "(\<And>r. g (f r) = g r) \<Longrightarrow> map g (updw p f rows) = map g rows"
  by (induction rows) auto

lemma filter_updw:
  "(\<And>r. p r \<Longrightarrow> q (f r) = q r) \<Longrightarrow> filter q (updw p f rows) = updw p f (filter q rows)"
  by (induction rows) auto

lemma filter_updw_skip:
  "(\<And>r. r \<in> set rows \<Longrightarrow> p r \<Longrightarrow> \<not> q r \<and> \<not> q (f r)) \<Longrightarrow> filter q (updw p f rows) = filter q rows"
  by (induction rows) auto

lemma distinct_map_eq: "distinct (map f xs) \<Longrightarrow> x \<in> set xs \<Longrightarrow> y \<in> set xs \<Longrightarrow> f x = f y \<Longrightarrow> x = y"
  by (auto simp: distinct_map dest: inj_onD)

lemma find_updw:
  "(\<And>r. p r \<Longrightarrow> q (f r) = q r) \<Longrightarrow>
   find q (updw p f rows) = map_option (\<lambda>r. if p r then f r else r) (find q rows)"
  by (induction rows) auto

lemma find_SomeD: "find p rows = Some r \<Longrightarrow> p r \<and> r \<in> set rows"
  by (induction rows) (auto split: if_splits)

lemma find_append [table]: "find p (xs @ ys) = (case find p xs of None \<Rightarrow> find p ys | Some r \<Rightarrow> Some r)"
  by (induction xs) auto

lemma latestBy_None [table, simp]: "latestBy k xs = None \<longleftrightarrow> xs = []"
  by (cases xs) (auto split: option.splits)

lemma latestBy_SomeD: "latestBy k xs = Some y \<Longrightarrow> y \<in> set xs \<and> (\<forall>x \<in> set xs. k x \<le> k y)"
proof (induction xs arbitrary: y)
  case (Cons x xs)
  then show ?case by (cases "latestBy k xs") (force split: if_splits)+
qed simp

lemma mset_insort_desc: "set (insort_desc k x ys) = insert x (set ys)"
  by (induction ys) auto

lemma set_orderByDesc: "set (orderByDesc k xs) = set xs"
  unfolding orderByDesc_def by (induction xs) (auto simp: mset_insort_desc)

lemma length_insort_desc: "length (insort_desc k x ys) = Suc (length ys)"
  by (induction ys) auto

lemma length_orderByDesc [table, simp]: "length (orderByDesc k xs) = length xs"
  unfolding orderByDesc_def by (induction xs) (auto simp: length_insort_desc)

lemma sorted_insort_desc:
  "sorted_wrt (\<lambda>a b. k b \<le> k a) ys \<Longrightarrow> sorted_wrt (\<lambda>a b. k b \<le> k a) (insort_desc k x ys)"
  by (induction ys) (auto simp: mset_insort_desc)

lemma sorted_orderByDesc: "sorted_wrt (\<lambda>a b. k b \<le> k a) (orderByDesc k xs)"
  unfolding orderByDesc_def by (induction xs) (auto intro: sorted_insort_desc)

lemma sum_insort_desc: "(\<Sum>x\<leftarrow>insort_desc k x ys. f x) = f x + (\<Sum>x\<leftarrow>ys. (f x :: int))"
  by (induction ys) auto

lemma sum_orderByDesc [table, simp]: "(\<Sum>x\<leftarrow>orderByDesc k xs. f x) = (\<Sum>x\<leftarrow>xs. (f x :: int))"
  unfolding orderByDesc_def by (induction xs) (auto simp: sum_insort_desc)

section \<open>Refinement\<close>

text \<open>
  The interface between a component and the protocol it implements: \<open>view\<close> forgets the detail of a
  state, every concrete step from a good state is a sequence of protocol steps and leaves a good
  state, and the protocol keeps its invariant. What is proved of the protocol then holds of every
  state the component reaches.
\<close>

locale simulation =
  fixes view :: "'c \<Rightarrow> 'a"
    and cstep :: "'c \<Rightarrow> 'c \<Rightarrow> bool"
    and astep :: "'a \<Rightarrow> 'a \<Rightarrow> bool"
    and good :: "'c \<Rightarrow> bool"
    and ainv :: "'a \<Rightarrow> bool"
  assumes sim: "good c \<Longrightarrow> ainv (view c) \<Longrightarrow> cstep c c' \<Longrightarrow> good c' \<and> astep\<^sup>*\<^sup>* (view c) (view c')"
    and keep: "ainv a \<Longrightarrow> astep a a' \<Longrightarrow> ainv a'"
begin

lemma keeps: "astep\<^sup>*\<^sup>* a a' \<Longrightarrow> ainv a \<Longrightarrow> ainv a'"
  by (induction rule: rtranclp_induct) (auto intro: keep)

lemma refines:
  assumes "cstep\<^sup>*\<^sup>* c c'" "good c" "ainv (view c)"
  shows "good c' \<and> astep\<^sup>*\<^sup>* (view c) (view c') \<and> ainv (view c')"
  using assms
proof (induction rule: rtranclp_induct)
  case (step y z)
  then have "good y" "astep\<^sup>*\<^sup>* (view c) (view y)" "ainv (view y)" by auto
  with sim[of y z] step.hyps(2) have "good z" "astep\<^sup>*\<^sup>* (view y) (view z)" by auto
  with \<open>ainv (view y)\<close> \<open>astep\<^sup>*\<^sup>* (view c) (view y)\<close> show ?case by (auto intro: keeps)
qed simp

end

end
