(* ===== verification/JsNumber.thy ===== *)
theory JsNumber
  imports Complex_Main "HOL-Library.Log_Nat"
begin

text \<open>
  The numbers of the program. TypeScript's \<open>number\<close> is IEEE-754 binary64; every arithmetic
  operation of the language rounds its exact result to the nearest double, ties to even. This
  theory models that arithmetic executably: a finite double is a sign and an exact rational
  magnitude, an operation computes the exact rational result and rounds it with \<open>rnd\<close> (53
  significant bits, least exponent -1074, overflow to infinity from \<open>2 ^ 1024\<close>). NaN, the two
  infinities and the two zeros are kept, so that \<open>Number.isFinite\<close>, \<open>Math.max\<close> and division
  by zero behave as they do in the language.
\<close>

section \<open>Rounding a magnitude to 53 bits\<close>

definition expo :: "rat \<Rightarrow> int" where
  "expo m =
     (let pq = quotient_of m;
          e = int (floorlog 2 (nat (fst pq))) - int (floorlog 2 (nat (snd pq)))
      in if 2 powi e \<le> m then e else e - 1)"

definition ulp :: "rat \<Rightarrow> rat" where
  "ulp m = 2 powi (max (expo m - 52) (-1074))"

definition rne :: "rat \<Rightarrow> int" where
  "rne x =
     (let f = \<lfloor>x\<rfloor>; d = x - of_int f
      in if d < 1 / 2 then f else if 1 / 2 < d then f + 1 else if even f then f else f + 1)"

definition rnd :: "rat \<Rightarrow> rat" where
  "rnd m = (if m = 0 then 0 else of_int (rne (m / ulp m)) * ulp m)"

definition fl :: "rat \<Rightarrow> rat" where
  "fl r = (if r < 0 then - rnd (- r) else rnd r)"

section \<open>The type and its operations\<close>

datatype number = NaN | Inf bool | Num bool rat

fun val :: "number \<Rightarrow> rat" where
  "val (Num s m) = (if s then - m else m)"
| "val _ = 0"

fun isFinite :: "number \<Rightarrow> bool" where
  "isFinite (Num _ _) = True"
| "isFinite _ = False"

definition mk :: "bool \<Rightarrow> rat \<Rightarrow> number" where
  "mk s m = (let r = rnd m in if 2 ^ 1024 \<le> r then Inf s else Num s r)"

text \<open>\<open>js r\<close> is the double a decimal literal, or \<open>Number\<close> of a decimal string, denotes.\<close>

definition js :: "rat \<Rightarrow> number" where
  "js r = mk (r < 0) \<bar>r\<bar>"

instantiation number :: "{plus, uminus, minus, times, inverse, ord, zero, one}"
begin

definition zero_number :: number where "0 = Num False 0"
definition one_number :: number where "1 = Num False 1"

fun plus_number :: "number \<Rightarrow> number \<Rightarrow> number" where
  "plus_number (Num s m) (Num t n) =
     (let v = val (Num s m) + val (Num t n)
      in if v = 0 then Num (s \<and> t) 0 else mk (v < 0) \<bar>v\<bar>)"
| "plus_number (Inf s) (Inf t) = (if s = t then Inf s else NaN)"
| "plus_number (Inf s) (Num _ _) = Inf s"
| "plus_number (Num _ _) (Inf t) = Inf t"
| "plus_number _ _ = NaN"

fun uminus_number :: "number \<Rightarrow> number" where
  "uminus_number NaN = NaN"
| "uminus_number (Inf s) = Inf (\<not> s)"
| "uminus_number (Num s m) = Num (\<not> s) m"

definition minus_number :: "number \<Rightarrow> number \<Rightarrow> number" where
  "minus_number a b = a + (- b)"

fun times_number :: "number \<Rightarrow> number \<Rightarrow> number" where
  "times_number (Num s m) (Num t n) = mk (s \<noteq> t) (m * n)"
| "times_number (Inf s) (Inf t) = Inf (s \<noteq> t)"
| "times_number (Inf s) (Num t n) = (if n = 0 then NaN else Inf (s \<noteq> t))"
| "times_number (Num s m) (Inf t) = (if m = 0 then NaN else Inf (s \<noteq> t))"
| "times_number _ _ = NaN"

fun divide_number :: "number \<Rightarrow> number \<Rightarrow> number" where
  "divide_number (Num s m) (Num t n) =
     (if n = 0 then (if m = 0 then NaN else Inf (s \<noteq> t)) else mk (s \<noteq> t) (m / n))"
| "divide_number (Num s m) (Inf t) = Num (s \<noteq> t) 0"
| "divide_number (Inf s) (Num t n) = Inf (s \<noteq> t)"
| "divide_number _ _ = NaN"

definition inverse_number :: "number \<Rightarrow> number" where
  "inverse_number a = divide (Num False 1) a"

fun less_number :: "number \<Rightarrow> number \<Rightarrow> bool" where
  "less_number (Num s m) (Num t n) = (val (Num s m) < val (Num t n))"
| "less_number (Inf s) (Inf t) = (s \<and> \<not> t)"
| "less_number (Inf s) (Num _ _) = s"
| "less_number (Num _ _) (Inf t) = (\<not> t)"
| "less_number _ _ = False"

fun less_eq_number :: "number \<Rightarrow> number \<Rightarrow> bool" where
  "less_eq_number (Num s m) (Num t n) = (val (Num s m) \<le> val (Num t n))"
| "less_eq_number (Inf s) (Inf t) = (s \<or> \<not> t)"
| "less_eq_number (Inf s) (Num _ _) = s"
| "less_eq_number (Num _ _) (Inf t) = (\<not> t)"
| "less_eq_number _ _ = False"

instance ..

end

definition math_round :: "number \<Rightarrow> number" where
  "math_round x =
     (case x of
        Num s m \<Rightarrow> (let k = \<lfloor>val x + 1 / 2\<rfloor> in
           if k = 0 then Num s 0 else Num (k < 0) \<bar>of_int k\<bar>)
      | _ \<Rightarrow> x)"

definition math_floor :: "number \<Rightarrow> number" where
  "math_floor x =
     (case x of
        Num s m \<Rightarrow> (let k = \<lfloor>val x\<rfloor> in if k = 0 then Num s 0 else Num (k < 0) \<bar>of_int k\<bar>)
      | _ \<Rightarrow> x)"

definition math_ceil :: "number \<Rightarrow> number" where
  "math_ceil x = - math_floor (- x)"

section \<open>Laws of the rounding\<close>

lemma expo_bounds:
  assumes "0 < m"
  shows "2 powi expo m \<le> m \<and> m < 2 powi (expo m + 1)"
proof -
  obtain p q where pq: "quotient_of m = (p, q)" by (cases "quotient_of m")
  have q: "0 < q" using quotient_of_denom_pos[OF pq] .
  have m: "m = of_int p / of_int q" using quotient_of_div[OF pq] .
  have p: "0 < p" using assms q unfolding m by (simp add: zero_less_divide_iff)
  define a where "a = floorlog 2 (nat p)"
  define b where "b = floorlog 2 (nat q)"
  have a: "2 ^ (a - 1) \<le> nat p" "nat p < 2 ^ a" and a0: "0 < a"
    using floorlog_bounds[of "nat p" 2] p by (auto simp: a_def floorlog_def)
  have b: "2 ^ (b - 1) \<le> nat q" "nat q < 2 ^ b" and b0: "0 < b"
    using floorlog_bounds[of "nat q" 2] q by (auto simp: b_def floorlog_def)
  have rp: "(of_int p :: rat) = of_nat (nat p)" and rq: "(of_int q :: rat) = of_nat (nat q)"
    using p q by simp_all
  have A: "2 ^ (a - 1) \<le> (of_int p :: rat)" "(of_int p :: rat) < 2 ^ a"
    using a unfolding rp by (metis of_nat_le_iff of_nat_numeral of_nat_power)
      (use a in \<open>metis of_nat_less_iff of_nat_numeral of_nat_power rp\<close>)
  have B: "2 ^ (b - 1) \<le> (of_int q :: rat)" "(of_int q :: rat) < 2 ^ b"
    using b unfolding rq by (metis of_nat_le_iff of_nat_numeral of_nat_power)
      (use b in \<open>metis of_nat_less_iff of_nat_numeral of_nat_power rq\<close>)
  define e where "e = int a - int b"
  have e1: "2 powi (e + 1) = (2 ^ a / 2 ^ (b - 1) :: rat)"
    using b0 by (cases b) (simp_all add: e_def power_int_diff power_int_add)
  have e2: "2 powi (e - 1) = (2 ^ (a - 1) / 2 ^ b :: rat)"
    using a0 by (cases a) (simp_all add: e_def power_int_diff power_int_add)
  have up: "m < 2 powi (e + 1)"
    unfolding e1 m using A B q p by (intro frac_less) auto
  have lo: "2 powi (e - 1) \<le> m"
    unfolding e2 m using A B q p by (intro frac_le) auto
  have ex: "expo m = (if 2 powi e \<le> m then e else e - 1)"
    unfolding expo_def Let_def pq by (simp add: e_def a_def b_def)
  show ?thesis using up lo ex by auto
qed

lemma rne_error: "\<bar>of_int (rne x) - x\<bar> \<le> 1 / 2"
proof -
  have "of_int \<lfloor>x\<rfloor> \<le> x" "x < of_int \<lfloor>x\<rfloor> + 1" by linarith+
  then show ?thesis by (auto simp: rne_def Let_def)
qed

lemma rne_of_int [simp]: "rne (of_int k) = k"
  by (simp add: rne_def)

lemma ulp_pos: "0 < ulp m"
  by (simp add: ulp_def)

lemma rnd_0 [simp]: "rnd 0 = 0"
  by (simp add: rnd_def)

lemma rne_nonneg: "0 \<le> x \<Longrightarrow> 0 \<le> rne x"
proof -
  assume "0 \<le> x"
  then have "0 \<le> \<lfloor>x\<rfloor>" by simp
  then show ?thesis by (auto simp: rne_def Let_def)
qed

lemma rnd_nonneg: "0 \<le> m \<Longrightarrow> 0 \<le> rnd m"
  using rne_nonneg[of "m / ulp m"] ulp_pos[of m] by (simp add: rnd_def zero_le_mult_iff)

lemma rnd_half_ulp: "\<bar>rnd m - m\<bar> \<le> ulp m / 2"
proof (cases "m = 0")
  case True
  then show ?thesis using ulp_pos[of m] by simp
next
  case False
  have "rnd m - m = (of_int (rne (m / ulp m)) - m / ulp m) * ulp m"
    using False ulp_pos[of m] by (simp add: rnd_def left_diff_distrib)
  then have "\<bar>rnd m - m\<bar> = \<bar>of_int (rne (m / ulp m)) - m / ulp m\<bar> * ulp m"
    using ulp_pos[of m] by (simp add: abs_mult)
  also have "\<dots> \<le> (1 / 2) * ulp m"
    using rne_error ulp_pos[of m] by (intro mult_right_mono) auto
  finally show ?thesis by simp
qed

lemma ulp_le:
  assumes "0 < m"
  shows "ulp m \<le> m / 2 ^ 52 + 2 powi (-1074)"
proof -
  have e: "2 powi (expo m - 52) = (2 powi expo m / 2 ^ 52 :: rat)"
    by (simp add: power_int_diff)
  have "2 powi (expo m - 52) \<le> m / 2 ^ 52"
    unfolding e using expo_bounds[OF assms] by (simp add: divide_right_mono)
  moreover have "(0::rat) < 2 powi (expo m - 52)" "(0::rat) < 2 powi (-1074)" by simp_all
  ultimately show ?thesis using assms unfolding ulp_def by (auto simp: max_def)
qed

lemma rnd_error:
  assumes "0 \<le> m"
  shows "\<bar>rnd m - m\<bar> \<le> m / 2 ^ 53 + 1 / 2 ^ 200"
proof (cases "m = 0")
  case False
  with assms have m: "0 < m" by simp
  have t: "2 powi (-1074) \<le> (1 / 2 ^ 200 :: rat)"
    by (simp add: power_int_minus divide_simps power_increasing)
  have "\<bar>rnd m - m\<bar> \<le> ulp m / 2" by (rule rnd_half_ulp)
  also have "\<dots> \<le> (m / 2 ^ 52 + 1 / 2 ^ 200) / 2"
    using ulp_le[OF m] t by simp
  also have "\<dots> \<le> m / 2 ^ 53 + 1 / 2 ^ 200" by (simp add: field_simps)
  finally show ?thesis .
qed simp

lemma powi_less_cancel:
  assumes "(2::rat) powi a < 2 powi b"
  shows "a < b"
proof (rule ccontr)
  assume "\<not> a < b"
  then have "(2::rat) powi b \<le> 2 powi a" by (intro power_int_increasing) auto
  with assms show False by simp
qed

lemma rnd_exact_lt:
  assumes k: "0 \<le> k" "k < 2 ^ 53" and j: "-1074 \<le> j" and m: "m = of_int k * 2 powi j"
  shows "rnd m = m"
proof (cases "k = 0")
  case False
  with k have k0: "0 < k" by simp
  then have m0: "0 < m" by (simp add: m)
  have "(of_int k :: rat) < 2 ^ 53" using k by (metis of_int_less_iff of_int_numeral of_int_power)
  then have "m < 2 ^ 53 * 2 powi j" by (simp add: m)
  also have "\<dots> = 2 powi (53 + j)" by (simp add: power_int_add)
  finally have "2 powi expo m < (2 powi (53 + j) :: rat)" using expo_bounds[OF m0] by simp
  then have "expo m < 53 + j" by (rule powi_less_cancel)
  then have le: "max (expo m - 52) (-1074) \<le> j" using j by simp
  define t where "t = max (expo m - 52) (-1074)"
  define d where "d = nat (j - t)"
  have d: "j = t + int d" using le by (simp add: d_def t_def)
  have u: "ulp m = 2 powi t" by (simp add: ulp_def t_def)
  have "m / 2 powi t = of_int (k * 2 ^ d)"
    unfolding m d by (simp add: power_int_add)
  then have q: "m / ulp m = of_int (k * 2 ^ d)" by (simp add: u)
  then have "rnd m = (m / ulp m) * ulp m"
    using m0 unfolding rnd_def q rne_of_int by simp
  then show ?thesis using ulp_pos[of m] by simp
qed (simp add: m)

lemma rnd_exact:
  assumes k: "0 \<le> k" "k \<le> 2 ^ 53" and j: "-1074 \<le> j"
  shows "rnd (of_int k * 2 powi j) = of_int k * 2 powi j"
proof (cases "k = 2 ^ 53")
  case True
  have e: "(of_int k * 2 powi j :: rat) = of_int 1 * 2 powi (53 + j)"
    by (simp add: True power_int_add)
  show ?thesis unfolding e by (rule rnd_exact_lt[where k = 1 and j = "53 + j"]) (use j in auto)
next
  case False
  then show ?thesis using k j by (intro rnd_exact_lt[OF _ _ _ refl]) auto
qed

lemma rnd_of_int: "0 \<le> k \<Longrightarrow> k \<le> 2 ^ 53 \<Longrightarrow> rnd (of_int k) = of_int k"
  using rnd_exact[of k 0] by simp

lemma rne_le: "x \<le> of_int k \<Longrightarrow> rne x \<le> k"
  by (auto simp: rne_def Let_def le_floor_iff floor_le_iff)

lemma rnd_idem:
  assumes "0 \<le> m"
  shows "rnd (rnd m) = rnd m"
proof (cases "m = 0")
  case False
  with assms have m: "0 < m" by simp
  define t where "t = max (expo m - 52) (-1074)"
  have u: "ulp m = 2 powi t" by (simp add: ulp_def t_def)
  have "m / ulp m \<le> 2 ^ 53"
  proof -
    have "m < 2 powi (expo m + 1)" using expo_bounds[OF m] by simp
    also have "\<dots> \<le> 2 powi (53 + t)" by (intro power_int_increasing) (auto simp: t_def)
    also have "\<dots> = 2 ^ 53 * ulp m" by (simp add: u power_int_add)
    finally show ?thesis using ulp_pos[of m] by (simp add: divide_le_eq)
  qed
  then have "rne (m / ulp m) \<le> 2 ^ 53" by (intro rne_le) simp
  moreover have "0 \<le> rne (m / ulp m)" using m ulp_pos[of m] by (intro rne_nonneg) simp
  ultimately show ?thesis using rnd_exact[of "rne (m / ulp m)" t] False
    by (simp add: rnd_def u t_def)
qed simp

lemma fl_0 [simp]: "fl 0 = 0"
  by (simp add: fl_def)

lemma fl_minus: "fl (- r) = - fl r"
  by (simp add: fl_def)

lemma fl_nonneg: "0 \<le> r \<Longrightarrow> 0 \<le> fl r"
  by (simp add: fl_def rnd_nonneg)

lemma fl_nonpos: "r \<le> 0 \<Longrightarrow> fl r \<le> 0"
  using fl_nonneg[of "- r"] by (simp add: fl_minus)

lemma fl_error: "\<bar>fl r - r\<bar> \<le> \<bar>r\<bar> / 2 ^ 53 + 1 / 2 ^ 200"
  using rnd_error[of "- r"] rnd_error[of r] by (auto simp: fl_def)

lemma fl_of_int: "\<bar>k\<bar> \<le> 2 ^ 53 \<Longrightarrow> fl (of_int k) = of_int k"
  using rnd_of_int[of k] rnd_of_int[of "- k"] by (auto simp: fl_def)

lemma fl_idem: "fl (fl r) = fl r"
proof (cases "r < 0")
  case True
  have "0 \<le> rnd (- r)" using True by (intro rnd_nonneg) simp
  then show ?thesis using True rnd_idem[of "- r"] by (auto simp: fl_def)
next
  case False
  have "0 \<le> rnd r" using False by (intro rnd_nonneg) simp
  then show ?thesis using False rnd_idem[of r] by (auto simp: fl_def)
qed

section \<open>Finite doubles and their values\<close>

text \<open>
  \<open>isn x v\<close> says that \<open>x\<close> is a finite double of value \<open>v\<close>. The rules of the collection
  \<open>isn\<close> compute with it: an operation on finite doubles is finite, and its value is the rounded
  exact result, as long as that result is far from overflow.
\<close>

definition isn :: "number \<Rightarrow> rat \<Rightarrow> bool" where
  "isn x v \<longleftrightarrow> (\<exists>s m. x = Num s m \<and> 0 \<le> m \<and> v = (if s then - m else m))"

lemma isn_E:
  assumes "isn x v"
  obtains s m where "x = Num s m" "0 \<le> m" "v = (if s then - m else m)"
  using assms by (auto simp: isn_def)

lemma isn_Num: "0 \<le> m \<Longrightarrow> isn (Num s m) (if s then - m else m)"
  by (auto simp: isn_def)

lemma isn_val: "isn x v \<Longrightarrow> val x = v"
  by (auto simp: isn_def)

lemma isn_finite: "isn x v \<Longrightarrow> isFinite x"
  by (auto simp: isn_def)

lemma isn_unique: "isn x v \<Longrightarrow> isn x w \<Longrightarrow> v = w"
  by (metis isn_val)

lemma rnd_small: "0 \<le> m \<Longrightarrow> m \<le> 2 ^ 200 \<Longrightarrow> rnd m < 2 ^ 1024"
proof -
  assume m: "0 \<le> m" "m \<le> 2 ^ 200"
  have "rnd m \<le> m + (m / 2 ^ 53 + 1 / 2 ^ 200)" using rnd_error[OF m(1)] by linarith
  also have "\<dots> \<le> 2 ^ 200 + (2 ^ 200 + 1)" using m by (simp add: field_simps)
  also have "\<dots> \<le> 2 ^ 202" by simp
  also have "\<dots> < (2 ^ 1024 :: rat)" by (rule power_strict_increasing) auto
  finally show ?thesis .
qed

lemma mk_isn:
  assumes "0 \<le> m" "m \<le> 2 ^ 200"
  shows "isn (mk s m) (if s then - rnd m else rnd m)"
  using rnd_small[OF assms] rnd_nonneg[OF assms(1)]
  by (simp add: mk_def Let_def isn_Num del: power_numeral)

lemma if_neg_0 [simp]: "(if s then - 0 else (0::rat)) = 0"
  by simp

lemma mk_fl: "\<bar>r\<bar> \<le> 2 ^ 200 \<Longrightarrow> isn (mk (r < 0) \<bar>r\<bar>) (fl r)"
  using mk_isn[of "\<bar>r\<bar>" "r < 0"] by (auto simp: fl_def abs_if split: if_splits)

lemma mk_sign:
  assumes "s = (r < 0) \<or> r = 0" "\<bar>r\<bar> \<le> 2 ^ 200"
  shows "isn (mk s \<bar>r\<bar>) (fl r)"
proof (cases "r = 0")
  case True
  have "isn (mk s 0) (if s then - rnd 0 else rnd 0)" by (rule mk_isn) simp_all
  then have "isn (mk s 0) 0" unfolding rnd_0 if_neg_0 .
  then show ?thesis using True by simp
next
  case False
  then show ?thesis using assms mk_fl[OF assms(2)] by simp
qed

lemma js_isn:
  assumes "\<bar>r\<bar> \<le> 2 ^ 200"
  shows "isn (js r) (fl r)"
  unfolding js_def using assms by (rule mk_fl)

lemma isn_uminus:
  assumes "isn x a"
  shows "isn (- x) (- a)"
proof -
  obtain s m where x: "x = Num s m" "0 \<le> m" "a = (if s then - m else m)"
    using assms by (rule isn_E)
  show ?thesis using isn_Num[of m "\<not> s"] x by (cases s) simp_all
qed

lemma isn_plus:
  assumes "isn x a" "isn y b" "\<bar>a + b\<bar> \<le> 2 ^ 200"
  shows "isn (x + y) (fl (a + b))"
proof -
  obtain s m where x: "x = Num s m" and a: "val x = a" using assms(1) by (auto simp: isn_def)
  obtain t n where y: "y = Num t n" and b: "val y = b" using assms(2) by (auto simp: isn_def)
  have "x + y = (if a + b = 0 then Num (s \<and> t) 0 else mk (a + b < 0) \<bar>a + b\<bar>)"
    unfolding a[symmetric] b[symmetric] unfolding x y by (simp only: plus_number.simps Let_def)
  then show ?thesis using mk_fl[OF assms(3)] by (simp add: isn_def[of "Num _ 0"])
qed

lemma isn_minus:
  assumes "isn x a" "isn y b" "\<bar>a - b\<bar> \<le> 2 ^ 200"
  shows "isn (x - y) (fl (a - b))"
  using isn_plus[OF assms(1) isn_uminus[OF assms(2)]] assms(3) by (simp add: minus_number_def)

lemma isn_times:
  assumes "isn x a" "isn y b" "\<bar>a * b\<bar> \<le> 2 ^ 200"
  shows "isn (x * y) (fl (a * b))"
proof -
  obtain s m where x: "x = Num s m" "0 \<le> m" "a = (if s then - m else m)"
    using assms(1) by (rule isn_E)
  obtain t n where y: "y = Num t n" "0 \<le> n" "b = (if t then - n else n)"
    using assms(2) by (rule isn_E)
  have ab: "\<bar>a * b\<bar> = m * n" using x y by (auto simp: abs_mult)
  have "(s \<noteq> t) = (a * b < 0) \<or> a * b = 0"
    using x y by (auto simp: mult_less_0_iff)
  then have "isn (mk (s \<noteq> t) \<bar>a * b\<bar>) (fl (a * b))" using assms(3) by (rule mk_sign)
  then show ?thesis by (simp add: x y(1) ab[symmetric] ab)
qed

lemma isn_divide:
  assumes "isn x a" "isn y b" "b \<noteq> 0" "\<bar>a / b\<bar> \<le> 2 ^ 200"
  shows "isn (x / y) (fl (a / b))"
proof -
  obtain s m where x: "x = Num s m" "0 \<le> m" "a = (if s then - m else m)"
    using assms(1) by (rule isn_E)
  obtain t n where y: "y = Num t n" "0 \<le> n" "b = (if t then - n else n)"
    using assms(2) by (rule isn_E)
  have n: "n \<noteq> 0" using assms(3) y(3) by (metis if_neg_0)
  have ab: "\<bar>a / b\<bar> = m / n" using x y by (auto simp: abs_divide)
  have "(s \<noteq> t) = (a / b < 0) \<or> a / b = 0"
    using x y n by (auto simp: divide_less_0_iff)
  then have "isn (mk (s \<noteq> t) \<bar>a / b\<bar>) (fl (a / b))" using assms(4) by (rule mk_sign)
  then show ?thesis using n unfolding ab by (simp add: x(1) y(1))
qed

lemma isn_math_round:
  assumes "isn x a"
  shows "isn (math_round x) (of_int \<lfloor>a + 1 / 2\<rfloor>)"
proof -
  obtain s m where x: "x = Num s m" "0 \<le> m" "a = (if s then - m else m)"
    using assms by (rule isn_E)
  show ?thesis using x by (auto simp: math_round_def Let_def isn_def)
qed

lemma isn_less: "isn x a \<Longrightarrow> isn y b \<Longrightarrow> x < y \<longleftrightarrow> a < b"
  by (elim isn_E) auto

lemma isn_less_eq: "isn x a \<Longrightarrow> isn y b \<Longrightarrow> x \<le> y \<longleftrightarrow> a \<le> b"
  by (elim isn_E) auto

lemma isn_math_floor:
  assumes "isn x a"
  shows "isn (math_floor x) (of_int \<lfloor>a\<rfloor>)"
proof -
  obtain s m where x: "x = Num s m" "0 \<le> m" "a = (if s then - m else m)"
    using assms by (rule isn_E)
  show ?thesis using x by (auto simp: math_floor_def Let_def isn_def)
qed

section \<open>Evaluating a rounding\<close>

text \<open>
  \<open>rnd\<close> on a concrete magnitude: the significand \<open>k\<close> and the exponent \<open>t\<close> are given, and the rule
  checks that \<open>k * 2 powi t\<close> is the nearest double.
\<close>

lemma isn_math_ceil: "isn x a \<Longrightarrow> isn (math_ceil x) (of_int \<lceil>a\<rceil>)"
  using isn_uminus[OF isn_math_floor[OF isn_uminus]] by (simp add: math_ceil_def ceiling_def)

lemma expo_unique:
  assumes "0 < m" "2 powi e \<le> m" "m < 2 powi (e + 1)"
  shows "expo m = e"
proof -
  have "2 powi expo m < (2 powi (e + 1) :: rat)" "2 powi e < (2 powi (expo m + 1) :: rat)"
    using expo_bounds[OF assms(1)] assms(2,3) by auto
  then show ?thesis using powi_less_cancel[of "expo m" "e + 1"] powi_less_cancel[of e "expo m + 1"] by simp
qed

lemma rne_unique: "\<bar>x - of_int k\<bar> < 1 / 2 \<Longrightarrow> rne x = k"
  using rne_error[of x] by linarith

lemma rnd_eqI:
  assumes "2 ^ 52 < k" "k < 2 ^ 53" "-1074 \<le> t" and d: "\<bar>m - of_int k * 2 powi t\<bar> < 2 powi t / 2"
  shows "rnd m = of_int k * 2 powi t"
proof -
  define u where "u = (2 powi t :: rat)"
  have u: "0 < u" by (simp add: u_def)
  have "(4503599627370497 :: rat) \<le> of_int k" "(of_int k :: rat) \<le> 9007199254740991"
    using assms(1,2) by simp_all
  then have "4503599627370497 * u \<le> of_int k * u" "of_int k * u \<le> 9007199254740991 * u"
    using u by (simp_all only: mult_right_mono less_imp_le)
  moreover have "of_int k * u - u / 2 < m" "m < of_int k * u + u / 2"
    using d unfolding u_def[symmetric] by linarith+
  ultimately have "4503599627370496 * u \<le> m" "m < 9007199254740992 * u"
    using u by linarith+
  then have b: "2 ^ 52 * u \<le> m" "m < 2 ^ 53 * u" by simp_all
  have "2 ^ 52 * u = 2 powi (t + 52)" "2 ^ 53 * u = 2 powi (t + 52 + 1)"
    by (simp_all add: u_def power_int_add)
  then have "expo m = t + 52" using b u by (intro expo_unique) auto
  then have ul: "ulp m = u" using assms(3) by (simp add: ulp_def u_def)
  have "\<bar>m / u - of_int k\<bar> < 1 / 2"
  proof -
    have "m / u - of_int k = (m - of_int k * u) / u" using u by (simp add: diff_divide_distrib)
    then show ?thesis using d u unfolding u_def[symmetric] by (simp add: abs_divide divide_less_eq)
  qed
  then have "rne (m / u) = k" by (rule rne_unique)
  moreover have "m \<noteq> 0" using b u by (metis less_le_not_le mult_pos_pos zero_less_numeral zero_less_power)
  ultimately show ?thesis by (simp add: rnd_def ul) (simp add: u_def)
qed

end
