(* ===== verification/Centavo.thy ===== *)
theory Centavo
  imports JsNumber
begin

text \<open>
  Money. The services keep amounts with two decimals: \<open>numeric(_, 2)\<close> columns in the database,
  doubles in the code, joined by \<open>Number(column)\<close> (\<open>num2\<close>) and \<open>String(value)\<close> (\<open>col2\<close>, through the
  shortest decimal that reads back as the same double). \<open>amt x k\<close> says that the double \<open>x\<close> stands
  for \<open>k\<close> hundredths. The locale \<open>rounding\<close> states the two laws of binary64 the error analysis
  needs, a relative error of \<open>2 ^ -53\<close> and exact small integers; its lemmas show that sums,
  differences and products followed by \<open>cents\<close> give the exact result in hundredths, within bounds
  far above any amount of the business (\<open>2 ^ 44\<close> hundredths for one operation, 4096 terms and
  \<open>2 ^ 36\<close> hundredths for a running sum). It is interpreted on \<open>fl\<close>, the rounding of \<open>JsNumber\<close>.
\<close>

section \<open>The interface of a rounded arithmetic\<close>

locale rounding =
  fixes rd :: "rat \<Rightarrow> rat"
  assumes rd_err: "\<bar>rd r - r\<bar> \<le> \<bar>r\<bar> / 2 ^ 53 + 1 / 2 ^ 200"
    and rd_int: "\<bar>k\<bar> \<le> 2 ^ 53 \<Longrightarrow> rd (of_int k) = of_int k"
begin

lemma of_int_abs_le: "\<bar>k\<bar> \<le> 2 ^ n \<Longrightarrow> \<bar>of_int k :: rat\<bar> \<le> 2 ^ n"
  by (metis of_int_abs of_int_le_iff of_int_numeral of_int_power)

definition cv :: "int \<Rightarrow> rat" where "cv k = rd (of_int k / 100)"

definition roundv :: "rat \<Rightarrow> int" where
  "roundv v = \<lfloor>rd (rd (v + 1 / 2 ^ 52) * 100) + 1 / 2\<rfloor>"

lemma rd_bound:
  assumes "\<bar>r\<bar> \<le> b"
  shows "\<bar>rd r - r\<bar> \<le> b / 2 ^ 53 + 1 / 2 ^ 200"
proof -
  have "\<bar>r\<bar> / 2 ^ 53 \<le> b / 2 ^ 53" using assms by (intro divide_right_mono) auto
  then show ?thesis using rd_err[of r] by linarith
qed

lemma absD: "\<bar>x\<bar> \<le> b \<Longrightarrow> - b \<le> x" "\<bar>x\<bar> \<le> b \<Longrightarrow> x \<le> b" for x b :: rat
  by linarith+

lemma int_bounds: "\<bar>k\<bar> \<le> 2 ^ 37 \<Longrightarrow> - 137438953472 \<le> (of_int k :: rat)" "\<bar>k\<bar> \<le> 2 ^ 37 \<Longrightarrow> (of_int k :: rat) \<le> 137438953472"
  using of_int_abs_le[of k 37] by (auto simp: abs_le_iff)

lemma cv_err:
  assumes "\<bar>k\<bar> \<le> 2 ^ 45"
  shows "\<bar>cv k - of_int k / 100\<bar> \<le> 1 / 16384"
proof -
  have "\<bar>of_int k / 100 :: rat\<bar> \<le> 2 ^ 45 / 100" using of_int_abs_le[OF assms] by simp
  from rd_bound[OF this] show ?thesis unfolding cv_def by simp
qed

lemma roundv_near:
  assumes k: "\<bar>k\<bar> \<le> 2 ^ 45" and v: "\<bar>v - of_int k / 100\<bar> \<le> 1 / 400"
  shows "roundv v = k"
proof -
  have "\<bar>of_int k :: rat\<bar> \<le> 35184372088832" using of_int_abs_le[OF k] by simp
  note kb = absD[OF this] and vb = absD[OF v]
  define e where "e = (1 / 2 ^ 52 :: rat)"
  have e: "0 < e" "e < 1 / 8192" by (simp_all add: e_def)
  define w where "w = rd (v + e)"
  have "\<bar>v + e\<bar> \<le> 549755813888" by (rule abs_leI) (use kb vb e in linarith)+
  from rd_bound[OF this] have "\<bar>w - (v + e)\<bar> \<le> 1 / 8192" unfolding w_def by simp
  note w = absD[OF this]
  have "\<bar>w * 100\<bar> \<le> 70368744177664" by (rule abs_leI) (use kb vb e w in linarith)+
  from rd_bound[OF this] have "\<bar>rd (w * 100) - w * 100\<bar> \<le> 1 / 64" by simp
  note z = absD[OF this]
  have "\<lfloor>rd (w * 100) + 1 / 2\<rfloor> = k"
    unfolding floor_eq_iff by (intro conjI) (use z w vb e in linarith)+
  then show ?thesis by (simp add: roundv_def w_def e_def)
qed

lemma cv_mono_strict:
  assumes "a < b" "\<bar>a\<bar> \<le> 2 ^ 45" "\<bar>b\<bar> \<le> 2 ^ 45"
  shows "cv a < cv b"
proof -
  have "(of_int (a + 1) :: rat) \<le> of_int b" using assms(1) by (simp only: of_int_le_iff)
  then have "of_int a / 100 + 1 / 100 \<le> (of_int b / 100 :: rat)" by simp
  with absD[OF cv_err[OF assms(2)]] absD[OF cv_err[OF assms(3)]] show ?thesis by linarith
qed

lemma cv_less_iff: "\<bar>a\<bar> \<le> 2 ^ 45 \<Longrightarrow> \<bar>b\<bar> \<le> 2 ^ 45 \<Longrightarrow> cv a < cv b \<longleftrightarrow> a < b"
  using cv_mono_strict[of a b] cv_mono_strict[of b a] by (cases a b rule: linorder_cases) auto

lemma cv_sum_near:
  assumes "\<bar>a\<bar> \<le> 2 ^ 44" "\<bar>b\<bar> \<le> 2 ^ 44" and c: "c = - 1 \<or> c = (1 :: int)"
  shows "\<bar>rd (cv a + of_int c * cv b) - of_int (a + c * b) / 100\<bar> \<le> 1 / 400"
proof -
  have "\<bar>of_int a :: rat\<bar> \<le> 17592186044416" "\<bar>of_int b :: rat\<bar> \<le> 17592186044416"
    using of_int_abs_le[OF assms(1)] of_int_abs_le[OF assms(2)] by simp_all
  note ab = absD[OF this(1)] absD[OF this(2)]
  have "\<bar>a\<bar> \<le> 2 ^ 45" "\<bar>b\<bar> \<le> 2 ^ 45" using assms by simp_all
  note e = absD[OF cv_err[OF this(1)]] absD[OF cv_err[OF this(2)]]
  have "\<bar>cv a + of_int c * cv b\<bar> \<le> 549755813888"
    by (rule abs_leI) (use ab e c in \<open>auto\<close>)
  from rd_bound[OF this]
  have "\<bar>rd (cv a + of_int c * cv b) - (cv a + of_int c * cv b)\<bar> \<le> 1 / 8192" by simp
  note r = absD[OF this]
  show ?thesis by (rule abs_leI) (use r e c in \<open>auto simp: field_simps\<close>)
qed

text \<open>A decimal of at most two places that rounds to the double of \<open>k\<close> hundredths is \<open>k\<close> hundredths.\<close>

lemma cv_decimal_unique:
  assumes k: "\<bar>k\<bar> \<le> 2 ^ 45" and j: "\<bar>j\<bar> \<le> 2 ^ 45" and e: "cv j = cv k"
  shows "j = k"
  using cv_less_iff[OF j k] cv_less_iff[OF k j] e by auto

text \<open>Left-to-right sums, rounded after every addition.\<close>

lemma fold_step:
  assumes k: "0 \<le> k" "0 \<le> k0" "k0 + k \<le> 2 ^ 36"
    and s: "\<bar>s - of_int k0 / 100\<bar> \<le> e" and e: "e \<le> 1"
  shows "\<bar>rd (s + cv k) - of_int (k0 + k) / 100\<bar> \<le> e + 1 / 4194304"
proof -
  have "\<bar>k\<bar> \<le> 2 ^ 36" "\<bar>k0\<bar> \<le> 2 ^ 36" using k by auto
  from of_int_abs_le[OF this(1)] of_int_abs_le[OF this(2)]
  have kr: "\<bar>of_int k :: rat\<bar> \<le> 68719476736" "\<bar>of_int k0 :: rat\<bar> \<le> 68719476736" by simp_all
  note kk = absD[OF kr(1)] absD[OF kr(2)] absD[OF s]
  have "\<bar>of_int k / 100 :: rat\<bar> \<le> 2 ^ 36 / 100" using kr by simp
  from rd_bound[OF this] have "\<bar>cv k - of_int k / 100\<bar> \<le> 1 / 12000000" unfolding cv_def by simp
  note ck = absD[OF this]
  have "\<bar>s + cv k\<bar> \<le> 1374389600" by (rule abs_leI) (use ck kk e in linarith)+
  from rd_bound[OF this] have "\<bar>rd (s + cv k) - (s + cv k)\<bar> \<le> 1 / 6500000" by simp
  note r = absD[OF this]
  show ?thesis by (rule abs_leI) (use r ck kk in \<open>auto simp: add_divide_distrib\<close>)
qed

lemma fold_err:
  assumes "\<And>k. k \<in> set ks \<Longrightarrow> 0 \<le> k" "0 \<le> k0" "k0 + sum_list ks \<le> 2 ^ 36"
    and "\<bar>s - of_int k0 / 100\<bar> \<le> of_nat i * (1 / 4194304)" "i + length ks \<le> 4096"
  shows "\<bar>foldl (\<lambda>s k. rd (s + cv k)) s ks - of_int (k0 + sum_list ks) / 100\<bar>
    \<le> of_nat (i + length ks) * (1 / 4194304)"
  using assms
proof (induction ks arbitrary: s k0 i)
  case (Cons k ks)
  have k0: "0 \<le> k" and ks: "\<And>x. x \<in> set ks \<Longrightarrow> 0 \<le> x" using Cons.prems(1) by auto
  then have sl: "0 \<le> sum_list ks" by (simp add: sum_list_nonneg)
  have "(of_nat i :: rat) \<le> 4096"
    using Cons.prems(5) by (metis add_leE of_nat_le_iff of_nat_numeral)
  then have "of_nat i * (1 / 4194304) \<le> (1::rat)" by simp
  with Cons.prems k0 sl have step: "\<bar>rd (s + cv k) - of_int (k0 + k) / 100\<bar> \<le> of_nat i * (1 / 4194304) + 1 / 4194304"
    by (intro fold_step) auto
  then have "\<bar>rd (s + cv k) - of_int (k0 + k) / 100\<bar> \<le> of_nat (Suc i) * (1 / 4194304)"
    by (simp add: algebra_simps)
  from Cons.IH[OF ks _ _ this] k0 Cons.prems(2,3,5)
  show ?case by (simp add: add.assoc)
qed simp

lemma sum_near:
  assumes "\<And>k. k \<in> set ks \<Longrightarrow> 0 \<le> k" "sum_list ks \<le> 2 ^ 36" "length ks \<le> 4096"
  shows "\<bar>foldl (\<lambda>s k. rd (s + cv k)) 0 ks - of_int (sum_list ks) / 100\<bar> \<le> 1 / 1000"
proof -
  have "(of_nat (length ks) :: rat) \<le> 4096" using assms(3) by (metis of_nat_le_iff of_nat_numeral)
  then show ?thesis using fold_err[of ks 0 0 0] assms by simp
qed

lemma add_near:
  assumes "\<bar>s - of_int a / 100\<bar> \<le> 1 / 1000" "\<bar>t - of_int b / 100\<bar> \<le> 1 / 1000" "\<bar>a\<bar> \<le> 2 ^ 37" "\<bar>b\<bar> \<le> 2 ^ 37"
  shows "\<bar>rd (s + t) - of_int (a + b) / 100\<bar> \<le> 1 / 400" "\<bar>s + t\<bar> \<le> 3000000000"
proof -
  note ab = int_bounds[OF assms(3)] int_bounds[OF assms(4)] absD[OF assms(1)] absD[OF assms(2)]
  show st: "\<bar>s + t\<bar> \<le> 3000000000" by (rule abs_leI) (use ab in linarith)+
  from rd_bound[OF this] have "\<bar>rd (s + t) - (s + t)\<bar> \<le> 1 / 2000000" by simp
  note r = absD[OF this]
  show "\<bar>rd (s + t) - of_int (a + b) / 100\<bar> \<le> 1 / 400"
    by (rule abs_leI) (use r ab in \<open>auto simp: add_divide_distrib\<close>)
qed

lemma cv_near_small:
  assumes "\<bar>k\<bar> \<le> 2 ^ 37"
  shows "\<bar>cv k - of_int k / 100\<bar> \<le> 1 / 4000"
proof -
  have "\<bar>of_int k / 100 :: rat\<bar> \<le> 2 ^ 37 / 100" using of_int_abs_le[OF assms] by simp
  from rd_bound[OF this] show ?thesis unfolding cv_def by simp
qed

lemma cv_pair_near:
  assumes "\<bar>a\<bar> \<le> 2 ^ 35" "\<bar>b\<bar> \<le> 2 ^ 35"
  shows "\<bar>rd (cv a + cv b) - of_int (a + b) / 100\<bar> \<le> 1 / 1000" "\<bar>cv a + cv b\<bar> \<le> 3000000000"
proof -
  have "\<bar>a\<bar> \<le> 2 ^ 37" "\<bar>b\<bar> \<le> 2 ^ 37" using assms by auto
  note n = absD[OF cv_near_small[OF this(1)]] absD[OF cv_near_small[OF this(2)]]
    int_bounds[OF this(1)] int_bounds[OF this(2)]
  show st: "\<bar>cv a + cv b\<bar> \<le> 3000000000" by (rule abs_leI) (use n in linarith)+
  from rd_bound[OF this] have "\<bar>rd (cv a + cv b) - (cv a + cv b)\<bar> \<le> 1 / 2000000" by simp
  note r = absD[OF this]
  show "\<bar>rd (cv a + cv b) - of_int (a + b) / 100\<bar> \<le> 1 / 1000"
    by (rule abs_leI) (use r n in \<open>auto simp: add_divide_distrib\<close>)
qed

text \<open>A product of two quantities in hundredths, rounded to hundredths.\<close>

lemma mul_near:
  assumes "\<bar>a\<bar> \<le> 2 ^ 20" "\<bar>b\<bar> \<le> 2 ^ 30"
  shows "\<bar>rd (cv a * cv b) - of_int (a * b) / 10000\<bar> \<le> 1 / 18000 \<and>
    \<bar>rd (cv a * cv b)\<bar> \<le> 112594583000"
proof -
  have "\<bar>of_int a :: rat\<bar> \<le> 2 ^ 20" "\<bar>of_int b :: rat\<bar> \<le> 2 ^ 30"
    using of_int_abs_le[OF assms(1)] of_int_abs_le[OF assms(2)] .
  then have ab: "\<bar>of_int a / 100 :: rat\<bar> \<le> 10486" "\<bar>of_int b / 100 :: rat\<bar> \<le> 10737419" by simp_all
  define x y where "x = (of_int a / 100 :: rat)" and "y = (of_int b / 100 :: rat)"
  define d e where "d = cv a - x" and "e = cv b - y"
  have x: "\<bar>x\<bar> \<le> 10486" and y: "\<bar>y\<bar> \<le> 10737419" using ab by (simp_all add: x_def y_def)
  have d: "\<bar>d\<bar> \<le> 1 / 2 ^ 39" and e: "\<bar>e\<bar> \<le> 1 / 2 ^ 29"
    using rd_bound[OF x] rd_bound[OF y] by (simp_all add: d_def e_def cv_def x_def y_def)
  have "cv a * cv b - x * y = x * e + d * y + d * e" by (simp add: d_def e_def algebra_simps)
  moreover have "\<bar>x * e\<bar> \<le> 10486 * (1 / 2 ^ 29)" "\<bar>d * y\<bar> \<le> (1 / 2 ^ 39) * 10737419"
    "\<bar>d * e\<bar> \<le> (1 / 2 ^ 39) * (1 / 2 ^ 29)"
    unfolding abs_mult using x y d e by (intro mult_mono; simp)+
  ultimately have p: "\<bar>cv a * cv b - x * y\<bar> \<le> 1 / 25000"
    by (intro abs_leI) (auto simp: abs_le_iff)
  have xy: "\<bar>x * y\<bar> \<le> 10486 * 10737419" unfolding abs_mult using x y by (intro mult_mono) auto
  note pb = absD[OF p] absD[OF xy]
  have "\<bar>cv a * cv b\<bar> \<le> 112592575640" by (rule abs_leI) (use pb in linarith)+
  from rd_bound[OF this] have "\<bar>rd (cv a * cv b) - cv a * cv b\<bar> \<le> 1 / 79000" by simp
  note r = absD[OF this]
  have xy2: "of_int (a * b) / 10000 = x * y" by (simp add: x_def y_def)
  show ?thesis unfolding xy2
    by (intro conjI abs_leI) (use r pb in linarith)+
qed

lemma roundv_gap:
  assumes v: "\<bar>v - q\<bar> \<le> 1 / 18000" and vb: "\<bar>v\<bar> \<le> 112594583000"
    and q: "of_int k - 49 / 100 \<le> q * 100" "q * 100 \<le> of_int k + 49 / 100"
  shows "roundv v = k"
proof -
  define e where "e = (1 / 2 ^ 52 :: rat)"
  have e: "0 < e" "e < 1 / 1000000" by (simp_all add: e_def)
  define w where "w = rd (v + e)"
  have "\<bar>v + e\<bar> \<le> 112594583001" by (rule abs_leI) (use absD[OF vb] e in linarith)+
  from rd_bound[OF this] have "\<bar>w - (v + e)\<bar> \<le> 1 / 79000" unfolding w_def by simp
  note w = absD[OF this]
  have "\<bar>w * 100\<bar> \<le> 11259458300200" by (rule abs_leI) (use absD[OF vb] e w in linarith)+
  from rd_bound[OF this] have "\<bar>rd (w * 100) - w * 100\<bar> \<le> 1 / 790" by simp
  note z = absD[OF this]
  have "\<lfloor>rd (w * 100) + 1 / 2\<rfloor> = k"
    unfolding floor_eq_iff by (intro conjI) (use z w absD[OF v] e q in linarith)+
  then show ?thesis by (simp add: roundv_def w_def e_def)
qed

lemma mul_round:
  assumes "\<bar>a\<bar> \<le> 2 ^ 20" "\<bar>b\<bar> \<le> 2 ^ 30" "a * b mod 100 \<noteq> 50"
  shows "roundv (rd (cv a * cv b)) = (a * b + 50) div 100"
proof -
  define k where "k = (a * b + 50) div 100"
  define t where "t = (a * b + 50) mod 100"
  have n: "a * b = 100 * k + t - 50" by (simp add: k_def t_def)
  have "(a * b) mod 100 = (t + 50) mod 100" unfolding t_def by (simp add: mod_simps)
  then have "t \<noteq> 0" using assms(3) by auto
  moreover have "0 \<le> t" "t < 100" unfolding t_def by simp_all
  ultimately have t: "1 \<le> t" "t \<le> 99" by simp_all
  then have tr: "(1::rat) \<le> of_int t" "(of_int t :: rat) \<le> 99" by simp_all
  have ab: "(of_int (a * b) :: rat) = 100 * of_int k + of_int t - 50" unfolding n by simp
  have m: "\<bar>rd (cv a * cv b) - of_int (a * b) / 10000\<bar> \<le> 1 / 18000"
    "\<bar>rd (cv a * cv b)\<bar> \<le> 112594583000" using mul_near[OF assms(1,2)] by blast+
  show ?thesis unfolding k_def[symmetric]
    by (rule roundv_gap[OF m]; unfold ab; use tr in simp)
qed

text \<open>Whole months and left-over days, each at its own rate, for a number of machines.\<close>

definition mix :: "int \<Rightarrow> int \<Rightarrow> int \<Rightarrow> int \<Rightarrow> int \<Rightarrow> rat" where
  "mix q m r n s = rd (rd (rd (of_int m * cv r) + rd (of_int n * cv s)) * of_int q)"

lemma term_near:
  assumes "0 \<le> m" "m \<le> 2 ^ 36" "0 \<le> r" "m * r \<le> 2 ^ 36"
  shows "\<bar>rd (of_int m * cv r) - of_int (m * r) / 100\<bar> \<le> 1 / 4000000" "\<bar>of_int m * cv r\<bar> \<le> 2 ^ 30"
proof -
  define M R where "M = (of_int m :: rat)" and "R = (of_int r / 100 :: rat)"
  have M: "0 \<le> M" "M \<le> 2 ^ 36" and R: "0 \<le> R" using assms by (simp_all add: M_def R_def of_int_le_numeral_power_cancel_iff)
  have MR: "M * R = of_int (m * r) / 100" by (simp add: M_def R_def)
  have "(of_int (m * r) :: rat) \<le> of_int (2 ^ 36)" using assms(4) by (simp only: of_int_le_iff)
  then have "M * R \<le> 687194768" by (simp add: MR)
  with M R have MRb: "M * R \<le> 687194768" "0 \<le> M * R" by simp_all
  have "\<bar>cv r - R\<bar> \<le> R / 2 ^ 53 + 1 / 2 ^ 200"
    using rd_err[of R] R by (simp add: cv_def R_def)
  then have "M * \<bar>cv r - R\<bar> \<le> M * (R / 2 ^ 53 + 1 / 2 ^ 200)" using M by (intro mult_left_mono)
  also have "\<dots> = M * R / 2 ^ 53 + M / 2 ^ 200" by (simp add: distrib_left)
  also have "\<dots> \<le> 687194768 / 2 ^ 53 + 2 ^ 36 / 2 ^ 200" using M MRb by (intro add_mono divide_right_mono) auto
  finally have "\<bar>M * cv r - M * R\<bar> \<le> 1 / 10000000" using M by (simp add: abs_mult flip: right_diff_distrib)
  note p = absD[OF this]
  show b: "\<bar>of_int m * cv r\<bar> \<le> 2 ^ 30" unfolding M_def[symmetric] by (rule abs_leI) (use p MRb in simp_all)
  have "\<bar>M * cv r\<bar> \<le> 687194769" by (rule abs_leI) (use p MRb in linarith)+
  from rd_bound[OF this] have "\<bar>rd (M * cv r) - M * cv r\<bar> \<le> 1 / 10000000" by simp
  note q = absD[OF this]
  show "\<bar>rd (of_int m * cv r) - of_int (m * r) / 100\<bar> \<le> 1 / 4000000"
    unfolding MR[symmetric] M_def[symmetric] by (rule abs_leI) (use p q in linarith)+
qed

lemma mix_near:
  assumes "0 \<le> m" "m \<le> 2 ^ 36" "0 \<le> n" "n \<le> 2 ^ 36" "0 \<le> r" "0 \<le> s" "1 \<le> q" "q \<le> 1000"
    and "q * (m * r + n * s) \<le> 2 ^ 36"
  shows "\<bar>mix q m r n s - of_int (q * (m * r + n * s)) / 100\<bar> \<le> 1 / 400"
    "\<bar>rd (of_int m * cv r) + rd (of_int n * cv s)\<bar> \<le> 2 ^ 32"
    "\<bar>rd (rd (of_int m * cv r) + rd (of_int n * cv s)) * of_int q\<bar> \<le> 2 ^ 43"
proof -
  let ?V = "m * r + n * s"
  have nn: "0 \<le> m * r" "0 \<le> n * s" using assms by simp_all
  have V: "?V \<le> q * ?V" using assms(7) nn by (simp add: mult_le_cancel_right1)
  then have mr: "m * r \<le> 2 ^ 36" "n * s \<le> 2 ^ 36" "?V \<le> 2 ^ 36" using nn assms(9) by linarith+
  note t1 = absD[OF term_near(1)[OF assms(1,2,5) mr(1)]] and t2 = absD[OF term_near(1)[OF assms(3,4,6) mr(2)]]
  define W where "W = (of_int ?V :: rat)"
  have Vr: "0 \<le> W" "W \<le> 68719476736"
    unfolding W_def using nn mr(3) by (simp_all only: of_int_0_le_iff of_int_le_numeral_iff) simp
  define x where "x = rd (of_int m * cv r) + rd (of_int n * cv s)"
  have x: "\<bar>x - W / 100\<bar> \<le> 1 / 2000000"
    unfolding x_def by (rule abs_leI) (use t1 t2 in \<open>simp_all add: W_def add_divide_distrib\<close>)
  note xb = absD[OF x]
  have xx: "\<bar>x\<bar> \<le> 687194769" by (rule abs_leI) (use xb Vr in linarith)+
  then show "\<bar>rd (of_int m * cv r) + rd (of_int n * cv s)\<bar> \<le> 2 ^ 32" unfolding x_def[symmetric] by simp
  from rd_bound[OF xx] have "\<bar>rd x - x\<bar> \<le> 1 / 10000000" by simp
  note r = absD[OF this]
  define Q where "Q = (of_int q :: rat)"
  have Q: "1 \<le> Q" "Q \<le> 1000" using assms(7,8) by (simp_all add: Q_def)
  have "\<bar>rd x - W / 100\<bar> \<le> 1 / 1000000" by (rule abs_leI) (use r xb in linarith)+
  then have "\<bar>rd x - W / 100\<bar> * Q \<le> 1 / 1000000 * 1000" using Q by (intro mult_mono) auto
  then have "\<bar>(rd x - W / 100) * Q\<bar> \<le> 1 / 1000" using Q by (simp add: abs_mult)
  then have "\<bar>rd x * Q - W / 100 * Q\<bar> \<le> 1 / 1000" by (simp only: left_diff_distrib)
  moreover have VQ: "W / 100 * Q = of_int (q * ?V) / 100" by (simp add: Q_def W_def)
  ultimately have z: "\<bar>rd x * Q - of_int (q * ?V) / 100\<bar> \<le> 1 / 1000" by simp
  note zb = absD[OF z]
  have qV: "0 \<le> (of_int (q * ?V) :: rat)" "(of_int (q * ?V) :: rat) \<le> 68719476736"
    using nn assms(7,9) by (simp_all only: of_int_0_le_iff of_int_le_numeral_iff) simp_all
  have "\<bar>rd x * Q\<bar> \<le> 687194769" by (rule abs_leI) (use zb qV in linarith)+
  then show "\<bar>rd (rd (of_int m * cv r) + rd (of_int n * cv s)) * of_int q\<bar> \<le> 2 ^ 43"
    unfolding x_def[symmetric] Q_def[symmetric] by simp
  from rd_bound[OF \<open>\<bar>rd x * Q\<bar> \<le> 687194769\<close>] have "\<bar>rd (rd x * Q) - rd x * Q\<bar> \<le> 1 / 10000000" by simp
  note w = absD[OF this]
  show "\<bar>mix q m r n s - of_int (q * ?V) / 100\<bar> \<le> 1 / 400"
    unfolding mix_def x_def[symmetric] Q_def[symmetric] by (rule abs_leI) (use w zb in linarith)+
qed

end

interpretation dbl: rounding fl
  by unfold_locales (use fl_error fl_of_int in auto)

section \<open>Writing a number to a numeric column\<close>

definition dec_ok :: "rat \<Rightarrow> nat \<Rightarrow> int \<Rightarrow> bool" where
  "dec_ok x p s \<longleftrightarrow> fl (of_int s / 10 ^ p) = x"

definition decimal :: "rat \<Rightarrow> rat" where
  "decimal x =
     (case find (\<lambda>p. dec_ok x p \<lfloor>x * 10 ^ p\<rfloor> \<or> dec_ok x p (\<lfloor>x * 10 ^ p\<rfloor> + 1)) [0..<342] of
        None \<Rightarrow> x
      | Some p \<Rightarrow>
          (let s = \<lfloor>x * 10 ^ p\<rfloor>;
               s' = (if \<not> dec_ok x p s then s + 1
                     else if \<not> dec_ok x p (s + 1) then s
                     else if x * 10 ^ p - of_int s \<le> 1 / 2 then s else s + 1)
           in of_int s' / 10 ^ p))"

definition half_away :: "rat \<Rightarrow> int" where
  "half_away y = (if y < 0 then - \<lfloor>- y + 1 / 2\<rfloor> else \<lfloor>y + 1 / 2\<rfloor>)"

definition col2 :: "number \<Rightarrow> int" where
  "col2 x = half_away (decimal (val x) * 100)"

text \<open>The same for a column of \<open>p\<close> decimals.\<close>

definition cold :: "nat \<Rightarrow> number \<Rightarrow> int" where
  "cold p x = half_away (decimal (val x) * 10 ^ p)"

definition num2 :: "int \<Rightarrow> number" where
  "num2 k = js (of_int k / 100)"

definition numd :: "nat \<Rightarrow> int \<Rightarrow> number" where
  "numd p k = js (of_int k / 10 ^ p)"

lemma half_away_of_int [simp]: "half_away (of_int k) = k"
proof -
  have "\<lfloor>of_int k + 1 / 2 :: rat\<rfloor> = k" "\<lfloor>- of_int k + 1 / 2 :: rat\<rfloor> = - k" for k :: int
    by (simp_all add: floor_eq_iff)
  then show ?thesis by (simp add: half_away_def)
qed

lemma dec_ok_unique:
  assumes k: "\<bar>k\<bar> \<le> 2 ^ 44" and p: "p \<le> 2" and s: "s = \<lfloor>dbl.cv k * 10 ^ p\<rfloor> + d" "d = 0 \<or> d = 1"
    and ok: "dec_ok (dbl.cv k) p s"
  shows "of_int s / 10 ^ p = (of_int k / 100 :: rat)"
proof -
  have k45: "\<bar>k\<bar> \<le> 2 ^ 45" using k by simp
  have kb: "\<bar>of_int k :: rat\<bar> \<le> 17592186044416" using dbl.of_int_abs_le[OF k] by simp
  note e = dbl.absD[OF dbl.cv_err[OF k45]] dbl.absD[OF kb]
  have P: "p = 0 \<or> p = 1 \<or> p = 2" using p by auto
  define j where "j = s * 10 ^ (2 - p)"
  have j: "of_int s / 10 ^ p = (of_int j / 100 :: rat)" using P by (auto simp: j_def)
  have "of_int s \<le> dbl.cv k * 10 ^ p + 1" "dbl.cv k * 10 ^ p - 1 \<le> of_int s"
    unfolding s(1) using s(2) by (auto simp: floor_le_iff) linarith+
  then have "\<bar>of_int s\<bar> \<le> (17592186044416 / 100 + 2) * (10 :: rat) ^ p"
    by (intro abs_leI) (use e P in auto)
  then have "\<bar>of_int j\<bar> \<le> (17592186044616 :: rat)" using P by (auto simp: j_def)
  then have "\<bar>j\<bar> \<le> 2 ^ 45" by simp
  moreover have "dbl.cv j = dbl.cv k" using ok unfolding dec_ok_def j by (simp add: dbl.cv_def)
  ultimately have "j = k" using dbl.cv_decimal_unique[OF k45] by blast
  then show ?thesis using j by simp
qed

lemma dec_ok_exists:
  assumes k: "\<bar>k\<bar> \<le> 2 ^ 44"
  shows "dec_ok (dbl.cv k) 2 \<lfloor>dbl.cv k * 10 ^ 2\<rfloor> \<or> dec_ok (dbl.cv k) 2 (\<lfloor>dbl.cv k * 10 ^ 2\<rfloor> + 1)"
proof -
  have k45: "\<bar>k\<bar> \<le> 2 ^ 45" using k by simp
  have "\<lfloor>dbl.cv k * 10 ^ 2\<rfloor> = k \<or> \<lfloor>dbl.cv k * 10 ^ 2\<rfloor> = k - 1"
    using dbl.absD[OF dbl.cv_err[OF k45]] by (auto simp: floor_eq_iff)
  then show ?thesis by (auto simp: dec_ok_def dbl.cv_def)
qed

lemma find_le_2:
  assumes "P 2"
  shows "\<exists>p. find P [0..<342] = Some p \<and> p \<le> (2::nat) \<and> P p"
proof -
  have ls: "[0..<342] = 0 # 1 # 2 # [3..<342]" by (simp add: upt_rec)
  show ?thesis unfolding ls using assms by auto
qed

lemma decimal_cv:
  assumes k: "\<bar>k\<bar> \<le> 2 ^ 44"
  shows "decimal (dbl.cv k) = of_int k / 100"
proof -
  let ?x = "dbl.cv k"
  let ?P = "\<lambda>p. dec_ok ?x p \<lfloor>?x * 10 ^ p\<rfloor> \<or> dec_ok ?x p (\<lfloor>?x * 10 ^ p\<rfloor> + 1)"
  have P2: "?P 2" by (rule dec_ok_exists[OF k])
  obtain p where p: "find ?P [0..<342] = Some p" "p \<le> 2" "?P p"
    using find_le_2[of ?P, OF P2] by blast
  have u: "dec_ok ?x p (\<lfloor>?x * 10 ^ p\<rfloor> + d) \<Longrightarrow> d = 0 \<or> d = 1 \<Longrightarrow>
      of_int (\<lfloor>?x * 10 ^ p\<rfloor> + d) / 10 ^ p = (of_int k / 100 :: rat)" for d
    by (rule dec_ok_unique[OF k p(2) refl])
  show ?thesis unfolding decimal_def p(1) option.case Let_def
    using u[of 0] u[of 1] p(3) by auto
qed


section \<open>Amounts: doubles that stand for a whole number of hundredths\<close>

definition EPSILON :: number where
  "EPSILON = Num False (1 / 2 ^ 52)"

definition cents :: "number \<Rightarrow> number" where
  "cents v = math_round ((v + EPSILON) * js 100) / js 100"

fun math_max :: "number \<Rightarrow> number \<Rightarrow> number" where
  "math_max NaN _ = NaN"
| "math_max _ NaN = NaN"
| "math_max x y = (if x < y then y else if y < x then x else if y = Num False 0 then y else x)"

fun math_min :: "number \<Rightarrow> number \<Rightarrow> number" where
  "math_min NaN _ = NaN"
| "math_min _ NaN = NaN"
| "math_min x y = (if x < y then x else if y < x then y else if y = Num True 0 then y else x)"

fun math_abs :: "number \<Rightarrow> number" where
  "math_abs (Num _ m) = Num False m"
| "math_abs (Inf _) = Inf False"
| "math_abs NaN = NaN"

definition amt :: "number \<Rightarrow> int \<Rightarrow> bool" where
  "amt x k \<longleftrightarrow> isn x (dbl.cv k)"

lemma isn_100: "isn (js 100) 100"
  using js_isn[of 100] fl_of_int[of 100] by simp

lemma isn_EPSILON: "isn EPSILON (1 / 2 ^ 52)"
  using isn_Num[of "1 / 2 ^ 52" False] by (simp add: EPSILON_def)

lemma fl_bound: "\<bar>r\<bar> \<le> b \<Longrightarrow> 1 \<le> b \<Longrightarrow> \<bar>fl r\<bar> \<le> 2 * b"
  using dbl.rd_bound[of r b] by (simp add: abs_le_iff)

lemma isn_cents:
  assumes v: "isn x v" and b: "\<bar>v\<bar> \<le> 2 ^ 50"
  shows "isn (cents x) (dbl.cv (dbl.roundv v))"
proof -
  have b1: "\<bar>v + 1 / 2 ^ 52\<bar> \<le> 2 ^ 51" using b by (simp add: abs_le_iff)
  have 1: "isn (x + EPSILON) (fl (v + 1 / 2 ^ 52))"
    by (rule isn_plus[OF v isn_EPSILON]) (use b1 in simp)
  have b2: "\<bar>fl (v + 1 / 2 ^ 52) * 100\<bar> \<le> 2 ^ 59" using fl_bound[OF b1] by simp
  have 2: "isn ((x + EPSILON) * js 100) (fl (fl (v + 1 / 2 ^ 52) * 100))"
    by (rule isn_times[OF 1 isn_100]) (use b2 in simp)
  have b3: "\<bar>fl (fl (v + 1 / 2 ^ 52) * 100)\<bar> \<le> 2 ^ 60" using fl_bound[OF b2] by simp
  have 3: "isn (math_round ((x + EPSILON) * js 100)) (of_int (dbl.roundv v))"
    using isn_math_round[OF 2] by (simp add: dbl.roundv_def)
  have "\<bar>of_int (dbl.roundv v) :: rat\<bar> \<le> 2 ^ 60 + 1"
    unfolding dbl.roundv_def using b3 by (intro abs_leI; simp add: abs_le_iff; linarith)
  then have "\<bar>of_int (dbl.roundv v) / 100 :: rat\<bar> \<le> 2 ^ 200" by simp
  from isn_divide[OF 3 isn_100 _ this] show ?thesis
    by (simp add: cents_def dbl.cv_def)
qed

lemma amt_cents_near:
  assumes "isn x v" "\<bar>v - of_int k / 100\<bar> \<le> 1 / 400" "\<bar>k\<bar> \<le> 2 ^ 45"
  shows "amt (cents x) k"
proof -
  have "\<bar>of_int k :: rat\<bar> \<le> 35184372088832" using dbl.of_int_abs_le[OF assms(3)] by simp
  then have "\<bar>v\<bar> \<le> 2 ^ 50" using dbl.absD[OF assms(2)] by (simp add: abs_le_iff)
  from isn_cents[OF assms(1) this] show ?thesis
    using dbl.roundv_near[OF assms(3,2)] by (simp add: amt_def)
qed

lemma cv_bound: "\<bar>k\<bar> \<le> 2 ^ 45 \<Longrightarrow> \<bar>dbl.cv k\<bar> \<le> 351843720889"
  using dbl.absD[OF dbl.cv_err[of k]] dbl.of_int_abs_le[of k 45] by (simp add: abs_le_iff)

lemma amt_num2: "\<bar>k\<bar> \<le> 2 ^ 45 \<Longrightarrow> amt (num2 k) k"
  using dbl.of_int_abs_le[of k 45] by (simp add: amt_def num2_def dbl.cv_def js_isn)

lemma amt_zero: "amt (Num s 0) 0"
  by (simp add: amt_def isn_def dbl.cv_def)

lemma amt_cents: "amt x k \<Longrightarrow> \<bar>k\<bar> \<le> 2 ^ 45 \<Longrightarrow> amt (cents x) k"
  using dbl.cv_err[of k] by (intro amt_cents_near[of x "dbl.cv k"]) (auto simp: amt_def)

lemma amt_sub:
  assumes "amt x a" "amt y b" "\<bar>a\<bar> \<le> 2 ^ 44" "\<bar>b\<bar> \<le> 2 ^ 44"
  shows "amt (cents (x - y)) (a - b)"
proof (rule amt_cents_near)
  have "\<bar>dbl.cv a\<bar> \<le> 351843720889" "\<bar>dbl.cv b\<bar> \<le> 351843720889"
    by (intro cv_bound; use assms(3,4) in simp)+
  then have "\<bar>dbl.cv a - dbl.cv b\<bar> \<le> 2 ^ 200" by (simp add: abs_le_iff)
  with assms(1,2) show "isn (x - y) (fl (dbl.cv a - dbl.cv b))" by (simp add: amt_def isn_minus)
qed (use dbl.cv_sum_near[OF assms(3,4), of "- 1"] assms(3,4) in \<open>simp_all\<close>)

lemma amt_add:
  assumes "amt x a" "amt y b" "\<bar>a\<bar> \<le> 2 ^ 44" "\<bar>b\<bar> \<le> 2 ^ 44"
  shows "amt (cents (x + y)) (a + b)"
proof (rule amt_cents_near)
  have "\<bar>dbl.cv a\<bar> \<le> 351843720889" "\<bar>dbl.cv b\<bar> \<le> 351843720889"
    by (intro cv_bound; use assms(3,4) in simp)+
  then have "\<bar>dbl.cv a + dbl.cv b\<bar> \<le> 2 ^ 200" by (simp add: abs_le_iff)
  with assms(1,2) show "isn (x + y) (fl (dbl.cv a + dbl.cv b))" by (simp add: amt_def isn_plus)
qed (use dbl.cv_sum_near[OF assms(3,4), of 1] assms(3,4) in \<open>simp_all\<close>)

lemma amt_less: "amt x a \<Longrightarrow> amt y b \<Longrightarrow> \<bar>a\<bar> \<le> 2 ^ 45 \<Longrightarrow> \<bar>b\<bar> \<le> 2 ^ 45 \<Longrightarrow> x < y \<longleftrightarrow> a < b"
  using dbl.cv_less_iff[of a b] by (simp add: amt_def isn_less)

lemma amt_less_eq: "amt x a \<Longrightarrow> amt y b \<Longrightarrow> \<bar>a\<bar> \<le> 2 ^ 45 \<Longrightarrow> \<bar>b\<bar> \<le> 2 ^ 45 \<Longrightarrow> x \<le> y \<longleftrightarrow> a \<le> b"
  using dbl.cv_less_iff[of b a] by (simp add: amt_def isn_less_eq not_less[symmetric])

lemma amt_col2: "amt x k \<Longrightarrow> \<bar>k\<bar> \<le> 2 ^ 44 \<Longrightarrow> col2 x = k"
  using decimal_cv[of k] half_away_of_int[of k] by (simp add: amt_def isn_val col2_def)

lemma isn_math_max:
  assumes x: "isn x a" and y: "isn y b"
  shows "isn (math_max x y) (max a b)"
proof -
  obtain s m t n where e: "x = Num s m" "y = Num t n" using x y by (auto simp: isn_def)
  show ?thesis using isn_less[OF x y] isn_less[OF y x] x y
    unfolding e by (cases a b rule: linorder_cases) (simp_all add: max_def, auto)
qed

lemma max_near:
  assumes "\<bar>v - of_int k / 100\<bar> \<le> c"
  shows "\<bar>max 0 v - of_int (max 0 k) / 100\<bar> \<le> (c :: rat)"
proof -
  define z where "z = (of_int k / 100 :: rat)"
  have e: "of_int (max 0 k) / 100 = max 0 z" by (simp add: z_def max_def)
  note b = dbl.absD[OF assms[folded z_def]]
  show ?thesis unfolding e by (rule abs_leI) (use b in \<open>simp_all add: max_def\<close>)
qed

lemma amt_math_max:
  assumes x: "amt x a" and y: "amt y b" and b: "\<bar>a\<bar> \<le> 2 ^ 45" "\<bar>b\<bar> \<le> 2 ^ 45"
  shows "amt (math_max x y) (max a b)"
proof -
  obtain s m t n where e: "x = Num s m" "y = Num t n" using x y by (auto simp: amt_def isn_def)
  show ?thesis using amt_less[OF x y b] amt_less[OF y x b(2,1)] x y
    unfolding e by (auto simp: max_def amt_zero)
qed

lemma amt_math_min:
  assumes x: "amt x a" and y: "amt y b" and b: "\<bar>a\<bar> \<le> 2 ^ 45" "\<bar>b\<bar> \<le> 2 ^ 45"
  shows "amt (math_min x y) (min a b)"
proof -
  obtain s m t n where e: "x = Num s m" "y = Num t n" using x y by (auto simp: amt_def isn_def)
  show ?thesis using amt_less[OF x y b] amt_less[OF y x b(2,1)] x y
    unfolding e by (auto simp: min_def amt_zero)
qed

lemma amt_mul:
  assumes "amt x a" "amt y b" "\<bar>a\<bar> \<le> 2 ^ 20" "\<bar>b\<bar> \<le> 2 ^ 30" "a * b mod 100 \<noteq> 50"
  shows "amt (cents (x * y)) ((a * b + 50) div 100)"
proof -
  have c: "\<bar>dbl.cv a\<bar> \<le> 351843720889" "\<bar>dbl.cv b\<bar> \<le> 351843720889"
    by (intro cv_bound; use assms(3,4) in simp)+
  have "\<bar>dbl.cv a * dbl.cv b\<bar> \<le> 351843720889 * 351843720889"
    unfolding abs_mult using c by (intro mult_mono) auto
  then have 1: "isn (x * y) (fl (dbl.cv a * dbl.cv b))"
    using assms(1,2) by (auto simp: amt_def intro!: isn_times)
  from dbl.mul_near[OF assms(3,4)] have "\<bar>fl (dbl.cv a * dbl.cv b)\<bar> \<le> 2 ^ 50" by simp
  from isn_cents[OF 1 this] show ?thesis
    using dbl.mul_round[OF assms(3-5)] by (simp add: amt_def)
qed

lemma isn_sum:
  assumes "isn s v" "list_all2 amt xs ks" "\<And>k. k \<in> set ks \<Longrightarrow> 0 \<le> k" "0 \<le> k0" "k0 + sum_list ks \<le> 2 ^ 36"
    and "\<bar>v - of_int k0 / 100\<bar> \<le> of_nat i * (1 / 4194304)" "i + length ks \<le> 4096"
  shows "isn (foldl (+) s xs) (foldl (\<lambda>s k. fl (s + dbl.cv k)) v ks)"
  using assms
proof (induction ks arbitrary: s v k0 i xs)
  case (Cons k ks)
  obtain x xs' where x: "xs = x # xs'" "amt x k" "list_all2 amt xs' ks"
    using Cons.prems(2) by (cases xs) auto
  have k0: "0 \<le> k" and ks: "\<And>x. x \<in> set ks \<Longrightarrow> 0 \<le> x" using Cons.prems(3) by auto
  then have sl: "0 \<le> sum_list ks" by (simp add: sum_list_nonneg)
  with Cons.prems(4,5) k0 have kb: "\<bar>k\<bar> \<le> 2 ^ 45" "\<bar>k0\<bar> \<le> 2 ^ 45" by auto
  have "(of_nat i :: rat) \<le> 4096"
    using Cons.prems(7) by (metis add_leE of_nat_le_iff of_nat_numeral)
  then have i: "of_nat i * (1 / 4194304) \<le> (1::rat)" by simp
  have "\<bar>of_int k0 :: rat\<bar> \<le> 35184372088832" using dbl.of_int_abs_le[OF kb(2)] by simp
  note vb = dbl.absD[OF this] dbl.absD[OF Cons.prems(6)] dbl.absD[OF cv_bound[OF kb(1)]]
  have "\<bar>v + dbl.cv k\<bar> \<le> 703687441779" by (rule abs_leI) (use vb i in linarith)+
  then have 1: "isn (s + x) (fl (v + dbl.cv k))" by (intro isn_plus[OF Cons.prems(1) x(2)[unfolded amt_def]]) simp
  have "\<bar>fl (v + dbl.cv k) - of_int (k0 + k) / 100\<bar> \<le> of_nat i * (1 / 4194304) + 1 / 4194304"
    using Cons.prems(4,5,6) k0 sl i by (intro dbl.fold_step) auto
  then have "\<bar>fl (v + dbl.cv k) - of_int (k0 + k) / 100\<bar> \<le> of_nat (Suc i) * (1 / 4194304)"
    by (simp add: algebra_simps)
  from Cons.IH[OF 1 x(3) ks _ _ this] k0 Cons.prems(4,5,7)
  show ?case by (simp add: add.assoc x(1))
qed simp

lemma amt_foldl:
  assumes "list_all2 amt xs ks" "\<And>k. k \<in> set ks \<Longrightarrow> 0 \<le> k" "sum_list ks \<le> 2 ^ 36" "length ks \<le> 4096"
  obtains v where "isn (foldl (+) (js 0) xs) v" "\<bar>v - of_int (sum_list ks) / 100\<bar> \<le> 1 / 1000"
proof
  have z: "isn (js 0) 0" using js_isn[of 0] by simp
  show "isn (foldl (+) (js 0) xs) (foldl (\<lambda>s k. fl (s + dbl.cv k)) 0 ks)"
    by (rule isn_sum[OF z assms(1), of 0 0]) (use assms in auto)
  show "\<bar>foldl (\<lambda>s k. fl (s + dbl.cv k)) 0 ks - of_int (sum_list ks) / 100\<bar> \<le> 1 / 1000"
    using assms by (intro dbl.sum_near) auto
qed

lemma amt_sum:
  assumes "\<And>r. r \<in> set rows \<Longrightarrow> 0 \<le> f r" "(\<Sum>r\<leftarrow>rows. f r) \<le> 2 ^ 36" "length rows \<le> 4096"
  shows "amt (cents (foldl (\<lambda>s r. s + num2 (f r)) (js 0) rows)) (\<Sum>r\<leftarrow>rows. f r)"
proof -
  let ?ks = "map f rows"
  have e: "foldl (\<lambda>s r. s + num2 (f r)) (js 0) rows = foldl (+) (js 0) (map num2 ?ks)"
    by (simp add: foldl_map)
  have ks: "\<And>k. k \<in> set ?ks \<Longrightarrow> 0 \<le> k" using assms(1) by auto
  have nn: "0 \<le> sum_list ?ks" using ks by (rule sum_list_nonneg)
  have m: "f r \<le> 2 ^ 36" if "r \<in> set rows" for r
    using member_le_sum_list[of "f r" ?ks] that assms(2) ks by fastforce
  then have l: "list_all2 amt (map num2 ?ks) ?ks"
    using assms(1) by (force simp: list.rel_map intro!: list.rel_refl_strong amt_num2 dest: m)
  obtain v where "isn (foldl (+) (js 0) (map num2 ?ks)) v" "\<bar>v - of_int (sum_list ?ks) / 100\<bar> \<le> 1 / 1000"
    by (rule amt_foldl[OF l ks]) (use assms in auto)
  then show ?thesis unfolding e using nn assms(2) by (intro amt_cents_near) auto
qed

section \<open>Values near a whole number of hundredths\<close>

text \<open>
  A sum or difference of amounts before \<open>cents\<close> is applied to it is only near its exact value;
  \<open>near\<close> bounds the distance, and comparisons against an amount come out right off equality.
\<close>

definition near :: "number \<Rightarrow> int \<Rightarrow> rat \<Rightarrow> bool" where
  "near x k e \<longleftrightarrow> (\<exists>v. isn x v \<and> \<bar>v - of_int k / 100\<bar> \<le> e)"

lemma nearI: "isn x v \<Longrightarrow> \<bar>v - of_int k / 100\<bar> \<le> e \<Longrightarrow> near x k e"
  by (auto simp: near_def)

lemma sum_le_mult: "(\<forall>x \<in> set xs. f x \<le> c) \<Longrightarrow> (\<Sum>x\<leftarrow>xs. f x) \<le> int (length xs) * c"
  by (induction xs) (auto simp: algebra_simps)

lemma near_diff:
  assumes "near x a e" "near y b f" "\<bar>a\<bar> \<le> 2 ^ 38" "\<bar>b\<bar> \<le> 2 ^ 38" "e \<le> 1 / 100" "f \<le> 1 / 100" "c = 1 \<or> c = (- 1 :: int)"
  shows "near (if c = 1 then x + y else x - y) (a + c * b) (e + f + 1 / 100000)"
proof -
  obtain v w where v: "isn x v" "\<bar>v - of_int a / 100\<bar> \<le> e" and w: "isn y w" "\<bar>w - of_int b / 100\<bar> \<le> f"
    using assms(1,2) by (auto simp: near_def)
  have ab: "\<bar>of_int a :: rat\<bar> \<le> 274877906944" "\<bar>of_int b :: rat\<bar> \<le> 274877906944"
    using dbl.of_int_abs_le[OF assms(3)] dbl.of_int_abs_le[OF assms(4)] by simp_all
  note B = dbl.absD[OF ab(1)] dbl.absD[OF ab(2)] dbl.absD[OF v(2)] dbl.absD[OF w(2)]
  have s: "\<bar>v + of_int c * w\<bar> \<le> 5497558140"
    by (rule abs_leI) (use B assms(5-7) in auto)
  from dbl.rd_bound[OF s] have "\<bar>fl (v + of_int c * w) - (v + of_int c * w)\<bar> \<le> 1 / 100000" by simp
  note r = dbl.absD[OF this]
  have "isn (if c = 1 then x + y else x - y) (fl (v + of_int c * w))"
    using v(1) w(1) s assms(7) by (auto intro!: isn_plus isn_minus)
  moreover have "\<bar>fl (v + of_int c * w) - of_int (a + c * b) / 100\<bar> \<le> e + f + 1 / 100000"
    by (rule abs_leI) (use r B assms(7) in \<open>auto simp: field_simps\<close>)
  ultimately show ?thesis by (rule nearI)
qed

lemma near_minus:
  "near x a e \<Longrightarrow> near y b f \<Longrightarrow> \<bar>a\<bar> \<le> 2 ^ 38 \<Longrightarrow> \<bar>b\<bar> \<le> 2 ^ 38 \<Longrightarrow> e \<le> 1 / 100 \<Longrightarrow> f \<le> 1 / 100 \<Longrightarrow>
   near (x - y) (a - b) (e + f + 1 / 100000)"
  using near_diff[of x a e y b f "- 1"] by simp

lemma near_plus:
  "near x a e \<Longrightarrow> near y b f \<Longrightarrow> \<bar>a\<bar> \<le> 2 ^ 38 \<Longrightarrow> \<bar>b\<bar> \<le> 2 ^ 38 \<Longrightarrow> e \<le> 1 / 100 \<Longrightarrow> f \<le> 1 / 100 \<Longrightarrow>
   near (x + y) (a + b) (e + f + 1 / 100000)"
  using near_diff[of x a e y b f 1] by simp

lemma near_weaken: "near x k e \<Longrightarrow> e \<le> f \<Longrightarrow> near x k f"
  by (auto simp: near_def intro: order_trans)

lemma isn_math_abs: "isn x v \<Longrightarrow> isn (math_abs x) \<bar>v\<bar>"
  by (elim isn_E) (auto simp: isn_def)

lemma near_abs:
  assumes "near x k e"
  shows "near (math_abs x) \<bar>k\<bar> e"
proof -
  obtain v where v: "isn x v" "\<bar>v - of_int k / 100\<bar> \<le> e" using assms by (auto simp: near_def)
  have "isn (math_abs x) \<bar>v\<bar>" using v(1) by (rule isn_math_abs)
  moreover have "\<bar>\<bar>v\<bar> - of_int \<bar>k\<bar> / 100\<bar> \<le> e"
    using order_trans[OF abs_triangle_ineq3[of v "of_int k / 100"] v(2)] by simp
  ultimately show ?thesis by (rule nearI)
qed

lemma near_max:
  assumes "near x j e" "near y k e"
  shows "near (math_max x y) (max j k) e"
proof -
  obtain v w where v: "isn x v" "\<bar>v - of_int j / 100\<bar> \<le> e" and w: "isn y w" "\<bar>w - of_int k / 100\<bar> \<le> e"
    using assms by (auto simp: near_def)
  define J K where "J = (of_int j / 100 :: rat)" and "K = (of_int k / 100 :: rat)"
  have JK: "of_int (max j k) / 100 = max J K" by (simp add: J_def K_def max_def)
  note B = dbl.absD[OF v(2)[folded J_def]] dbl.absD[OF w(2)[folded K_def]]
  have "\<bar>max v w - of_int (max j k) / 100\<bar> \<le> e"
    unfolding JK by (rule abs_leI) (use B in \<open>simp_all add: max_def\<close>)
  with isn_math_max[OF v(1) w(1)] show ?thesis by (rule nearI)
qed

lemma near_less:
  assumes "near x k (1 / 220)" "\<bar>t\<bar> \<le> 2 ^ 37"
  shows "num2 t < x \<Longrightarrow> t \<le> k" and "t < k \<Longrightarrow> num2 t < x"
proof -
  obtain v where v: "isn x v" "\<bar>v - of_int k / 100\<bar> \<le> 1 / 220" using assms by (auto simp: near_def)
  have t: "isn (num2 t) (dbl.cv t)" using amt_num2[of t] assms(2) by (simp add: amt_def)
  note B = dbl.absD[OF v(2)] dbl.absD[OF dbl.cv_near_small[OF assms(2)]]
  { assume "num2 t < x"
    then have "dbl.cv t < v" using isn_less[OF t v(1)] by simp
    then have "(of_int t :: rat) < of_int (k + 1)" using B by simp
    then show "t \<le> k" by (simp only: of_int_less_iff zless_add1_eq le_less disj_commute) }
  { assume "t < k"
    then have "(of_int (t + 1) :: rat) \<le> of_int k" by simp
    then have "dbl.cv t < v" using B by simp
    then show "num2 t < x" using isn_less[OF t v(1)] by simp }
qed

lemma math_max_Inf: "isn x v \<Longrightarrow> math_max (Inf True) x = x"
  by (auto simp: isn_def)

lemma near_math_max_Inf: "near x k e \<Longrightarrow> math_max (Inf True) x = x"
  by (auto simp: near_def math_max_Inf)

lemma near_cents: "near x k e \<Longrightarrow> e \<le> 1 / 400 \<Longrightarrow> \<bar>k\<bar> \<le> 2 ^ 45 \<Longrightarrow> amt (cents x) k"
  by (auto simp: near_def intro: amt_cents_near order_trans)

lemma near_amt: "amt x k \<Longrightarrow> \<bar>k\<bar> \<le> 2 ^ 37 \<Longrightarrow> near x k (1 / 4000)"
  using dbl.cv_near_small[of k] by (auto simp: amt_def intro: nearI)

lemma near_sum:
  assumes "\<And>r. r \<in> set rows \<Longrightarrow> 0 \<le> f r" "(\<Sum>r\<leftarrow>rows. f r) \<le> 2 ^ 36" "length rows \<le> 4096"
  shows "near (foldl (\<lambda>s r. s + num2 (f r)) (js 0) rows) (\<Sum>r\<leftarrow>rows. f r) (1 / 1000)"
proof -
  have e: "foldl (\<lambda>s r. s + num2 (f r)) (js 0) rows = foldl (+) (js 0) (map num2 (map f rows))"
    by (simp add: foldl_map)
  have nn: "\<And>k. k \<in> set (map f rows) \<Longrightarrow> 0 \<le> k" using assms(1) by auto
  have m: "f r \<le> 2 ^ 36" if "r \<in> set rows" for r
    using member_le_sum_list[of "f r" "map f rows"] that assms(2) nn by fastforce
  have "list_all2 amt (map num2 (map f rows)) (map f rows)"
    using assms(1) by (force simp: list.rel_map intro!: list.rel_refl_strong amt_num2 dest: m)
  then obtain v where "isn (foldl (+) (js 0) (map num2 (map f rows))) v"
    "\<bar>v - of_int (sum_list (map f rows)) / 100\<bar> \<le> 1 / 1000"
    by (rule amt_foldl) (use assms nn in auto)
  then show ?thesis unfolding e by (intro nearI) auto
qed

lemma isn_int: "\<bar>k\<bar> \<le> 2 ^ 53 \<Longrightarrow> isn (js (of_int k)) (of_int k)"
  using js_isn[of "of_int k"] dbl.of_int_abs_le[of k 53] fl_of_int[of k] by simp

section \<open>A sum stored in a column\<close>

text \<open>The decimal a double is written as is close to it, so a near amount is stored exactly.\<close>

lemma decimal_back: "decimal x = x \<or> fl (decimal x) = x"
proof (cases "find (\<lambda>p. dec_ok x p \<lfloor>x * 10 ^ p\<rfloor> \<or> dec_ok x p (\<lfloor>x * 10 ^ p\<rfloor> + 1)) [0..<342]")
  case (Some p)
  then have "dec_ok x p \<lfloor>x * 10 ^ p\<rfloor> \<or> dec_ok x p (\<lfloor>x * 10 ^ p\<rfloor> + 1)" by (auto simp: find_Some_iff)
  then show ?thesis using Some by (auto simp: decimal_def Let_def dec_ok_def)
qed (simp add: decimal_def)

lemma decimal_err: "\<bar>decimal x - x\<bar> \<le> \<bar>x\<bar> / 2 ^ 50 + 1 / 2 ^ 100"
proof -
  define r where "r = decimal x"
  define e where "e = \<bar>r - x\<bar>"
  have r: "\<bar>r\<bar> \<le> \<bar>x\<bar> + e" by (simp add: e_def)
  have "e = 0 \<or> e \<le> \<bar>r\<bar> / 2 ^ 53 + 1 / 2 ^ 200"
    using decimal_back[of x] fl_error[of r] unfolding r_def[symmetric] e_def by (auto simp: abs_minus_commute)
  then have "e \<le> \<bar>x\<bar> / 2 ^ 50 + 1 / 2 ^ 100"
  proof
    assume "e = 0"
    then show ?thesis by simp
  next
    define p q where "p = \<bar>x\<bar>" and "q = \<bar>r\<bar>"
    assume "e \<le> \<bar>r\<bar> / 2 ^ 53 + 1 / 2 ^ 200"
    moreover have "0 \<le> p" "0 \<le> q" "q \<le> p + e" using r by (simp_all add: p_def q_def)
    ultimately show ?thesis unfolding p_def[symmetric] q_def[symmetric] by (simp add: field_simps)
  qed
  then show ?thesis by (simp add: e_def r_def)
qed

lemma half_away_near: "\<bar>y - of_int k\<bar> < 1 / 2 \<Longrightarrow> half_away y = k"
proof -
  assume "\<bar>y - of_int k\<bar> < 1 / 2"
  then have a: "y - of_int k < 1 / 2" "of_int k - y < 1 / 2" by linarith+
  show ?thesis
  proof (cases "y < 0")
    case True
    have "\<lfloor>- y + 1 / 2\<rfloor> = - k" using a by (intro floor_unique) (simp, linarith)+
    then show ?thesis using True by (simp add: half_away_def)
  next
    case False
    have "\<lfloor>y + 1 / 2\<rfloor> = k" using a by (intro floor_unique) auto
    then show ?thesis using False by (simp add: half_away_def)
  qed
qed

lemma near_col2:
  assumes "near x k e" "e \<le> 1 / 400" "\<bar>k\<bar> \<le> 2 ^ 45"
  shows "col2 x = k"
proof -
  obtain v where v: "val x = v" "\<bar>v - of_int k / 100\<bar> \<le> e" using assms(1) by (auto simp: near_def isn_val)
  have k: "\<bar>of_int k :: rat\<bar> \<le> 2 ^ 45" using dbl.of_int_abs_le[OF assms(3)] .
  have "\<bar>v\<bar> \<le> 2 ^ 40"
  proof (rule abs_leI)
    show "v \<le> 2 ^ 40" "- v \<le> 2 ^ 40" using v(2) k assms(2) by (auto simp: abs_le_iff)
  qed
  then have "\<bar>decimal v - v\<bar> \<le> 1 / 1000" using decimal_err[of v] by simp
  then have "\<bar>decimal v - of_int k / 100\<bar> \<le> 1 / 1000 + 1 / 400" using v(2) assms(2) by linarith
  then have "\<bar>decimal v * 100 - of_int k\<bar> < 1 / 2" by (simp add: abs_le_iff abs_less_iff field_simps)
  then show ?thesis using half_away_near v(1) by (simp add: col2_def)
qed

end
