(* ===== verification/Schema.thy ===== *)
theory Schema
  imports Prelude Centavo
begin

text \<open>
  The tables of \<open>packages/db/src/schema\<close> the services modelled here read or write, one record
  per table with the columns those services use, and the row-level security every request runs
  under (\<open>withTenantTx\<close> of \<open>packages/db/src/with-tenant-tx.ts\<close>, \<open>tenantIsolationPolicy\<close> of
  \<open>rls.ts\<close>). A uuid is a \<open>nat\<close>; a \<open>timestamptz\<close> is its milliseconds since the epoch and a
  \<open>date\<close> its day number; a \<open>numeric(p, s)\<close> column holds the integer number of \<open>10 ^ -s\<close> units
  (hundredths for money and hours), because that is the set of values the column can store. A
  text column whose values the code fixes is a datatype. Row order in a list is heap order, the
  order an unordered \<open>SELECT\<close> happens to return.
\<close>

section \<open>Enumerations and JSON columns\<close>

datatype kyc_status = KycPending | KycApproved | KycRejected
datatype kyc_doc_status = KPending | KNeedsReview | KVerified | KRejected | KSuperseded | KResubmit
datatype equipment_status = Available | Deployed | InMaintenance
datatype rental_status = RDraft | RPending | RConfirmed | RActive | RCompleted | RCancelled
datatype quotation_status = QDraft | QApproved | QSent | QAccepted | QSuperseded | QRejected
datatype assignment_status = AScheduled | AActive | ACompleted | ACancelled
datatype change_kind = Extend | CancelReq
datatype change_status = CPending | CApproved | CRejected
datatype edtr_source = PaperOcr | DigitalEntry
datatype edtr_status = Queued | Extracting | Extracted | Review | Reconciled | HardFailed
datatype recon_status = Pending | Matched | Discrepancy | Approved | Rejected
datatype invoice_type = DepositDeduction | Weekly | Booking | Deposit | Truck
datatype invoice_status = IDraft | Issued | Paid | Void
datatype payment_status = PPending | PPaid | PFailed | PRefunded
datatype truck_status = TEstimated | TKmConfirmed | TAgreed | TPaid | TCancelled
datatype truck_per = PerTrip | PerKm
datatype token_status = TokActive | TokRotated | TokRevoked

datatype weather_severity = SevNone | SevWatch | SevWarning
datatype alert_status = AlertActive | AlertCleared

datatype recon_reason = AutoAccept | LowConfidence | ToleranceExceeded | SingleSource | Unreadable

datatype jsonv =
    JId uuid
  | JNum number
  | JStr string
  | JTime time
  | JNull
  | JList "jsonv list"
  | JObj "(string \<times> jsonv) list"

record hour_deltas =
  hd_active :: number
  hd_idle :: "number option"
  hd_total :: "number option"

record adjustments =
  adj_reason :: "recon_reason option"
  adj_deltas :: "hour_deltas option"
  adj_hoursActive :: "number option"
  adj_hoursIdle :: "number option"
  adj_rejectionReason :: "string option"

record ocr_field =
  ofl_name :: string
  ofl_value :: jsonv
  ofl_confidence :: number

record ocr_payload =
  opl_model_id :: string
  opl_analyzed_at :: string
  opl_fields :: "ocr_field list"
  opl_min_field_confidence :: "number option"

text \<open>
  The JSON columns of the truck service (\<open>TruckExtra\<close>, \<open>TruckPrice\<close>): a line's label is text with
  numbers in it, kept as the text and the numbers.
\<close>

record truck_extra =
  xtr_label :: string
  xtr_amountPhp :: number
  xtr_per :: truck_per

record truck_line =
  tln_label :: "string \<times> number list"
  tln_amountPhp :: number

record truck_price =
  tpr_km :: number
  tpr_lines :: "truck_line list"
  tpr_totalPhp :: number
  tpr_lowPhp :: "number option"
  tpr_highPhp :: "number option"

text \<open>What a weather reading stored (\<open>WeatherObservation\<close>).\<close>

record observation =
  obs_tempC :: number
  obs_windKph :: number
  obs_precipMm :: number
  obs_code :: number

section \<open>Tables\<close>

record tenant =
  ten_id :: uuid
  ten_slug :: string
  ten_legalName :: string
  ten_status :: string
  ten_paymongoAccountId :: "string option"

record notification_prefs =
  prf_email :: bool
  prf_sms :: bool
  prf_inApp :: bool

record user =
  usr_id :: uuid
  usr_tenantId :: uuid
  usr_roleId :: uuid
  usr_email :: string
  usr_passwordHash :: string
  usr_status :: string
  usr_totpSecret :: "string option"
  usr_firstName :: "string option"
  usr_middleName :: "string option"
  usr_lastName :: "string option"
  usr_phone :: "string option"
  usr_address :: "string option"
  usr_avatarKey :: "string option"
  usr_notificationPrefs :: notification_prefs

record role =
  rol_id :: uuid
  rol_name :: string

record customer =
  cus_id :: uuid
  cus_tenantId :: uuid
  cus_userId :: "uuid option"
  cus_companyName :: string
  cus_tin :: "string option"
  cus_secNumber :: "string option"
  cus_billingAddress :: "string option"
  cus_kycStatus :: kyc_status
  cus_reviewComment :: "string option"
  cus_unlockedFields :: "string list"
  cus_createdAt :: time

record customer_contact =
  cct_id :: uuid
  cct_tenantId :: uuid
  cct_customerId :: uuid
  cct_contactType :: string
  cct_contactValue :: string
  cct_isPrimary :: bool

record address =
  adr_id :: uuid
  adr_tenantId :: uuid
  adr_line1 :: string
  adr_line2 :: "string option"
  adr_barangay :: "string option"
  adr_city :: string
  adr_province :: string
  adr_postalCode :: "string option"
  adr_country :: string

record kyc_document =
  kyd_id :: uuid
  kyd_tenantId :: uuid
  kyd_customerId :: uuid
  kyd_documentType :: string
  kyd_fileUri :: string
  kyd_ocrPayload :: "(string \<times> jsonv) list option"
  kyd_confidence :: "int option"
  kyd_status :: kyc_doc_status
  kyd_formatValid :: "(string \<times> bool) list option"
  kyd_portalMatchScore :: "int option"
  kyd_registryStatus :: "string option"
  kyd_createdAt :: time

record project_site =
  site_id :: uuid
  site_tenantId :: uuid
  site_addressId :: uuid
  site_customerId :: "uuid option"
  site_latitude :: int
  site_longitude :: int
  site_createdAt :: time

record timekeeper_assignment =
  tsa_id :: uuid
  tsa_tenantId :: uuid
  tsa_userId :: uuid
  tsa_projectSiteId :: uuid

record equipment_type =
  ety_id :: uuid
  ety_name :: string

record equipment =
  eqp_id :: uuid
  eqp_tenantId :: uuid
  eqp_equipmentTypeId :: uuid
  eqp_model :: string
  eqp_serialNo :: string
  eqp_availabilityStatus :: equipment_status
  eqp_runtimeHours :: int
  eqp_modelNumber :: "string option"
  eqp_yearOfManufacture :: "int option"
  eqp_weightCapacityTons :: "int option"
  eqp_engineType :: "string option"
  eqp_fuelType :: "string option"
  eqp_notes :: "string option"
  eqp_photoUri :: "string option"
  eqp_categoryNote :: "string option"
  eqp_retiredAt :: "time option"
  eqp_createdAt :: time

record rate_card =
  rc_id :: uuid
  rc_tenantId :: uuid
  rc_equipmentTypeId :: uuid
  rc_equipmentId :: "uuid option"
  rc_rateType :: string
  rc_rateValue :: int
  rc_effectiveFrom :: time
  rc_effectiveTo :: "time option"

record maintenance_window =
  mw_id :: uuid
  mw_tenantId :: uuid
  mw_equipmentId :: uuid
  mw_startsAt :: time
  mw_endsAt :: time
  mw_notes :: "string option"

record maintenance_schedule =
  msc_id :: uuid
  msc_tenantId :: uuid
  msc_equipmentId :: uuid
  msc_task :: "string option"
  msc_hoursInterval :: int
  msc_nextDue :: "int option"
  msc_createdAt :: time

record maintenance_log =
  mlg_id :: uuid
  mlg_tenantId :: uuid
  mlg_equipmentId :: uuid
  mlg_scheduleId :: "uuid option"
  mlg_performedAt :: time
  mlg_notes :: "string option"

record weather_alert =
  wal_id :: uuid
  wal_tenantId :: uuid
  wal_projectSiteId :: uuid
  wal_severity :: weather_severity
  wal_observed :: "observation option"
  wal_isStale :: bool
  wal_effectiveAt :: time
  wal_status :: alert_status

record diesel_reading =
  dpr_id :: uuid
  dpr_region :: string
  dpr_pricePhp :: int
  dpr_observedDate :: date
  dpr_source :: string

record pricing_params =
  pp_id :: uuid
  pp_tenantId :: uuid
  pp_region :: string
  pp_operatorHourlyPhp :: int
  pp_maintenanceHourlyPhp :: int
  pp_bufferPct :: int
  pp_fuelLPerHour :: int
  pp_fuelLPerKm :: int
  pp_transportPhpPerKm :: int
  pp_dieselOverridePhp :: "int option"
  pp_dieselOverrideDate :: "date option"
  pp_effectiveFrom :: time
  pp_effectiveTo :: "time option"

record billing_settings =
  bs_tenantId :: uuid
  bs_dailyHours :: int
  bs_minDepositPhp :: int
  bs_lowBalancePct :: int
  bs_depositPct :: int
  bs_mobilizationPhp :: int
  bs_demobilizationPhp :: int
  bs_minHours :: int

record rental =
  ren_id :: uuid
  ren_tenantId :: uuid
  ren_customerId :: uuid
  ren_projectSiteId :: uuid
  ren_status :: rental_status
  ren_siteContact :: "string option"
  ren_siteNotes :: "string option"
  ren_startDate :: time
  ren_endDate :: "time option"
  ren_callRequestedAt :: "time option"
  ren_callConfirmedAt :: "time option"
  ren_callConfirmedBy :: "uuid option"
  ren_createdAt :: time

record quotation =
  quo_id :: uuid
  quo_tenantId :: uuid
  quo_customerId :: uuid
  quo_rentalId :: "uuid option"
  quo_revision :: int
  quo_parentQuotationId :: "uuid option"
  quo_status :: quotation_status
  quo_dieselPriceSnapshot :: "int option"
  quo_dieselPriceReadingId :: "uuid option"
  quo_dieselPriceDate :: "date option"
  quo_dieselPriceSource :: "string option"
  quo_priceStale :: bool
  quo_pricingParamsId :: "uuid option"
  quo_discountType :: string
  quo_discountValue :: int
  quo_mobilizationPhp :: int
  quo_demobilizationPhp :: int
  quo_subtotalPhp :: "int option"
  quo_totalPhp :: "int option"
  quo_printableUrl :: "uuid option"
  quo_createdAt :: time

record quotation_item =
  qi_id :: uuid
  qi_tenantId :: uuid
  qi_quotationId :: uuid
  qi_custom :: bool
  qi_description :: "string option"
  qi_equipmentTypeId :: "uuid option"
  qi_rateCardId :: "uuid option"
  qi_quantity :: int
  qi_mobilizationKm :: int
  qi_demobilizationKm :: int
  qi_estimatedHours :: int
  qi_pricingInputs :: "(string \<times> jsonv) list"
  qi_hourlyRatePhp :: int
  qi_operatingCostPhp :: int
  qi_mobilizationCostPhp :: int
  qi_demobilizationCostPhp :: int
  qi_bufferPhp :: int
  qi_subtotalPhp :: int

record rental_contract =
  con_id :: uuid
  con_tenantId :: uuid
  con_quotationId :: uuid
  con_depositRequired :: int
  con_createdAt :: time

record equipment_assignment =
  asg_id :: uuid
  asg_tenantId :: uuid
  asg_equipmentId :: uuid
  asg_rentalId :: uuid
  asg_start :: time
  asg_end :: "time option"
  asg_status :: assignment_status
  asg_operatorUserId :: "uuid option"
  asg_bookedHours :: "int option"

record calendar =
  cal_tenantId :: uuid
  cal_openTime :: int
  cal_closeTime :: int
  cal_openDays :: "int list"
  cal_blackouts :: "date list"

record negotiation_message =
  msg_id :: uuid
  msg_tenantId :: uuid
  msg_rentalId :: "uuid option"
  msg_truckRequestId :: "uuid option"
  msg_authorUserId :: uuid
  msg_authorRole :: string
  msg_body :: string
  msg_offerPhp :: "int option"
  msg_createdAt :: time

record change_request =
  chg_id :: uuid
  chg_tenantId :: uuid
  chg_rentalId :: uuid
  chg_kind :: change_kind
  chg_requestedEnd :: "time option"
  chg_reason :: "string option"
  chg_status :: change_status
  chg_requestedBy :: uuid
  chg_resolvedBy :: "uuid option"
  chg_resolvedAt :: "time option"

text \<open>The last error of a log is a text with the numbers printed in it.\<close>

record edtr =
  edtr_id :: uuid
  edtr_tenantId :: uuid
  edtr_rentalId :: uuid
  edtr_equipmentId :: uuid
  edtr_source :: edtr_source
  edtr_reportDate :: date
  edtr_rawFileUri :: "string option"
  edtr_ocrPayload :: "ocr_payload option"
  edtr_status :: edtr_status
  edtr_attempts :: nat
  edtr_lockedAt :: "time option"
  edtr_lastError :: "(string \<times> number list) option"
  edtr_createdAt :: time

record edtr_line_item =
  eli_id :: uuid
  eli_tenantId :: uuid
  eli_edtrId :: uuid
  eli_hoursActive :: int
  eli_hoursIdle :: "int option"

record reconciliation =
  rec_id :: uuid
  rec_tenantId :: uuid
  rec_edtrId :: uuid
  rec_counterpartEdtrId :: "uuid option"
  rec_deltaHours :: "int option"
  rec_tolerance :: int
  rec_verifiedBy :: "uuid option"
  rec_adjustments :: "adjustments option"
  rec_status :: recon_status

record invoice =
  inv_id :: uuid
  inv_tenantId :: uuid
  inv_rentalId :: "uuid option"
  inv_truckRequestId :: "uuid option"
  inv_invoiceType :: invoice_type
  inv_amount :: int
  inv_status :: invoice_status
  inv_dueDate :: time
  inv_createdAt :: time

record invoice_line =
  ili_id :: uuid
  ili_tenantId :: uuid
  ili_invoiceId :: uuid
  ili_reconciliationId :: "uuid option"
  ili_quantity :: int
  ili_unitPrice :: int
  ili_amount :: int

record payment =
  pay_id :: uuid
  pay_tenantId :: uuid
  pay_invoiceId :: uuid
  pay_method :: string
  pay_recordedByUserId :: "uuid option"
  pay_amount :: int
  pay_providerRef :: "string option"
  pay_providerPaymentId :: "string option"
  pay_status :: payment_status
  pay_createdAt :: time

record accrual =
  acc_id :: uuid
  acc_tenantId :: uuid
  acc_rentalId :: uuid
  acc_reconciliationId :: uuid
  acc_hours :: int
  acc_unitPrice :: int
  acc_amount :: int
  acc_invoiceId :: "uuid option"

record truck_request =
  trk_id :: uuid
  trk_tenantId :: uuid
  trk_requestedBy :: uuid
  trk_pickup :: string
  trk_dropoff :: string
  trk_scheduledFor :: time
  trk_notes :: "string option"
  trk_estimatedKm :: int
  trk_confirmedKm :: "int option"
  trk_status :: truck_status
  trk_price :: truck_price
  trk_agreedPricePhp :: "int option"
  trk_capPhp :: "int option"
  trk_callRequestedAt :: "time option"
  trk_callConfirmedAt :: "time option"
  trk_callConfirmedBy :: "uuid option"
  trk_createdAt :: time

record truck_settings =
  tks_tenantId :: uuid
  tks_baseFeePhp :: int
  tks_driverFeePhp :: int
  tks_extras :: "truck_extra list"
  tks_formula :: "string option"
  tks_rangePct :: int
  tks_region :: string

record toll_rate =
  tol_id :: uuid
  tol_tenantId :: uuid
  tol_name :: string
  tol_feePhp :: int
  tol_expressway :: "string option"
  tol_entryPoint :: "string option"
  tol_exitPoint :: "string option"
  tol_vehicleClass :: int
  tol_asOf :: "string option"

record refresh_token =
  rtk_id :: uuid
  rtk_tenantId :: uuid
  rtk_userId :: uuid
  rtk_familyId :: uuid
  rtk_tokenHash :: string
  rtk_parentId :: "uuid option"
  rtk_status :: token_status
  rtk_expiresAt :: time
  rtk_rotatedAt :: "time option"

record notification =
  ntf_tenantId :: uuid
  ntf_userId :: uuid
  ntf_notificationType :: string
  ntf_payload :: "(string \<times> jsonv) list"

record audit_log =
  aud_tenantId :: uuid
  aud_actorId :: uuid
  aud_action :: string
  aud_entity :: string
  aud_entityId :: uuid
  aud_reason :: "jsonv option"

section \<open>The database and row-level security\<close>

record db =
  tenants :: "tenant list"
  users :: "user list"
  roles :: "role list"
  customers :: "customer list"
  customerContacts :: "customer_contact list"
  addresses :: "address list"
  kycDocuments :: "kyc_document list"
  projectSites :: "project_site list"
  timekeeperSiteAssignments :: "timekeeper_assignment list"
  equipmentTypes :: "equipment_type list"
  equipments :: "equipment list"
  rateCards :: "rate_card list"
  maintenanceWindows :: "maintenance_window list"
  maintenanceSchedules :: "maintenance_schedule list"
  maintenanceLogs :: "maintenance_log list"
  dieselPriceReadings :: "diesel_reading list"
  pricingParameters :: "pricing_params list"
  billingSettings :: "billing_settings list"
  rentals :: "rental list"
  quotations :: "quotation list"
  quotationItems :: "quotation_item list"
  rentalContracts :: "rental_contract list"
  equipmentAssignments :: "equipment_assignment list"
  tenantCalendars :: "calendar list"
  negotiationMessages :: "negotiation_message list"
  bookingChangeRequests :: "change_request list"
  edtrs :: "edtr list"
  edtrLineItems :: "edtr_line_item list"
  edtrReconciliations :: "reconciliation list"
  invoices :: "invoice list"
  invoiceLineItems :: "invoice_line list"
  payments :: "payment list"
  depositAccruals :: "accrual list"
  truckRequests :: "truck_request list"
  truckSettings :: "truck_settings list"
  tollRates :: "toll_rate list"
  weatherAlerts :: "weather_alert list"
  refreshTokens :: "refresh_token list"
  notifications :: "notification list"
  auditLogs :: "audit_log list"
  nextId :: uuid

text \<open>
  The rows a tenant sees, and the rows hidden from it; a tenant row is its own row of \<open>tenants\<close>.
\<close>

definition rls :: "uuid \<Rightarrow> db \<Rightarrow> db" where
  "rls t d = d\<lparr>
    tenants := filter (\<lambda>r. ten_id r = t) (tenants d),
    users := filter (\<lambda>r. usr_tenantId r = t) (users d),
    customers := filter (\<lambda>r. cus_tenantId r = t) (customers d),
    customerContacts := filter (\<lambda>r. cct_tenantId r = t) (customerContacts d),
    addresses := filter (\<lambda>r. adr_tenantId r = t) (addresses d),
    kycDocuments := filter (\<lambda>r. kyd_tenantId r = t) (kycDocuments d),
    projectSites := filter (\<lambda>r. site_tenantId r = t) (projectSites d),
    timekeeperSiteAssignments := filter (\<lambda>r. tsa_tenantId r = t) (timekeeperSiteAssignments d),
    equipments := filter (\<lambda>r. eqp_tenantId r = t) (equipments d),
    rateCards := filter (\<lambda>r. rc_tenantId r = t) (rateCards d),
    maintenanceWindows := filter (\<lambda>r. mw_tenantId r = t) (maintenanceWindows d),
    maintenanceSchedules := filter (\<lambda>r. msc_tenantId r = t) (maintenanceSchedules d),
    maintenanceLogs := filter (\<lambda>r. mlg_tenantId r = t) (maintenanceLogs d),
    pricingParameters := filter (\<lambda>r. pp_tenantId r = t) (pricingParameters d),
    billingSettings := filter (\<lambda>r. bs_tenantId r = t) (billingSettings d),
    rentals := filter (\<lambda>r. ren_tenantId r = t) (rentals d),
    quotations := filter (\<lambda>r. quo_tenantId r = t) (quotations d),
    quotationItems := filter (\<lambda>r. qi_tenantId r = t) (quotationItems d),
    rentalContracts := filter (\<lambda>r. con_tenantId r = t) (rentalContracts d),
    equipmentAssignments := filter (\<lambda>r. asg_tenantId r = t) (equipmentAssignments d),
    tenantCalendars := filter (\<lambda>r. cal_tenantId r = t) (tenantCalendars d),
    negotiationMessages := filter (\<lambda>r. msg_tenantId r = t) (negotiationMessages d),
    bookingChangeRequests := filter (\<lambda>r. chg_tenantId r = t) (bookingChangeRequests d),
    edtrs := filter (\<lambda>r. edtr_tenantId r = t) (edtrs d),
    edtrLineItems := filter (\<lambda>r. eli_tenantId r = t) (edtrLineItems d),
    edtrReconciliations := filter (\<lambda>r. rec_tenantId r = t) (edtrReconciliations d),
    invoices := filter (\<lambda>r. inv_tenantId r = t) (invoices d),
    invoiceLineItems := filter (\<lambda>r. ili_tenantId r = t) (invoiceLineItems d),
    payments := filter (\<lambda>r. pay_tenantId r = t) (payments d),
    depositAccruals := filter (\<lambda>r. acc_tenantId r = t) (depositAccruals d),
    truckRequests := filter (\<lambda>r. trk_tenantId r = t) (truckRequests d),
    truckSettings := filter (\<lambda>r. tks_tenantId r = t) (truckSettings d),
    tollRates := filter (\<lambda>r. tol_tenantId r = t) (tollRates d),
    weatherAlerts := filter (\<lambda>r. wal_tenantId r = t) (weatherAlerts d),
    refreshTokens := filter (\<lambda>r. rtk_tenantId r = t) (refreshTokens d),
    notifications := filter (\<lambda>r. ntf_tenantId r = t) (notifications d),
    auditLogs := filter (\<lambda>r. aud_tenantId r = t) (auditLogs d)\<rparr>"

definition hidden :: "uuid \<Rightarrow> db \<Rightarrow> db" where
  "hidden t d = d\<lparr>
    tenants := filter (\<lambda>r. ten_id r \<noteq> t) (tenants d),
    users := filter (\<lambda>r. usr_tenantId r \<noteq> t) (users d),
    customers := filter (\<lambda>r. cus_tenantId r \<noteq> t) (customers d),
    customerContacts := filter (\<lambda>r. cct_tenantId r \<noteq> t) (customerContacts d),
    addresses := filter (\<lambda>r. adr_tenantId r \<noteq> t) (addresses d),
    kycDocuments := filter (\<lambda>r. kyd_tenantId r \<noteq> t) (kycDocuments d),
    projectSites := filter (\<lambda>r. site_tenantId r \<noteq> t) (projectSites d),
    timekeeperSiteAssignments := filter (\<lambda>r. tsa_tenantId r \<noteq> t) (timekeeperSiteAssignments d),
    equipments := filter (\<lambda>r. eqp_tenantId r \<noteq> t) (equipments d),
    rateCards := filter (\<lambda>r. rc_tenantId r \<noteq> t) (rateCards d),
    maintenanceWindows := filter (\<lambda>r. mw_tenantId r \<noteq> t) (maintenanceWindows d),
    maintenanceSchedules := filter (\<lambda>r. msc_tenantId r \<noteq> t) (maintenanceSchedules d),
    maintenanceLogs := filter (\<lambda>r. mlg_tenantId r \<noteq> t) (maintenanceLogs d),
    pricingParameters := filter (\<lambda>r. pp_tenantId r \<noteq> t) (pricingParameters d),
    billingSettings := filter (\<lambda>r. bs_tenantId r \<noteq> t) (billingSettings d),
    rentals := filter (\<lambda>r. ren_tenantId r \<noteq> t) (rentals d),
    quotations := filter (\<lambda>r. quo_tenantId r \<noteq> t) (quotations d),
    quotationItems := filter (\<lambda>r. qi_tenantId r \<noteq> t) (quotationItems d),
    rentalContracts := filter (\<lambda>r. con_tenantId r \<noteq> t) (rentalContracts d),
    equipmentAssignments := filter (\<lambda>r. asg_tenantId r \<noteq> t) (equipmentAssignments d),
    tenantCalendars := filter (\<lambda>r. cal_tenantId r \<noteq> t) (tenantCalendars d),
    negotiationMessages := filter (\<lambda>r. msg_tenantId r \<noteq> t) (negotiationMessages d),
    bookingChangeRequests := filter (\<lambda>r. chg_tenantId r \<noteq> t) (bookingChangeRequests d),
    edtrs := filter (\<lambda>r. edtr_tenantId r \<noteq> t) (edtrs d),
    edtrLineItems := filter (\<lambda>r. eli_tenantId r \<noteq> t) (edtrLineItems d),
    edtrReconciliations := filter (\<lambda>r. rec_tenantId r \<noteq> t) (edtrReconciliations d),
    invoices := filter (\<lambda>r. inv_tenantId r \<noteq> t) (invoices d),
    invoiceLineItems := filter (\<lambda>r. ili_tenantId r \<noteq> t) (invoiceLineItems d),
    payments := filter (\<lambda>r. pay_tenantId r \<noteq> t) (payments d),
    depositAccruals := filter (\<lambda>r. acc_tenantId r \<noteq> t) (depositAccruals d),
    truckRequests := filter (\<lambda>r. trk_tenantId r \<noteq> t) (truckRequests d),
    truckSettings := filter (\<lambda>r. tks_tenantId r \<noteq> t) (truckSettings d),
    tollRates := filter (\<lambda>r. tol_tenantId r \<noteq> t) (tollRates d),
    weatherAlerts := filter (\<lambda>r. wal_tenantId r \<noteq> t) (weatherAlerts d),
    refreshTokens := filter (\<lambda>r. rtk_tenantId r \<noteq> t) (refreshTokens d),
    notifications := filter (\<lambda>r. ntf_tenantId r \<noteq> t) (notifications d),
    auditLogs := filter (\<lambda>r. aud_tenantId r \<noteq> t) (auditLogs d)\<rparr>"

definition merge :: "db \<Rightarrow> db \<Rightarrow> db" where
  "merge h v = v\<lparr>
    tenants := tenants h @ tenants v,
    users := users h @ users v,
    customers := customers h @ customers v,
    customerContacts := customerContacts h @ customerContacts v,
    addresses := addresses h @ addresses v,
    kycDocuments := kycDocuments h @ kycDocuments v,
    projectSites := projectSites h @ projectSites v,
    timekeeperSiteAssignments := timekeeperSiteAssignments h @ timekeeperSiteAssignments v,
    equipments := equipments h @ equipments v,
    rateCards := rateCards h @ rateCards v,
    maintenanceWindows := maintenanceWindows h @ maintenanceWindows v,
    maintenanceSchedules := maintenanceSchedules h @ maintenanceSchedules v,
    maintenanceLogs := maintenanceLogs h @ maintenanceLogs v,
    pricingParameters := pricingParameters h @ pricingParameters v,
    billingSettings := billingSettings h @ billingSettings v,
    rentals := rentals h @ rentals v,
    quotations := quotations h @ quotations v,
    quotationItems := quotationItems h @ quotationItems v,
    rentalContracts := rentalContracts h @ rentalContracts v,
    equipmentAssignments := equipmentAssignments h @ equipmentAssignments v,
    tenantCalendars := tenantCalendars h @ tenantCalendars v,
    negotiationMessages := negotiationMessages h @ negotiationMessages v,
    bookingChangeRequests := bookingChangeRequests h @ bookingChangeRequests v,
    edtrs := edtrs h @ edtrs v,
    edtrLineItems := edtrLineItems h @ edtrLineItems v,
    edtrReconciliations := edtrReconciliations h @ edtrReconciliations v,
    invoices := invoices h @ invoices v,
    invoiceLineItems := invoiceLineItems h @ invoiceLineItems v,
    payments := payments h @ payments v,
    depositAccruals := depositAccruals h @ depositAccruals v,
    truckRequests := truckRequests h @ truckRequests v,
    truckSettings := truckSettings h @ truckSettings v,
    tollRates := tollRates h @ tollRates v,
    weatherAlerts := weatherAlerts h @ weatherAlerts v,
    refreshTokens := refreshTokens h @ refreshTokens v,
    notifications := notifications h @ notifications v,
    auditLogs := auditLogs h @ auditLogs v\<rparr>"

record ctx =
  ctx_tenantId :: uuid
  ctx_userId :: uuid
  ctx_role :: string

record world =
  data :: db
  events :: "(uuid \<times> string) list"

text \<open>
  \<open>withTenantTx\<close>: the body runs over the rows the policy's USING clause lets through; the
  transaction commits only if every row of the new view satisfies the WITH CHECK clause, and an
  error rolls the tables back. The events the body emitted are already committed by then.
\<close>

definition withTenantTx :: "ctx \<Rightarrow> (db, 'a) body \<Rightarrow> world \<Rightarrow> (http_error + 'a) \<times> world" where
  "withTenantTx c body w =
     (let t = ctx_tenantId c;
          (es, res) = body (rls t (data w));
          w1 = w\<lparr>events := events w @ map (Pair t) es\<rparr>
      in case res of
           Inl e \<Rightarrow> (Inl e, w1)
         | Inr (a, v) \<Rightarrow>
             (if rls t v = v then (Inr a, w1\<lparr>data := merge (hidden t (data w)) v\<rparr>)
              else (Inl (Internal ''row_level_security''), w1)))"

text \<open>A fresh primary key (\<open>defaultRandom\<close>), and a key no row uses yet.\<close>

definition fresh :: "db \<Rightarrow> db" where
  "fresh d = d\<lparr>nextId := Suc (nextId d)\<rparr>"

definition audit :: "ctx \<Rightarrow> string \<Rightarrow> string \<Rightarrow> uuid \<Rightarrow> db \<Rightarrow> db" where
  "audit c action entity eid d =
     d\<lparr>auditLogs := auditLogs d @
        [\<lparr>aud_tenantId = ctx_tenantId c, aud_actorId = ctx_userId c, aud_action = action,
          aud_entity = entity, aud_entityId = eid, aud_reason = None\<rparr>]\<rparr>"

section \<open>Isolation\<close>

lemma filter_none: "u \<noteq> t \<Longrightarrow> filter (\<lambda>r. f r = t \<and> f r = u) xs = []"
  by (induction xs) auto

lemma filter_hidden: "u \<noteq> t \<Longrightarrow> filter (\<lambda>r. f r \<noteq> t \<and> f r = u) xs = filter (\<lambda>r. f r = u) xs"
  by (induction xs) auto

lemma filter_hidden_self: "filter (\<lambda>r. f r \<noteq> t \<and> f r = t) xs = []"
  by (induction xs) auto

lemma rls_idem [simp]: "rls t (rls t d) = rls t d"
  by (simp add: rls_def)


text \<open>What of a database belongs to a tenant: its own rows of every tenant-owned table.\<close>

definition ownRows :: "uuid \<Rightarrow> db \<Rightarrow> db" where
  "ownRows u d = (rls u d)\<lparr>nextId := 0, roles := [], equipmentTypes := [], dieselPriceReadings := []\<rparr>"

lemma ownRows_merge:
  assumes "u \<noteq> t" "rls t v = v"
  shows "ownRows u (merge (hidden t d) v) = ownRows u d"
proof -
  have "ownRows u (merge (hidden t d) (rls t v)) = ownRows u d"
    using assms(1) by (cases v; cases d)
      (simp add: ownRows_def merge_def hidden_def rls_def filter_none filter_hidden)
  then show ?thesis by (simp only: assms(2))
qed

lemma ownRows_merge_self:
  assumes "rls t v = v"
  shows "ownRows t (merge (hidden t d) v) = ownRows t v"
proof -
  have "ownRows t (merge (hidden t d) (rls t v)) = ownRows t v"
    by (cases v; cases d)
      (simp add: ownRows_def merge_def hidden_def rls_def filter_hidden_self)
  then show ?thesis by (simp only: assms)
qed

lemma withTenantTx_error:
  "fst (withTenantTx c body w) = Inl e \<Longrightarrow> data (snd (withTenantTx c body w)) = data w"
  by (auto simp: withTenantTx_def Let_def split: prod.splits sum.splits if_splits)

lemma withTenantTx_events:
  "events (snd (withTenantTx c body w)) =
     events w @ map (Pair (ctx_tenantId c)) (fst (body (rls (ctx_tenantId c) (data w))))"
  by (auto simp: withTenantTx_def Let_def split: prod.splits sum.splits if_splits)

lemma rls_merge:
  assumes "rls t v = v"
  shows "rls t (merge (hidden t d) v) = v"
proof -
  have "rls t (merge (hidden t d) (rls t v)) = rls t v"
    by (cases v; cases d) (simp add: merge_def hidden_def rls_def filter_hidden_self)
  then show ?thesis by (simp only: assms)
qed

lemma hidden_merge:
  assumes "rls t v = v"
  shows "merge (hidden t (merge (hidden t d) v)) v' = merge (hidden t d) v'"
proof -
  have "merge (hidden t (merge (hidden t d) (rls t v))) v' = merge (hidden t d) v'"
    by (cases v; cases d) (simp add: merge_def hidden_def rls_def)
  then show ?thesis by (simp only: assms)
qed

lemma withTenantTx_commitD:
  assumes "withTenantTx c body w = (Inr a, w1)"
  obtains v where "committed (body (rls (ctx_tenantId c) (data w))) a v" "rls (ctx_tenantId c) v = v"
    "data w1 = merge (hidden (ctx_tenantId c) (data w)) v"
  using assms by (auto simp: withTenantTx_def Let_def committed_def split: prod.splits sum.splits if_splits)

text \<open>
  C1. Tenant isolation: whatever a transaction body does and whether it commits or fails, the rows
  of every other tenant are afterwards exactly what they were. The body is arbitrary, so this is
  the guarantee of row-level security alone, before any \<open>where tenant_id = ...\<close> of the services.
\<close>

theorem tenant_isolation:
  assumes "u \<noteq> ctx_tenantId c"
  shows "ownRows u (data (snd (withTenantTx c body w))) = ownRows u (data w)"
  using assms ownRows_merge[of u "ctx_tenantId c"]
  by (auto simp: withTenantTx_def Let_def split: prod.splits sum.splits)

definition empty_db :: db where
  "empty_db = \<lparr>tenants = [], users = [], roles = [], customers = [], customerContacts = [], addresses = [], kycDocuments = [], projectSites = [],
     timekeeperSiteAssignments = [], equipmentTypes = [], equipments = [], rateCards = [], maintenanceWindows = [], maintenanceSchedules = [], maintenanceLogs = [],
     dieselPriceReadings = [], pricingParameters = [], billingSettings = [], rentals = [],
     quotations = [], quotationItems = [], rentalContracts = [], equipmentAssignments = [],
     tenantCalendars = [], negotiationMessages = [], bookingChangeRequests = [], edtrs = [],
     edtrLineItems = [], edtrReconciliations = [], invoices = [], invoiceLineItems = [],
     payments = [], depositAccruals = [], truckRequests = [], truckSettings = [], tollRates = [], weatherAlerts = [],
     refreshTokens = [], notifications = [], auditLogs =
     [], nextId = 100\<rparr>"

definition demo_ctx :: ctx where
  "demo_ctx = \<lparr>ctx_tenantId = 1, ctx_userId = 7, ctx_role = ''admin''\<rparr>"

theorem tenant_isolation_witness:
  "(2::nat) \<noteq> ctx_tenantId demo_ctx \<and>
   ownRows 2 (data (snd (withTenantTx demo_ctx (\<lambda>d. ([], Inr ((), fresh d)))
       \<lparr>data = empty_db, events = []\<rparr>))) = ownRows 2 empty_db"
proof -
  have h: "(2::nat) \<noteq> ctx_tenantId demo_ctx" by (simp add: demo_ctx_def)
  show ?thesis
  proof (rule conjI[OF h])
    show "ownRows 2 (data (snd (withTenantTx demo_ctx (\<lambda>d. ([], Inr ((), fresh d)))
       \<lparr>data = empty_db, events = []\<rparr>))) = ownRows 2 empty_db"
      by (subst tenant_isolation[OF h]) simp
  qed
qed

end
