(* ===== verification/Common.thy ===== *)
theory Common
  imports Schema
begin

text \<open>
  What the API services share: the customer scope of a request
  (\<open>apps/api/src/common/customer-scope.ts\<close>) and the in-app notifications
  (\<open>apps/api/src/common/notify-customer.ts\<close>). The lemmas say that notifying writes nothing but
  notifications of the caller's tenant, and what the scope predicate admits.
\<close>

section \<open>Customer scope\<close>

definition ownCustomers :: "ctx \<Rightarrow> db \<Rightarrow> customer list" where
  "ownCustomers c d = filter (\<lambda>r. cus_userId r = Some (ctx_userId c)) (customers d)"

definition ownsCustomer :: "ctx \<Rightarrow> uuid option \<Rightarrow> db \<Rightarrow> bool" where
  "ownsCustomer c customerId d =
     (case customerId of
        None \<Rightarrow> False
      | Some i \<Rightarrow> list_ex (\<lambda>r. cus_id r = i) (ownCustomers c d))"

definition customerOwnsInvoice :: "ctx \<Rightarrow> invoice \<Rightarrow> db \<Rightarrow> bool" where
  "customerOwnsInvoice c invoice d =
     (case inv_truckRequestId invoice of
        Some tr \<Rightarrow>
          (case find (\<lambda>r. trk_id r = tr) (truckRequests d) of
             None \<Rightarrow> False
           | Some request \<Rightarrow> trk_requestedBy request = ctx_userId c)
      | None \<Rightarrow>
          (case inv_rentalId invoice of
             None \<Rightarrow> False
           | Some rid \<Rightarrow>
               (case find (\<lambda>r. ren_id r = rid) (rentals d) of
                  None \<Rightarrow> False
                | Some rental \<Rightarrow> ownsCustomer c (Some (ren_customerId rental)) d)))"

definition requireVerifiedCompany :: "uuid \<Rightarrow> db \<Rightarrow> http_error option" where
  "requireVerifiedCompany customerId d =
     (case find (\<lambda>r. cus_id r = customerId) (customers d) of
        Some company \<Rightarrow>
          if cus_kycStatus company = KycApproved then None else Some (Conflict ''company_not_verified'')
      | None \<Rightarrow> Some (Conflict ''company_not_verified''))"

section \<open>Notifications\<close>

text \<open>\<open>{ rental_id: rentalId, ...payload }\<close>: a key of the payload overrides the first one.\<close>

definition withRentalId :: "uuid \<Rightarrow> (string \<times> jsonv) list \<Rightarrow> (string \<times> jsonv) list" where
  "withRentalId rentalId payload =
     (''rental_id'', (case map_of payload ''rental_id'' of Some v \<Rightarrow> v | None \<Rightarrow> JId rentalId)) #
     filter (\<lambda>kv. fst kv \<noteq> ''rental_id'') payload"

definition notifyBookingCustomer ::
  "uuid \<Rightarrow> uuid \<Rightarrow> string \<Rightarrow> (string \<times> jsonv) list \<Rightarrow> db \<Rightarrow> db" where
  "notifyBookingCustomer tenantId rentalId notificationType payload d =
     (case List.bind (filter (\<lambda>r. ren_id r = rentalId) (rentals d))
              (\<lambda>r. filter (\<lambda>c. cus_id c = ren_customerId r) (customers d)) of
        [] \<Rightarrow> d
      | row # _ \<Rightarrow>
          (case cus_userId row of
             None \<Rightarrow> d
           | Some userId \<Rightarrow>
               d\<lparr>notifications := notifications d @
                  [\<lparr>ntf_tenantId = tenantId, ntf_userId = userId, ntf_notificationType = notificationType,
                    ntf_payload = withRentalId rentalId payload\<rparr>]\<rparr>))"

definition STAFF_ALERT_ROLES :: "string list" where
  "STAFF_ALERT_ROLES = [''admin'']"

definition notifyStaff :: "uuid \<Rightarrow> string \<Rightarrow> (string \<times> jsonv) list \<Rightarrow> db \<Rightarrow> db" where
  "notifyStaff tenantId notificationType payload d =
     (let staff = filter (\<lambda>u. usr_status u = ''active'' \<and>
            list_ex (\<lambda>r. rol_id r = usr_roleId u \<and> rol_name r \<in> set STAFF_ALERT_ROLES) (roles d)) (users d)
      in d\<lparr>notifications := notifications d @
            map (\<lambda>u. \<lparr>ntf_tenantId = tenantId, ntf_userId = usr_id u,
                      ntf_notificationType = notificationType, ntf_payload = payload\<rparr>) staff\<rparr>)"

lemma no_notification: "\<exists>ns. d = d\<lparr>notifications := notifications d @ ns\<rparr> \<and> (\<forall>n \<in> set ns. ntf_tenantId n = t)"
  by (rule exI[of _ "[]"]) simp

lemma one_notification:
  "ntf_tenantId x = t \<Longrightarrow>
   \<exists>ns. d\<lparr>notifications := notifications d @ [x]\<rparr> = d\<lparr>notifications := notifications d @ ns\<rparr> \<and>
     (\<forall>n \<in> set ns. ntf_tenantId n = t)"
  by (rule exI[of _ "[x]"]) simp

lemma notify_update [tx]:
  "\<exists>ns. notifyBookingCustomer t r k p d = d\<lparr>notifications := notifications d @ ns\<rparr> \<and> (\<forall>n \<in> set ns. ntf_tenantId n = t)"
  "\<exists>ns. notifyStaff t k p d = d\<lparr>notifications := notifications d @ ns\<rparr> \<and> (\<forall>n \<in> set ns. ntf_tenantId n = t)"
  unfolding notifyBookingCustomer_def notifyStaff_def Let_def
  by (auto split: list.split option.split intro: no_notification one_notification)
     (rule exI, rule conjI[OF refl], simp)

text \<open>Writing notifications, audit rows or a fresh id leaves every table the money is in alone.\<close>

definition sameLedger :: "db \<Rightarrow> db \<Rightarrow> bool" where
  "sameLedger d d' \<longleftrightarrow>
     tenants d' = tenants d \<and> customers d' = customers d \<and> equipments d' = equipments d \<and>
     rateCards d' = rateCards d \<and> billingSettings d' = billingSettings d \<and> rentals d' = rentals d \<and>
     quotations d' = quotations d \<and> quotationItems d' = quotationItems d \<and>
     rentalContracts d' = rentalContracts d \<and> equipmentAssignments d' = equipmentAssignments d \<and>
     edtrs d' = edtrs d \<and> edtrLineItems d' = edtrLineItems d \<and>
     edtrReconciliations d' = edtrReconciliations d \<and> invoices d' = invoices d \<and>
     invoiceLineItems d' = invoiceLineItems d \<and> payments d' = payments d \<and>
     depositAccruals d' = depositAccruals d \<and> truckRequests d' = truckRequests d"

lemma sameLedger_refl [simp]: "sameLedger d d"
  by (simp add: sameLedger_def)

lemma sameLedger_trans: "sameLedger d d' \<Longrightarrow> sameLedger d' d'' \<Longrightarrow> sameLedger d d''"
  by (simp add: sameLedger_def)

lemma sameLedger_notify [simp]:
  "sameLedger d (notifyBookingCustomer t r k p d)" "sameLedger d (notifyStaff t k p d)"
  using notify_update(1)[of t r k p d] notify_update(2)[of t k p d] by (auto simp: sameLedger_def)

lemma sameLedger_audit [simp]: "sameLedger d (audit c a e i d)"
  by (simp add: sameLedger_def audit_def)

lemma sameLedger_fresh [simp]: "sameLedger d (fresh d)"
  by (simp add: sameLedger_def fresh_def)

lemma notify_nextId [simp]: "nextId (notifyBookingCustomer t r k p d) = nextId d" "nextId (notifyStaff t k p d) = nextId d"
  using notify_update(1)[of t r k p d] notify_update(2)[of t k p d] by auto

lemma sameLedger_merge: "sameLedger v v' \<Longrightarrow> sameLedger (merge h v) (merge h v')"
  by (simp add: sameLedger_def merge_def)

text \<open>A body that, run again on what it committed, moves no ledger row, does not when the transaction is run again.\<close>

lemma withTenantTx_replay:
  assumes "withTenantTx c body w = (Inr a, w1)"
    and "\<And>v a' v'. committed (body (rls (ctx_tenantId c) (data w))) a v \<Longrightarrow> committed (body' v) a' v' \<Longrightarrow> sameLedger v v'"
    and "withTenantTx c body' w1 = (r, w2)"
  shows "sameLedger (data w1) (data w2)"
proof (cases r)
  case (Inl e)
  then have "data w2 = data w1" using withTenantTx_error[of c body' w1 e] assms(3) by simp
  then show ?thesis by simp
next
  case (Inr b)
  let ?t = "ctx_tenantId c"
  obtain v where v: "committed (body (rls ?t (data w))) a v" "rls ?t v = v" "data w1 = merge (hidden ?t (data w)) v"
    by (rule withTenantTx_commitD[OF assms(1)])
  obtain v' where v': "committed (body' (rls ?t (data w1))) b v'" "data w2 = merge (hidden ?t (data w1)) v'"
    by (rule withTenantTx_commitD[OF assms(3)[unfolded Inr]])
  have "committed (body' v) b v'" "data w2 = merge (hidden ?t (data w)) v'"
    using v' unfolding v(3) by (simp_all add: rls_merge[OF v(2)] hidden_merge[OF v(2)])
  then show ?thesis using assms(2)[OF v(1)] sameLedger_merge v(3) by simp
qed
lemma ownsCustomer_iff:
  "ownsCustomer c (Some i) d \<longleftrightarrow> (\<exists>r \<in> set (customers d). cus_id r = i \<and> cus_userId r = Some (ctx_userId c))"
  by (auto simp: ownsCustomer_def ownCustomers_def list_ex_iff)

end
