(* ===== verification/Reconciliation.thy ===== *)
theory Reconciliation
  imports Schema
begin

text \<open>
  The double-entry reconciliation of the equipment logs: the pure gate of
  \<open>packages/shared/src/edtr.ts\<close> (confidence, per-dimension hour deltas, tolerance) and
  \<open>reconcileEdtr\<close> of \<open>packages/db/src/reconciliation.ts\<close>, which pairs a log with its counterpart
  and writes the verdict. The lemmas show what a match certifies about the stored hours although
  the deltas are computed in binary64, and that a decided row is never decided again.
\<close>

section \<open>The gate\<close>

definition CONFIDENCE_GATE :: number where
  "CONFIDENCE_GATE = js (9 / 10)"

definition DEFAULT_TOLERANCE_HOURS :: number where
  "DEFAULT_TOLERANCE_HOURS = js (1 / 4)"

definition MANUAL_TRANSCRIPTION_MODEL_ID :: string where
  "MANUAL_TRANSCRIPTION_MODEL_ID = ''manual_transcription''"

definition isManualTranscription :: "ocr_payload option \<Rightarrow> bool" where
  "isManualTranscription payload =
     (case payload of None \<Rightarrow> False | Some p \<Rightarrow> opl_model_id p = MANUAL_TRANSCRIPTION_MODEL_ID)"

definition buildManualTranscriptionPayload :: "number \<Rightarrow> number \<Rightarrow> string \<Rightarrow> ocr_payload" where
  "buildManualTranscriptionPayload hoursActive hoursIdle analyzedAt =
     \<lparr>opl_model_id = MANUAL_TRANSCRIPTION_MODEL_ID,
      opl_analyzed_at = analyzedAt,
      opl_fields =
        [\<lparr>ofl_name = ''hours_active'', ofl_value = JNum hoursActive, ofl_confidence = js 1\<rparr>,
         \<lparr>ofl_name = ''hours_idle'', ofl_value = JNum hoursIdle, ofl_confidence = js 1\<rparr>],
      opl_min_field_confidence = Some (js 1)\<rparr>"

record gate_result =
  gr_matched :: bool
  gr_reason :: recon_reason

definition comparableDeltas :: "hour_deltas \<Rightarrow> number list" where
  "comparableDeltas deltas =
     map the (filter (\<lambda>d. d \<noteq> None) [Some (hd_active deltas), hd_idle deltas, hd_total deltas])"

definition worstDelta :: "hour_deltas \<Rightarrow> number" where
  "worstDelta deltas = foldl math_max (Inf True) (comparableDeltas deltas)"

definition evaluateGate :: "number \<Rightarrow> number \<Rightarrow> hour_deltas \<Rightarrow> number \<Rightarrow> gate_result" where
  "evaluateGate minConfidenceA minConfidenceB deltas tolerance =
     (if minConfidenceA < CONFIDENCE_GATE \<or> minConfidenceB < CONFIDENCE_GATE
      then \<lparr>gr_matched = False, gr_reason = LowConfidence\<rparr>
      else if tolerance < worstDelta deltas
      then \<lparr>gr_matched = False, gr_reason = ToleranceExceeded\<rparr>
      else \<lparr>gr_matched = True, gr_reason = AutoAccept\<rparr>)"

section \<open>Reconciling a log\<close>

definition minFieldConfidence :: "edtr_source \<Rightarrow> ocr_payload option \<Rightarrow> number" where
  "minFieldConfidence source payload =
     (if source \<noteq> PaperOcr then js 1
      else case payload of
             None \<Rightarrow> js 0
           | Some p \<Rightarrow> (case opl_min_field_confidence p of None \<Rightarrow> js 0 | Some v \<Rightarrow> v))"

record hour_sums =
  hs_active :: number
  hs_idle :: "number option"

definition sumHours :: "edtr_line_item list \<Rightarrow> hour_sums" where
  "sumHours items =
     foldl (\<lambda>acc item.
         \<lparr>hs_active = hs_active acc + num2 (eli_hoursActive item),
          hs_idle =
            (case (hs_idle acc, eli_hoursIdle item) of
               (Some i, Some h) \<Rightarrow> Some (i + num2 h)
             | _ \<Rightarrow> None)\<rparr>)
       \<lparr>hs_active = js 0, hs_idle = Some (js 0)\<rparr> items"

definition hourDeltas :: "hour_sums \<Rightarrow> hour_sums \<Rightarrow> hour_deltas" where
  "hourDeltas a b =
     \<lparr>hd_active = math_abs (hs_active a - hs_active b),
      hd_idle = (case (hs_idle a, hs_idle b) of
          (Some i, Some j) \<Rightarrow> Some (math_abs (i - j)) | _ \<Rightarrow> None),
      hd_total = (case (hs_idle a, hs_idle b) of
          (Some i, Some j) \<Rightarrow> Some (math_abs (hs_active a + i - (hs_active b + j))) | _ \<Rightarrow> None)\<rparr>"

record reconcile_result =
  rr_edtrId :: uuid
  rr_reconciliationId :: uuid
  rr_status :: recon_status
  rr_counterpartEdtrId :: "uuid option"
  rr_deltaHours :: "number option"
  rr_reason :: "recon_reason option"

definition pairable :: "edtr_status \<Rightarrow> bool" where
  "pairable s \<longleftrightarrow> s = Extracted \<or> s = Reconciled \<or> s = Review"

definition counterpartOf :: "uuid \<Rightarrow> edtr \<Rightarrow> db \<Rightarrow> edtr option" where
  "counterpartOf tenantId r d =
     find (\<lambda>c. pairable (edtr_status c))
       (filter (\<lambda>c. edtr_tenantId c = tenantId \<and> edtr_equipmentId c = edtr_equipmentId r \<and>
            edtr_reportDate c = edtr_reportDate r \<and> edtr_id c \<noteq> edtr_id r \<and>
            edtr_source c \<noteq> edtr_source r) (edtrs d))"

definition reconOf :: "uuid \<Rightarrow> db \<Rightarrow> reconciliation option" where
  "reconOf edtrId d = find (\<lambda>r. rec_edtrId r = edtrId) (edtrReconciliations d)"

definition lineItemsOf :: "uuid \<Rightarrow> db \<Rightarrow> edtr_line_item list" where
  "lineItemsOf edtrId d = filter (\<lambda>l. eli_edtrId l = edtrId) (edtrLineItems d)"

definition setEdtrStatus :: "uuid \<Rightarrow> edtr_status \<Rightarrow> db \<Rightarrow> db" where
  "setEdtrStatus edtrId st d =
     d\<lparr>edtrs := updw (\<lambda>r. edtr_id r = edtrId) (edtr_status_update (\<lambda>_. st)) (edtrs d)\<rparr>"

text \<open>The verdict written over the existing row, or as a new one; the row's id is returned.\<close>

definition writeVerdict ::
  "uuid \<Rightarrow> uuid \<Rightarrow> reconciliation option \<Rightarrow> uuid option \<Rightarrow> int option \<Rightarrow> int \<Rightarrow> recon_status \<Rightarrow>
   adjustments \<Rightarrow> db \<Rightarrow> uuid \<times> db" where
  "writeVerdict tenantId edtrId existing counterpart delta tol st adj d =
     (case existing of
        Some e \<Rightarrow>
          (rec_id e,
           d\<lparr>edtrReconciliations :=
               updw (\<lambda>r. rec_id r = rec_id e)
                 (\<lambda>r. r\<lparr>rec_tenantId := tenantId, rec_edtrId := edtrId, rec_counterpartEdtrId := counterpart,
                    rec_deltaHours := delta, rec_tolerance := tol, rec_status := st,
                    rec_adjustments := Some adj\<rparr>)
                 (edtrReconciliations d)\<rparr>)
      | None \<Rightarrow>
          (nextId d,
           (fresh d)\<lparr>edtrReconciliations := edtrReconciliations d @
              [\<lparr>rec_id = nextId d, rec_tenantId = tenantId, rec_edtrId = edtrId,
                rec_counterpartEdtrId = counterpart, rec_deltaHours = delta, rec_tolerance = tol,
                rec_verifiedBy = None, rec_adjustments = Some adj, rec_status = st\<rparr>]\<rparr>))"

definition reasonOnly :: "recon_reason \<Rightarrow> hour_deltas option \<Rightarrow> adjustments" where
  "reasonOnly reason deltas =
     \<lparr>adj_reason = Some reason, adj_deltas = deltas, adj_hoursActive = None, adj_hoursIdle = None,
      adj_rejectionReason = None\<rparr>"

definition decided :: "reconciliation \<Rightarrow> bool" where
  "decided e \<longleftrightarrow> rec_status e = Approved \<or> rec_status e = Rejected"

definition pairVerdict :: "edtr \<Rightarrow> edtr \<Rightarrow> number \<Rightarrow> db \<Rightarrow> hour_deltas option \<times> gate_result" where
  "pairVerdict r c tolerance d =
     (let aItems = lineItemsOf (edtr_id r) d;
          bItems = lineItemsOf (edtr_id c) d;
          noEvidence = (aItems = [] \<or> bItems = []);
          deltas = (if noEvidence then None else Some (hourDeltas (sumHours aItems) (sumHours bItems)))
      in (deltas,
          case deltas of
            None \<Rightarrow> \<lparr>gr_matched = False, gr_reason = Unreadable\<rparr>
          | Some ds \<Rightarrow> evaluateGate (minFieldConfidence (edtr_source r) (edtr_ocrPayload r))
              (minFieldConfidence (edtr_source c) (edtr_ocrPayload c)) ds tolerance))"

definition reconcileEdtr :: "uuid \<Rightarrow> uuid \<Rightarrow> db \<Rightarrow> http_error + reconcile_result \<times> db" where
  "reconcileEdtr tenantId edtrId d =
     (case find (\<lambda>r. edtr_id r = edtrId) (edtrs d) of
        None \<Rightarrow> Inl (Internal ''edtr_not_found'')
      | Some r \<Rightarrow>
          let counterpart = counterpartOf tenantId r d;
              existing = reconOf edtrId d;
              tolerance = (case existing of
                  Some e \<Rightarrow> num2 (rec_tolerance e) | None \<Rightarrow> DEFAULT_TOLERANCE_HOURS)
          in
          if (case existing of Some e \<Rightarrow> decided e | None \<Rightarrow> False) then
            (let e = the existing in
             Inr (\<lparr>rr_edtrId = edtr_id r, rr_reconciliationId = rec_id e, rr_status = rec_status e,
                   rr_counterpartEdtrId = rec_counterpartEdtrId e,
                   rr_deltaHours = map_option num2 (rec_deltaHours e),
                   rr_reason = (case rec_adjustments e of None \<Rightarrow> None | Some a \<Rightarrow> adj_reason a)\<rparr>, d))
          else
            (case counterpart of
               None \<Rightarrow>
                 let (rid, d1) = writeVerdict tenantId (edtr_id r) existing None None (col2 tolerance)
                       Pending (reasonOnly SingleSource None) d
                 in Inr (\<lparr>rr_edtrId = edtr_id r, rr_reconciliationId = rid, rr_status = Pending,
                          rr_counterpartEdtrId = None, rr_deltaHours = None,
                          rr_reason = Some SingleSource\<rparr>,
                        setEdtrStatus (edtr_id r) Review d1)
             | Some c \<Rightarrow>
                 let (deltas, gate) = pairVerdict r c tolerance d;
                     deltaHours = map_option worstDelta deltas;
                     status = (if gr_matched gate then Matched else Discrepancy);
                     edtrStatus = (if gr_matched gate then Reconciled else Review);
                     (rid, d1) = writeVerdict tenantId (edtr_id r) existing (Some (edtr_id c))
                       (map_option col2 deltaHours) (col2 tolerance) status
                       (reasonOnly (gr_reason gate) deltas) d
                 in Inr (\<lparr>rr_edtrId = edtr_id r, rr_reconciliationId = rid, rr_status = status,
                          rr_counterpartEdtrId = Some (edtr_id c), rr_deltaHours = deltaHours,
                          rr_reason = Some (gr_reason gate)\<rparr>,
                        setEdtrStatus (edtr_id c) edtrStatus (setEdtrStatus (edtr_id r) edtrStatus d1))))"

section \<open>What the sums and deltas stand for\<close>

definition activeCenti :: "edtr_line_item list \<Rightarrow> int" where
  "activeCenti items = (\<Sum>l\<leftarrow>items. eli_hoursActive l)"

definition idleCenti :: "edtr_line_item list \<Rightarrow> int option" where
  "idleCenti items =
     (if \<exists>l \<in> set items. eli_hoursIdle l = None then None
      else Some (\<Sum>l\<leftarrow>items. the (eli_hoursIdle l)))"

text \<open>The distance of two logs in hundredths of an hour, over the dimensions both recorded.\<close>

definition logDistance :: "edtr_line_item list \<Rightarrow> edtr_line_item list \<Rightarrow> int" where
  "logDistance a b =
     (case (idleCenti a, idleCenti b) of
        (Some i, Some j) \<Rightarrow>
          max (max \<bar>activeCenti a - activeCenti b\<bar> \<bar>i - j\<bar>) \<bar>activeCenti a + i - (activeCenti b + j)\<bar>
      | _ \<Rightarrow> \<bar>activeCenti a - activeCenti b\<bar>)"

text \<open>Hours a \<open>numeric(6, 2)\<close> column holds, on at most 4096 lines of a log.\<close>

definition hoursOk :: "edtr_line_item list \<Rightarrow> bool" where
  "hoursOk items \<longleftrightarrow> length items \<le> 4096 \<and>
     (\<forall>l \<in> set items. 0 \<le> eli_hoursActive l \<and> eli_hoursActive l \<le> 999999 \<and>
        (case eli_hoursIdle l of None \<Rightarrow> True | Some h \<Rightarrow> 0 \<le> h \<and> h \<le> 999999))"

lemma sumHours_gen:
  "foldl (\<lambda>acc item. \<lparr>hs_active = hs_active acc + num2 (eli_hoursActive item),
       hs_idle = (case (hs_idle acc, eli_hoursIdle item) of (Some i, Some h) \<Rightarrow> Some (i + num2 h) | _ \<Rightarrow> None)\<rparr>)
     \<lparr>hs_active = x, hs_idle = y\<rparr> items =
   \<lparr>hs_active = foldl (+) x (map (\<lambda>l. num2 (eli_hoursActive l)) items),
    hs_idle = (if \<exists>l \<in> set items. eli_hoursIdle l = None then None
       else map_option (\<lambda>y. foldl (+) y (map (\<lambda>l. num2 (the (eli_hoursIdle l))) items)) y)\<rparr>"
  by (induction items arbitrary: x y) (auto simp: option.map_ident split: option.splits)

lemma hours_sum_near:
  assumes "length items \<le> 4096" "\<forall>l \<in> set items. 0 \<le> f l \<and> f l \<le> 999999"
  shows "near (foldl (+) (js 0) (map (\<lambda>l. num2 (f l)) items)) (\<Sum>l\<leftarrow>items. f l) (1 / 1000)"
    and "0 \<le> (\<Sum>l\<leftarrow>items. f l)" and "(\<Sum>l\<leftarrow>items. f l) \<le> 2 ^ 36"
proof -
  have "(\<Sum>l\<leftarrow>items. f l) \<le> int (length items) * 999999" using assms(2) by (intro sum_le_mult) auto
  also have "\<dots> \<le> 4096 * 999999" using assms(1) by simp
  finally show b: "(\<Sum>l\<leftarrow>items. f l) \<le> 2 ^ 36" by simp
  show "0 \<le> (\<Sum>l\<leftarrow>items. f l)" using assms(2) by (intro sum_list_nonneg) auto
  have "list_all2 amt (map (\<lambda>l. num2 (f l)) items) (map f items)"
    using assms(2) by (force simp: list.rel_map intro!: list.rel_refl_strong amt_num2)
  then obtain v where "isn (foldl (+) (js 0) (map (\<lambda>l. num2 (f l)) items)) v"
    "\<bar>v - of_int (\<Sum>l\<leftarrow>items. f l) / 100\<bar> \<le> 1 / 1000"
    by (rule amt_foldl) (use assms b in auto)
  then show "near (foldl (+) (js 0) (map (\<lambda>l. num2 (f l)) items)) (\<Sum>l\<leftarrow>items. f l) (1 / 1000)"
    by (rule nearI)
qed

lemma sumHours_eq:
  "sumHours items =
   \<lparr>hs_active = foldl (+) (js 0) (map (\<lambda>l. num2 (eli_hoursActive l)) items),
    hs_idle = (if \<exists>l \<in> set items. eli_hoursIdle l = None then None
       else Some (foldl (+) (js 0) (map (\<lambda>l. num2 (the (eli_hoursIdle l))) items)))\<rparr>"
  unfolding sumHours_def sumHours_gen by simp

lemma sumHours_near:
  assumes "hoursOk items"
  shows "near (hs_active (sumHours items)) (activeCenti items) (1 / 1000)"
    and "0 \<le> activeCenti items" "activeCenti items \<le> 2 ^ 36"
    and "case idleCenti items of None \<Rightarrow> hs_idle (sumHours items) = None
         | Some i \<Rightarrow> 0 \<le> i \<and> i \<le> 2 ^ 36 \<and> (\<exists>x. hs_idle (sumHours items) = Some x \<and> near x i (1 / 1000))"
proof -
  have l: "length items \<le> 4096" and a: "\<forall>l \<in> set items. 0 \<le> eli_hoursActive l \<and> eli_hoursActive l \<le> 999999"
    using assms by (auto simp: hoursOk_def)
  show "near (hs_active (sumHours items)) (activeCenti items) (1 / 1000)"
    "0 \<le> activeCenti items" "activeCenti items \<le> 2 ^ 36"
    using hours_sum_near[OF l a] by (simp_all add: sumHours_eq activeCenti_def)
  show "case idleCenti items of None \<Rightarrow> hs_idle (sumHours items) = None
         | Some i \<Rightarrow> 0 \<le> i \<and> i \<le> 2 ^ 36 \<and> (\<exists>x. hs_idle (sumHours items) = Some x \<and> near x i (1 / 1000))"
  proof (cases "\<exists>l \<in> set items. eli_hoursIdle l = None")
    case True
    then show ?thesis by (auto simp: sumHours_eq idleCenti_def)
  next
    case False
    then have i: "\<forall>l \<in> set items. 0 \<le> the (eli_hoursIdle l) \<and> the (eli_hoursIdle l) \<le> 999999"
      using assms by (fastforce simp: hoursOk_def split: option.splits)
    show ?thesis using False hours_sum_near[OF l i]
      by (simp add: sumHours_eq idleCenti_def)
  qed
qed

lemma worstDelta_near:
  assumes a: "hoursOk a" and b: "hoursOk b"
  shows "near (worstDelta (hourDeltas (sumHours a) (sumHours b))) (logDistance a b) (1 / 220)"
proof -
  note A = sumHours_near[OF a] and B = sumHours_near[OF b]
  have ab: "\<bar>activeCenti a\<bar> \<le> 2 ^ 38" "\<bar>activeCenti b\<bar> \<le> 2 ^ 38" using A B by simp_all
  let ?x = "hs_active (sumHours a)" and ?y = "hs_active (sumHours b)"
  have 1: "near (math_abs (?x - ?y)) \<bar>activeCenti a - activeCenti b\<bar> (1 / 220)"
    by (rule near_abs, rule near_weaken[OF near_minus[OF A(1) B(1) ab]]) simp_all
  show ?thesis
  proof (cases "\<exists>i j. idleCenti a = Some i \<and> idleCenti b = Some j")
    case True
    then obtain i j where ij: "idleCenti a = Some i" "idleCenti b = Some j" by blast
    obtain u v where u: "hs_idle (sumHours a) = Some u" "near u i (1 / 1000)" "0 \<le> i" "i \<le> 2 ^ 36"
      and v: "hs_idle (sumHours b) = Some v" "near v j (1 / 1000)" "0 \<le> j" "j \<le> 2 ^ 36"
      using A(4) B(4) ij by auto
    have ijb: "\<bar>i\<bar> \<le> 2 ^ 38" "\<bar>j\<bar> \<le> 2 ^ 38" using u v by simp_all
    have 2: "near (math_abs (u - v)) \<bar>i - j\<bar> (1 / 220)"
      by (rule near_abs, rule near_weaken[OF near_minus[OF u(2) v(2) ijb]]) simp_all
    have s: "near (?x + u) (activeCenti a + i) (201 / 100000)" "near (?y + v) (activeCenti b + j) (201 / 100000)"
      using near_plus[OF A(1) u(2) ab(1) ijb(1)] near_plus[OF B(1) v(2) ab(2) ijb(2)] by simp_all
    have 3: "near (math_abs (?x + u - (?y + v))) \<bar>activeCenti a + i - (activeCenti b + j)\<bar> (1 / 220)"
      by (rule near_abs, rule near_weaken[OF near_minus[OF s]]) (use A B u v in simp_all)
    have "near (math_max (math_max (math_abs (?x - ?y)) (math_abs (u - v))) (math_abs (?x + u - (?y + v))))
        (logDistance a b) (1 / 220)"
      using near_max[OF near_max[OF 1 2] 3] ij by (simp add: logDistance_def)
    then show ?thesis
      by (simp add: worstDelta_def comparableDeltas_def hourDeltas_def u v near_math_max_Inf[OF 1])
  next
    case False
    have n: "hs_idle (sumHours a) = None \<or> hs_idle (sumHours b) = None"
      using False A(4) B(4) by (cases "idleCenti a"; cases "idleCenti b") auto
    have d: "logDistance a b = \<bar>activeCenti a - activeCenti b\<bar>"
      using False by (auto simp: logDistance_def split: option.splits)
    show ?thesis unfolding d using n 1
      by (auto simp: worstDelta_def comparableDeltas_def hourDeltas_def near_math_max_Inf[OF 1] split: option.splits)
  qed
qed

section \<open>Properties of the gate\<close>

lemma gate_hours:
  assumes "hoursOk a" "hoursOk b" "0 \<le> tol" "tol \<le> 999999"
  shows "(gr_matched (evaluateGate ca cb (hourDeltas (sumHours a) (sumHours b)) (num2 tol)) \<longrightarrow>
      \<not> ca < CONFIDENCE_GATE \<and> \<not> cb < CONFIDENCE_GATE \<and> logDistance a b \<le> tol) \<and>
    (\<not> ca < CONFIDENCE_GATE \<and> \<not> cb < CONFIDENCE_GATE \<and> logDistance a b < tol \<longrightarrow>
      gr_matched (evaluateGate ca cb (hourDeltas (sumHours a) (sumHours b)) (num2 tol)))"
proof -
  have t: "\<bar>tol\<bar> \<le> 2 ^ 37" using assms by simp
  note n = near_less[OF worstDelta_near[OF assms(1,2)] t]
  show ?thesis using n by (auto simp: evaluateGate_def not_less[symmetric])
qed

text \<open>
  C4. What a match certifies, and what it takes. Over logs of any hours the columns can hold, if
  the gate matches then both confidences reach 0.9 and the stored hours differ by at most the
  tolerance in every dimension both logs recorded (active, idle, and their total); and if the
  confidences reach it and every such difference is strictly below the tolerance, the gate
  matches. The rounding of the sums and differences to binary64 can only matter at equality.
\<close>

theorem gate_certifies_hours:
  assumes "hoursOk a" "hoursOk b" "0 \<le> tol" "tol \<le> 999999"
  shows "(gr_matched (evaluateGate ca cb (hourDeltas (sumHours a) (sumHours b)) (num2 tol)) \<longrightarrow>
      \<not> ca < CONFIDENCE_GATE \<and> \<not> cb < CONFIDENCE_GATE \<and> logDistance a b \<le> tol) \<and>
    (\<not> ca < CONFIDENCE_GATE \<and> \<not> cb < CONFIDENCE_GATE \<and> logDistance a b < tol \<longrightarrow>
      gr_matched (evaluateGate ca cb (hourDeltas (sumHours a) (sumHours b)) (num2 tol)))"
  using assms by (rule gate_hours)

definition line_at :: "uuid \<Rightarrow> int \<Rightarrow> int option \<Rightarrow> edtr_line_item" where
  "line_at e a i = \<lparr>eli_id = e, eli_tenantId = 1, eli_edtrId = e, eli_hoursActive = a, eli_hoursIdle = i\<rparr>"

lemma full_confidence: "\<not> js 1 < CONFIDENCE_GATE"
proof -
  have one: "isn (js 1) 1" using js_isn[of 1] fl_of_int[of 1] by simp
  have g: "isn CONFIDENCE_GATE (fl (9 / 10))" unfolding CONFIDENCE_GATE_def by (rule js_isn) simp
  have e: "\<bar>fl (9 / 10) - 9 / 10\<bar> \<le> 1 / 100" using dbl.rd_bound[of "9 / 10" 1] by simp
  have "fl (9 / 10) < 1" using dbl.absD(2)[OF e] by linarith
  with one g show ?thesis using isn_less[of "js 1" 1 CONFIDENCE_GATE "fl (9 / 10)"] by simp
qed

theorem gate_certifies_hours_witness:
  "gr_matched (evaluateGate (js 1) (js 1)
     (hourDeltas (sumHours [line_at 1 800 None]) (sumHours [line_at 2 390 (Some 0), line_at 2 400 (Some 25)])) (num2 25))"
proof -
  show ?thesis
    using full_confidence gate_certifies_hours[of "[line_at 1 800 None]" "[line_at 2 390 (Some 0), line_at 2 400 (Some 25)]" 25 "js 1" "js 1"]
    by (simp add: hoursOk_def line_at_def logDistance_def activeCenti_def idleCenti_def)
qed

lemma DEFAULT_TOLERANCE: "DEFAULT_TOLERANCE_HOURS = num2 25"
  by (simp add: DEFAULT_TOLERANCE_HOURS_def num2_def)

definition toleranceOf :: "uuid \<Rightarrow> db \<Rightarrow> int" where
  "toleranceOf i d = (case reconOf i d of Some e \<Rightarrow> rec_tolerance e | None \<Rightarrow> 25)"

lemma counterpartOf_SomeD:
  "counterpartOf t r d = Some c \<Longrightarrow> c \<in> set (edtrs d) \<and> edtr_tenantId c = t \<and> edtr_equipmentId c = edtr_equipmentId r \<and>
     edtr_reportDate c = edtr_reportDate r \<and> edtr_id c \<noteq> edtr_id r \<and> edtr_source c \<noteq> edtr_source r \<and> pairable (edtr_status c)"
  by (auto simp: counterpartOf_def dest: find_SomeD)

text \<open>The verdict of a pair, once both logs have lines, is the gate's.\<close>

lemma reconcile_matchedD:
  assumes "reconcileEdtr t i d = Inr (res, d')" "rr_status res = Matched"
  obtains r c where "find (\<lambda>r. edtr_id r = i) (edtrs d) = Some r" "counterpartOf t r d = Some c"
    "rr_counterpartEdtrId res = Some (edtr_id c)"
    "gr_matched (snd (pairVerdict r c (num2 (toleranceOf i d)) d))"
proof -
  obtain r where r: "find (\<lambda>r. edtr_id r = i) (edtrs d) = Some r"
    using assms by (auto simp: reconcileEdtr_def split: option.splits)
  have tol: "(case reconOf i d of Some e \<Rightarrow> num2 (rec_tolerance e) | None \<Rightarrow> DEFAULT_TOLERANCE_HOURS) = num2 (toleranceOf i d)"
    by (simp add: toleranceOf_def DEFAULT_TOLERANCE split: option.splits)
  have u: "\<not> (case reconOf i d of Some e \<Rightarrow> decided e | None \<Rightarrow> False)"
    using assms r by (auto simp: reconcileEdtr_def Let_def decided_def split: option.splits)
  obtain c where c: "counterpartOf t r d = Some c"
    using assms r u by (auto simp: reconcileEdtr_def Let_def split: option.splits prod.splits if_splits)
  have "rr_counterpartEdtrId res = Some (edtr_id c) \<and> gr_matched (snd (pairVerdict r c (num2 (toleranceOf i d)) d))"
    using assms r u c by (auto simp: reconcileEdtr_def Let_def tol split: prod.splits if_splits)
  then show ?thesis using that r c by blast
qed

text \<open>
  C5. An automatic match rests on two independent logs. When \<open>reconcileEdtr\<close> reports a match, the
  log and its counterpart are two different rows of the same machine and day, one from paper and
  one entered by hand, both with at least one line; both cleared the confidence gate; and their
  stored hours differ by at most the row's tolerance (0.25 hours by default) in every dimension
  both recorded. A single log, or a log without lines, is never matched.
\<close>

theorem match_needs_two_logs:
  assumes "reconcileEdtr t i d = Inr (res, d')" "rr_status res = Matched"
    and "\<forall>e. hoursOk (lineItemsOf e d)" "\<forall>r \<in> set (edtrReconciliations d). 0 \<le> rec_tolerance r \<and> rec_tolerance r \<le> 999999"
  shows "\<exists>r \<in> set (edtrs d). \<exists>c \<in> set (edtrs d). edtr_id r = i \<and> edtr_id c \<noteq> i \<and>
     rr_counterpartEdtrId res = Some (edtr_id c) \<and> edtr_tenantId c = t \<and>
     edtr_equipmentId c = edtr_equipmentId r \<and> edtr_reportDate c = edtr_reportDate r \<and>
     edtr_source c \<noteq> edtr_source r \<and> lineItemsOf i d \<noteq> [] \<and> lineItemsOf (edtr_id c) d \<noteq> [] \<and>
     \<not> minFieldConfidence (edtr_source r) (edtr_ocrPayload r) < CONFIDENCE_GATE \<and>
     \<not> minFieldConfidence (edtr_source c) (edtr_ocrPayload c) < CONFIDENCE_GATE \<and>
     logDistance (lineItemsOf i d) (lineItemsOf (edtr_id c) d) \<le> toleranceOf i d"
proof -
  obtain r c where r: "find (\<lambda>r. edtr_id r = i) (edtrs d) = Some r" and c: "counterpartOf t r d = Some c"
    and cp: "rr_counterpartEdtrId res = Some (edtr_id c)"
    and g: "gr_matched (snd (pairVerdict r c (num2 (toleranceOf i d)) d))"
    by (rule reconcile_matchedD[OF assms(1,2)])
  have ri: "edtr_id r = i" "r \<in> set (edtrs d)" using find_SomeD[OF r] by auto
  have tol: "0 \<le> toleranceOf i d" "toleranceOf i d \<le> 999999"
    using assms(4) by (auto simp: toleranceOf_def reconOf_def split: option.splits dest: find_SomeD)
  have ne: "lineItemsOf i d \<noteq> []" "lineItemsOf (edtr_id c) d \<noteq> []"
    using g ri by (auto simp: pairVerdict_def Let_def split: if_splits)
  from g ne ri have m: "gr_matched (evaluateGate (minFieldConfidence (edtr_source r) (edtr_ocrPayload r))
      (minFieldConfidence (edtr_source c) (edtr_ocrPayload c))
      (hourDeltas (sumHours (lineItemsOf i d)) (sumHours (lineItemsOf (edtr_id c) d))) (num2 (toleranceOf i d)))"
    by (simp add: pairVerdict_def Let_def)
  then have q: "\<not> minFieldConfidence (edtr_source r) (edtr_ocrPayload r) < CONFIDENCE_GATE"
    "\<not> minFieldConfidence (edtr_source c) (edtr_ocrPayload c) < CONFIDENCE_GATE"
    by (auto simp: evaluateGate_def split: if_splits)
  have "\<bar>toleranceOf i d\<bar> \<le> 2 ^ 37" using tol by simp
  from near_less(2)[OF worstDelta_near this, of "lineItemsOf i d" "lineItemsOf (edtr_id c) d"]
  have "logDistance (lineItemsOf i d) (lineItemsOf (edtr_id c) d) \<le> toleranceOf i d"
    using m q assms(3) by (auto simp: evaluateGate_def not_less[symmetric] split: if_splits)
  then show ?thesis using ri cp q ne counterpartOf_SomeD[OF c] by (intro bexI[of _ r] bexI[of _ c]) auto
qed

definition log_at :: "uuid \<Rightarrow> edtr_source \<Rightarrow> edtr" where
  "log_at i src = \<lparr>edtr_id = i, edtr_tenantId = 1, edtr_rentalId = 5, edtr_equipmentId = 9, edtr_source = src,
     edtr_reportDate = 20000, edtr_rawFileUri = None,
     edtr_ocrPayload = Some (buildManualTranscriptionPayload (js 8) (js 0) ''2024-10-04''),
     edtr_status = Extracted, edtr_attempts = 0, edtr_lockedAt = None, edtr_lastError = None, edtr_createdAt = 0\<rparr>"

definition recon_db :: db where
  "recon_db = empty_db\<lparr>edtrs := [log_at 1 PaperOcr, log_at 2 DigitalEntry],
     edtrLineItems := [line_at 1 800 None, line_at 2 815 (Some 0)]\<rparr>"

lemma recon_db_matches:
  "\<exists>res d'. reconcileEdtr 1 1 recon_db = Inr (res, d') \<and> rr_status res = Matched"
proof -
  have c: "minFieldConfidence s (Some (buildManualTranscriptionPayload x y z)) = js 1" for s x y z
    by (simp add: minFieldConfidence_def buildManualTranscriptionPayload_def)
  have "gr_matched (evaluateGate (js 1) (js 1)
      (hourDeltas (sumHours [line_at 1 800 None]) (sumHours [line_at 2 815 (Some 0)])) (num2 25))"
    using gate_hours[of "[line_at 1 800 None]" "[line_at 2 815 (Some 0)]" 25 "js 1" "js 1"] full_confidence
    by (simp add: hoursOk_def line_at_def logDistance_def activeCenti_def idleCenti_def)
  then show ?thesis
    by (simp add: reconcileEdtr_def recon_db_def empty_db_def counterpartOf_def log_at_def pairable_def
        reconOf_def pairVerdict_def lineItemsOf_def Let_def DEFAULT_TOLERANCE c writeVerdict_def line_at_def)
qed

theorem match_needs_two_logs_witness:
  "logDistance (lineItemsOf 1 recon_db) (lineItemsOf 2 recon_db) \<le> toleranceOf 1 recon_db"
proof -
  obtain res d' where r: "reconcileEdtr 1 1 recon_db = Inr (res, d')" "rr_status res = Matched"
    using recon_db_matches by blast
  have "\<forall>e. hoursOk (lineItemsOf e recon_db)"
    by (simp add: hoursOk_def lineItemsOf_def recon_db_def empty_db_def line_at_def)
  moreover have "\<forall>r \<in> set (edtrReconciliations recon_db). 0 \<le> rec_tolerance r \<and> rec_tolerance r \<le> 999999"
    by (simp add: recon_db_def empty_db_def)
  ultimately show ?thesis using match_needs_two_logs[OF r] by (auto simp: recon_db_def empty_db_def log_at_def)
qed

lemma writeVerdict_keeps:
  assumes "writeVerdict t e ex cp delta tol st adj d = (rid, d1)" "distinct (map rec_id (edtrReconciliations d))"
    and "\<And>x. ex = Some x \<Longrightarrow> x \<in> set (edtrReconciliations d) \<and> \<not> decided x" "st \<noteq> Approved" "st \<noteq> Rejected"
  shows "filter decided (edtrReconciliations d1) = filter decided (edtrReconciliations d) \<and>
    invoices d1 = invoices d \<and> invoiceLineItems d1 = invoiceLineItems d \<and> depositAccruals d1 = depositAccruals d"
proof (cases ex)
  case (Some x)
  note x = assms(3)[OF Some]
  have "filter decided (edtrReconciliations d1) = filter decided (edtrReconciliations d)"
    using assms(1) unfolding Some writeVerdict_def
    by (auto intro!: filter_updw_skip simp: decided_def assms(4,5))
       (use x distinct_map_eq[OF assms(2)] in \<open>fastforce simp: decided_def\<close>)+
  then show ?thesis using assms(1) Some by (auto simp: writeVerdict_def)
qed (use assms in \<open>auto simp: writeVerdict_def decided_def fresh_def\<close>)

lemma setEdtrStatus_tables [simp]:
  "edtrReconciliations (setEdtrStatus e s d) = edtrReconciliations d"
  "invoices (setEdtrStatus e s d) = invoices d" "invoiceLineItems (setEdtrStatus e s d) = invoiceLineItems d"
  "depositAccruals (setEdtrStatus e s d) = depositAccruals d"
  by (simp_all add: setEdtrStatus_def)

lemma undecided_existing:
  "\<not> (case reconOf i d of Some e \<Rightarrow> decided e | None \<Rightarrow> False) \<Longrightarrow> reconOf i d = Some x \<Longrightarrow>
   x \<in> set (edtrReconciliations d) \<and> \<not> decided x"
  by (auto simp: reconOf_def dest: find_SomeD)

text \<open>
  C6. A decided day is decided once. Whatever log is reconciled again, by the worker, a new capture
  or a backfill, the approved and rejected rows stay exactly as they are and no new one appears: only
  a person's decision makes a row approved, so the machine can never re-open a deduction.
\<close>

theorem reconcile_keeps_decisions:
  assumes "reconcileEdtr t i d = Inr (res, d')" "distinct (map rec_id (edtrReconciliations d))"
  shows "filter decided (edtrReconciliations d') = filter decided (edtrReconciliations d) \<and>
    invoices d' = invoices d \<and> invoiceLineItems d' = invoiceLineItems d \<and> depositAccruals d' = depositAccruals d"
proof -
  obtain r where r: "find (\<lambda>r. edtr_id r = i) (edtrs d) = Some r"
    using assms by (auto simp: reconcileEdtr_def split: option.splits)
  show ?thesis
  proof (cases "case reconOf i d of Some e \<Rightarrow> decided e | None \<Rightarrow> False")
    case True
    then show ?thesis using assms(1) r by (auto simp: reconcileEdtr_def Let_def)
  next
    case False
    note keeps = writeVerdict_keeps[OF _ assms(2) undecided_existing[OF False]]
    show ?thesis
    proof (cases "counterpartOf t r d")
      case None
      then show ?thesis using assms(1) r False
        by (auto simp: reconcileEdtr_def Let_def split: prod.splits dest!: keeps)
    next
      case (Some c)
      then show ?thesis using assms(1) r False
        by (auto simp: reconcileEdtr_def Let_def split: prod.splits dest!: keeps split: if_splits)
    qed
  qed
qed

theorem reconcile_keeps_decisions_witness:
  "\<exists>res d'. reconcileEdtr 1 1 recon_db = Inr (res, d') \<and>
     filter decided (edtrReconciliations d') = [] \<and> invoices d' = []"
proof -
  obtain res d' where r: "reconcileEdtr 1 1 recon_db = Inr (res, d')" using recon_db_matches by blast
  have "distinct (map rec_id (edtrReconciliations recon_db))" by (simp add: recon_db_def empty_db_def)
  from reconcile_keeps_decisions[OF r this] r show ?thesis by (simp add: recon_db_def empty_db_def)
qed

text \<open>
  At equality the gate is stricter than the tolerance it stores: logs of 1.07 and 0.82 hours differ
  by exactly 0.25, but their doubles differ by more, so the pair is rejected although the stored
  delta is the tolerance itself.
\<close>

lemma one_line: "\<bar>k\<bar> \<le> 2 ^ 45 \<Longrightarrow> isn (hs_active (sumHours [line_at e k None])) (dbl.cv k)"
proof -
  assume k: "\<bar>k\<bar> \<le> 2 ^ 45"
  have z: "isn (js 0) 0" using js_isn[of 0] by simp
  have n: "isn (num2 k) (dbl.cv k)" using amt_num2[OF k] by (simp add: amt_def)
  have "isn (js 0 + num2 k) (fl (0 + dbl.cv k))"
    by (rule isn_plus[OF z n]) (use cv_bound[OF k] in simp)
  then show ?thesis by (simp add: sumHours_eq line_at_def dbl.cv_def fl_idem)
qed

lemma boundary_rejected:
  "\<not> gr_matched (evaluateGate (js 1) (js 1)
      (hourDeltas (sumHours [line_at 1 107 None]) (sumHours [line_at 2 82 None])) (num2 25))"
proof -
  let ?x = "hs_active (sumHours [line_at 1 107 None])" and ?y = "hs_active (sumHours [line_at 2 82 None])"
  have a: "dbl.cv 107 = 4818851601286431 / 2 ^ 52"
    using rnd_eqI[of 4818851601286431 "-52" "107 / 100"] by (simp add: fl_def dbl.cv_def)
  have b: "dbl.cv 82 = 7385903388887613 / 2 ^ 53"
    using rnd_eqI[of 7385903388887613 "-53" "82 / 100"] by (simp add: fl_def dbl.cv_def)
  have d: "fl (4818851601286431 / 2 ^ 52 - 7385903388887613 / 2 ^ 53) = 4503599627370498 / 2 ^ 54"
    using rnd_eqI[of 4503599627370498 "-54" "4818851601286431 / 2 ^ 52 - 7385903388887613 / 2 ^ 53"]
    by (simp add: fl_def)
  have t: "dbl.cv 25 = 1 / 4" using rnd_exact[of 1 "- 2"] by (simp add: dbl.cv_def fl_def)
  have "isn (?x - ?y) (4503599627370498 / 2 ^ 54)"
    using isn_minus[OF one_line[of 107 1] one_line[of 82 2]] unfolding a b d by simp
  from isn_math_abs[OF this] have "isn (math_abs (?x - ?y)) (4503599627370498 / 2 ^ 54)" by simp
  moreover have "isn (num2 25) (1 / 4)" using amt_num2[of 25] by (simp add: amt_def t)
  ultimately have "num2 25 < math_abs (?x - ?y)" using isn_less[of "num2 25" "1 / 4"] by simp
  moreover have "hs_idle (sumHours [line_at e k None]) = None" for e k by (simp add: sumHours_eq line_at_def)
  ultimately show ?thesis
    using \<open>isn (math_abs (?x - ?y)) (4503599627370498 / 2 ^ 54)\<close>
    by (simp add: evaluateGate_def worstDelta_def comparableDeltas_def hourDeltas_def math_max_Inf full_confidence)
qed

end
