(* ===== verification/OcrAccuracy.thy ===== *)
theory OcrAccuracy
  imports JsNumber
begin

text \<open>
  The accuracy gate of \<open>packages/shared/src/ocr-accuracy.ts\<close> and the attested result the runtime
  reads (\<open>attestedOcrAccuracyFailure\<close> of \<open>apps/api/src/edtr/edtr.service.ts\<close>): the numbers come
  from the environment, so they may be NaN, infinite or absent. The computation of the accuracy
  itself (\<open>computeAccuracy\<close>, an offline harness over labelled samples) is not modelled.
\<close>

record accuracy_report =
  rep_overall :: number
  rep_sampleCount :: number

datatype gate_failure = EmptyGoldenSet | BelowThreshold number number number

definition OCR_ACCURACY_THRESHOLD :: number where
  "OCR_ACCURACY_THRESHOLD = js (9006 / 10000)"

datatype corpus_kind = EdtrCorpus | KycCorpus

fun OCR_CORPUS_FLOOR :: "corpus_kind \<Rightarrow> number" where
  "OCR_CORPUS_FLOOR EdtrCorpus = js 200"
| "OCR_CORPUS_FLOOR KycCorpus = js 50"

definition meetsCorpusFloor :: "corpus_kind \<Rightarrow> number \<Rightarrow> bool" where
  "meetsCorpusFloor kind sampleCount \<longleftrightarrow> OCR_CORPUS_FLOOR kind \<le> sampleCount"

text \<open>\<open>=== 0\<close> holds of both zeros.\<close>

definition isZero :: "number \<Rightarrow> bool" where
  "isZero x \<longleftrightarrow> (case x of Num _ m \<Rightarrow> m = 0 | _ \<Rightarrow> False)"

definition assertAccuracyGate :: "accuracy_report \<Rightarrow> number \<Rightarrow> gate_failure option" where
  "assertAccuracyGate report threshold =
     (if isZero (rep_sampleCount report) then Some EmptyGoldenSet
      else if rep_overall report < threshold
      then Some (BelowThreshold (rep_overall report) threshold (rep_sampleCount report))
      else None)"

record env =
  ocrPipelineEnabled :: bool
  ocrMeasuredAccuracy :: number
  ocrMeasuredSamples :: number

datatype attestation_failure = NotAttested | BelowFloor number | GateUnmet gate_failure

definition attestedOcrAccuracyFailure :: "env \<Rightarrow> attestation_failure option" where
  "attestedOcrAccuracyFailure e =
     (let overall = ocrMeasuredAccuracy e; sampleCount = ocrMeasuredSamples e in
      if \<not> isFinite overall \<or> \<not> isFinite sampleCount then Some NotAttested
      else if sampleCount < OCR_CORPUS_FLOOR EdtrCorpus then Some (BelowFloor sampleCount)
      else map_option GateUnmet
        (assertAccuracyGate \<lparr>rep_overall = overall, rep_sampleCount = sampleCount\<rparr> OCR_ACCURACY_THRESHOLD))"

lemma finite_not_less: "isFinite x \<Longrightarrow> isFinite y \<Longrightarrow> \<not> x < y \<longleftrightarrow> y \<le> (x :: number)"
  by (cases x; cases y) auto

lemma attested_ok:
  "attestedOcrAccuracyFailure e = None \<longleftrightarrow>
     isFinite (ocrMeasuredAccuracy e) \<and> isFinite (ocrMeasuredSamples e) \<and>
     \<not> ocrMeasuredSamples e < js 200 \<and> \<not> isZero (ocrMeasuredSamples e) \<and>
     \<not> ocrMeasuredAccuracy e < OCR_ACCURACY_THRESHOLD"
  by (auto simp: attestedOcrAccuracyFailure_def Let_def assertAccuracyGate_def split: if_splits)

text \<open>
  The accuracy gate fails closed. Whatever the environment holds, NaN and infinities included,
  no failure is reported only if the attested accuracy and sample count are finite, the count is at
  least 200 and the accuracy at least 0.9006; an absent attestation (NaN) always fails.
\<close>

theorem accuracy_gate_fails_closed:
  "(attestedOcrAccuracyFailure e = None \<longleftrightarrow>
     isFinite (ocrMeasuredAccuracy e) \<and> isFinite (ocrMeasuredSamples e) \<and>
     js 200 \<le> ocrMeasuredSamples e \<and> OCR_ACCURACY_THRESHOLD \<le> ocrMeasuredAccuracy e) \<and>
   (attestedOcrAccuracyFailure e = Some NotAttested \<longleftrightarrow>
     \<not> (isFinite (ocrMeasuredAccuracy e) \<and> isFinite (ocrMeasuredSamples e)))"
proof
  have f: "isFinite (js 200)" "isFinite OCR_ACCURACY_THRESHOLD"
    unfolding OCR_ACCURACY_THRESHOLD_def by (rule isn_finite[OF js_isn], simp)+
  have z: "isZero x \<Longrightarrow> x < js 200" for x
  proof -
    assume "isZero x"
    then have "isn x 0" by (cases x) (auto simp: isZero_def isn_def)
    moreover have "isn (js 200) 200" using js_isn[of 200] fl_of_int[of 200] by simp
    ultimately show ?thesis using isn_less by fastforce
  qed
  show "attestedOcrAccuracyFailure e = None \<longleftrightarrow>
     isFinite (ocrMeasuredAccuracy e) \<and> isFinite (ocrMeasuredSamples e) \<and>
     js 200 \<le> ocrMeasuredSamples e \<and> OCR_ACCURACY_THRESHOLD \<le> ocrMeasuredAccuracy e"
    unfolding attested_ok using f z[of "ocrMeasuredSamples e"] finite_not_less[of "ocrMeasuredSamples e" "js 200"]
      finite_not_less[of "ocrMeasuredAccuracy e" OCR_ACCURACY_THRESHOLD] by auto
  show "attestedOcrAccuracyFailure e = Some NotAttested \<longleftrightarrow>
     \<not> (isFinite (ocrMeasuredAccuracy e) \<and> isFinite (ocrMeasuredSamples e))"
    by (auto simp: attestedOcrAccuracyFailure_def Let_def)
qed

end
