(* ===== verification/DepositLedger.thy ===== *)
theory DepositLedger
  imports Schema
begin

text \<open>
  The deposit ledger of a rental (\<open>packages/db/src/deposit-ledger.ts\<close>): the tenant's billing
  settings, the deposit a quote opens its contract with, how an approved charge is split between
  the deposit and an unbilled accrual, the low-balance test, and the ledger read itself.
\<close>

section \<open>The code\<close>

definition DEFAULT_DEPOSIT_PHP :: number where
  "DEFAULT_DEPOSIT_PHP = js 5000"

record settings =
  dailyHours :: number
  minDepositPhp :: number
  lowBalancePct :: number
  depositPct :: number
  mobilizationPhp :: number
  demobilizationPhp :: number
  minHours :: number

definition getBillingSettings :: "uuid \<Rightarrow> db \<Rightarrow> settings" where
  "getBillingSettings tenantId d =
     (case find (\<lambda>r. bs_tenantId r = tenantId) (billingSettings d) of
        Some row \<Rightarrow>
          \<lparr>dailyHours = num2 (bs_dailyHours row),
           minDepositPhp = num2 (bs_minDepositPhp row),
           lowBalancePct = num2 (bs_lowBalancePct row),
           depositPct = num2 (bs_depositPct row),
           mobilizationPhp = num2 (bs_mobilizationPhp row),
           demobilizationPhp = num2 (bs_demobilizationPhp row),
           minHours = num2 (bs_minHours row)\<rparr>
      | None \<Rightarrow>
          \<lparr>dailyHours = js 8, minDepositPhp = DEFAULT_DEPOSIT_PHP, lowBalancePct = js 20,
           depositPct = js 0, mobilizationPhp = js 0, demobilizationPhp = js 0, minHours = js 0\<rparr>)"

text \<open>JavaScript's falsy numbers: the two zeros and NaN.\<close>

fun falsy :: "number \<Rightarrow> bool" where
  "falsy NaN = True"
| "falsy (Num _ m) = (m = 0)"
| "falsy (Inf _) = False"

definition depositForQuote :: "settings \<Rightarrow> number option \<Rightarrow> number" where
  "depositForQuote st rentedHoursValue =
     (case rentedHoursValue of
        None \<Rightarrow> minDepositPhp st
      | Some v \<Rightarrow>
          if falsy v \<or> v \<le> js 0 \<or> depositPct st \<le> js 0 then minDepositPhp st
          else cents (v * depositPct st / js 100))"

record split =
  deducted :: number
  accrued :: number
  balanceAfter :: number

definition splitDeduction :: "number \<Rightarrow> number \<Rightarrow> split" where
  "splitDeduction balanceBefore amount =
     (let available = math_max (js 0) (cents balanceBefore);
          ded = math_min available (cents amount)
      in \<lparr>deducted = ded, accrued = cents (amount - ded), balanceAfter = cents (available - ded)\<rparr>)"

definition crossesLowBalance :: "number \<Rightarrow> number \<Rightarrow> number \<Rightarrow> number \<Rightarrow> bool" where
  "crossesLowBalance depositRequired before after pct =
     (let threshold = (depositRequired * pct) / js 100
      in js 0 < depositRequired \<and> threshold < before \<and> after \<le> threshold)"

record deduction =
  ded_invoiceId :: uuid
  ded_amount :: number
  ded_createdAt :: time

record ledger =
  led_depositRequired :: number
  led_deductions :: "deduction list"
  led_totalDeducted :: number
  led_totalAccrued :: number
  led_unbilledAccrued :: number
  led_hoursUsed :: number
  led_hoursOrdered :: "number option"

definition latestQuotation :: "uuid \<Rightarrow> db \<Rightarrow> quotation option" where
  "latestQuotation rentalId d =
     latestBy quo_createdAt (filter (\<lambda>q. quo_rentalId q = Some rentalId) (quotations d))"

definition latestContract :: "uuid \<Rightarrow> db \<Rightarrow> rental_contract option" where
  "latestContract quotationId d =
     latestBy con_createdAt (filter (\<lambda>c. con_quotationId c = quotationId) (rentalContracts d))"

text \<open>\<open>sum(...)\<close> in SQL is exact, and NULL over no rows.\<close>

definition sqlSum :: "('a \<Rightarrow> int) \<Rightarrow> 'a list \<Rightarrow> int option" where
  "sqlSum f rows = (if rows = [] then None else Some (\<Sum>r\<leftarrow>rows. f r))"

definition deductionRows :: "uuid \<Rightarrow> db \<Rightarrow> invoice list" where
  "deductionRows rentalId d =
     orderByDesc inv_createdAt
       (filter (\<lambda>i. inv_rentalId i = Some rentalId \<and> inv_invoiceType i = DepositDeduction) (invoices d))"

definition resolveDepositLedger :: "uuid \<Rightarrow> uuid \<Rightarrow> db \<Rightarrow> ledger" where
  "resolveDepositLedger rentalId tenantId d =
     (let quotation = latestQuotation rentalId d;
          contract = (case quotation of None \<Rightarrow> None | Some q \<Rightarrow> latestContract (quo_id q) d);
          hoursOrdered =
            (case quotation of
               None \<Rightarrow> None
             | Some q \<Rightarrow> map_option num2
                 (sqlSum (\<lambda>i. qi_estimatedHours i * qi_quantity i)
                    (filter (\<lambda>i. qi_quotationId i = quo_id q) (quotationItems d))));
          depositRequired =
            (case contract of
               Some c \<Rightarrow> num2 (con_depositRequired c)
             | None \<Rightarrow> minDepositPhp (getBillingSettings tenantId d));
          rows = deductionRows rentalId d;
          accruals = filter (\<lambda>a. acc_rentalId a = rentalId) (depositAccruals d);
          deductionHours =
            sqlSum ili_quantity (filter (\<lambda>l. ili_invoiceId l \<in> set (map inv_id rows)) (invoiceLineItems d))
      in \<lparr>led_depositRequired = depositRequired,
          led_deductions = map (\<lambda>r. \<lparr>ded_invoiceId = inv_id r, ded_amount = num2 (inv_amount r),
             ded_createdAt = inv_createdAt r\<rparr>) rows,
          led_totalDeducted = foldl (\<lambda>s r. s + num2 (inv_amount r)) (js 0) rows,
          led_totalAccrued = cents (foldl (\<lambda>s r. s + num2 (acc_amount r)) (js 0) accruals),
          led_unbilledAccrued = cents (foldl (\<lambda>s r. s + num2 (acc_amount r)) (js 0)
             (filter (\<lambda>a. acc_invoiceId a = None) accruals)),
          led_hoursUsed = cents ((case deductionHours of None \<Rightarrow> js 0 | Some h \<Rightarrow> num2 h)
             + foldl (\<lambda>s r. s + num2 (acc_hours r)) (js 0) accruals),
          led_hoursOrdered = hoursOrdered\<rparr>)"

section \<open>Amounts in the ledger\<close>

lemma amt_js_0: "amt (js 0) 0"
  using amt_num2[of 0] by (simp add: num2_def)

text \<open>A charge split in whole centavos: what \<open>splitDeduction\<close> computes, without rounding.\<close>

definition split_spec :: "int \<Rightarrow> int \<Rightarrow> int \<times> int \<times> int" where
  "split_spec b x = (let a = max 0 b; d = min a x in (d, x - d, a - d))"

lemma split_amounts:
  assumes b: "amt bal b" and x: "amt a x" and bb: "\<bar>b\<bar> \<le> 2 ^ 43" and xb: "\<bar>x\<bar> \<le> 2 ^ 43"
  shows "amt (deducted (splitDeduction bal a)) (min (max 0 b) x)"
    and "amt (accrued (splitDeduction bal a)) (x - min (max 0 b) x)"
    and "amt (balanceAfter (splitDeduction bal a)) (max 0 b - min (max 0 b) x)"
proof -
  let ?av = "math_max (js 0) (cents bal)"
  let ?d = "math_min ?av (cents a)"
  have 1: "amt (cents bal) b" using b bb by (intro amt_cents) auto
  have av: "amt ?av (max 0 b)" by (rule amt_math_max[OF amt_js_0 1]) (use bb in auto)
  have 2: "amt (cents a) x" using x xb by (intro amt_cents) auto
  have d: "amt ?d (min (max 0 b) x)" by (rule amt_math_min[OF av 2]) (use bb xb in auto)
  have mb: "\<bar>min (max 0 b) x\<bar> \<le> 2 ^ 44" using bb xb by (auto simp: min_def max_def)
  have 3: "amt (cents (a - ?d)) (x - min (max 0 b) x)" by (rule amt_sub[OF x d]) (use xb mb in auto)
  have 4: "amt (cents (?av - ?d)) (max 0 b - min (max 0 b) x)"
    by (rule amt_sub[OF av d]) (use bb mb in \<open>auto simp: max_def\<close>)
  show "amt (deducted (splitDeduction bal a)) (min (max 0 b) x)"
    and "amt (accrued (splitDeduction bal a)) (x - min (max 0 b) x)"
    and "amt (balanceAfter (splitDeduction bal a)) (max 0 b - min (max 0 b) x)"
    using d 3 4 by (simp_all add: splitDeduction_def Let_def)
qed

section \<open>The interface of a deposit split\<close>

text \<open>
  What a caller of \<open>splitDeduction\<close> relies on: in whole centavos, the deposit gives what it can,
  the rest accrues, and the new balance is what is left. The lemma draws a list of charges from a
  deposit one after the other, as successive approvals do.
\<close>

fun chargeRun :: "(number \<Rightarrow> number \<Rightarrow> split) \<Rightarrow> number \<Rightarrow> number list \<Rightarrow> split list" where
  "chargeRun sp bal [] = []"
| "chargeRun sp bal (a # as) = sp bal a # chargeRun sp (balanceAfter (sp bal a)) as"

locale deposit_split =
  fixes sp :: "number \<Rightarrow> number \<Rightarrow> split"
  assumes split_law: "\<lbrakk>amt bal b; amt a x; 0 \<le> b; b \<le> 2 ^ 43; 0 \<le> x; x \<le> 2 ^ 43\<rbrakk> \<Longrightarrow>
      amt (deducted (sp bal a)) (min b x) \<and> amt (accrued (sp bal a)) (x - min b x) \<and>
      amt (balanceAfter (sp bal a)) (b - min b x)"
begin

lemma split_columns:
  assumes "amt bal b" "amt a x" "0 \<le> b" "b \<le> 2 ^ 43" "0 \<le> x" "x \<le> 2 ^ 43"
  shows "col2 (deducted (sp bal a)) = min b x" "col2 (accrued (sp bal a)) = x - min b x"
    "col2 (balanceAfter (sp bal a)) = b - min b x"
  using split_law[OF assms] assms by (auto intro!: amt_col2)

lemma run_conserves:
  assumes "amt bal b" "list_all2 amt as xs" "0 \<le> b" "b \<le> 2 ^ 43" "\<forall>x \<in> set xs. 0 \<le> x \<and> x \<le> 2 ^ 43"
  shows "(\<Sum>s\<leftarrow>chargeRun sp bal as. col2 (deducted s)) = min b (sum_list xs)"
    and "(\<Sum>s\<leftarrow>chargeRun sp bal as. col2 (accrued s)) = sum_list xs - min b (sum_list xs)"
  using assms
proof (induction as arbitrary: bal b xs)
  case Nil
  { case 1 then show ?case by simp }
  { case 2 then show ?case by simp }
next
  case (Cons a as)
  have split: "\<exists>x xs'. xs = x # xs' \<and> amt a x \<and> list_all2 amt as xs'" if "list_all2 amt (a # as) xs" for xs
    using that by (cases xs) auto
  { case 1
    obtain x xs' where xs: "xs = x # xs'" "amt a x" "list_all2 amt as xs'" using split[OF 1(2)] by blast
    have x: "0 \<le> x" "x \<le> 2 ^ 43" using 1(5) xs(1) by auto
    note c = split_columns[OF 1(1) xs(2) 1(3,4) x] and l = split_law[OF 1(1) xs(2) 1(3,4) x]
    have nn: "0 \<le> sum_list xs'" using 1(5) xs(1) by (auto intro!: sum_list_nonneg)
    have "(\<Sum>s\<leftarrow>chargeRun sp (balanceAfter (sp bal a)) as. col2 (deducted s)) = min (b - min b x) (sum_list xs')"
      by (rule Cons.IH(1)) (use l xs 1 x in auto)
    with c nn x xs(1) 1(3) show ?case by auto }
  { case 2
    obtain x xs' where xs: "xs = x # xs'" "amt a x" "list_all2 amt as xs'" using split[OF 2(2)] by blast
    have x: "0 \<le> x" "x \<le> 2 ^ 43" using 2(5) xs(1) by auto
    note c = split_columns[OF 2(1) xs(2) 2(3,4) x] and l = split_law[OF 2(1) xs(2) 2(3,4) x]
    have nn: "0 \<le> sum_list xs'" using 2(5) xs(1) by (auto intro!: sum_list_nonneg)
    have "(\<Sum>s\<leftarrow>chargeRun sp (balanceAfter (sp bal a)) as. col2 (accrued s))
        = sum_list xs' - min (b - min b x) (sum_list xs')"
      by (rule Cons.IH(2)) (use l xs 2 x in auto)
    with c nn x xs(1) 2(3) show ?case by auto }
qed

end

interpretation dep: deposit_split splitDeduction
proof unfold_locales
  fix bal a b x
  assume "amt bal b" "amt a x" "(0::int) \<le> b" "b \<le> 2 ^ 43" "(0::int) \<le> x" "x \<le> 2 ^ 43"
  then show "amt (deducted (splitDeduction bal a)) (min b x) \<and> amt (accrued (splitDeduction bal a)) (x - min b x) \<and>
      amt (balanceAfter (splitDeduction bal a)) (b - min b x)"
    using split_amounts[of bal b a x] by simp
qed

section \<open>Properties\<close>

text \<open>
  C2. No centavo is lost or invented when charges are drawn from a deposit. For a deposit of \<open>b\<close>
  centavos and any list of charges of \<open>xs\<close> centavos, run one after the other through
  \<open>splitDeduction\<close> in binary64, the amounts stored as deductions add up to
  \<open>min b (sum xs)\<close> and those stored as accruals to the rest: the deposit is never overdrawn, is used
  up before anything accrues, and every charge is billed in full exactly once.
\<close>

theorem charges_conserved:
  assumes "amt bal b" "list_all2 amt as xs" "0 \<le> b" "b \<le> 2 ^ 43" "\<forall>x \<in> set xs. 0 \<le> x \<and> x \<le> 2 ^ 43"
  shows "(\<Sum>s\<leftarrow>chargeRun splitDeduction bal as. col2 (deducted s)) = min b (sum_list xs) \<and>
         (\<Sum>s\<leftarrow>chargeRun splitDeduction bal as. col2 (accrued s)) = sum_list xs - min b (sum_list xs)"
  using dep.run_conserves[OF assms] by blast

theorem charges_conserved_witness:
  "(\<Sum>s\<leftarrow>chargeRun splitDeduction (num2 500000) [num2 320010, num2 320010]. col2 (deducted s)) = 500000 \<and>
   (\<Sum>s\<leftarrow>chargeRun splitDeduction (num2 500000) [num2 320010, num2 320010]. col2 (accrued s)) = 140020"
  using charges_conserved[of "num2 500000" 500000 "[num2 320010, num2 320010]" "[320010, 320010]"]
    amt_num2[of 500000] amt_num2[of 320010] by simp

lemma number_le_trans: "a \<le> b \<Longrightarrow> b \<le> c \<Longrightarrow> a \<le> (c :: number)"
  by (cases a; cases b; cases c) (auto split: if_splits)

lemma number_le_not_less: "a \<le> b \<Longrightarrow> \<not> b < (a :: number)"
  by (cases a; cases b) (auto split: if_splits)

lemma not_above_after:
  assumes "sorted_wrt (\<lambda>a b. b \<le> a) (b # bs)" "b \<le> t"
  shows "\<forall>x \<in> set bs. \<not> t < (x :: number)"
  using assms number_le_trans[of _ b t] number_le_not_less[of _ t] by auto

lemma no_crossing_below:
  assumes "\<forall>x \<in> set bs. \<not> t < (x :: number)"
  shows "filter (\<lambda>(x, y). t < x \<and> y \<le> t) (zip bs cs) = []"
  using assms by (auto simp: filter_empty_conv dest: set_zip_leftD)

lemma crossings_once:
  fixes t :: number
  assumes "sorted_wrt (\<lambda>a b. b \<le> a) bs"
  shows "length (filter (\<lambda>(x, y). t < x \<and> y \<le> t) (zip bs (tl bs))) \<le> 1"
  using assms
proof (induction bs)
  case (Cons b bs)
  show ?case
  proof (cases bs)
    case (Cons c cs)
    have ih: "length (filter (\<lambda>(x, y). t < x \<and> y \<le> t) (zip (c # cs) cs)) \<le> 1"
      using Cons.IH Cons.prems Cons by simp
    show ?thesis
    proof (cases "c \<le> t")
      case True
      have "\<forall>x \<in> set cs. \<not> t < x" by (rule not_above_after[OF _ True]) (use Cons.prems Cons in simp)
      moreover have "\<not> t < c" using True by (rule number_le_not_less)
      ultimately have "filter (\<lambda>(x, y). t < x \<and> y \<le> t) (zip (c # cs) cs) = []"
        by (intro no_crossing_below) simp
      then show ?thesis by (simp add: Cons)
    next
      case False
      then show ?thesis using ih by (simp add: Cons)
    qed
  qed simp
qed simp

text \<open>
  The low-balance warning fires at most once per rental: over any sequence of balances that
  never rises (each charge starts from the balance the one before left), at most one step crosses
  the threshold, whatever the deposit and the percentage, NaN and infinities included.
\<close>

theorem low_balance_warns_once:
  assumes "sorted_wrt (\<lambda>a b. b \<le> a) balances"
  shows "length (filter (\<lambda>(before, after). crossesLowBalance required before after pct)
           (zip balances (tl balances))) \<le> 1"
proof (cases "js 0 < required")
  case True
  then show ?thesis using crossings_once[OF assms, of "required * pct / js 100"]
    by (simp add: crossesLowBalance_def Let_def)
qed (simp add: crossesLowBalance_def Let_def)

theorem low_balance_warns_once_witness:
  "length (filter (\<lambda>(before, after). crossesLowBalance (num2 500000) before after (num2 2000))
     (zip [num2 500000, num2 90000, num2 80000] (tl [num2 500000, num2 90000, num2 80000]))) \<le> 1"
proof (rule low_balance_warns_once)
  have l: "num2 b \<le> num2 a" if "\<bar>a\<bar> \<le> 2 ^ 45" "\<bar>b\<bar> \<le> 2 ^ 45" "b \<le> a" for a b
    using amt_less_eq[OF amt_num2 amt_num2, of b a] that by simp
  show "sorted_wrt (\<lambda>a b. b \<le> a) [num2 500000, num2 90000, num2 80000]"
    using l[of 500000 90000] l[of 500000 80000] l[of 90000 80000] by simp
qed

lemma sum_list_filter_le:
  "\<forall>x \<in> set xs. 0 \<le> f x \<Longrightarrow> (\<Sum>x\<leftarrow>filter p xs. f x) \<le> (\<Sum>x\<leftarrow>xs. (f x :: int))"
  by (induction xs) auto

definition rentalAccruals :: "uuid \<Rightarrow> db \<Rightarrow> accrual list" where
  "rentalAccruals rentalId d = filter (\<lambda>a. acc_rentalId a = rentalId) (depositAccruals d)"

text \<open>
  The deposit ledger adds up: over at most 4096 accruals of the rental, none negative, that
  total at most \<open>2 ^ 36\<close> centavos, the reported accrued total is the exact sum of the stored
  amounts, and the unbilled part is the exact sum over the rows no invoice claims yet.
\<close>

theorem ledger_accruals_exact:
  assumes nn: "\<forall>a \<in> set (rentalAccruals rid d). 0 \<le> acc_amount a"
    and sum: "(\<Sum>a\<leftarrow>rentalAccruals rid d. acc_amount a) \<le> 2 ^ 36"
    and len: "length (rentalAccruals rid d) \<le> 4096"
  shows "amt (led_totalAccrued (resolveDepositLedger rid t d)) (\<Sum>a\<leftarrow>rentalAccruals rid d. acc_amount a) \<and>
    amt (led_unbilledAccrued (resolveDepositLedger rid t d))
      (\<Sum>a\<leftarrow>filter (\<lambda>a. acc_invoiceId a = None) (rentalAccruals rid d). acc_amount a)"
proof -
  let ?A = "rentalAccruals rid d"
  let ?U = "filter (\<lambda>a. acc_invoiceId a = None) ?A"
  have le: "(\<Sum>a\<leftarrow>?U. acc_amount a) \<le> (\<Sum>a\<leftarrow>?A. acc_amount a)"
    using nn by (rule sum_list_filter_le)
  have 1: "amt (cents (foldl (\<lambda>s r. s + num2 (acc_amount r)) (js 0) ?A)) (\<Sum>a\<leftarrow>?A. acc_amount a)"
    using assms by (intro amt_sum) auto
  have "length ?U \<le> 4096" using len length_filter_le[of _ ?A] by (rule order_trans[rotated])
  then have 2: "amt (cents (foldl (\<lambda>s r. s + num2 (acc_amount r)) (js 0) ?U)) (\<Sum>a\<leftarrow>?U. acc_amount a)"
    using nn le sum by (intro amt_sum) auto
  show ?thesis using 1 2 by (simp add: resolveDepositLedger_def Let_def rentalAccruals_def)
qed

definition accrual_at :: "uuid \<Rightarrow> int \<Rightarrow> uuid option \<Rightarrow> accrual" where
  "accrual_at i a bill =
     \<lparr>acc_id = i, acc_tenantId = 1, acc_rentalId = 5, acc_reconciliationId = i, acc_hours = 800,
      acc_unitPrice = 1, acc_amount = a, acc_invoiceId = bill\<rparr>"

definition ledger_db :: db where
  "ledger_db = empty_db\<lparr>depositAccruals := [accrual_at 1 1010 None, accrual_at 2 2005 (Some 9), accrual_at 3 70 None]\<rparr>"

theorem ledger_accruals_exact_witness:
  "amt (led_totalAccrued (resolveDepositLedger 5 1 ledger_db)) 3085 \<and>
   amt (led_unbilledAccrued (resolveDepositLedger 5 1 ledger_db)) 1080"
proof -
  have A: "rentalAccruals 5 ledger_db = [accrual_at 1 1010 None, accrual_at 2 2005 (Some 9), accrual_at 3 70 None]"
    by (simp add: rentalAccruals_def ledger_db_def accrual_at_def empty_db_def)
  show ?thesis using ledger_accruals_exact[of 5 ledger_db 1] unfolding A by (simp add: accrual_at_def)
qed

end
