(* ===== verification/Pricing.thy ===== *)
theory Pricing
  imports DepositLedger
begin

text \<open>
  The diesel-indexed pricing engine (\<open>apps/api/src/quotes/pricing-engine.service.ts\<close>, with
  \<open>rentFor\<close> of \<open>packages/shared/src/quotes.ts\<close>): which diesel price and parameters a quote uses,
  the rent of a machine in its rate card's unit, the price of a line, and the totals of a quote.
\<close>

section \<open>Rent\<close>

datatype rent_unit = Hourly | Daily | Monthly

fun rent_unit_name :: "rent_unit \<Rightarrow> string" where
  "rent_unit_name Hourly = ''hourly''"
| "rent_unit_name Daily = ''daily''"
| "rent_unit_name Monthly = ''monthly''"

record rent_part =
  part_rateType :: rent_unit
  part_ratePhp :: number
  part_count :: number

definition DAYS_PER_MONTH :: number where
  "DAYS_PER_MONTH = js 30"

definition rentFor ::
  "rent_unit \<Rightarrow> number \<Rightarrow> number \<Rightarrow> number \<Rightarrow> number option \<Rightarrow> number \<times> rent_part list" where
  "rentFor rateType ratePhp hours dailyHrs dailyRatePhp =
     (if rateType = Hourly then
        (ratePhp * hours, [\<lparr>part_rateType = rateType, part_ratePhp = ratePhp, part_count = hours\<rparr>])
      else
        let days = hours / dailyHrs in
        if rateType = Daily then
          (ratePhp * days, [\<lparr>part_rateType = rateType, part_ratePhp = ratePhp, part_count = days\<rparr>])
        else
          let months = math_floor (days / DAYS_PER_MONTH);
              rest = days - months * DAYS_PER_MONTH;
              count = days / DAYS_PER_MONTH;
              prorated = (ratePhp * count,
                [\<lparr>part_rateType = rateType, part_ratePhp = ratePhp, part_count = count\<rparr>])
          in case dailyRatePhp of
               None \<Rightarrow> prorated
             | Some daily \<Rightarrow>
                 if js 0 < rest then
                   (months * ratePhp + rest * daily,
                    (if js 0 < months
                     then [\<lparr>part_rateType = rateType, part_ratePhp = ratePhp, part_count = months\<rparr>]
                     else [])
                    @ [\<lparr>part_rateType = Daily, part_ratePhp = daily, part_count = rest\<rparr>])
                 else prorated)"

section \<open>Diesel price and parameters\<close>

definition STALENESS_WINDOW_DAYS :: int where
  "STALENESS_WINDOW_DAYS = 7"

definition round2HalfUp :: "number \<Rightarrow> number" where
  "round2HalfUp value = math_round ((value + EPSILON) * js 100) / js 100"

record diesel =
  ds_pricePhp :: number
  ds_observedDate :: date
  ds_source :: string
  ds_stale :: bool
  ds_readingId :: "uuid option"
  ds_pricingParamsId :: uuid
  ds_operatorHourlyPhp :: number
  ds_maintenanceHourlyPhp :: number
  ds_bufferPct :: number
  ds_fuelLPerHour :: number
  ds_fuelLPerKm :: number
  ds_transportPhpPerKm :: number

definition effectiveParams :: "time \<Rightarrow> uuid \<Rightarrow> string \<Rightarrow> db \<Rightarrow> pricing_params option" where
  "effectiveParams now tenantId region d =
     latestBy pp_effectiveFrom
       (filter (\<lambda>p. pp_tenantId p = tenantId \<and> pp_region p = region \<and> pp_effectiveFrom p \<le> now \<and>
            (case pp_effectiveTo p of None \<Rightarrow> True | Some t \<Rightarrow> now \<le> t)) (pricingParameters d))"

definition resolveDieselAndParams :: "time \<Rightarrow> uuid \<Rightarrow> string \<Rightarrow> db \<Rightarrow> http_error + diesel" where
  "resolveDieselAndParams now tenantId region d =
     (let staleBefore = now - STALENESS_WINDOW_DAYS * DAY_MS in
      case effectiveParams now tenantId region d of
        None \<Rightarrow> Inl (Unprocessable ''no_diesel_price'')
      | Some params \<Rightarrow>
          let resolved = (\<lambda>price date source stale reading.
                \<lparr>ds_pricePhp = price, ds_observedDate = date, ds_source = source, ds_stale = stale,
                 ds_readingId = reading,
                 ds_pricingParamsId = pp_id params,
                 ds_operatorHourlyPhp = num2 (pp_operatorHourlyPhp params),
                 ds_maintenanceHourlyPhp = num2 (pp_maintenanceHourlyPhp params),
                 ds_bufferPct = numd 4 (pp_bufferPct params),
                 ds_fuelLPerHour = numd 3 (pp_fuelLPerHour params),
                 ds_fuelLPerKm = numd 3 (pp_fuelLPerKm params),
                 ds_transportPhpPerKm = num2 (pp_transportPhpPerKm params)\<rparr>);
              fromReading =
                (case latestBy dpr_observedDate
                        (filter (\<lambda>r. dpr_region r = region) (dieselPriceReadings d)) of
                   Some latest \<Rightarrow>
                     Inr (resolved (numd 4 (dpr_pricePhp latest)) (dpr_observedDate latest)
                       (dpr_source latest) (dpr_observedDate latest * DAY_MS < staleBefore)
                       (Some (dpr_id latest)))
                 | None \<Rightarrow> Inl (Unprocessable ''no_diesel_price''))
          in case (pp_dieselOverridePhp params, pp_dieselOverrideDate params) of
               (Some price, Some day) \<Rightarrow>
                 if staleBefore \<le> day * DAY_MS
                 then Inr (resolved (numd 4 price) day ''tenant_override'' False None)
                 else fromReading
             | _ \<Rightarrow> fromReading)"

section \<open>One line\<close>

record equipment_item =
  it_equipmentTypeId :: uuid
  it_quantity :: int
  it_rateCardId :: uuid
  it_estimatedHours :: number
  it_days :: "number option"
  it_mobilizationKm :: number
  it_demobilizationKm :: number
  it_agreedSubtotalPhp :: "number option"

datatype item_input =
    CustomItem string int number
  | EquipmentItem equipment_item

record priced_item =
  pi_custom :: bool
  pi_description :: "string option"
  pi_equipmentTypeId :: "uuid option"
  pi_rateCardId :: "uuid option"
  pi_quantity :: int
  pi_estimatedHours :: number
  pi_mobilizationKm :: number
  pi_demobilizationKm :: number
  pi_hourlyRatePhp :: number
  pi_rentPhp :: number
  pi_rentParts :: "rent_part list"
  pi_operatingCostPhp :: number
  pi_mobilizationCostPhp :: number
  pi_demobilizationCostPhp :: number
  pi_bufferPhp :: number
  pi_subtotalPhp :: number
  pi_pricingInputs :: "(string \<times> jsonv) list"

definition cardEffective :: "time \<Rightarrow> rate_card \<Rightarrow> bool" where
  "cardEffective now rateCard \<longleftrightarrow>
     \<not> (now < rc_effectiveFrom rateCard \<or>
        (case rc_effectiveTo rateCard of None \<Rightarrow> False | Some t \<Rightarrow> t \<le> now))"

text \<open>\<open>ORDER BY equipment_id IS NULL, effective_from DESC LIMIT 1\<close>: a unit's own card first.\<close>

definition unitCardFirst :: "rate_card list \<Rightarrow> rate_card option" where
  "unitCardFirst cards =
     (case latestBy rc_effectiveFrom (filter (\<lambda>c. rc_equipmentId c \<noteq> None) cards) of
        Some c \<Rightarrow> Some c
      | None \<Rightarrow> latestBy rc_effectiveFrom cards)"

definition dailyRateBeside :: "time \<Rightarrow> uuid \<Rightarrow> rate_card \<Rightarrow> db \<Rightarrow> number option" where
  "dailyRateBeside now tenantId rateCard d =
     (let typeWide = (\<lambda>c. rc_equipmentTypeId c = rc_equipmentTypeId rateCard \<and> rc_equipmentId c = None)
      in map_option (\<lambda>c. num2 (rc_rateValue c))
           (unitCardFirst
              (filter (\<lambda>c. rc_tenantId c = tenantId \<and> rc_rateType c = ''daily'' \<and>
                   (case rc_equipmentId rateCard of
                      Some e \<Rightarrow> rc_equipmentId c = Some e \<or> typeWide c
                    | None \<Rightarrow> typeWide c) \<and>
                   rc_effectiveFrom c \<le> now \<and>
                   (case rc_effectiveTo c of None \<Rightarrow> True | Some t \<Rightarrow> now < t)) (rateCards d))))"

definition rentUnit :: "string \<Rightarrow> rent_unit option" where
  "rentUnit rt = find (\<lambda>u. rent_unit_name u = rt) [Hourly, Daily, Monthly]"

definition part_json :: "rent_part \<Rightarrow> jsonv" where
  "part_json p = JObj [(''rateType'', JStr (rent_unit_name (part_rateType p))),
     (''ratePhp'', JNum (part_ratePhp p)), (''count'', JNum (part_count p))]"

definition FORMULA_VERSION :: string where
  "FORMULA_VERSION = ''2.0''"

definition opt_json :: "('a \<Rightarrow> jsonv) \<Rightarrow> 'a option \<Rightarrow> jsonv" where
  "opt_json f x = (case x of None \<Rightarrow> JNull | Some a \<Rightarrow> f a)"

text \<open>The arithmetic of an equipment line, once its rate card passed every check.\<close>

definition priceEquipment ::
  "diesel \<Rightarrow> equipment_item \<Rightarrow> rate_card \<Rightarrow> rent_unit \<Rightarrow> number option \<Rightarrow> number \<Rightarrow> priced_item" where
  "priceEquipment ds input rateCard rateType dailyRatePhp dailyHrs =
     (let quantity = js (of_int (it_quantity input));
          rateCardValuePhp = num2 (rc_rateValue rateCard);
          hours = (case it_days input of Some days \<Rightarrow> days * dailyHrs | None \<Rightarrow> it_estimatedHours input);
          rent = rentFor rateType rateCardValuePhp hours dailyHrs dailyRatePhp;
          fuelPerHourCost = ds_fuelLPerHour ds * ds_pricePhp ds;
          addersPerHour = ds_operatorHourlyPhp ds + ds_maintenanceHourlyPhp ds + fuelPerHourCost;
          hourlyRate = (if js 0 < hours then fst rent / hours else js 0) + addersPerHour;
          operatingCost = (fst rent + addersPerHour * hours) * quantity;
          transportRatePerKm = ds_transportPhpPerKm ds + ds_fuelLPerKm ds * ds_pricePhp ds;
          mobilizationCost = it_mobilizationKm input * transportRatePerKm * quantity;
          demobilizationCost = it_demobilizationKm input * transportRatePerKm * quantity;
          itemBase = operatingCost + mobilizationCost + demobilizationCost;
          buffer = itemBase * ds_bufferPct ds;
          computedSubtotal = round2HalfUp (itemBase + buffer);
          agreed = it_agreedSubtotalPhp input;
          subtotal = (case agreed of Some a \<Rightarrow> round2HalfUp a | None \<Rightarrow> computedSubtotal);
          rentTotal = round2HalfUp (fst rent * quantity)
      in \<lparr>pi_custom = False, pi_description = None,
          pi_equipmentTypeId = Some (it_equipmentTypeId input),
          pi_rateCardId = Some (it_rateCardId input),
          pi_quantity = it_quantity input,
          pi_estimatedHours = hours,
          pi_mobilizationKm = it_mobilizationKm input,
          pi_demobilizationKm = it_demobilizationKm input,
          pi_hourlyRatePhp = round2HalfUp hourlyRate,
          pi_rentPhp = rentTotal,
          pi_rentParts = snd rent,
          pi_operatingCostPhp = round2HalfUp operatingCost,
          pi_mobilizationCostPhp = round2HalfUp mobilizationCost,
          pi_demobilizationCostPhp = round2HalfUp demobilizationCost,
          pi_bufferPhp = round2HalfUp buffer,
          pi_subtotalPhp = subtotal,
          pi_pricingInputs =
            [(''diesel_price_php'', JNum (ds_pricePhp ds)),
             (''diesel_price_date'', JTime (ds_observedDate ds)),
             (''diesel_price_source'', JStr (ds_source ds)),
             (''rate_card_id'', JId (rc_id rateCard)),
             (''rate_card_value_php'', JNum rateCardValuePhp),
             (''rate_card_rate_type'', JStr (rent_unit_name rateType)),
             (''rate_card_equipment_id'', opt_json JId (rc_equipmentId rateCard)),
             (''daily_hours'', JNum dailyHrs),
             (''daily_rate_php'', opt_json JNum dailyRatePhp),
             (''rent_php'', JNum rentTotal),
             (''rent_parts'', JList (map part_json (snd rent)))]
            @ (case agreed of
                 Some _ \<Rightarrow> [(''agreed_subtotal_php'', JNum subtotal),
                            (''computed_subtotal_php'', JNum computedSubtotal)]
               | None \<Rightarrow> [])
            @ [(''rate_card_effective_from'', JTime (rc_effectiveFrom rateCard)),
               (''rate_card_effective_to'', opt_json JTime (rc_effectiveTo rateCard)),
               (''operator_hourly_php'', JNum (ds_operatorHourlyPhp ds)),
               (''maintenance_hourly_php'', JNum (ds_maintenanceHourlyPhp ds)),
               (''buffer_pct'', JNum (ds_bufferPct ds)),
               (''fuel_l_per_hour'', JNum (ds_fuelLPerHour ds)),
               (''fuel_l_per_km'', JNum (ds_fuelLPerKm ds)),
               (''transport_php_per_km'', JNum (ds_transportPhpPerKm ds)),
               (''formula_version'', JStr FORMULA_VERSION)]\<rparr>)"

definition priceItem ::
  "time \<Rightarrow> uuid \<Rightarrow> diesel \<Rightarrow> item_input \<Rightarrow> number \<Rightarrow> db \<Rightarrow> http_error + priced_item" where
  "priceItem now tenantId ds input dailyHrs d =
     (case input of
        CustomItem description quantity unitPricePhp \<Rightarrow>
          Inr \<lparr>pi_custom = True, pi_description = Some description,
               pi_equipmentTypeId = None, pi_rateCardId = None, pi_quantity = quantity,
               pi_estimatedHours = js 0, pi_mobilizationKm = js 0, pi_demobilizationKm = js 0,
               pi_hourlyRatePhp = js 0, pi_rentPhp = js 0, pi_rentParts = [],
               pi_operatingCostPhp = js 0, pi_mobilizationCostPhp = js 0,
               pi_demobilizationCostPhp = js 0, pi_bufferPhp = js 0,
               pi_subtotalPhp = round2HalfUp (unitPricePhp * js (of_int quantity)),
               pi_pricingInputs = [(''unit_price_php'', JNum unitPricePhp),
                 (''formula_version'', JStr FORMULA_VERSION)]\<rparr>
      | EquipmentItem it \<Rightarrow>
          (case find (\<lambda>c. rc_id c = it_rateCardId it \<and> rc_tenantId c = tenantId) (rateCards d) of
             None \<Rightarrow> Inl (Unprocessable ''rate_card_not_found'')
           | Some rateCard \<Rightarrow>
               if \<not> cardEffective now rateCard then Inl (Unprocessable ''rate_card_not_effective'')
               else if rc_equipmentTypeId rateCard \<noteq> it_equipmentTypeId it
               then Inl (Unprocessable ''rate_card_type_mismatch'')
               else case rentUnit (rc_rateType rateCard) of
                      None \<Rightarrow> Inl (Unprocessable ''rate_type_unsupported'')
                    | Some rateType \<Rightarrow>
                        Inr (priceEquipment ds it rateCard rateType
                          (if rateType = Monthly then dailyRateBeside now tenantId rateCard d else None)
                          dailyHrs)))"

section \<open>The quote\<close>

datatype discount = NoDiscount number | Percent number | Fixed number

record totals =
  tot_subtotalPhp :: number
  tot_discountPhp :: number
  tot_totalPhp :: number

definition applyDiscount :: "priced_item list \<Rightarrow> discount \<Rightarrow> number \<Rightarrow> totals" where
  "applyDiscount items disc transportPhp =
     (let subtotal = round2HalfUp (foldl (\<lambda>sum item. sum + pi_subtotalPhp item) (js 0) items + transportPhp);
          discountAmount =
            (case disc of
               Percent value \<Rightarrow> subtotal * (value / js 100)
             | Fixed value \<Rightarrow> value
             | NoDiscount _ \<Rightarrow> js 0);
          total = round2HalfUp (math_max (js 0) (subtotal - discountAmount))
      in \<lparr>tot_subtotalPhp = subtotal, tot_discountPhp = round2HalfUp discountAmount, tot_totalPhp = total\<rparr>)"

record quote_request =
  req_items :: "item_input list"
  req_discount :: discount
  req_mobilizationPhp :: "number option"
  req_demobilizationPhp :: "number option"

record priced_quote =
  pq_items :: "priced_item list"
  pq_mobilizationPhp :: number
  pq_demobilizationPhp :: number
  pq_totals :: totals
  pq_diesel :: diesel

fun priceItems ::
  "time \<Rightarrow> uuid \<Rightarrow> diesel \<Rightarrow> item_input list \<Rightarrow> number \<Rightarrow> db \<Rightarrow> http_error + priced_item list" where
  "priceItems now t ds [] dailyHrs d = Inr []"
| "priceItems now t ds (i # is) dailyHrs d =
     (case priceItem now t ds i dailyHrs d of
        Inl e \<Rightarrow> Inl e
      | Inr p \<Rightarrow>
          (case priceItems now t ds is dailyHrs d of Inl e \<Rightarrow> Inl e | Inr ps \<Rightarrow> Inr (p # ps)))"

definition priceQuote :: "time \<Rightarrow> uuid \<Rightarrow> quote_request \<Rightarrow> string \<Rightarrow> db \<Rightarrow> http_error + priced_quote" where
  "priceQuote now tenantId request region d =
     (case resolveDieselAndParams now tenantId region d of
        Inl e \<Rightarrow> Inl e
      | Inr ds \<Rightarrow>
          let st = getBillingSettings tenantId d in
          (case priceItems now tenantId ds (req_items request) (dailyHours st) d of
             Inl e \<Rightarrow> Inl e
           | Inr items \<Rightarrow>
               let mob = round2HalfUp (case req_mobilizationPhp request of
                       Some x \<Rightarrow> x | None \<Rightarrow> mobilizationPhp st);
                   demob = round2HalfUp (case req_demobilizationPhp request of
                       Some x \<Rightarrow> x | None \<Rightarrow> demobilizationPhp st)
               in Inr \<lparr>pq_items = items, pq_mobilizationPhp = mob, pq_demobilizationPhp = demob,
                       pq_totals = applyDiscount items (req_discount request) (mob + demob),
                       pq_diesel = ds\<rparr>))"

section \<open>Laws of the engine\<close>

lemma round2_cents: "round2HalfUp x = cents x"
  by (simp add: round2HalfUp_def cents_def)

definition paramsInForce :: "time \<Rightarrow> uuid \<Rightarrow> string \<Rightarrow> pricing_params \<Rightarrow> bool" where
  "paramsInForce now t region p \<longleftrightarrow>
     pp_tenantId p = t \<and> pp_region p = region \<and> pp_effectiveFrom p \<le> now \<and>
     (case pp_effectiveTo p of None \<Rightarrow> True | Some e \<Rightarrow> now \<le> e)"

lemma effectiveParams_SomeD:
  assumes "effectiveParams now t region d = Some p"
  shows "p \<in> set (pricingParameters d)" "paramsInForce now t region p"
    "\<And>p'. p' \<in> set (pricingParameters d) \<Longrightarrow> paramsInForce now t region p' \<Longrightarrow> pp_effectiveFrom p' \<le> pp_effectiveFrom p"
  using latestBy_SomeD[OF assms[unfolded effectiveParams_def]] by (auto simp: paramsInForce_def)

definition freshOverride :: "time \<Rightarrow> pricing_params \<Rightarrow> bool" where
  "freshOverride now p \<longleftrightarrow>
     (case (pp_dieselOverridePhp p, pp_dieselOverrideDate p) of
        (Some _, Some day) \<Rightarrow> now - STALENESS_WINDOW_DAYS * DAY_MS \<le> day * DAY_MS
      | _ \<Rightarrow> False)"

definition latestReading :: "string \<Rightarrow> db \<Rightarrow> diesel_reading \<Rightarrow> bool" where
  "latestReading region d r \<longleftrightarrow>
     r \<in> set (dieselPriceReadings d) \<and> dpr_region r = region \<and>
     (\<forall>y \<in> set (dieselPriceReadings d). dpr_region y = region \<longrightarrow> dpr_observedDate y \<le> dpr_observedDate r)"

lemma latestReadingI:
  assumes "latestBy dpr_observedDate (filter (\<lambda>r. dpr_region r = region) (dieselPriceReadings d)) = Some r"
  shows "latestReading region d r"
  using latestBy_SomeD[OF assms] by (auto simp: latestReading_def)

text \<open>
  Where a quote's diesel price comes from. A resolution names pricing parameters of the
  tenant and region in force now, the newest of them. Its price is either a tenant override dated
  within the last seven days (source tenant_override, never stale, no reading) or, only when
  there is no such override, the region's latest reading, flagged stale exactly when it was
  observed before those seven days.
\<close>

theorem diesel_resolution:
  assumes "resolveDieselAndParams now t region d = Inr ds"
  shows "\<exists>p \<in> set (pricingParameters d). pp_id p = ds_pricingParamsId ds \<and> paramsInForce now t region p \<and>
     (\<forall>p' \<in> set (pricingParameters d). paramsInForce now t region p' \<longrightarrow> pp_effectiveFrom p' \<le> pp_effectiveFrom p) \<and>
     (case ds_readingId ds of
        None \<Rightarrow> freshOverride now p \<and> ds_source ds = ''tenant_override'' \<and> \<not> ds_stale ds \<and>
          pp_dieselOverrideDate p = Some (ds_observedDate ds) \<and>
          map_option (numd 4) (pp_dieselOverridePhp p) = Some (ds_pricePhp ds)
      | Some i \<Rightarrow> \<not> freshOverride now p \<and>
          (\<exists>r. latestReading region d r \<and> dpr_id r = i \<and> ds_pricePhp ds = numd 4 (dpr_pricePhp r) \<and>
             ds_observedDate ds = dpr_observedDate r \<and>
             (ds_stale ds \<longleftrightarrow> dpr_observedDate r * DAY_MS < now - STALENESS_WINDOW_DAYS * DAY_MS)))"
proof -
  obtain p where p: "effectiveParams now t region d = Some p"
    using assms by (auto simp: resolveDieselAndParams_def Let_def split: option.splits)
  note e = effectiveParams_SomeD[OF p]
  show ?thesis
  proof (intro bexI conjI)
    show "case ds_readingId ds of
        None \<Rightarrow> freshOverride now p \<and> ds_source ds = ''tenant_override'' \<and> \<not> ds_stale ds \<and>
          pp_dieselOverrideDate p = Some (ds_observedDate ds) \<and>
          map_option (numd 4) (pp_dieselOverridePhp p) = Some (ds_pricePhp ds)
      | Some i \<Rightarrow> \<not> freshOverride now p \<and>
          (\<exists>r. latestReading region d r \<and> dpr_id r = i \<and> ds_pricePhp ds = numd 4 (dpr_pricePhp r) \<and>
             ds_observedDate ds = dpr_observedDate r \<and>
             (ds_stale ds \<longleftrightarrow> dpr_observedDate r * DAY_MS < now - STALENESS_WINDOW_DAYS * DAY_MS))"
      using assms p
      by (auto simp: resolveDieselAndParams_def Let_def freshOverride_def
          split: option.splits if_splits dest!: latestReadingI)
  qed (use e assms p in \<open>auto simp: resolveDieselAndParams_def Let_def split: option.splits if_splits\<close>)
qed

definition demo_params :: pricing_params where
  "demo_params = \<lparr>pp_id = 3, pp_tenantId = 1, pp_region = ''NCR'', pp_operatorHourlyPhp = 15000,
     pp_maintenanceHourlyPhp = 5000, pp_bufferPct = 500, pp_fuelLPerHour = 12000, pp_fuelLPerKm = 400,
     pp_transportPhpPerKm = 5000, pp_dieselOverridePhp = Some 625000, pp_dieselOverrideDate = Some 20000,
     pp_effectiveFrom = 0, pp_effectiveTo = None\<rparr>"

definition demo_readings :: "diesel_reading list" where
  "demo_readings = [
     \<lparr>dpr_id = 4, dpr_region = ''NCR'', dpr_pricePhp = 600000, dpr_observedDate = 20001, dpr_source = ''doe_scrape''\<rparr>,
     \<lparr>dpr_id = 5, dpr_region = ''NCR'', dpr_pricePhp = 612500, dpr_observedDate = 20008, dpr_source = ''gaswatch''\<rparr>]"

definition pricing_db :: db where
  "pricing_db = empty_db\<lparr>pricingParameters := [demo_params], dieselPriceReadings := demo_readings\<rparr>"

text \<open>Eight days after the override was dated the newest reading prices the quote, not stale.\<close>

lemma pricing_db_resolves:
  "\<exists>ds. resolveDieselAndParams (20008 * 86400000) 1 ''NCR'' pricing_db = Inr ds \<and>
     ds_readingId ds = Some 5 \<and> \<not> ds_stale ds \<and> ds_pricingParamsId ds = 3"
  by (simp add: resolveDieselAndParams_def effectiveParams_def pricing_db_def demo_params_def
      demo_readings_def empty_db_def STALENESS_WINDOW_DAYS_def DAY_MS_def)

theorem diesel_resolution_witness:
  "\<exists>r. latestReading ''NCR'' pricing_db r \<and> dpr_id r = 5"
proof -
  obtain ds where ds: "resolveDieselAndParams (20008 * 86400000) 1 ''NCR'' pricing_db = Inr ds"
    "ds_readingId ds = Some 5" using pricing_db_resolves by blast
  show ?thesis using diesel_resolution[OF ds(1)] ds(2) by auto
qed

definition linePriced :: "time \<Rightarrow> uuid \<Rightarrow> db \<Rightarrow> item_input \<Rightarrow> priced_item \<Rightarrow> bool" where
  "linePriced now t d i p \<longleftrightarrow>
     (case i of
        CustomItem desc n price \<Rightarrow>
          pi_custom p \<and> pi_rateCardId p = None \<and> pi_subtotalPhp p = round2HalfUp (price * js (of_int n))
      | EquipmentItem it \<Rightarrow>
          \<not> pi_custom p \<and> pi_quantity p = it_quantity it \<and>
          (\<exists>c \<in> set (rateCards d). pi_rateCardId p = Some (rc_id c) \<and> rc_tenantId c = t \<and>
             rc_equipmentTypeId c = it_equipmentTypeId it \<and>
             rc_rateType c \<in> {''hourly'', ''daily'', ''monthly''} \<and> rc_effectiveFrom c \<le> now \<and>
             (case rc_effectiveTo c of None \<Rightarrow> True | Some e \<Rightarrow> now < e)) \<and>
          (case it_agreedSubtotalPhp it of None \<Rightarrow> True | Some a \<Rightarrow> pi_subtotalPhp p = round2HalfUp a))"

lemma priceItem_line: "priceItem now t ds i dailyHrs d = Inr p \<Longrightarrow> linePriced now t d i p"
proof (cases i)
  case (EquipmentItem it)
  assume a: "priceItem now t ds i dailyHrs d = Inr p"
  obtain c where c: "find (\<lambda>c. rc_id c = it_rateCardId it \<and> rc_tenantId c = t) (rateCards d) = Some c"
    using a EquipmentItem by (auto simp: priceItem_def split: option.splits)
  note f = find_SomeD[OF c]
  have k: "cardEffective now c" "rc_equipmentTypeId c = it_equipmentTypeId it"
    using a EquipmentItem c by (auto simp: priceItem_def split: if_splits)
  obtain u where u: "rentUnit (rc_rateType c) = Some u"
    using a EquipmentItem c k by (auto simp: priceItem_def split: option.splits)
  have n: "rc_rateType c \<in> {''hourly'', ''daily'', ''monthly''}"
    using u by (auto simp: rentUnit_def split: if_splits)
  have p: "p = priceEquipment ds it c u (if u = Monthly then dailyRateBeside now t c d else None) dailyHrs"
    using a EquipmentItem c k u by (simp add: priceItem_def)
  show ?thesis using f k n unfolding EquipmentItem p
    by (auto simp: linePriced_def priceEquipment_def Let_def cardEffective_def split: option.splits
        intro!: bexI[of _ c])
qed (auto simp: priceItem_def linePriced_def)

lemma priceItems_lines: "priceItems now t ds is dailyHrs d = Inr ps \<Longrightarrow> list_all2 (linePriced now t d) is ps"
  by (induction "is" arbitrary: ps) (auto split: sum.splits dest: priceItem_line)

text \<open>
  A superseded rate card never prices a quote. In every quote the engine returns, each
  equipment line was priced from a card of the same tenant and of the line's own equipment type,
  in force at the time of pricing and billed by the hour, day or month; an agreed price replaces
  the line's subtotal and a custom line costs its unit price times its quantity.
\<close>

theorem quotes_use_cards_in_force:
  assumes "priceQuote now t req region d = Inr q"
  shows "list_all2 (linePriced now t d) (req_items req) (pq_items q)"
  using assms by (auto simp: priceQuote_def Let_def split: sum.splits dest: priceItems_lines)

definition demo_card :: rate_card where
  "demo_card = \<lparr>rc_id = 6, rc_tenantId = 1, rc_equipmentTypeId = 8, rc_equipmentId = None,
     rc_rateType = ''daily'', rc_rateValue = 800000, rc_effectiveFrom = 0, rc_effectiveTo = None\<rparr>"

definition demo_item :: equipment_item where
  "demo_item = \<lparr>it_equipmentTypeId = 8, it_quantity = 2, it_rateCardId = 6, it_estimatedHours = js 0,
     it_days = Some (js 12), it_mobilizationKm = js 0, it_demobilizationKm = js 0,
     it_agreedSubtotalPhp = None\<rparr>"

definition demo_request :: quote_request where
  "demo_request = \<lparr>req_items = [EquipmentItem demo_item, CustomItem ''rigging'' 3 (js 1500)],
     req_discount = NoDiscount (js 0), req_mobilizationPhp = None, req_demobilizationPhp = None\<rparr>"

theorem quotes_use_cards_in_force_witness:
  "\<exists>q. priceQuote (20008 * 86400000) 1 demo_request ''NCR'' (pricing_db\<lparr>rateCards := [demo_card]\<rparr>) = Inr q \<and>
     list_all2 (linePriced (20008 * 86400000) 1 (pricing_db\<lparr>rateCards := [demo_card]\<rparr>))
       [EquipmentItem demo_item, CustomItem ''rigging'' 3 (js 1500)] (pq_items q)"
proof -
  let ?d = "pricing_db\<lparr>rateCards := [demo_card]\<rparr>"
  have "\<exists>ds. resolveDieselAndParams (20008 * 86400000) 1 ''NCR'' ?d = Inr ds"
    by (simp add: resolveDieselAndParams_def effectiveParams_def pricing_db_def demo_params_def
        demo_readings_def empty_db_def STALENESS_WINDOW_DAYS_def DAY_MS_def)
  then obtain ds where ds: "resolveDieselAndParams (20008 * 86400000) 1 ''NCR'' ?d = Inr ds" by blast
  have "\<exists>q. priceQuote (20008 * 86400000) 1 demo_request ''NCR'' ?d = Inr q"
    using ds by (auto simp: priceQuote_def Let_def demo_request_def priceItem_def demo_item_def
        demo_card_def cardEffective_def rentUnit_def)
  then obtain q where q: "priceQuote (20008 * 86400000) 1 demo_request ''NCR'' ?d = Inr q" by blast
  show ?thesis using quotes_use_cards_in_force[OF q] q by (auto simp: demo_request_def)
qed

section \<open>Amounts\<close>

lemma days_exact:
  assumes "isn hours (of_int (D * h))" "isn dailyHrs (of_int h)" "1 \<le> h" "0 \<le> D" "D \<le> 36500"
  shows "isn (hours / dailyHrs) (of_int D)"
proof -
  have q: "of_int (D * h) / of_int h = (of_int D :: rat)" using assms(3) by simp
  have "\<bar>of_int D :: rat\<bar> \<le> 2 ^ 200" using assms(4,5) by simp
  then have "isn (hours / dailyHrs) (fl (of_int (D * h) / of_int h))"
    using assms by (intro isn_divide) (simp_all add: q)
  then show ?thesis unfolding q using fl_of_int[of D] assms by simp
qed

lemma months_rest:
  assumes "isn days (of_int D)" "0 \<le> D" "D \<le> 36500" "D mod 30 \<noteq> 0"
  shows "isn (math_floor (days / js 30)) (of_int (D div 30))"
    and "isn (days - math_floor (days / js 30) * js 30) (of_int (D mod 30))"
proof -
  have thirty: "isn (js 30) 30" using isn_int[of 30] by simp
  have Db: "0 \<le> (of_int D :: rat)" "(of_int D :: rat) \<le> 36500" using assms by simp_all
  have "isn (days / js 30) (fl (of_int D / 30))" by (rule isn_divide[OF assms(1) thirty]) (use Db in simp_all)
  note fl = isn_math_floor[OF this]
  have b: "\<bar>of_int D / 30 :: rat\<bar> \<le> 1217" using Db by simp
  have e: "\<bar>fl (of_int D / 30) - of_int D / 30\<bar> \<le> 1 / 100"
    using dbl.rd_bound[OF b] by simp
  have D: "D = 30 * (D div 30) + D mod 30" "1 \<le> D mod 30" "D mod 30 \<le> 29" "0 \<le> D div 30"
    using assms(2,4) by (simp_all add: zero_less_iff_neq_zero int_one_le_iff_zero_less order.strict_iff_order)
  have "(of_int D :: rat) = 30 * of_int (D div 30) + of_int (D mod 30)"
    by (subst D(1)) (simp only: of_int_add of_int_mult of_int_numeral)
  moreover have "1 \<le> (of_int (D mod 30) :: rat)" "(of_int (D mod 30) :: rat) \<le> 29" using D by simp_all
  ultimately have "\<lfloor>fl (of_int D / 30)\<rfloor> = D div 30"
    unfolding floor_eq_iff using dbl.absD[OF e] by (intro conjI; linarith)
  then show m: "isn (math_floor (days / js 30)) (of_int (D div 30))" using fl by simp
  have mb: "D div 30 \<le> 1217" using assms(3) by linarith
  have "isn (math_floor (days / js 30) * js 30) (fl (of_int (D div 30) * 30))"
    by (rule isn_times[OF m thirty]) (use mb D in \<open>simp add: abs_le_iff\<close>)
  moreover have "fl (of_int (D div 30) * 30) = of_int (D div 30 * 30)"
    using fl_of_int[of "D div 30 * 30"] mb D by simp
  ultimately have 1: "isn (math_floor (days / js 30) * js 30) (of_int (D div 30 * 30))" by simp
  have d: "of_int D - of_int (D div 30 * 30) = (of_int (D mod 30) :: rat)"
    by (simp only: flip: of_int_diff) (simp add: minus_div_mult_eq_mod)
  have "isn (days - math_floor (days / js 30) * js 30) (fl (of_int D - of_int (D div 30 * 30)))"
    by (rule isn_minus[OF assms(1) 1]) (use D(3) in \<open>simp add: d\<close>)
  then show "isn (days - math_floor (days / js 30) * js 30) (of_int (D mod 30))"
    unfolding d using fl_of_int[of "D mod 30"] D by simp
qed


lemma isn_0: "isn (js 0) 0"
  using isn_int[of 0] by simp

text \<open>The rent a monthly card charges for months and left-over days, for a number of machines.\<close>

lemma monthly_mix:
  assumes days: "isn (hours / dailyHrs) (of_int D)" and D: "0 \<le> D" "D \<le> 36500" "D mod 30 \<noteq> 0"
    and rate: "amt rate r" and daily: "amt daily s" and nn: "0 \<le> r" "0 \<le> s"
    and q: "1 \<le> q" "q \<le> 1000" and tot: "q * (D div 30 * r + D mod 30 * s) \<le> 2 ^ 36"
  shows "amt (round2HalfUp (fst (rentFor Monthly rate hours dailyHrs (Some daily)) * js (of_int q)))
    (q * (D div 30 * r + D mod 30 * s))"
proof -
  note mr = months_rest[OF days D]
  have rest: "js 0 < hours / dailyHrs - math_floor (hours / dailyHrs / js 30) * js 30"
    using isn_less[OF isn_0 mr(2)] D(1,3) by (simp add: order.strict_iff_order)
  have m: "0 \<le> D div 30" "D div 30 \<le> 2 ^ 36" "0 \<le> D mod 30" "D mod 30 \<le> 2 ^ 36" using D by simp_all
  have nnp: "0 \<le> D div 30 * r" "0 \<le> D mod 30 * s" using m nn by simp_all
  have "D div 30 * r + D mod 30 * s \<le> q * (D div 30 * r + D mod 30 * s)"
    using q(1) nnp by (simp add: mult_le_cancel_right1)
  then have b: "D div 30 * r \<le> 2 ^ 36" "D mod 30 * s \<le> 2 ^ 36" using tot nnp by linarith+
  note near = dbl.mix_near[OF m(1,2,3,4) nn q tot]
  have "\<bar>of_int (D div 30) * dbl.cv r\<bar> \<le> 2 ^ 200" "\<bar>of_int (D mod 30) * dbl.cv s\<bar> \<le> 2 ^ 200"
    using dbl.term_near(2)[OF m(1,2) nn(1) b(1)] dbl.term_near(2)[OF m(3,4) nn(2) b(2)] by simp_all
  with mr rate daily have "isn (math_floor (hours / dailyHrs / js 30) * rate) (fl (of_int (D div 30) * dbl.cv r))"
    "isn ((hours / dailyHrs - math_floor (hours / dailyHrs / js 30) * js 30) * daily) (fl (of_int (D mod 30) * dbl.cv s))"
    by (simp_all add: amt_def isn_times)
  from isn_plus[OF this] near(2) rest
  have "isn (fst (rentFor Monthly rate hours dailyHrs (Some daily)))
      (fl (fl (of_int (D div 30) * dbl.cv r) + fl (of_int (D mod 30) * dbl.cv s)))"
    by (simp add: rentFor_def Let_def DAYS_PER_MONTH_def)
  from isn_times[OF this isn_int[of q]] near(3) q
  have "isn (fst (rentFor Monthly rate hours dailyHrs (Some daily)) * js (of_int q)) (dbl.mix q (D div 30) r (D mod 30) s)"
    by (simp add: dbl.mix_def)
  moreover have "\<bar>q * (D div 30 * r + D mod 30 * s)\<bar> \<le> 2 ^ 45" using tot q nnp by simp
  ultimately show ?thesis unfolding round2_cents by (rule amt_cents_near[OF _ near(1)])
qed

text \<open>
  A monthly hire is charged to the centavo. On a monthly card of \<open>r\<close> centavos beside a daily
  card of \<open>s\<close>, a line hired for \<open>D\<close> days (not a whole number of 30-day months) at a whole number
  of hours a day costs, for \<open>q\<close> machines, exactly \<open>q * (D div 30 * r + D mod 30 * s)\<close> centavos of
  rent, although every step of the computation is rounded to binary64; the parts shown to the
  customer are the whole months and the left-over days. Total rent up to \<open>2 ^ 36\<close> centavos
  (687 million pesos), a hire of a hundred years and a thousand machines are covered.
\<close>

theorem monthly_rent_exact:
  assumes "it_days it = Some days" "isn days (of_int D)" "isn dailyHrs (of_int h)" "1 \<le> h" "h \<le> 24"
    and "0 \<le> D" "D \<le> 36500" "D mod 30 \<noteq> 0" "it_quantity it = q" "1 \<le> q" "q \<le> 1000"
    and "amt daily s" "0 \<le> s" "rc_rateValue c = r" "0 \<le> r" "r \<le> 2 ^ 45"
    and "q * (D div 30 * r + D mod 30 * s) \<le> 2 ^ 36"
  shows "amt (pi_rentPhp (priceEquipment ds it c Monthly (Some daily) dailyHrs))
      (q * (D div 30 * r + D mod 30 * s)) \<and>
    col2 (pi_rentPhp (priceEquipment ds it c Monthly (Some daily) dailyHrs)) =
      q * (D div 30 * r + D mod 30 * s)"
proof -
  have "0 \<le> D * h" "D * h \<le> 36500 * 24" using assms(4-7) mult_mono[of D 36500 h 24] by auto
  then have Dh: "\<bar>D * h\<bar> \<le> 876000" by simp
  then have "\<bar>of_int (D * h) :: rat\<bar> \<le> 2 ^ 200" using dbl.of_int_abs_le[of "D * h" 200] by simp
  then have "isn (days * dailyHrs) (fl (of_int (D * h)))"
    using isn_times[OF assms(2,3)] by simp
  then have hours: "isn (days * dailyHrs) (of_int (D * h))" using fl_of_int[of "D * h"] Dh by simp
  have d: "isn (days * dailyHrs / dailyHrs) (of_int D)"
    by (rule days_exact[OF hours assms(3,4,6,7)])
  have r: "amt (num2 (rc_rateValue c)) r" using amt_num2[of r] assms(14-16) by simp
  have "amt (pi_rentPhp (priceEquipment ds it c Monthly (Some daily) dailyHrs)) (q * (D div 30 * r + D mod 30 * s))"
    using monthly_mix[OF d assms(6-8) r assms(12,15,13,10,11,17)] assms(1,9)
    by (simp add: priceEquipment_def Let_def)
  moreover from this have "col2 (pi_rentPhp (priceEquipment ds it c Monthly (Some daily) dailyHrs)) =
      q * (D div 30 * r + D mod 30 * s)"
    by (rule amt_col2) (use assms in simp)
  ultimately show ?thesis ..
qed

definition demo_diesel :: diesel where
  "demo_diesel = \<lparr>ds_pricePhp = js 60, ds_observedDate = 20008, ds_source = ''gaswatch'', ds_stale = False,
     ds_readingId = Some 5, ds_pricingParamsId = 3, ds_operatorHourlyPhp = js 150,
     ds_maintenanceHourlyPhp = js 50, ds_bufferPct = js (1 / 20), ds_fuelLPerHour = js 12,
     ds_fuelLPerKm = js (2 / 5), ds_transportPhpPerKm = js 50\<rparr>"

theorem monthly_rent_exact_witness:
  "col2 (pi_rentPhp (priceEquipment demo_diesel (demo_item\<lparr>it_days := Some (js 45)\<rparr>)
      (demo_card\<lparr>rc_rateType := ''monthly'', rc_rateValue := 18000033\<rparr>) Monthly (Some (num2 800010)) (js 8))) =
    2 * (1 * 18000033 + 15 * 800010)"
  using monthly_rent_exact[of "demo_item\<lparr>it_days := Some (js 45)\<rparr>" "js 45" 45 "js 8" 8 2 "num2 800010" 800010
      "demo_card\<lparr>rc_rateType := ''monthly'', rc_rateValue := 18000033\<rparr>" 18000033 demo_diesel]
    isn_int[of 45] isn_int[of 8] amt_num2[of 800010]
  by (simp add: demo_item_def demo_card_def)


text \<open>
  C3. A quote's totals add up to the centavo. With line subtotals of \<open>ks\<close> centavos (at most 4096
  lines and \<open>2 ^ 36\<close> centavos in all) and flat mobilization and demobilization of \<open>m\<close> and \<open>e\<close>,
  the stored subtotal is \<open>sum ks + m + e\<close>, a fixed discount of \<open>v\<close> comes off that, and the total
  never goes below zero. Without a discount the total is the subtotal.
\<close>

theorem quote_totals_exact:
  assumes "list_all2 amt (map pi_subtotalPhp items) ks" "\<forall>k \<in> set ks. 0 \<le> k" "sum_list ks \<le> 2 ^ 36"
    and "length ks \<le> 4096" "amt mob m" "amt demob e" "0 \<le> m" "m \<le> 2 ^ 35" "0 \<le> e" "e \<le> 2 ^ 35"
    and "disc = NoDiscount x \<and> v = 0 \<or> disc = Fixed y \<and> amt y v" "0 \<le> v" "v \<le> 2 ^ 43"
  shows "amt (tot_subtotalPhp (applyDiscount items disc (mob + demob))) (sum_list ks + m + e) \<and>
    amt (tot_discountPhp (applyDiscount items disc (mob + demob))) v \<and>
    amt (tot_totalPhp (applyDiscount items disc (mob + demob))) (max 0 (sum_list ks + m + e - v))"
proof -
  let ?S = "sum_list ks + m + e"
  have nn: "0 \<le> sum_list ks" using assms(2) by (intro sum_list_nonneg) auto
  obtain w where w: "isn (foldl (+) (js 0) (map pi_subtotalPhp items)) w"
    "\<bar>w - of_int (sum_list ks) / 100\<bar> \<le> 1 / 1000"
    by (rule amt_foldl[OF assms(1) _ assms(3,4)]) (use assms(2) in auto)
  have me: "\<bar>m\<bar> \<le> 2 ^ 35" "\<bar>e\<bar> \<le> 2 ^ 35" using assms by simp_all
  note pair = dbl.cv_pair_near[OF me]
  have t: "isn (mob + demob) (fl (dbl.cv m + dbl.cv e))"
    using assms(5,6) pair(2) by (simp add: amt_def isn_plus)
  have b: "\<bar>sum_list ks\<bar> \<le> 2 ^ 37" "\<bar>m + e\<bar> \<le> 2 ^ 37" using nn assms by simp_all
  note near = dbl.add_near[OF w(2) pair(1) b]
  have "isn (foldl (+) (js 0) (map pi_subtotalPhp items) + (mob + demob)) (fl (w + fl (dbl.cv m + dbl.cv e)))"
    by (rule isn_plus[OF w(1) t]) (use near(2) in simp)
  moreover have "\<bar>sum_list ks + (m + e)\<bar> \<le> 2 ^ 45" using nn assms by simp
  ultimately have S: "amt (cents (foldl (+) (js 0) (map pi_subtotalPhp items) + (mob + demob))) ?S"
    using amt_cents_near[OF _ near(1)] by (simp add: add.assoc)
  have Sb: "\<bar>?S\<bar> \<le> 2 ^ 44" "\<bar>v\<bar> \<le> 2 ^ 44" using nn assms by simp_all
  obtain dv where dv: "(case disc of Percent value \<Rightarrow> cents (foldl (+) (js 0) (map pi_subtotalPhp items) + (mob + demob)) * (value / js 100)
       | Fixed value \<Rightarrow> value | NoDiscount _ \<Rightarrow> js 0) = dv" "amt dv v"
    using assms(11) amt_js_0 by auto
  let ?sub = "cents (foldl (+) (js 0) (map pi_subtotalPhp items) + (mob + demob))"
  let ?diff = "?sub - dv"
  have diff: "isn ?diff (fl (dbl.cv ?S - dbl.cv v))"
    by (rule isn_minus[OF S[unfolded amt_def] dv(2)[unfolded amt_def]])
      (use dbl.absD[OF cv_bound[of ?S]] dbl.absD[OF cv_bound[of v]] Sb in \<open>simp add: abs_le_iff\<close>)
  have dn: "\<bar>fl (dbl.cv ?S - dbl.cv v) - of_int (?S - v) / 100\<bar> \<le> 1 / 400"
    using dbl.cv_sum_near[OF Sb, of "- 1"] by simp
  have tot: "amt (cents (math_max (js 0) ?diff)) (max 0 (?S - v))"
  proof (rule amt_cents_near)
    show "isn (math_max (js 0) ?diff) (max 0 (fl (dbl.cv ?S - dbl.cv v)))"
      by (rule isn_math_max[OF isn_0 diff])
    show "\<bar>max 0 (fl (dbl.cv ?S - dbl.cv v)) - of_int (max 0 (?S - v)) / 100\<bar> \<le> 1 / 400"
      by (rule max_near[OF dn])
  qed (use Sb in simp)
  have e: "applyDiscount items disc (mob + demob) =
      \<lparr>tot_subtotalPhp = ?sub, tot_discountPhp = cents dv, tot_totalPhp = cents (math_max (js 0) ?diff)\<rparr>"
    unfolding applyDiscount_def Let_def round2_cents foldl_map[symmetric] dv(1)[symmetric]
    by (simp add: foldl_map)
  have "amt (cents dv) v" using dv(2) Sb(2) by (intro amt_cents) auto
  then show ?thesis unfolding e using S tot by simp
qed


definition demo_line :: "int \<Rightarrow> priced_item" where
  "demo_line k = (priceEquipment demo_diesel demo_item demo_card Daily None (js 8))\<lparr>pi_subtotalPhp := num2 k\<rparr>"

theorem quote_totals_exact_witness:
  "amt (tot_totalPhp (applyDiscount [demo_line 19200010, demo_line 450005] (Fixed (num2 100000)) (num2 250000 + num2 250000)))
     (19200010 + 450005 + 250000 + 250000 - 100000)"
  using quote_totals_exact[of "[demo_line 19200010, demo_line 450005]" "[19200010, 450005]" "num2 250000" 250000
      "num2 250000" 250000 "Fixed (num2 100000)" "js 0" 100000 "num2 100000"]
    amt_num2[of 19200010] amt_num2[of 450005] amt_num2[of 250000] amt_num2[of 100000]
  by (simp add: demo_line_def)

text \<open>
  The EPSILON of \<open>round2HalfUp\<close> is the spacing of the doubles at 1: from 4 upwards it is rounded
  away, so a half-centavo that the double of the literal misses from below still rounds down.
\<close>

lemma round2HalfUp_down: "amt (round2HalfUp (js (5015 / 1000))) 501"
proof -
  have 1: "fl (5015 / 1000) = 5646388032815759 / 2 ^ 50"
    using rnd_eqI[of 5646388032815759 "-50" "5015 / 1000"] by (simp add: fl_def)
  have 2: "fl (5646388032815759 / 2 ^ 50 + 1 / 2 ^ 52) = 5646388032815759 / 2 ^ 50"
    using rnd_eqI[of 5646388032815759 "-50" "5646388032815759 / 2 ^ 50 + 1 / 2 ^ 52"] by (simp add: fl_def)
  have 3: "fl (5646388032815759 / 2 ^ 50 * 100) = 8822481301274623 / 2 ^ 44"
    using rnd_eqI[of 8822481301274623 "-44" "5646388032815759 / 2 ^ 50 * 100"] by (simp add: fl_def)
  have "dbl.roundv (fl (5015 / 1000)) = 501"
    unfolding dbl.roundv_def 1 2 3 by (simp add: floor_eq_iff)
  moreover have "isn (js (5015 / 1000)) (fl (5015 / 1000))" by (rule js_isn) simp
  moreover have "\<bar>fl (5015 / 1000)\<bar> \<le> 2 ^ 50" unfolding 1 by simp
  ultimately show ?thesis unfolding round2_cents amt_def using isn_cents by metis
qed

end
