(* ===== verification/EdtrService.thy ===== *)
theory EdtrService
  imports Common Reconciliation OcrAccuracy Pricing
begin

text \<open>
  The equipment-log service (\<open>apps/api/src/edtr/edtr.service.ts\<close>): capture with its site-scope
  check and manual transcription, approval (the only path that deducts from a deposit), approval
  addressed by the reconciliation, and rejection. \<open>approve\<close> is split the way the code reads:
  the guards, the price of the hours, the deduction, and the state both sides end in. The time of a
  request and the environment of the process are arguments.
\<close>

section \<open>Capture\<close>

record capture_request =
  cap_source :: edtr_source
  cap_rentalId :: uuid
  cap_equipmentId :: uuid
  cap_reportDate :: date
  cap_rawFileUri :: "string option"
  cap_lineItems :: "(number \<times> number) option"

record capture_response =
  cr_id :: uuid
  cr_status :: edtr_status
  cr_source :: edtr_source

definition siteAssigned :: "ctx \<Rightarrow> rental \<Rightarrow> db \<Rightarrow> bool" where
  "siteAssigned c rental d \<longleftrightarrow>
     list_ex (\<lambda>a. tsa_tenantId a = ctx_tenantId c \<and> tsa_userId a = ctx_userId c \<and>
        tsa_projectSiteId a = ren_projectSiteId rental) (timekeeperSiteAssignments d)"

definition captureRow :: "time \<Rightarrow> string \<Rightarrow> env \<Rightarrow> ctx \<Rightarrow> capture_request \<Rightarrow> uuid \<Rightarrow> edtr" where
  "captureRow now isoNow e c body i =
     (let useManualTranscription =
            (cap_source body = PaperOcr \<and> \<not> ocrPipelineEnabled e \<and> cap_lineItems body \<noteq> None);
          initialStatus =
            (if cap_source body = DigitalEntry \<or> useManualTranscription then Extracted else Queued)
      in \<lparr>edtr_id = i, edtr_tenantId = ctx_tenantId c, edtr_rentalId = cap_rentalId body,
          edtr_equipmentId = cap_equipmentId body, edtr_source = cap_source body,
          edtr_reportDate = cap_reportDate body,
          edtr_rawFileUri = (if cap_source body = PaperOcr then cap_rawFileUri body else None),
          edtr_ocrPayload =
            (case cap_lineItems body of
               Some (active, idle) \<Rightarrow>
                 if useManualTranscription then Some (buildManualTranscriptionPayload active idle isoNow) else None
             | None \<Rightarrow> None),
          edtr_status = initialStatus, edtr_attempts = 0, edtr_lockedAt = None, edtr_lastError = None,
          edtr_createdAt = now\<rparr>)"

definition capture ::
  "time \<Rightarrow> string \<Rightarrow> env \<Rightarrow> ctx \<Rightarrow> capture_request \<Rightarrow> (db, capture_response) body" where
  "capture now isoNow e c body d =
     (case find (\<lambda>r. ren_id r = cap_rentalId body) (rentals d) of
        None \<Rightarrow> fails (NotFound ''rental_not_found'')
      | Some rental \<Rightarrow>
          if ctx_role c = ''timekeeper'' \<and> \<not> siteAssigned c rental d then
            ([''edtr_site_scope_denied''], Inl (Forbidden ''site_not_assigned''))
          else if cap_source body = PaperOcr \<and> ocrPipelineEnabled e \<and> cap_lineItems body \<noteq> None then
            fails (Unprocessable ''line_items_not_accepted'')
          else if cap_source body = PaperOcr \<and> \<not> ocrPipelineEnabled e \<and> cap_lineItems body = None then
            fails (Unprocessable ''line_items_required'')
          else
            let row = captureRow now isoNow e c body (nextId d);
                d1 = (fresh d)\<lparr>edtrs := edtrs d @ [row]\<rparr>
            in (case cap_lineItems body of
                  None \<Rightarrow>
                    ([''edtr_uploaded''],
                     Inr (\<lparr>cr_id = edtr_id row, cr_status = edtr_status row, cr_source = cap_source body\<rparr>, d1))
                | Some (active, idle) \<Rightarrow>
                    let d2 = (fresh d1)\<lparr>edtrLineItems := edtrLineItems d1 @
                          [\<lparr>eli_id = nextId d1, eli_tenantId = ctx_tenantId c, eli_edtrId = edtr_id row,
                            eli_hoursActive = col2 active, eli_hoursIdle = Some (col2 idle)\<rparr>]\<rparr>
                    in (case reconcileEdtr (ctx_tenantId c) (edtr_id row) d2 of
                          Inl err \<Rightarrow> fails err
                        | Inr (_, d3) \<Rightarrow>
                            ([''edtr_uploaded''],
                             Inr (\<lparr>cr_id = edtr_id row,
                                   cr_status =
                                     (case find (\<lambda>r. edtr_id r = edtr_id row) (edtrs d3) of
                                        Some refetched \<Rightarrow> edtr_status refetched
                                      | None \<Rightarrow> edtr_status row),
                                   cr_source = cap_source body\<rparr>, d3)))))"

section \<open>Approval: the guards\<close>

record approve_request =
  apr_reconciliationId :: uuid
  apr_adjustments :: "(number \<times> number) option"

definition modelSourced :: "edtr \<Rightarrow> reconciliation \<Rightarrow> db \<Rightarrow> bool" where
  "modelSourced r recon d =
     (let counterpart =
            (case rec_counterpartEdtrId recon of
               None \<Rightarrow> None
             | Some i \<Rightarrow> find (\<lambda>x. edtr_id x = i) (edtrs d));
          pairPayloads = edtr_ocrPayload r #
            (case counterpart of None \<Rightarrow> [] | Some x \<Rightarrow> [edtr_ocrPayload x])
      in list_ex (\<lambda>p. p \<noteq> None \<and> \<not> isManualTranscription p) pairPayloads)"

definition approveGuards ::
  "env \<Rightarrow> uuid \<Rightarrow> approve_request \<Rightarrow> db \<Rightarrow> http_error + edtr \<times> reconciliation" where
  "approveGuards e edtrId body d =
     (case find (\<lambda>r. edtr_id r = edtrId) (edtrs d) of
        None \<Rightarrow> Inl (NotFound ''edtr_not_found'')
      | Some r \<Rightarrow>
          (case find (\<lambda>x. rec_id x = apr_reconciliationId body) (edtrReconciliations d) of
             None \<Rightarrow> Inl (NotFound ''reconciliation_not_found'')
           | Some recon \<Rightarrow>
               if rec_edtrId recon \<noteq> edtrId then
                 Inl (Unprocessable ''reconciliation_belongs_to_other_edtr'')
               else if rec_status recon = Approved then Inl (Conflict ''already_approved'')
               else if rec_status recon \<noteq> Matched \<and> rec_status recon \<noteq> Discrepancy then
                 Inl (Unprocessable ''not_approvable'')
               else if rec_status recon = Discrepancy \<and> apr_adjustments body = None then
                 Inl (Conflict ''reconciliation_discrepancy'')
               else if (case rec_counterpartEdtrId recon of
                          None \<Rightarrow> False
                        | Some i \<Rightarrow>
                            (case reconOf i d of
                               None \<Rightarrow> False
                             | Some counterpartRecon \<Rightarrow> rec_status counterpartRecon = Approved)) then
                 Inl (Conflict ''already_approved'')
               else if modelSourced r recon d \<and> attestedOcrAccuracyFailure e \<noteq> None then
                 Inl (Conflict ''ocr_accuracy_gate_unmet'')
               else Inr (r, recon)))"

section \<open>Approval: the price\<close>

text \<open>The calendar date of an instant in Manila, eight hours ahead of UTC all year.\<close>

definition manilaDate :: "time \<Rightarrow> date" where
  "manilaDate t = (t + 8 * 3600000) div DAY_MS"

definition inForceOn :: "date \<Rightarrow> rate_card \<Rightarrow> bool" where
  "inForceOn day rateCard \<longleftrightarrow>
     manilaDate (rc_effectiveFrom rateCard) \<le> day \<and>
     (case rc_effectiveTo rateCard of None \<Rightarrow> True | Some t \<Rightarrow> day < manilaDate t)"

definition hourlyCards :: "ctx \<Rightarrow> uuid \<Rightarrow> db \<Rightarrow> rate_card list" where
  "hourlyCards c equipmentTypeId d =
     filter (\<lambda>x. rc_tenantId x = ctx_tenantId c \<and> rc_equipmentTypeId x = equipmentTypeId \<and>
        rc_rateType x = ''hourly'') (rateCards d)"

definition deductionCard :: "ctx \<Rightarrow> edtr \<Rightarrow> equipment \<Rightarrow> db \<Rightarrow> rate_card option" where
  "deductionCard c r unit d =
     unitCardFirst
       (filter (\<lambda>x. (rc_equipmentId x = Some (edtr_equipmentId r) \<or> rc_equipmentId x = None) \<and>
          inForceOn (edtr_reportDate r) x) (hourlyCards c (eqp_equipmentTypeId unit) d))"

definition hourlyRateFor :: "ctx \<Rightarrow> edtr \<Rightarrow> db \<Rightarrow> http_error + number" where
  "hourlyRateFor c r d =
     (case find (\<lambda>x. eqp_id x = edtr_equipmentId r) (equipments d) of
        None \<Rightarrow> Inr (js 0)
      | Some unit \<Rightarrow>
          (case deductionCard c r unit d of
             Some rateCard \<Rightarrow> Inr (num2 (rc_rateValue rateCard))
           | None \<Rightarrow>
               if hourlyCards c (eqp_equipmentTypeId unit) d \<noteq> []
               then Inl (Unprocessable ''rate_card_not_effective'')
               else Inr (js 0)))"

definition billableHours :: "uuid \<Rightarrow> approve_request \<Rightarrow> db \<Rightarrow> number" where
  "billableHours edtrId body d =
     (case apr_adjustments body of
        Some (active, _) \<Rightarrow> active
      | None \<Rightarrow> foldl (\<lambda>sum item. sum + num2 (eli_hoursActive item)) (js 0) (lineItemsOf edtrId d))"

definition correctLineItems :: "uuid \<Rightarrow> approve_request \<Rightarrow> db \<Rightarrow> db" where
  "correctLineItems edtrId body d =
     (case apr_adjustments body of
        None \<Rightarrow> d
      | Some (active, idle) \<Rightarrow>
          d\<lparr>edtrLineItems := updw (\<lambda>l. eli_edtrId l = edtrId)
              (\<lambda>l. l\<lparr>eli_hoursActive := col2 active, eli_hoursIdle := Some (col2 idle)\<rparr>) (edtrLineItems d)\<rparr>)"

section \<open>Approval: the deduction\<close>

definition depositPaid :: "uuid \<Rightarrow> db \<Rightarrow> bool" where
  "depositPaid rentalId d \<longleftrightarrow>
     list_ex (\<lambda>i. inv_rentalId i = Some rentalId \<and>
        (inv_invoiceType i = Deposit \<or> inv_invoiceType i = Booking) \<and> inv_status i = Paid) (invoices d)"

record deduction_result =
  dr_balanceBefore :: number
  dr_split :: split
  dr_invoiceId :: "uuid option"

definition insertDeduction ::
  "time \<Rightarrow> ctx \<Rightarrow> edtr \<Rightarrow> reconciliation \<Rightarrow> number \<Rightarrow> number \<Rightarrow> split \<Rightarrow> db \<Rightarrow> uuid option \<times> db" where
  "insertDeduction now c r recon deductedHours hourlyRate sp d =
     (if js 0 < deducted sp \<or> isZero (accrued sp) then
        let i = nextId d;
            d1 = (fresh d)\<lparr>invoices := invoices d @
              [\<lparr>inv_id = i, inv_tenantId = ctx_tenantId c, inv_rentalId = Some (edtr_rentalId r),
                inv_truckRequestId = None, inv_invoiceType = DepositDeduction, inv_amount = col2 (deducted sp),
                inv_status = Issued, inv_dueDate = now, inv_createdAt = now\<rparr>]\<rparr>
        in (Some i,
            (fresh d1)\<lparr>invoiceLineItems := invoiceLineItems d1 @
              [\<lparr>ili_id = nextId d1, ili_tenantId = ctx_tenantId c, ili_invoiceId = i,
                ili_reconciliationId = Some (rec_id recon), ili_quantity = col2 deductedHours,
                ili_unitPrice = col2 hourlyRate, ili_amount = col2 (deducted sp)\<rparr>]\<rparr>)
      else (None, d))"

definition insertAccrual ::
  "ctx \<Rightarrow> edtr \<Rightarrow> reconciliation \<Rightarrow> number \<Rightarrow> number \<Rightarrow> split \<Rightarrow> db \<Rightarrow> db" where
  "insertAccrual c r recon accruedHours hourlyRate sp d =
     (if js 0 < accrued sp then
        (fresh d)\<lparr>depositAccruals := depositAccruals d @
          [\<lparr>acc_id = nextId d, acc_tenantId = ctx_tenantId c, acc_rentalId = edtr_rentalId r,
            acc_reconciliationId = rec_id recon, acc_hours = col2 accruedHours,
            acc_unitPrice = col2 hourlyRate, acc_amount = col2 (accrued sp), acc_invoiceId = None\<rparr>]\<rparr>
      else d)"

definition deduct ::
  "time \<Rightarrow> ctx \<Rightarrow> edtr \<Rightarrow> reconciliation \<Rightarrow> number \<Rightarrow> number \<Rightarrow> db \<Rightarrow> http_error + deduction_result \<times> db" where
  "deduct now c r recon billable hourlyRate d =
     (let deductedAmount = round2HalfUp (billable * hourlyRate) in
      if \<not> depositPaid (edtr_rentalId r) d then Inl (Conflict ''deposit_not_paid'')
      else
        let led = resolveDepositLedger (edtr_rentalId r) (ctx_tenantId c) d;
            balanceBefore = round2HalfUp (math_max (js 0) (led_depositRequired led - led_totalDeducted led));
            sp = splitDeduction balanceBefore deductedAmount;
            deductedHours =
              (if js 0 < deductedAmount then round2HalfUp (billable * deducted sp / deductedAmount) else billable);
            (invoiceId, d1) = insertDeduction now c r recon deductedHours hourlyRate sp d;
            d2 = insertAccrual c r recon (round2HalfUp (billable - deductedHours)) hourlyRate sp d1;
            pct = lowBalancePct (getBillingSettings (ctx_tenantId c) d2);
            d3 =
              (if crossesLowBalance (led_depositRequired led) balanceBefore (balanceAfter sp) pct then
                 let payload = [(''rental_id'', JId (edtr_rentalId r)), (''balance_php'', JNum (balanceAfter sp)),
                       (''deposit_php'', JNum (led_depositRequired led))]
                 in notifyStaff (ctx_tenantId c) ''deposit_low'' payload
                      (notifyBookingCustomer (ctx_tenantId c) (edtr_rentalId r) ''deposit_low'' payload d2)
               else d2)
        in Inr (\<lparr>dr_balanceBefore = balanceBefore, dr_split = sp, dr_invoiceId = invoiceId\<rparr>, d3))"

section \<open>Approval: the pair is settled\<close>

definition mergeAdjustments :: "adjustments option \<Rightarrow> (number \<times> number) option \<Rightarrow> adjustments option" where
  "mergeAdjustments prior adj =
     (case adj of
        None \<Rightarrow> prior
      | Some (active, idle) \<Rightarrow>
          Some (case prior of
             Some a \<Rightarrow> a\<lparr>adj_hoursActive := Some active, adj_hoursIdle := Some idle\<rparr>
           | None \<Rightarrow> \<lparr>adj_reason = None, adj_deltas = None, adj_hoursActive = Some active,
               adj_hoursIdle = Some idle, adj_rejectionReason = None\<rparr>))"

definition settlePair :: "ctx \<Rightarrow> approve_request \<Rightarrow> reconciliation \<Rightarrow> db \<Rightarrow> db" where
  "settlePair c body recon d =
     (let own = updw (\<lambda>x. rec_id x = rec_id recon)
            (\<lambda>x. x\<lparr>rec_status := Approved, rec_verifiedBy := Some (ctx_userId c),
                rec_adjustments := mergeAdjustments (rec_adjustments recon) (apr_adjustments body)\<rparr>)
            (edtrReconciliations d)
      in d\<lparr>edtrReconciliations :=
           (case rec_counterpartEdtrId recon of
              None \<Rightarrow> own
            | Some i \<Rightarrow>
                updw (\<lambda>x. rec_edtrId x = i)
                  (\<lambda>x. x\<lparr>rec_status := Approved, rec_verifiedBy := Some (ctx_userId c)\<rparr>) own)\<rparr>)"

text \<open>\<open>runtime_hours + $1\<close> in SQL: an exact decimal sum, stored with two places.\<close>

definition accrueRuntime :: "uuid \<Rightarrow> number \<Rightarrow> db \<Rightarrow> db" where
  "accrueRuntime equipmentId hours d =
     d\<lparr>equipments := updw (\<lambda>x. eqp_id x = equipmentId)
        (\<lambda>x. x\<lparr>eqp_runtimeHours := half_away (of_int (eqp_runtimeHours x) + decimal (val hours) * 100)\<rparr>)
        (equipments d)\<rparr>"

record approve_response =
  ar_reconciliationId :: uuid
  ar_deltaHours :: "number option"
  ar_tolerance :: number
  ar_invoiceId :: "uuid option"
  ar_hours :: number
  ar_sourceLogs :: "uuid \<times> uuid option"
  ar_balanceBefore :: number
  ar_deducted :: number
  ar_accrued :: number
  ar_balanceAfter :: number

definition approve :: "time \<Rightarrow> env \<Rightarrow> ctx \<Rightarrow> uuid \<Rightarrow> approve_request \<Rightarrow> (db, approve_response) body" where
  "approve now e c edtrId body d =
     (case approveGuards e edtrId body d of
        Inl err \<Rightarrow> fails err
      | Inr (r, recon) \<Rightarrow>
          let billable = billableHours edtrId body d;
              d1 = correctLineItems edtrId body d
          in (case hourlyRateFor c r d1 of
                Inl err \<Rightarrow> fails err
              | Inr hourlyRate \<Rightarrow>
                  (case deduct now c r recon billable hourlyRate d1 of
                     Inl err \<Rightarrow> fails err
                   | Inr (res, d2) \<Rightarrow>
                       let d3 = accrueRuntime (edtr_equipmentId r) billable (settlePair c body recon d2);
                           d4 = (case dr_invoiceId res of
                                   Some i \<Rightarrow> audit c ''DEDUCT'' ''invoices'' i d3
                                 | None \<Rightarrow> audit c ''DEDUCT'' ''edtr_reconciliations'' (rec_id recon) d3);
                           sp = dr_split res
                       in ([''equipment_runtime_accrued'', ''deposit_deduction_committed'', ''billable_hours_reconciled''],
                           Inr (\<lparr>ar_reconciliationId = rec_id recon,
                                 ar_deltaHours = map_option num2 (rec_deltaHours recon),
                                 ar_tolerance = num2 (rec_tolerance recon),
                                 ar_invoiceId = dr_invoiceId res,
                                 ar_hours = billable,
                                 ar_sourceLogs = (edtr_id r, rec_counterpartEdtrId recon),
                                 ar_balanceBefore = dr_balanceBefore res,
                                 ar_deducted = deducted sp, ar_accrued = accrued sp,
                                 ar_balanceAfter = balanceAfter sp\<rparr>, d4)))))"

text \<open>
  \<open>approveByReconciliation\<close> resolves the owning log in a transaction of its own, then approves.
\<close>

definition resolveOwner :: "uuid \<Rightarrow> (db, uuid) body" where
  "resolveOwner reconciliationId d =
     (case find (\<lambda>x. rec_id x = reconciliationId) (edtrReconciliations d) of
        None \<Rightarrow> fails (NotFound ''reconciliation_not_found'')
      | Some x \<Rightarrow> returns (rec_edtrId x) d)"

definition approveByReconciliation ::
  "time \<Rightarrow> env \<Rightarrow> ctx \<Rightarrow> uuid \<Rightarrow> approve_request \<Rightarrow> world \<Rightarrow> (http_error + approve_response) \<times> world" where
  "approveByReconciliation now e c reconciliationId body w =
     (case withTenantTx c (resolveOwner reconciliationId) w of
        (Inl err, w1) \<Rightarrow> (Inl err, w1)
      | (Inr edtrId, w1) \<Rightarrow>
          withTenantTx c (approve now e c edtrId (body\<lparr>apr_reconciliationId := reconciliationId\<rparr>)) w1)"

section \<open>Rejection\<close>

definition reject :: "ctx \<Rightarrow> uuid \<Rightarrow> string option \<Rightarrow> (db, uuid) body" where
  "reject c edtrId reason d =
     (case find (\<lambda>r. edtr_id r = edtrId) (edtrs d) of
        None \<Rightarrow> fails (NotFound ''edtr_not_found'')
      | Some _ \<Rightarrow>
          (case reconOf edtrId d of
             None \<Rightarrow> fails (NotFound ''reconciliation_not_found'')
           | Some recon \<Rightarrow>
               if rec_status recon = Approved then fails (Conflict ''already_approved'')
               else if rec_status recon = Rejected then fails (Conflict ''already_rejected'')
               else
                 let adj = (case rec_adjustments recon of
                        Some a \<Rightarrow> a\<lparr>adj_rejectionReason := reason\<rparr>
                      | None \<Rightarrow> \<lparr>adj_reason = None, adj_deltas = None, adj_hoursActive = None,
                          adj_hoursIdle = None, adj_rejectionReason = reason\<rparr>);
                     d1 = d\<lparr>edtrReconciliations := updw (\<lambda>x. rec_id x = rec_id recon)
                        (\<lambda>x. x\<lparr>rec_status := Rejected, rec_verifiedBy := Some (ctx_userId c),
                            rec_adjustments := Some adj\<rparr>) (edtrReconciliations d)\<rparr>
                 in ([''edtr_reconciliation_rejected''],
                     Inr (rec_id recon, audit c ''UPDATE'' ''edtr_reconciliations'' (rec_id recon) d1))))"

section \<open>Reading logs\<close>

record list_query =
  lq_status :: "edtr_status option"
  lq_rentalId :: "uuid option"
  lq_equipmentId :: "uuid option"
  lq_from :: "date option"
  lq_to :: "date option"
  lq_limit :: nat
  lq_offset :: nat

record list_item =
  lst_edtr :: edtr
  lst_reconciliation :: "reconciliation option"

definition optEq :: "'a option \<Rightarrow> 'a \<Rightarrow> bool" where
  "optEq q v \<longleftrightarrow> (case q of None \<Rightarrow> True | Some x \<Rightarrow> v = x)"

definition queryMatches :: "list_query \<Rightarrow> edtr \<Rightarrow> bool" where
  "queryMatches q r \<longleftrightarrow>
     optEq (lq_status q) (edtr_status r) \<and> optEq (lq_rentalId q) (edtr_rentalId r) \<and>
     optEq (lq_equipmentId q) (edtr_equipmentId r) \<and>
     (case lq_from q of None \<Rightarrow> True | Some f \<Rightarrow> f \<le> edtr_reportDate r) \<and>
     (case lq_to q of None \<Rightarrow> True | Some t \<Rightarrow> edtr_reportDate r \<le> t)"

definition assignedSites :: "ctx \<Rightarrow> db \<Rightarrow> uuid list" where
  "assignedSites c d =
     map tsa_projectSiteId (filter (\<lambda>a. tsa_userId a = ctx_userId c) (timekeeperSiteAssignments d))"

definition assignedRentals :: "ctx \<Rightarrow> db \<Rightarrow> uuid list" where
  "assignedRentals c d =
     map ren_id (filter (\<lambda>r. ren_projectSiteId r \<in> set (assignedSites c d)) (rentals d))"

definition reviewFirst :: "edtr list \<Rightarrow> edtr list" where
  "reviewFirst rows =
     (let sorted = orderByDesc edtr_createdAt rows
      in filter (\<lambda>r. edtr_status r = Review) sorted @ filter (\<lambda>r. edtr_status r \<noteq> Review) sorted)"

definition listEdtrs :: "ctx \<Rightarrow> list_query \<Rightarrow> (db, list_item list \<times> nat) body" where
  "listEdtrs c q d =
     (if ctx_role c = ''timekeeper'' \<and> assignedSites c d = [] then returns ([], 0) d
      else if ctx_role c = ''timekeeper'' \<and> assignedRentals c d = [] then returns ([], 0) d
      else
        let rows = filter (\<lambda>r. queryMatches q r \<and>
                (ctx_role c = ''timekeeper'' \<longrightarrow> edtr_rentalId r \<in> set (assignedRentals c d))) (edtrs d);
            page = take (lq_limit q) (drop (lq_offset q) (reviewFirst rows))
        in returns
             (map (\<lambda>r. \<lparr>lst_edtr = r,
                  lst_reconciliation = find (\<lambda>x. rec_edtrId x = edtr_id r) (rev (edtrReconciliations d))\<rparr>) page,
              length rows) d)"

record field_view =
  fv_name :: string
  fv_value :: jsonv
  fv_confidence :: number
  fv_belowGate :: bool

record edtr_detail =
  ed_id :: uuid
  ed_status :: edtr_status
  ed_source :: edtr_source
  ed_lineItems :: "(number \<times> number option) list"
  ed_fields :: "field_view list"
  ed_extraction :: "(string \<times> string \<times> bool) option"
  ed_reconciliation :: "reconciliation option"

definition getEdtr :: "uuid \<Rightarrow> (db, edtr_detail) body" where
  "getEdtr i d =
     (case find (\<lambda>r. edtr_id r = i) (edtrs d) of
        None \<Rightarrow> fails (NotFound ''edtr_not_found'')
      | Some row \<Rightarrow>
          returns \<lparr>ed_id = edtr_id row, ed_status = edtr_status row, ed_source = edtr_source row,
            ed_lineItems = map (\<lambda>l. (num2 (eli_hoursActive l), map_option num2 (eli_hoursIdle l))) (lineItemsOf i d),
            ed_fields =
              (case edtr_ocrPayload row of
                 None \<Rightarrow> []
               | Some p \<Rightarrow> map (\<lambda>f. \<lparr>fv_name = ofl_name f, fv_value = ofl_value f, fv_confidence = ofl_confidence f,
                    fv_belowGate = (ofl_confidence f < CONFIDENCE_GATE)\<rparr>) (opl_fields p)),
            ed_extraction =
              map_option (\<lambda>p. (opl_model_id p, opl_analyzed_at p, isManualTranscription (Some p))) (edtr_ocrPayload row),
            ed_reconciliation = reconOf i d\<rparr> d)"

definition rawFileKey :: "uuid \<Rightarrow> (db, string) body" where
  "rawFileKey i d =
     (case find (\<lambda>r. edtr_id r = i) (edtrs d) of
        None \<Rightarrow> fails (NotFound ''edtr_not_found'')
      | Some row \<Rightarrow>
          (case edtr_rawFileUri row of
             Some uri \<Rightarrow> if uri = [] then fails (NotFound ''edtr_scan_not_found'') else returns uri d
           | None \<Rightarrow> fails (NotFound ''edtr_scan_not_found'')))"

section \<open>What the steps write\<close>

lemma guardsD:
  assumes "approveGuards e i body d = Inr (r, recon)"
  shows "find (\<lambda>r. edtr_id r = i) (edtrs d) = Some r"
    "find (\<lambda>x. rec_id x = apr_reconciliationId body) (edtrReconciliations d) = Some recon"
    "rec_edtrId recon = i" "rec_status recon = Matched \<or> rec_status recon = Discrepancy \<and> apr_adjustments body \<noteq> None"
    "modelSourced r recon d \<Longrightarrow> attestedOcrAccuracyFailure e = None"
    "\<And>j x. rec_counterpartEdtrId recon = Some j \<Longrightarrow> reconOf j d = Some x \<Longrightarrow> rec_status x \<noteq> Approved"
  using assms by (auto simp: approveGuards_def split: option.splits if_splits)

lemma correctLineItems_tables [simp]:
  "edtrReconciliations (correctLineItems i b d) = edtrReconciliations d" "edtrs (correctLineItems i b d) = edtrs d"
  "invoices (correctLineItems i b d) = invoices d" "depositAccruals (correctLineItems i b d) = depositAccruals d"
  "equipments (correctLineItems i b d) = equipments d" "rateCards (correctLineItems i b d) = rateCards d"
  "rentals (correctLineItems i b d) = rentals d" "quotations (correctLineItems i b d) = quotations d"
  "quotationItems (correctLineItems i b d) = quotationItems d" "rentalContracts (correctLineItems i b d) = rentalContracts d"
  "billingSettings (correctLineItems i b d) = billingSettings d" "invoiceLineItems (correctLineItems i b d) = invoiceLineItems d"
  by (simp_all add: correctLineItems_def split: option.split prod.split)

lemma hourlyRateFor_correct [simp]: "hourlyRateFor c r (correctLineItems i b d) = hourlyRateFor c r d"
  by (simp add: hourlyRateFor_def deductionCard_def hourlyCards_def split: option.split)

lemma depositPaid_correct [simp]: "depositPaid i (correctLineItems j b d) = depositPaid i d"
  by (simp add: depositPaid_def)

lemma ledger_correct [simp]: "resolveDepositLedger i t (correctLineItems j b d) = resolveDepositLedger i t d"
  by (simp add: resolveDepositLedger_def latestQuotation_def latestContract_def getBillingSettings_def
      deductionRows_def Let_def split: option.split)

text \<open>A deduction writes its invoice, its line, its accrual and notifications, and nothing else.\<close>

lemma deductD:
  assumes "deduct now c r recon billable rate d = Inr (res, d')"
  obtains hrs inv d1 where "depositPaid (edtr_rentalId r) d"
    "insertDeduction now c r recon hrs rate (dr_split res) d = (dr_invoiceId res, d1)"
    "sameLedger (insertAccrual c r recon (round2HalfUp (billable - hrs)) rate (dr_split res) d1) d'"
    "dr_balanceBefore res = round2HalfUp (math_max (js 0)
       (led_depositRequired (resolveDepositLedger (edtr_rentalId r) (ctx_tenantId c) d) -
        led_totalDeducted (resolveDepositLedger (edtr_rentalId r) (ctx_tenantId c) d)))"
    "dr_split res = splitDeduction (dr_balanceBefore res) (round2HalfUp (billable * rate))"
  using assms sameLedger_trans[OF sameLedger_notify(1) sameLedger_notify(2)]
  by (auto simp: deduct_def Let_def split: if_splits prod.splits)

lemma insertDeduction_tables:
  assumes "insertDeduction now c r recon h rate sp d = (i, d1)"
  shows "edtrReconciliations d1 = edtrReconciliations d" "edtrs d1 = edtrs d" "depositAccruals d1 = depositAccruals d"
  using assms by (auto simp: insertDeduction_def Let_def fresh_def split: if_splits)

lemma insertAccrual_tables:
  "edtrReconciliations (insertAccrual c r recon h rate sp d) = edtrReconciliations d"
  "edtrs (insertAccrual c r recon h rate sp d) = edtrs d" "invoices (insertAccrual c r recon h rate sp d) = invoices d"
  by (simp_all add: insertAccrual_def fresh_def)

lemma deduct_tables:
  assumes "deduct now c r recon billable rate d = Inr (res, d')"
  shows "edtrReconciliations d' = edtrReconciliations d \<and> edtrs d' = edtrs d"
proof -
  obtain hrs d1 where i: "insertDeduction now c r recon hrs rate (dr_split res) d = (dr_invoiceId res, d1)"
    and sl: "sameLedger (insertAccrual c r recon (round2HalfUp (billable - hrs)) rate (dr_split res) d1) d'"
    by (rule deductD[OF assms])
  show ?thesis using insertDeduction_tables(1,2)[OF i] sl by (simp add: sameLedger_def insertAccrual_tables)
qed

lemma approveD:
  assumes "committed (approve now e c i body d) res d'"
  obtains r recon rate dr d2 where "approveGuards e i body d = Inr (r, recon)" "hourlyRateFor c r d = Inr rate"
    "deduct now c r recon (billableHours i body d) rate (correctLineItems i body d) = Inr (dr, d2)"
    "edtrReconciliations d' = edtrReconciliations (settlePair c body recon d)"
    "edtrs d' = edtrs d" "invoices d' = invoices d2" "depositAccruals d' = depositAccruals d2"
    "ar_sourceLogs res = (edtr_id r, rec_counterpartEdtrId recon)"
    "ar_deducted res = deducted (dr_split dr)" "ar_accrued res = accrued (dr_split dr)"
proof -
  obtain r recon where g: "approveGuards e i body d = Inr (r, recon)"
    using assms by (auto simp: approve_def split: sum.splits)
  obtain rate where rate: "hourlyRateFor c r d = Inr rate"
    using assms g by (auto simp: approve_def Let_def split: sum.splits)
  obtain dr d2 where dd: "deduct now c r recon (billableHours i body d) rate (correctLineItems i body d) = Inr (dr, d2)"
    using assms g rate by (auto simp: approve_def Let_def split: sum.splits)
  note t = deduct_tables[OF dd, simplified]
  show ?thesis
    by (rule that[OF g rate dd]; use assms g rate dd t in
        \<open>auto simp: approve_def Let_def audit_def accrueRuntime_def settlePair_def split: option.splits\<close>)
qed

lemma deduct_commits:
  assumes "depositPaid (edtr_rentalId r) d"
  shows "\<exists>res d'. deduct now c r recon billable rate d = Inr (res, d')"
  using assms by (auto simp: deduct_def Let_def split: prod.split)

lemma approve_commits:
  assumes "approveGuards e i body d = Inr (r, recon)" "hourlyRateFor c r d = Inr rate" "depositPaid (edtr_rentalId r) d"
  shows "\<exists>res d'. committed (approve now e c i body d) res d' \<and> ar_sourceLogs res = (edtr_id r, rec_counterpartEdtrId recon)"
proof -
  have "depositPaid (edtr_rentalId r) (correctLineItems i body d)" using assms(3) by simp
  from deduct_commits[OF this, of now c recon "billableHours i body d" rate] show ?thesis
    using assms by (auto simp: approve_def Let_def)
qed

section \<open>Properties\<close>

definition demo_env :: env where
  "demo_env = \<lparr>ocrPipelineEnabled = False, ocrMeasuredAccuracy = NaN, ocrMeasuredSamples = NaN\<rparr>"

definition demo_unit :: equipment where
  "demo_unit = \<lparr>eqp_id = 9, eqp_tenantId = 1, eqp_equipmentTypeId = 8, eqp_model = ''PC200'', eqp_serialNo = ''A1'',
     eqp_availabilityStatus = Deployed, eqp_runtimeHours = 0, eqp_modelNumber = None,
     eqp_yearOfManufacture = None, eqp_weightCapacityTons = None, eqp_engineType = None, eqp_fuelType = None,
     eqp_notes = None, eqp_photoUri = None, eqp_categoryNote = None, eqp_retiredAt = None, eqp_createdAt = 0\<rparr>"

definition demo_recon :: reconciliation where
  "demo_recon = \<lparr>rec_id = 31, rec_tenantId = 1, rec_edtrId = 2, rec_counterpartEdtrId = Some 1,
     rec_deltaHours = Some 15, rec_tolerance = 25, rec_verifiedBy = None, rec_adjustments = None, rec_status = Matched\<rparr>"

definition paid_deposit :: invoice where
  "paid_deposit = \<lparr>inv_id = 40, inv_tenantId = 1, inv_rentalId = Some 5, inv_truckRequestId = None,
     inv_invoiceType = Deposit, inv_amount = 500000, inv_status = Paid, inv_dueDate = 0, inv_createdAt = 0\<rparr>"

definition approval_db :: db where
  "approval_db = empty_db\<lparr>edtrs := [log_at 1 PaperOcr, log_at 2 DigitalEntry],
     edtrReconciliations := [demo_recon\<lparr>rec_id := 30, rec_edtrId := 1, rec_counterpartEdtrId := Some 2\<rparr>, demo_recon],
     equipments := [demo_unit], rateCards := [demo_card\<lparr>rc_rateType := ''hourly'', rc_rateValue := 120050\<rparr>],
     invoices := [paid_deposit]\<rparr>"

definition demo_approval :: approve_request where
  "demo_approval = \<lparr>apr_reconciliationId = 31, apr_adjustments = Some (num2 800, num2 0)\<rparr>"

lemmas approval_db_eval =
  approval_db_def demo_recon_def demo_unit_def paid_deposit_def demo_approval_def log_at_def empty_db_def demo_card_def

lemma approval_db_guards:
  "approveGuards demo_env 2 demo_approval approval_db = Inr (log_at 2 DigitalEntry, demo_recon)"
  by (simp add: approveGuards_def approval_db_eval reconOf_def modelSourced_def isManualTranscription_def
      buildManualTranscriptionPayload_def)

lemma approval_db_rate: "hourlyRateFor demo_ctx (log_at 2 DigitalEntry) approval_db = Inr (num2 120050)"
  by (simp add: hourlyRateFor_def deductionCard_def hourlyCards_def unitCardFirst_def inForceOn_def manilaDate_def
      DAY_MS_def approval_db_eval demo_ctx_def)

lemma approval_db_paid: "depositPaid (edtr_rentalId (log_at 2 DigitalEntry)) approval_db"
  by (simp add: depositPaid_def approval_db_eval)

lemma approval_db_commits:
  obtains res d' where "committed (approve 0 demo_env demo_ctx 2 demo_approval approval_db) res d'"
    "ar_sourceLogs res = (2, Some 1)"
  using approve_commits[OF approval_db_guards approval_db_rate approval_db_paid, of 0]
  by (auto simp: log_at_def demo_recon_def)

lemma settlePair_status:
  assumes "x \<in> set (edtrReconciliations (settlePair c body recon d))"
    and "rec_id x = rec_id recon \<or> rec_counterpartEdtrId recon = Some (rec_edtrId x)"
  shows "rec_status x = Approved"
proof -
  define own where "own = updw (\<lambda>x. rec_id x = rec_id recon)
    (\<lambda>x. x\<lparr>rec_status := Approved, rec_verifiedBy := Some (ctx_userId c),
       rec_adjustments := mergeAdjustments (rec_adjustments recon) (apr_adjustments body)\<rparr>) (edtrReconciliations d)"
  have own: "rec_status x = Approved" if "x \<in> set own" "rec_id x = rec_id recon"
    using updw_hit[of x rec_id, OF that(1)[unfolded own_def] that(2)] by auto
  show ?thesis
  proof (cases "rec_counterpartEdtrId recon")
    case None
    then have "x \<in> set own" using assms(1) by (simp add: settlePair_def Let_def own_def)
    with own None assms(2) show ?thesis by simp
  next
    case (Some k)
    then have x: "x \<in> set (updw (\<lambda>x. rec_edtrId x = k)
        (\<lambda>x. x\<lparr>rec_status := Approved, rec_verifiedBy := Some (ctx_userId c)\<rparr>) own)"
      using assms(1) by (simp add: settlePair_def Let_def own_def)
    show ?thesis
    proof (cases "rec_edtrId x = k")
      case True
      have "\<exists>r \<in> set own. rec_edtrId r = k \<and> x = r\<lparr>rec_status := Approved, rec_verifiedBy := Some (ctx_userId c)\<rparr>"
        by (rule updw_hit[OF x True]) simp
      then show ?thesis by (elim bexE conjE) simp
    next
      case False
      have "x \<in> set own" by (rule updw_miss[OF x False]) simp
      then show ?thesis using own Some assms(2) False by simp
    qed
  qed
qed

lemma settlePair_ids: "map rec_id (edtrReconciliations (settlePair c body recon d)) = map rec_id (edtrReconciliations d)"
  by (simp add: settlePair_def Let_def map_updw split: option.split)

lemma find_by_id: "distinct (map f xs) \<Longrightarrow> x \<in> set xs \<Longrightarrow> f x = i \<Longrightarrow> find (\<lambda>y. f y = i) xs = Some x"
  by (induction xs) (auto simp: image_iff)

lemma approved_blocks:
  assumes "x \<in> set (edtrReconciliations d)" "rec_status x = Approved" "distinct (map rec_id (edtrReconciliations d))"
    and "apr_reconciliationId body = rec_id x" "find (\<lambda>r. edtr_id r = rec_edtrId x) (edtrs d) \<noteq> None"
  shows "approve now e c (rec_edtrId x) body d = fails (Conflict ''already_approved'')"
  using find_by_id[OF assms(3,1)] assms by (auto simp: approve_def approveGuards_def split: option.split)

text \<open>
  C7. A day's work is approved once. After a committed approval, every row of the pair, the one
  approved and those of its counterpart, is approved; and in the state it leaves, whoever approves any of them again,
  at any time, with any adjustments and from either side, gets \<open>already_approved\<close> and moves no money.
\<close>

theorem pair_approved_once:
  assumes "committed (approve now e c i body d) res d'" "distinct (map rec_id (edtrReconciliations d))"
    and "x \<in> set (edtrReconciliations d')"
    and "rec_id x = apr_reconciliationId body \<or> snd (ar_sourceLogs res) = Some (rec_edtrId x)"
    and "find (\<lambda>r. edtr_id r = rec_edtrId x) (edtrs d') \<noteq> None" "apr_reconciliationId body' = rec_id x"
  shows "rec_status x = Approved \<and>
    approve now' e' c' (rec_edtrId x) body' d' = fails (Conflict ''already_approved'')"
proof -
  obtain r recon where g: "approveGuards e i body d = Inr (r, recon)"
    and t: "edtrReconciliations d' = edtrReconciliations (settlePair c body recon d)"
    and s: "ar_sourceLogs res = (edtr_id r, rec_counterpartEdtrId recon)"
    by (rule approveD[OF assms(1)]) blast
  have "rec_id recon = apr_reconciliationId body" using find_SomeD[OF guardsD(2)[OF g]] by simp
  then have ap: "rec_status x = Approved"
    using settlePair_status[of x c body recon d] assms(3,4) t s by auto
  have "distinct (map rec_id (edtrReconciliations d'))" using assms(2) by (simp add: t settlePair_ids)
  from approved_blocks[OF assms(3) ap this assms(6,5)] ap show ?thesis by blast
qed

theorem pair_approved_once_witness:
  "\<exists>res d'. committed (approve 0 demo_env demo_ctx 2 demo_approval approval_db) res d' \<and>
     approve 9 demo_env demo_ctx 1 \<lparr>apr_reconciliationId = 30, apr_adjustments = None\<rparr> d' =
       fails (Conflict ''already_approved'')"
proof -
  obtain res d' where a: "committed (approve 0 demo_env demo_ctx 2 demo_approval approval_db) res d'"
    "ar_sourceLogs res = (2, Some 1)" by (rule approval_db_commits)
  have t: "edtrReconciliations d' = edtrReconciliations (settlePair demo_ctx demo_approval demo_recon approval_db)"
    "edtrs d' = edtrs approval_db"
    using approveD[OF a(1)] approval_db_guards by auto
  define x where "x = hd (edtrReconciliations d')"
  have x: "x \<in> set (edtrReconciliations d')" "rec_id x = 30" "rec_edtrId x = 1"
    by (simp_all add: x_def t settlePair_def Let_def approval_db_eval)
  have "distinct (map rec_id (edtrReconciliations approval_db))" by (simp add: approval_db_eval)
  from pair_approved_once[OF a(1) this x(1), of "\<lparr>apr_reconciliationId = 30, apr_adjustments = None\<rparr>" 9 demo_env demo_ctx]
  have "approve 9 demo_env demo_ctx 1 \<lparr>apr_reconciliationId = 30, apr_adjustments = None\<rparr> d' =
       fails (Conflict ''already_approved'')"
    using a(2) x t by (simp add: approval_db_eval)
  with a(1) show ?thesis by blast
qed

text \<open>
  C9. Nothing is deducted without the gates. A committed approval had a reconciliation of that
  very log that was matched, or a discrepancy for which the reviewer supplied corrected hours; a
  paid deposit or booking invoice of the rental; a rate card for the day unless the machine's type
  has no hourly card at all; no side already approved; and, if either log's hours came from a
  model, an attested accuracy that passes the gate.
\<close>

theorem deduction_needs_gates:
  assumes "committed (approve now e c i body d) res d'"
  shows "\<exists>r \<in> set (edtrs d). \<exists>recon \<in> set (edtrReconciliations d).
     edtr_id r = i \<and> rec_edtrId recon = i \<and> rec_id recon = apr_reconciliationId body \<and>
     (rec_status recon = Matched \<or> rec_status recon = Discrepancy \<and> apr_adjustments body \<noteq> None) \<and>
     (\<exists>inv \<in> set (invoices d). inv_rentalId inv = Some (edtr_rentalId r) \<and>
        inv_invoiceType inv \<in> {Deposit, Booking} \<and> inv_status inv = Paid) \<and>
     (case rec_counterpartEdtrId recon of None \<Rightarrow> True
      | Some j \<Rightarrow> (case reconOf j d of None \<Rightarrow> True | Some x \<Rightarrow> rec_status x \<noteq> Approved)) \<and>
     (modelSourced r recon d \<longrightarrow> attestedOcrAccuracyFailure e = None) \<and>
     (\<exists>rate. hourlyRateFor c r d = Inr rate)"
proof -
  obtain r recon rate dr d2 where g: "approveGuards e i body d = Inr (r, recon)"
    and rate: "hourlyRateFor c r d = Inr rate"
    and dd: "deduct now c r recon (billableHours i body d) rate (correctLineItems i body d) = Inr (dr, d2)"
    by (rule approveD[OF assms]) blast
  have "depositPaid (edtr_rentalId r) d" using deductD[OF dd] by auto
  then have "\<exists>inv \<in> set (invoices d). inv_rentalId inv = Some (edtr_rentalId r) \<and>
        inv_invoiceType inv \<in> {Deposit, Booking} \<and> inv_status inv = Paid"
    by (auto simp: depositPaid_def list_ex_iff)
  then show ?thesis
    using find_SomeD[OF guardsD(1)[OF g]] find_SomeD[OF guardsD(2)[OF g]] guardsD(3-6)[OF g] rate
    by (intro bexI[of _ r] bexI[of _ recon]) (auto split: option.split)
qed

theorem deduction_needs_gates_witness:
  "\<exists>res d'. committed (approve 0 demo_env demo_ctx 2 demo_approval approval_db) res d' \<and>
     (\<exists>inv \<in> set (invoices approval_db). inv_status inv = Paid)"
proof -
  obtain res d' where a: "committed (approve 0 demo_env demo_ctx 2 demo_approval approval_db) res d'"
    by (rule approval_db_commits)
  from deduction_needs_gates[OF this] a show ?thesis by blast
qed

section \<open>The money of an approval\<close>

definition deductedFrom :: "uuid \<Rightarrow> db \<Rightarrow> int" where
  "deductedFrom rid d =
     (\<Sum>i\<leftarrow>filter (\<lambda>i. inv_rentalId i = Some rid \<and> inv_invoiceType i = DepositDeduction) (invoices d). inv_amount i)"

definition accruedTo :: "uuid \<Rightarrow> db \<Rightarrow> int" where
  "accruedTo rid d = (\<Sum>a\<leftarrow>filter (\<lambda>a. acc_rentalId a = rid) (depositAccruals d). acc_amount a)"

definition deductionsOk :: "uuid \<Rightarrow> db \<Rightarrow> bool" where
  "deductionsOk rid d \<longleftrightarrow> length (deductionRows rid d) \<le> 4096 \<and> deductedFrom rid d \<le> 2 ^ 36 \<and>
     (\<forall>i \<in> set (deductionRows rid d). 0 \<le> inv_amount i)"

lemma deductedFrom_rows: "deductedFrom rid d = (\<Sum>i\<leftarrow>deductionRows rid d. inv_amount i)"
  by (simp add: deductedFrom_def deductionRows_def)

lemma balance_exact:
  assumes "deductionsOk rid d" "amt (led_depositRequired (resolveDepositLedger rid t d)) dep" "0 \<le> dep" "dep \<le> 2 ^ 36"
  shows "amt (round2HalfUp (math_max (js 0)
      (led_depositRequired (resolveDepositLedger rid t d) - led_totalDeducted (resolveDepositLedger rid t d))))
    (max 0 (dep - deductedFrom rid d))"
proof -
  let ?l = "resolveDepositLedger rid t d"
  have tot: "near (led_totalDeducted ?l) (deductedFrom rid d) (1 / 1000)"
    using near_sum[of "deductionRows rid d" inv_amount] assms(1)
    by (simp add: resolveDepositLedger_def Let_def deductionsOk_def deductedFrom_rows)
  have nn: "0 \<le> deductedFrom rid d"
    unfolding deductedFrom_rows using assms(1) by (intro sum_list_nonneg) (auto simp: deductionsOk_def)
  have up: "deductedFrom rid d \<le> 2 ^ 36" using assms(1) by (simp add: deductionsOk_def)
  have "near (led_depositRequired ?l - led_totalDeducted ?l) (dep - deductedFrom rid d) (1 / 4000 + 1 / 1000 + 1 / 100000)"
    by (rule near_minus[OF near_amt[OF assms(2)] tot]) (use assms nn up in simp_all)
  then have "near (math_max (js 0) (led_depositRequired ?l - led_totalDeducted ?l))
      (max 0 (dep - deductedFrom rid d)) (1 / 4000 + 1 / 1000 + 1 / 100000)"
    by (intro near_max) (auto intro: nearI[OF isn_0])
  then show ?thesis unfolding round2_cents by (rule near_cents) (use assms nn up in auto)
qed

text \<open>What the two inserts add to the rental's sums, when the split is \<open>x\<close> and \<open>y\<close> centavos.\<close>

lemma inserts_sum:
  assumes i: "insertDeduction now c r recon h rate sp d = (iid, d1)"
    and x: "amt (deducted sp) x" "0 \<le> x" "x \<le> 2 ^ 44" and y: "amt (accrued sp) y" "0 \<le> y" "y \<le> 2 ^ 44"
  shows "deductedFrom (edtr_rentalId r) (insertAccrual c r recon h' rate sp d1) = deductedFrom (edtr_rentalId r) d + x"
    and "accruedTo (edtr_rentalId r) (insertAccrual c r recon h' rate sp d1) = accruedTo (edtr_rentalId r) d + y"
proof -
  have c: "col2 (deducted sp) = x" "col2 (accrued sp) = y" using x y by (auto intro: amt_col2)
  have px: "js 0 < deducted sp \<longleftrightarrow> 0 < x" and py: "js 0 < accrued sp \<longleftrightarrow> 0 < y"
    using amt_less[OF amt_js_0 x(1)] amt_less[OF amt_js_0 y(1)] x y by simp_all
  have "deductedFrom (edtr_rentalId r) d1 = deductedFrom (edtr_rentalId r) d + x \<and> depositAccruals d1 = depositAccruals d"
    using i c px x(2) by (auto simp: insertDeduction_def deductedFrom_def Let_def fresh_def split: if_splits)
  then show "deductedFrom (edtr_rentalId r) (insertAccrual c r recon h' rate sp d1) = deductedFrom (edtr_rentalId r) d + x"
    "accruedTo (edtr_rentalId r) (insertAccrual c r recon h' rate sp d1) = accruedTo (edtr_rentalId r) d + y"
    using py c y(2) by (auto simp: insertAccrual_def insertAccrual_tables deductedFrom_def accruedTo_def fresh_def)
qed

text \<open>
  C8. An approval bills the hours to the centavo and never overdraws the deposit. For \<open>h\<close>
  hundredths of an hour at a card of \<open>rate\<close> centavos (the product not exactly half a centavo), a
  committed approval charges \<open>(h * rate + 50) div 100\<close> centavos: the rental's deductions grow by
  what the deposit still holds, at most, and its accruals by exactly the rest.
\<close>

theorem approval_money_exact:
  assumes "committed (approve now e c i body d) res d'"
    and "find (\<lambda>r. edtr_id r = i) (edtrs d) = Some r" "hourlyRateFor c r d = Inr (num2 rate)"
    and "amt (billableHours i body d) h" "0 \<le> h" "h \<le> 999999" "0 \<le> rate" "rate \<le> 2 ^ 29" "h * rate mod 100 \<noteq> 50"
    and "deductionsOk (edtr_rentalId r) d" "0 \<le> dep" "dep \<le> 2 ^ 36"
    and "amt (led_depositRequired (resolveDepositLedger (edtr_rentalId r) (ctx_tenantId c) d)) dep"
  defines "charge \<equiv> (h * rate + 50) div 100" and "held \<equiv> max 0 (dep - deductedFrom (edtr_rentalId r) d)"
  shows "deductedFrom (edtr_rentalId r) d' = deductedFrom (edtr_rentalId r) d + min held charge \<and>
    accruedTo (edtr_rentalId r) d' = accruedTo (edtr_rentalId r) d + (charge - min held charge)"
proof -
  obtain r' recon rate' dr d2 where g: "approveGuards e i body d = Inr (r', recon)"
    and rate: "hourlyRateFor c r' d = Inr rate'"
    and dd: "deduct now c r' recon (billableHours i body d) rate' (correctLineItems i body d) = Inr (dr, d2)"
    and t: "invoices d' = invoices d2" "depositAccruals d' = depositAccruals d2"
    by (rule approveD[OF assms(1)]) blast
  have r': "r' = r" using guardsD(1)[OF g] assms(2) by simp
  have rate': "rate' = num2 rate" using rate assms(3) r' by simp
  obtain hrs d1 where ins: "insertDeduction now c r recon hrs rate' (dr_split dr) (correctLineItems i body d) = (dr_invoiceId dr, d1)"
    and sl: "sameLedger (insertAccrual c r recon (round2HalfUp (billableHours i body d - hrs)) rate' (dr_split dr) d1) d2"
    and bal: "dr_balanceBefore dr = round2HalfUp (math_max (js 0)
       (led_depositRequired (resolveDepositLedger (edtr_rentalId r) (ctx_tenantId c) d) -
        led_totalDeducted (resolveDepositLedger (edtr_rentalId r) (ctx_tenantId c) d)))"
    and sp: "dr_split dr = splitDeduction (dr_balanceBefore dr) (round2HalfUp (billableHours i body d * rate'))"
    using deductD[OF dd] unfolding r' by (metis ledger_correct)
  have b: "amt (dr_balanceBefore dr) held" unfolding bal held_def
    by (rule balance_exact[OF assms(10,13,11,12)])
  have ch0: "0 \<le> charge"
    unfolding charge_def using mult_nonneg_nonneg[OF assms(5,7)] by (simp add: pos_imp_zdiv_nonneg_iff)
  have "h * rate \<le> 999999 * 2 ^ 29" using assms(5-8) by (intro mult_mono) auto
  then have ch1: "charge \<le> 2 ^ 43" unfolding charge_def by simp
  have a: "amt (round2HalfUp (billableHours i body d * rate')) charge"
    unfolding round2_cents rate' charge_def
    by (rule amt_mul[OF assms(4) amt_num2 _ _ assms(9)]) (use assms in simp_all)
  have nn: "0 \<le> deductedFrom (edtr_rentalId r) d"
    unfolding deductedFrom_rows using assms(10) by (intro sum_list_nonneg) (auto simp: deductionsOk_def)
  have held: "0 \<le> held" "held \<le> 2 ^ 43" unfolding held_def using assms(12) nn by auto
  note s = dep.split_law[OF b a held ch0 ch1, folded sp]
  have "deductedFrom (edtr_rentalId r) d2 = deductedFrom (edtr_rentalId r) d + min held charge \<and>
      accruedTo (edtr_rentalId r) d2 = accruedTo (edtr_rentalId r) d + (charge - min held charge)"
    using inserts_sum[OF ins, of "min held charge" "charge - min held charge"] s sl ch0 ch1 held
    by (auto simp: sameLedger_def deductedFrom_def accruedTo_def)
  then show ?thesis by (simp add: t deductedFrom_def accruedTo_def)
qed

theorem approval_money_exact_witness:
  "\<exists>res d'. committed (approve 0 demo_env demo_ctx 2 demo_approval approval_db) res d' \<and>
     deductedFrom 5 d' = 500000 \<and> accruedTo 5 d' = 460400"
proof -
  obtain res d' where a: "committed (approve 0 demo_env demo_ctx 2 demo_approval approval_db) res d'"
    by (rule approval_db_commits)
  have f: "find (\<lambda>r. edtr_id r = 2) (edtrs approval_db) = Some (log_at 2 DigitalEntry)"
    by (simp add: approval_db_eval)
  have h: "amt (billableHours 2 demo_approval approval_db) 800"
    using amt_num2[of 800] by (simp add: billableHours_def demo_approval_def)
  have dep: "amt (led_depositRequired (resolveDepositLedger 5 1 approval_db)) 500000"
    using amt_num2[of 500000] by (simp add: resolveDepositLedger_def latestQuotation_def getBillingSettings_def
        Let_def approval_db_eval DEFAULT_DEPOSIT_PHP_def num2_def)
  have z: "deductedFrom 5 approval_db = 0" "accruedTo 5 approval_db = 0" "deductionsOk 5 approval_db"
    by (simp_all add: deductedFrom_def accruedTo_def deductionsOk_def deductionRows_def orderByDesc_def approval_db_eval)
  have "edtr_rentalId (log_at 2 DigitalEntry) = 5" "ctx_tenantId demo_ctx = 1" by (simp_all add: log_at_def demo_ctx_def)
  then show ?thesis
    using approval_money_exact[OF a f approval_db_rate h, of 500000] dep z a by auto
qed

text \<open>
  A denied capture leaves nothing behind: the row \<open>edtr_site_scope_denied\<close> the service inserts into
  \<open>audit_logs\<close> is rolled back by the exception it throws right after, in the same transaction; only
  the event, committed by a transaction of its own, survives.
\<close>

lemma denied_capture_unaudited:
  assumes "fst (withTenantTx c (capture now isoNow e c body) w) = Inl (Forbidden ''site_not_assigned'')"
  shows "data (snd (withTenantTx c (capture now isoNow e c body) w)) = data w"
  using assms by (rule withTenantTx_error)

lemma set_reviewFirst: "set (reviewFirst rows) = set rows"
  by (auto simp: reviewFirst_def Let_def set_orderByDesc)

text \<open>
  A timekeeper reads only the logs of the sites they are assigned to, whatever the query asks
  for, and the total they are shown counts only those.
\<close>

theorem timekeeper_reads_own_sites:
  assumes "ctx_role c = ''timekeeper''" "committed (listEdtrs c q d) (items, n) d'"
  shows "(\<forall>it \<in> set items. lst_edtr it \<in> set (edtrs d) \<and>
      (\<exists>r \<in> set (rentals d). ren_id r = edtr_rentalId (lst_edtr it) \<and>
        (\<exists>a \<in> set (timekeeperSiteAssignments d). tsa_userId a = ctx_userId c \<and> tsa_projectSiteId a = ren_projectSiteId r))) \<and>
    length items \<le> lq_limit q \<and> d' = d \<and>
    n \<le> length (filter (\<lambda>e. edtr_rentalId e \<in> set (assignedRentals c d)) (edtrs d))"
proof -
  have len: "length (filter (\<lambda>r. queryMatches q r \<and> edtr_rentalId r \<in> S) xs) \<le> length (filter (\<lambda>r. edtr_rentalId r \<in> S) xs)"
    for S xs by (induction xs) auto
  have own: "\<exists>r \<in> set (rentals d). ren_id r = i \<and>
      (\<exists>a \<in> set (timekeeperSiteAssignments d). tsa_userId a = ctx_userId c \<and> tsa_projectSiteId a = ren_projectSiteId r)"
    if i: "i \<in> set (assignedRentals c d)" for i
  proof -
    obtain r where r: "r \<in> set (rentals d)" "ren_id r = i" "ren_projectSiteId r \<in> set (assignedSites c d)"
      using i by (auto simp: assignedRentals_def)
    then obtain a where "a \<in> set (timekeeperSiteAssignments d)" "tsa_userId a = ctx_userId c"
      "tsa_projectSiteId a = ren_projectSiteId r" by (auto simp: assignedSites_def)
    with r show ?thesis by blast
  qed
  show ?thesis
  proof (cases "assignedSites c d = [] \<or> assignedRentals c d = []")
    case True
    then have "listEdtrs c q d = returns ([], 0) d" using assms(1) by (auto simp: listEdtrs_def)
    then show ?thesis using assms(2) by simp
  next
    case False
    let ?rows = "filter (\<lambda>r. queryMatches q r \<and> edtr_rentalId r \<in> set (assignedRentals c d)) (edtrs d)"
    have e: "items = map (\<lambda>r. \<lparr>lst_edtr = r, lst_reconciliation = find (\<lambda>x. rec_edtrId x = edtr_id r) (rev (edtrReconciliations d))\<rparr>)
        (take (lq_limit q) (drop (lq_offset q) (reviewFirst ?rows)))" "n = length ?rows" "d' = d"
      using assms False by (simp_all add: listEdtrs_def Let_def)
    have sub: "set (take k (drop m (reviewFirst ?rows))) \<subseteq> set ?rows" for k m
      using subset_trans[OF set_take_subset set_drop_subset, of k m "reviewFirst ?rows"] by (simp only: set_reviewFirst)
    have i: "lst_edtr it \<in> set (edtrs d) \<and> edtr_rentalId (lst_edtr it) \<in> set (assignedRentals c d)"
      if "it \<in> set items" for it
    proof -
      have "lst_edtr it \<in> set (take (lq_limit q) (drop (lq_offset q) (reviewFirst ?rows)))"
        using that unfolding e(1) set_map by (elim imageE) simp
      then have "lst_edtr it \<in> set ?rows" using sub by blast
      then show ?thesis by simp
    qed
    have "length items \<le> lq_limit q" by (simp add: e(1))
    moreover have "n \<le> length (filter (\<lambda>e. edtr_rentalId e \<in> set (assignedRentals c d)) (edtrs d))"
      unfolding e(2) by (rule len)
    ultimately show ?thesis using i own e(3) by simp
  qed
qed

definition timekeeper_ctx :: ctx where
  "timekeeper_ctx = \<lparr>ctx_tenantId = 1, ctx_userId = 3, ctx_role = ''timekeeper''\<rparr>"

definition all_logs :: list_query where
  "all_logs = \<lparr>lq_status = None, lq_rentalId = None, lq_equipmentId = None, lq_from = None, lq_to = None,
     lq_limit = 20, lq_offset = 0\<rparr>"

definition site_db :: db where
  "site_db = approval_db\<lparr>
     rentals := [\<lparr>ren_id = 5, ren_tenantId = 1, ren_customerId = 6, ren_projectSiteId = 12, ren_status = RActive,
        ren_siteContact = None, ren_siteNotes = None, ren_startDate = 0, ren_endDate = None,
        ren_callRequestedAt = None, ren_callConfirmedAt = None, ren_callConfirmedBy = None, ren_createdAt = 0\<rparr>],
     timekeeperSiteAssignments :=
        [\<lparr>tsa_id = 70, tsa_tenantId = 1, tsa_userId = 3, tsa_projectSiteId = 12\<rparr>],
     edtrs := edtrs approval_db @ [(log_at 3 PaperOcr)\<lparr>edtr_rentalId := 77\<rparr>]\<rparr>"

theorem timekeeper_reads_own_sites_witness:
  "\<exists>items. committed (listEdtrs timekeeper_ctx all_logs site_db) (items, 2) site_db \<and>
     map (\<lambda>i. edtr_id (lst_edtr i)) items = [1, 2] \<and> list_all (\<lambda>it. edtr_rentalId (lst_edtr it) = 5) items"
proof -
  have c: "\<exists>items. committed (listEdtrs timekeeper_ctx all_logs site_db) (items, 2) site_db \<and>
     map (\<lambda>i. edtr_id (lst_edtr i)) items = [1, 2]"
    by (simp add: listEdtrs_def timekeeper_ctx_def assignedSites_def assignedRentals_def all_logs_def queryMatches_def
        optEq_def reviewFirst_def orderByDesc_def Let_def site_db_def approval_db_eval)
  have k: "ctx_role timekeeper_ctx = ''timekeeper''" by (simp add: timekeeper_ctx_def)
  have r: "\<forall>r \<in> set (rentals site_db). ren_id r = 5" by (simp add: site_db_def)
  show ?thesis using c timekeeper_reads_own_sites[OF k] r by (fastforce simp: list_all_iff)
qed

end
