(* ===== verification/WeeklyBilling.thy ===== *)
theory WeeklyBilling
  imports Common DepositLedger
begin

text \<open>
  The weekly billing job (\<open>jobs/src/weekly-billing.ts\<close>): every rental's unbilled accruals roll into
  one invoice. The job runs over all tenants on a superuser connection, one transaction per rental.
  The lemmas show that a run claims every unbilled accrual exactly once and bills exactly their sum,
  and that running it again does nothing.
\<close>

section \<open>The code\<close>

definition openRentals :: "db \<Rightarrow> (uuid \<times> uuid) list" where
  "openRentals d =
     remdups (map (\<lambda>a. (acc_tenantId a, acc_rentalId a)) (filter (\<lambda>a. acc_invoiceId a = None) (depositAccruals d)))"

definition WEEK_MS :: int where
  "WEEK_MS = 7 * 86400000"

fun weeklyLines :: "uuid \<Rightarrow> uuid \<Rightarrow> uuid \<Rightarrow> accrual list \<Rightarrow> invoice_line list" where
  "weeklyLines i tenantId invoiceId [] = []"
| "weeklyLines i tenantId invoiceId (row # rows) =
     \<lparr>ili_id = i, ili_tenantId = tenantId, ili_invoiceId = invoiceId,
      ili_reconciliationId = Some (acc_reconciliationId row), ili_quantity = acc_hours row,
      ili_unitPrice = acc_unitPrice row, ili_amount = acc_amount row\<rparr>
     # weeklyLines (Suc i) tenantId invoiceId rows"

definition unbilledOf :: "uuid \<Rightarrow> db \<Rightarrow> accrual list" where
  "unbilledOf rentalId d =
     filter (\<lambda>a. acc_rentalId a = rentalId \<and> acc_invoiceId a = None) (depositAccruals d)"

text \<open>The transaction of one rental: its new tables and whether an invoice was issued.\<close>

definition billRental :: "time \<Rightarrow> uuid \<times> uuid \<Rightarrow> db \<Rightarrow> bool \<times> db" where
  "billRental now key d =
     (let (tenantId, rentalId) = key;
          rows = unbilledOf rentalId d
      in if rows = [] then (False, d)
         else
           let amount = cents (foldl (\<lambda>sum row. sum + num2 (acc_amount row)) (js 0) rows);
               i = nextId d;
               d1 = (fresh d)\<lparr>invoices := invoices d @
                 [\<lparr>inv_id = i, inv_tenantId = tenantId, inv_rentalId = Some rentalId, inv_truckRequestId = None,
                   inv_invoiceType = Weekly, inv_amount = col2 amount, inv_status = Issued,
                   inv_dueDate = now + WEEK_MS, inv_createdAt = now\<rparr>]\<rparr>;
               d2 = d1\<lparr>invoiceLineItems := invoiceLineItems d1 @ weeklyLines (nextId d1) tenantId i rows,
                       nextId := nextId d1 + length rows\<rparr>;
               d3 = d2\<lparr>depositAccruals := updw (\<lambda>a. acc_id a \<in> set (map acc_id rows))
                       (acc_invoiceId_update (\<lambda>_. Some i)) (depositAccruals d2)\<rparr>;
               owner = List.bind (filter (\<lambda>r. ren_id r = rentalId) (rentals d3))
                         (\<lambda>r. filter (\<lambda>c. cus_id c = ren_customerId r) (customers d3))
           in (True,
               (case owner of
                  [] \<Rightarrow> d3
                | c # _ \<Rightarrow>
                    (case cus_userId c of
                       None \<Rightarrow> d3
                     | Some u \<Rightarrow>
                         d3\<lparr>notifications := notifications d3 @
                           [\<lparr>ntf_tenantId = tenantId, ntf_userId = u, ntf_notificationType = ''weekly_invoice'',
                             ntf_payload = [(''rental_id'', JId rentalId), (''invoice_id'', JId i),
                               (''amount_php'', JNum amount)]\<rparr>]\<rparr>))))"

fun billAll :: "time \<Rightarrow> (uuid \<times> uuid) list \<Rightarrow> db \<Rightarrow> nat \<times> db" where
  "billAll now [] d = (0, d)"
| "billAll now (k # ks) d =
     (let (b, d1) = billRental now k d; (n, d2) = billAll now ks d1
      in ((if b then Suc n else n), d2))"

definition runWeeklyBilling :: "time \<Rightarrow> db \<Rightarrow> nat \<times> db" where
  "runWeeklyBilling now d = billAll now (openRentals d) d"

section \<open>One rental\<close>

definition unbilled :: "db \<Rightarrow> accrual list" where
  "unbilled d = filter (\<lambda>a. acc_invoiceId a = None) (depositAccruals d)"

definition invoiced :: "db \<Rightarrow> int" where
  "invoiced d = (\<Sum>i\<leftarrow>invoices d. inv_amount i)"

text \<open>Amounts small enough for the sum in doubles to be exact, and identifiers that are keys.\<close>

definition accrualsOk :: "db \<Rightarrow> bool" where
  "accrualsOk d \<longleftrightarrow> distinct (map acc_id (depositAccruals d)) \<and> length (unbilled d) \<le> 4096 \<and>
     (\<forall>a \<in> set (unbilled d). 0 \<le> acc_amount a) \<and> (\<Sum>a\<leftarrow>unbilled d. acc_amount a) \<le> 2 ^ 36"

lemma unbilledOf_filter: "unbilledOf r d = filter (\<lambda>a. acc_rentalId a = r) (unbilled d)"
  by (simp add: unbilledOf_def unbilled_def conj_commute)

lemma claim_rows:
  assumes "distinct (map acc_id as)"
  shows "updw (\<lambda>a. acc_id a \<in> set (map acc_id (filter P as))) f as = updw P f as"
  using assms by (auto simp: updw_def distinct_map inj_on_def)

lemma sum_split: "(\<Sum>a\<leftarrow>xs. f a) = (\<Sum>a\<leftarrow>filter P xs. f a) + (\<Sum>a\<leftarrow>filter (\<lambda>a. \<not> P a) xs. (f a :: int))"
  by (induction xs) auto

lemma unbilled_claim:
  "filter (\<lambda>a. acc_invoiceId a = None)
     (updw (\<lambda>a. acc_rentalId a = r \<and> acc_invoiceId a = None) (acc_invoiceId_update (\<lambda>_. Some i)) as) =
   filter (\<lambda>a. acc_rentalId a \<noteq> r) (filter (\<lambda>a. acc_invoiceId a = None) as)"
  by (induction as) auto

lemma sum_filter_le: "(\<forall>a \<in> set xs. 0 \<le> f a) \<Longrightarrow> (\<Sum>a\<leftarrow>filter P xs. f a) \<le> (\<Sum>a\<leftarrow>xs. (f a :: int))"
  by (rule sum_list_filter_le)

lemma billRental_tables:
  assumes "billRental now (t, r) d = (b, d')"
  shows "b \<longleftrightarrow> unbilledOf r d \<noteq> []"
    and "unbilledOf r d = [] \<Longrightarrow> d' = d"
    and "unbilledOf r d \<noteq> [] \<Longrightarrow> depositAccruals d' =
      updw (\<lambda>a. acc_id a \<in> set (map acc_id (unbilledOf r d))) (acc_invoiceId_update (\<lambda>_. Some (nextId d))) (depositAccruals d)"
    and "unbilledOf r d \<noteq> [] \<Longrightarrow> \<exists>inv. invoices d' = invoices d @ [inv] \<and> inv_rentalId inv = Some r \<and> inv_invoiceType inv = Weekly \<and>
      inv_amount inv = col2 (cents (foldl (\<lambda>s a. s + num2 (acc_amount a)) (js 0) (unbilledOf r d)))"
  using assms by (auto simp: billRental_def Let_def fresh_def split: if_splits list.splits option.splits)

lemma billRental_step:
  assumes b: "billRental now (t, r) d = (b, d')" and ok: "accrualsOk d"
  shows "unbilled d' = filter (\<lambda>a. acc_rentalId a \<noteq> r) (unbilled d)"
    and "invoiced d' + (\<Sum>a\<leftarrow>unbilled d'. acc_amount a) = invoiced d + (\<Sum>a\<leftarrow>unbilled d. acc_amount a)"
    and "accrualsOk d'"
    and "\<forall>a \<in> set (depositAccruals d). acc_invoiceId a \<noteq> None \<longrightarrow> a \<in> set (depositAccruals d')"
proof -
  note T = billRental_tables[OF b]
  let ?U = "unbilledOf r d"
  have U: "?U = filter (\<lambda>a. acc_rentalId a = r) (unbilled d)" by (rule unbilledOf_filter)
  have dist: "distinct (map acc_id (depositAccruals d))" and nn: "\<forall>a \<in> set (unbilled d). 0 \<le> acc_amount a"
    and sum: "(\<Sum>a\<leftarrow>unbilled d. acc_amount a) \<le> 2 ^ 36" and len: "length (unbilled d) \<le> 4096"
    using ok by (auto simp: accrualsOk_def)
  have D: "depositAccruals d' = (if ?U = [] then depositAccruals d else
      updw (\<lambda>a. acc_rentalId a = r \<and> acc_invoiceId a = None) (acc_invoiceId_update (\<lambda>_. Some (nextId d))) (depositAccruals d))"
    using T(2,3) claim_rows[OF dist] by (auto simp: unbilledOf_def)
  show u: "unbilled d' = filter (\<lambda>a. acc_rentalId a \<noteq> r) (unbilled d)"
  proof (cases "?U = []")
    case True
    then show ?thesis unfolding T(2)[OF True] using U by (auto simp: filter_empty_conv intro!: filter_True[symmetric])
  next
    case False
    then show ?thesis by (simp add: unbilled_def D unbilled_claim)
  qed
  have part: "(\<Sum>a\<leftarrow>unbilled d. acc_amount a) = (\<Sum>a\<leftarrow>?U. acc_amount a) + (\<Sum>a\<leftarrow>unbilled d'. acc_amount a)"
    unfolding U u by (rule sum_split)
  have le: "(\<Sum>a\<leftarrow>?U. acc_amount a) \<le> (\<Sum>a\<leftarrow>unbilled d. acc_amount a)" unfolding U by (rule sum_filter_le[OF nn])
  have amt: "col2 (cents (foldl (\<lambda>s a. s + num2 (acc_amount a)) (js 0) ?U)) = (\<Sum>a\<leftarrow>?U. acc_amount a)"
  proof (rule amt_col2[OF amt_sum])
    show "length ?U \<le> 4096" unfolding U using len length_filter_le[of _ "unbilled d"] by (rule order_trans[rotated])
    have "0 \<le> (\<Sum>a\<leftarrow>?U. acc_amount a)" using nn by (intro sum_list_nonneg) (auto simp: U)
    then show "\<bar>\<Sum>a\<leftarrow>?U. acc_amount a\<bar> \<le> 2 ^ 44" using le sum by simp
  qed (use nn le sum in \<open>auto simp: U\<close>)
  show "invoiced d' + (\<Sum>a\<leftarrow>unbilled d'. acc_amount a) = invoiced d + (\<Sum>a\<leftarrow>unbilled d. acc_amount a)"
    using T(2,4) part amt by (cases "?U = []") (auto simp: invoiced_def)
  have "map acc_id (depositAccruals d') = map acc_id (depositAccruals d)" by (simp add: D map_updw)
  moreover have "length (unbilled d') \<le> 4096" unfolding u using length_filter_le len by (rule order_trans)
  moreover have "(\<Sum>a\<leftarrow>unbilled d'. acc_amount a) \<le> (\<Sum>a\<leftarrow>unbilled d. acc_amount a)" unfolding u by (rule sum_filter_le[OF nn])
  moreover have "\<forall>a \<in> set (unbilled d'). 0 \<le> acc_amount a" unfolding u using nn by simp
  ultimately show "accrualsOk d'" using dist sum unfolding accrualsOk_def by simp
  show "\<forall>a \<in> set (depositAccruals d). acc_invoiceId a \<noteq> None \<longrightarrow> a \<in> set (depositAccruals d')"
    by (auto simp: D in_updw intro!: bexI)
qed

lemma billAll_steps:
  assumes "billAll now ks d = (n, d')" "accrualsOk d"
  shows "unbilled d' = filter (\<lambda>a. acc_rentalId a \<notin> snd ` set ks) (unbilled d) \<and>
    invoiced d' + (\<Sum>a\<leftarrow>unbilled d'. acc_amount a) = invoiced d + (\<Sum>a\<leftarrow>unbilled d. acc_amount a) \<and>
    (\<forall>a \<in> set (depositAccruals d). acc_invoiceId a \<noteq> None \<longrightarrow> a \<in> set (depositAccruals d'))"
  using assms
proof (induction ks arbitrary: d n)
  case (Cons k ks)
  obtain t r where k: "k = (t, r)" by (cases k)
  obtain b d1 where b: "billRental now (t, r) d = (b, d1)" by (cases "billRental now (t, r) d")
  obtain m d2 where m: "billAll now ks d1 = (m, d2)" by (cases "billAll now ks d1")
  have d2: "d2 = d'" using Cons.prems(1) k b m by simp
  note S = billRental_step[OF b Cons.prems(2)]
  from Cons.IH[OF m[unfolded d2] S(3)] S show ?case
    by (auto simp: k conj_commute)
qed simp

text \<open>
  C10. A weekly run bills every unbilled accrual exactly once, to the centavo: afterwards nothing is
  unbilled, the invoices have grown by exactly the sum of the accruals that were, accruals already on
  an invoice stay on it, and running the job again on that state, at any time, issues nothing and changes nothing.
\<close>

theorem weekly_bills_each_accrual_once:
  assumes "accrualsOk d" "runWeeklyBilling now d = (n, d')"
  shows "unbilled d' = [] \<and> invoiced d' = invoiced d + (\<Sum>a\<leftarrow>unbilled d. acc_amount a) \<and>
    (\<forall>a \<in> set (depositAccruals d). acc_invoiceId a \<noteq> None \<longrightarrow> a \<in> set (depositAccruals d')) \<and>
    runWeeklyBilling now' d' = (0, d')"
proof -
  note S = billAll_steps[OF assms(2)[unfolded runWeeklyBilling_def] assms(1)]
  have "\<forall>a \<in> set (unbilled d). acc_rentalId a \<in> snd ` set (openRentals d)"
    by (auto simp: openRentals_def unbilled_def image_iff)
  then have u: "unbilled d' = []" using S by (auto simp: filter_empty_conv)
  then have "openRentals d' = []" by (simp add: openRentals_def unbilled_def)
  then show ?thesis using S u by (simp add: runWeeklyBilling_def)
qed

theorem weekly_bills_each_accrual_once_witness:
  "invoiced (snd (runWeeklyBilling 0 ledger_db)) = 1010 + 70 \<and> unbilled (snd (runWeeklyBilling 0 ledger_db)) = []"
proof -
  have ok: "accrualsOk ledger_db"
    by (simp add: accrualsOk_def unbilled_def ledger_db_def accrual_at_def empty_db_def)
  have "unbilled ledger_db = [accrual_at 1 1010 None, accrual_at 3 70 None]" "invoiced ledger_db = 0"
    by (simp_all add: unbilled_def invoiced_def ledger_db_def accrual_at_def empty_db_def)
  then show ?thesis
    using weekly_bills_each_accrual_once[OF ok, of 0 "fst (runWeeklyBilling 0 ledger_db)" "snd (runWeeklyBilling 0 ledger_db)" 0]
    by (simp add: accrual_at_def)
qed

end
