(* ===== verification/Paymongo.thy ===== *)
theory Paymongo
  imports Schema "HOL-Library.Word"
begin

text \<open>
  The edge towards PayMongo: the webhook signature (\<open>apps/api/src/payments/signature.ts\<close>), where a
  customer is sent back to (\<open>apps/api/src/payments/return-origin.ts\<close>) and the port the payments
  service calls (\<open>packages/shared/src/payments-port.ts\<close>). HMAC-SHA256, \<open>Number\<close> of a string and the
  URL parser are arguments. The lemmas say which headers verify (exactly the fresh ones whose digest
  is the HMAC of the body) and that the return address is always one the API serves.
\<close>

section \<open>The signature header\<close>

fun splitOn :: "char \<Rightarrow> string \<Rightarrow> string list" where
  "splitOn c [] = [[]]"
| "splitOn c (x # xs) =
     (if x = c then [] # splitOn c xs
      else (case splitOn c xs of [] \<Rightarrow> [[x]] | p # ps \<Rightarrow> (x # p) # ps))"

definition keyValue :: "string \<Rightarrow> (string \<times> string) option" where
  "keyValue part =
     (let rest = dropWhile (\<lambda>x. x \<noteq> CHR ''='') part in
      if rest = [] then None else Some (takeWhile (\<lambda>x. x \<noteq> CHR ''='') part, tl rest))"

definition parsePaymongoSignatureHeader :: "string \<Rightarrow> string \<Rightarrow> string option" where
  "parsePaymongoSignatureHeader header =
     foldl (\<lambda>parts part. case keyValue part of None \<Rightarrow> parts | Some (k, v) \<Rightarrow> parts(k \<mapsto> v))
       Map.empty (splitOn CHR '','' header)"

section \<open>Hexadecimal buffers\<close>

definition HEX :: string where
  "HEX = ''0123456789abcdef''"

definition hexDigit :: "char \<Rightarrow> nat option" where
  "hexDigit ch =
     (let n = of_char ch :: nat in
      if 48 \<le> n \<and> n \<le> 57 then Some (n - 48)
      else if 97 \<le> n \<and> n \<le> 102 then Some (n - 87)
      else if 65 \<le> n \<and> n \<le> 70 then Some (n - 55) else None)"

text \<open>\<open>digest('hex')\<close>, and \<open>Buffer.from(s, 'hex')\<close>, which stops at the first pair that is not hex.\<close>

fun hexEncode :: "8 word list \<Rightarrow> string" where
  "hexEncode [] = []"
| "hexEncode (b # bs) = HEX ! (unat b div 16) # HEX ! (unat b mod 16) # hexEncode bs"

fun hexDecode :: "string \<Rightarrow> 8 word list" where
  "hexDecode (a # b # rest) =
     (case (hexDigit a, hexDigit b) of
        (Some x, Some y) \<Rightarrow> of_nat (16 * x + y) # hexDecode rest
      | _ \<Rightarrow> [])"
| "hexDecode _ = []"

definition DEFAULT_TOLERANCE_SECONDS :: number where
  "DEFAULT_TOLERANCE_SECONDS = js 5 * js 60"

definition verifyPaymongoSignature ::
  "(string \<Rightarrow> string \<Rightarrow> 8 word list) \<Rightarrow> (string \<Rightarrow> number) \<Rightarrow> time \<Rightarrow> bool \<Rightarrow> string \<Rightarrow> string \<Rightarrow> string \<Rightarrow> bool" where
  "verifyPaymongoSignature hmac toNumber nowMs live rawBody signatureHeader secret =
     (let parts = parsePaymongoSignatureHeader signatureHeader;
          provided = (if live then parts ''li'' else parts ''te'')
      in case (parts ''t'', provided) of
           (Some timestamp, Some given) \<Rightarrow>
             if timestamp = [] \<or> given = [] then False
             else
               let timestampNum = toNumber timestamp;
                   now = math_floor (js (of_int nowMs) / js 1000)
               in if \<not> isFinite timestampNum then False
                  else if DEFAULT_TOLERANCE_SECONDS < math_abs (now - timestampNum) then False
                  else
                    let expected = hexEncode (hmac secret (timestamp @ ''.'' @ rawBody));
                        expectedBuffer = hexDecode expected;
                        providedBuffer = hexDecode given
                    in length expectedBuffer = length providedBuffer \<and> expectedBuffer = providedBuffer
         | _ \<Rightarrow> False)"

lemma HEX_nth: "i < 16 \<Longrightarrow> hexDigit (HEX ! i) = Some i"
proof -
  have "\<forall>i \<in> {0..<16}. hexDigit (HEX ! i) = Some i" by code_simp
  then show "i < 16 \<Longrightarrow> hexDigit (HEX ! i) = Some i" by simp
qed

lemma hexDecode_hexEncode [simp]: "hexDecode (hexEncode bs) = bs"
proof (induction bs)
  case (Cons b bs)
  have "unat b < 256" using unsigned_less[of b, where ?'a = nat] by simp
  then have "hexDigit (HEX ! (unat b div 16)) = Some (unat b div 16)" "hexDigit (HEX ! (unat b mod 16)) = Some (unat b mod 16)"
    by (auto intro!: HEX_nth)
  then show ?case using Cons by (simp add: mult_div_mod_eq)
qed simp

lemma hexEncode_Nil: "hexEncode bs = [] \<longleftrightarrow> bs = []"
  by (cases bs) simp_all

lemma splitOn_none: "c \<notin> set xs \<Longrightarrow> splitOn c xs = [xs]"
  by (induction xs) auto

lemma splitOn_append: "c \<notin> set xs \<Longrightarrow> splitOn c (xs @ c # ys) = xs # splitOn c ys"
  by (induction xs) auto

lemma keyValue_eq: "CHR ''='' \<notin> set k \<Longrightarrow> keyValue (k @ CHR ''='' # v) = Some (k, v)"
proof -
  assume "CHR ''='' \<notin> set k"
  then have "dropWhile (\<lambda>x. x \<noteq> CHR ''='') (k @ CHR ''='' # v) = CHR ''='' # v"
    "takeWhile (\<lambda>x. x \<noteq> CHR ''='') (k @ CHR ''='' # v) = k"
    by (induction k) auto
  then show ?thesis by (simp add: keyValue_def)
qed

definition paymongoHeader :: "string \<Rightarrow> string \<Rightarrow> string \<Rightarrow> string" where
  "paymongoHeader ts te li = ''t='' @ ts @ '',te='' @ te @ '',li='' @ li"

lemma parse_paymongoHeader:
  assumes "CHR '','' \<notin> set ts" "CHR '','' \<notin> set te" "CHR '','' \<notin> set li"
  shows "parsePaymongoSignatureHeader (paymongoHeader ts te li) = [''t'' \<mapsto> ts, ''te'' \<mapsto> te, ''li'' \<mapsto> li]"
proof -
  have "splitOn CHR '','' (paymongoHeader ts te li) = [''t='' @ ts, ''te='' @ te, ''li='' @ li]"
    using assms splitOn_append[of "CHR '',''" "''t='' @ ts" "''te='' @ te @ '',li='' @ li"]
      splitOn_append[of "CHR '',''" "''te='' @ te" "''li='' @ li"] splitOn_none[of "CHR '',''" "''li='' @ li"]
    by (simp add: paymongoHeader_def)
  moreover have "keyValue (''t='' @ ts) = Some (''t'', ts)" "keyValue (''te='' @ te) = Some (''te'', te)"
    "keyValue (''li='' @ li) = Some (''li'', li)"
    using keyValue_eq[of "''t''" ts] keyValue_eq[of "''te''" te] keyValue_eq[of "''li''" li] by simp_all
  ultimately show ?thesis by (simp add: parsePaymongoSignatureHeader_def)
qed

lemma clock_in_tolerance:
  "\<not> DEFAULT_TOLERANCE_SECONDS < math_abs (math_floor (js (of_int 1000000) / js 1000) - js 1000)" "isFinite (js 1000)"
proof -
  have k: "isn (js 1000) 1000" "isn (js (of_int 1000000)) 1000000" using isn_int[of 1000] isn_int[of 1000000] by simp_all
  have "isn (js (of_int 1000000) / js 1000) (fl 1000)" using isn_divide[OF k(2,1)] by simp
  then have "isn (math_floor (js (of_int 1000000) / js 1000)) 1000"
    using isn_math_floor fl_of_int[of 1000] by fastforce
  then have n: "isn (math_abs (math_floor (js (of_int 1000000) / js 1000) - js 1000)) 0"
    using isn_math_abs[OF isn_minus[OF _ k(1)]] by fastforce
  have "isn (js 5) 5" "isn (js 60) 60" using isn_int[of 5] isn_int[of 60] by simp_all
  then have "isn DEFAULT_TOLERANCE_SECONDS 300"
    using isn_times[of "js 5" 5 "js 60" 60] fl_of_int[of 300] by (simp add: DEFAULT_TOLERANCE_SECONDS_def)
  then show "\<not> DEFAULT_TOLERANCE_SECONDS < math_abs (math_floor (js (of_int 1000000) / js 1000) - js 1000)"
    using isn_less[OF _ n] by simp
  show "isFinite (js 1000)" using k(1) by (rule isn_finite)
qed

text \<open>
  C16. Which signatures the webhook accepts. For a header in PayMongo's format and any HMAC function,
  verification succeeds exactly when the timestamp is a finite number at most five minutes from now
  and the digest of the mode in use decodes to the HMAC of the timestamp and the raw body under the
  endpoint's secret. The digest PayMongo sends, the HMAC written in hex, is such a digest, so every
  genuine fresh event is accepted.
\<close>

theorem signature_accepts_exactly:
  assumes "CHR '','' \<notin> set ts" "CHR '','' \<notin> set te" "CHR '','' \<notin> set li"
  shows "(verifyPaymongoSignature hmac toNumber now live body (paymongoHeader ts te li) secret \<longleftrightarrow>
      ts \<noteq> [] \<and> (if live then li else te) \<noteq> [] \<and> isFinite (toNumber ts) \<and>
      \<not> DEFAULT_TOLERANCE_SECONDS < math_abs (math_floor (js (of_int now) / js 1000) - toNumber ts) \<and>
      hexDecode (if live then li else te) = hmac secret (ts @ ''.'' @ body)) \<and>
    hexDecode (hexEncode (hmac secret (ts @ ''.'' @ body))) = hmac secret (ts @ ''.'' @ body)"
  unfolding verifyPaymongoSignature_def parse_paymongoHeader[OF assms] Let_def
  by (auto split: if_splits)

theorem signature_accepts_exactly_witness:
  "verifyPaymongoSignature (\<lambda>k m. [171, of_nat (length m)]) (\<lambda>_. js 1000) 1000000 True ''{}''
     (paymongoHeader ''1000'' '''' ''ab07'') ''whsec''"
proof -
  have "hexDecode ''ab07'' = [171, 7]" by (simp add: hexDigit_def)
  then show ?thesis
    using signature_accepts_exactly[of "''1000''" "''''" "''ab07''" "\<lambda>k m. [171, of_nat (length m)]" "\<lambda>_. js 1000" 1000000
        True "''{}''" "''whsec''"] clock_in_tolerance by simp
qed

section \<open>Where a customer is sent back to\<close>

text \<open>What the code reads of a parsed \<open>URL\<close>; the parser is an argument.\<close>

record url =
  url_origin :: string
  url_protocol :: string
  url_hostname :: string
  url_port :: string

record web_env =
  env_WEB_ORIGIN :: "string option"
  env_PLATFORM_DOMAIN :: "string option"
  env_parseUrl :: "string \<Rightarrow> url option"

definition endsWith :: "string \<Rightarrow> string \<Rightarrow> bool" where
  "endsWith s suf \<longleftrightarrow> length suf \<le> length s \<and> drop (length s - length suf) s = suf"

definition oneLabel :: "string \<Rightarrow> bool" where
  "oneLabel s \<longleftrightarrow> s \<noteq> [] \<and>
     list_all (\<lambda>ch. let n = of_char ch :: nat in 97 \<le> n \<and> n \<le> 122 \<or> 48 \<le> n \<and> n \<le> 57 \<or> n = 45) s"

definition webOrigin :: "web_env \<Rightarrow> string" where
  "webOrigin env =
     (let s = (case env_WEB_ORIGIN env of Some s \<Rightarrow> s | None \<Rightarrow> ''http://localhost:5173'') in
      if s \<noteq> [] \<and> last s = CHR ''/'' then butlast s else s)"

definition isSubdomainOf :: "url \<Rightarrow> string \<Rightarrow> bool" where
  "isSubdomainOf request parent \<longleftrightarrow>
     endsWith (url_hostname request) (''.'' @ parent) \<and>
     oneLabel (take (length (url_hostname request) - (length parent + 1)) (url_hostname request))"

definition checkoutReturnOrigin :: "web_env \<Rightarrow> string option \<Rightarrow> string" where
  "checkoutReturnOrigin env requestOrigin =
     (let web_origin = webOrigin env in
      case requestOrigin of
        None \<Rightarrow> web_origin
      | Some origin \<Rightarrow>
          if origin = [] \<or> origin = web_origin then web_origin
          else (case (env_parseUrl env origin, env_parseUrl env web_origin) of
            (Some request, Some web) \<Rightarrow>
              if url_origin request \<noteq> origin then web_origin
              else if url_protocol request = url_protocol web \<and> url_port request = url_port web \<and>
                      isSubdomainOf request (url_hostname web)
              then url_origin request
              else (case env_PLATFORM_DOMAIN env of
                      Some platformDomain \<Rightarrow>
                        if platformDomain \<noteq> [] \<and> url_protocol request = ''https:'' \<and> url_port request = [] \<and>
                           isSubdomainOf request platformDomain
                        then url_origin request else web_origin
                    | None \<Rightarrow> web_origin)
          | _ \<Rightarrow> web_origin))"

lemma isSubdomainOf_split:
  assumes "isSubdomainOf request parent"
  shows "\<exists>label. oneLabel label \<and> url_hostname request = label @ ''.'' @ parent"
proof -
  let ?h = "url_hostname request" and ?n = "length (url_hostname request) - (length parent + 1)"
  have "drop ?n ?h = ''.'' @ parent" "oneLabel (take ?n ?h)"
    using assms by (auto simp: isSubdomainOf_def endsWith_def)
  then show ?thesis by (metis append_take_drop_id)
qed

text \<open>
  A customer is never sent anywhere the platform does not serve. Whatever \<open>Origin\<close> header a
  request forges, the return address is the configured web origin, or it is the request's origin and
  the host it parses to is one label of lower-case letters, digits and hyphens under the web origin's
  own host (same scheme and port) or, over https on the default port, under the platform domain.
\<close>

theorem return_origin_served:
  "checkoutReturnOrigin env requestOrigin = webOrigin env \<or>
   (\<exists>origin request label parent. requestOrigin = Some origin \<and> env_parseUrl env origin = Some request \<and>
      checkoutReturnOrigin env requestOrigin = origin \<and> url_origin request = origin \<and>
      oneLabel label \<and> url_hostname request = label @ ''.'' @ parent \<and>
      ((\<exists>web. env_parseUrl env (webOrigin env) = Some web \<and> parent = url_hostname web \<and>
          url_protocol request = url_protocol web \<and> url_port request = url_port web) \<or>
       (env_PLATFORM_DOMAIN env = Some parent \<and> url_protocol request = ''https:'' \<and> url_port request = [])))"
proof (cases "checkoutReturnOrigin env requestOrigin = webOrigin env")
  case False
  then obtain origin request web parent where r: "requestOrigin = Some origin" "env_parseUrl env origin = Some request"
    "env_parseUrl env (webOrigin env) = Some web" "url_origin request = origin"
    "checkoutReturnOrigin env requestOrigin = origin" "isSubdomainOf request parent"
    "parent = url_hostname web \<and> url_protocol request = url_protocol web \<and> url_port request = url_port web \<or>
     env_PLATFORM_DOMAIN env = Some parent \<and> url_protocol request = ''https:'' \<and> url_port request = []"
    by (auto simp: checkoutReturnOrigin_def Let_def split: option.splits if_splits)
  obtain label where "oneLabel label" "url_hostname request = label @ ''.'' @ parent"
    using isSubdomainOf_split[OF r(6)] by blast
  with r show ?thesis by blast
qed simp

section \<open>The port\<close>

record checkout_session =
  ses_id :: string
  ses_checkoutUrl :: string

text \<open>A success or cancel URL: the origin, the path up to \<open>?invoice=\<close>, the invoice.\<close>

datatype return_url = ReturnUrl string string uuid

record checkout_options =
  opt_label :: string
  opt_methods :: "string list option"
  opt_transferTo :: "string option"
  opt_successUrl :: return_url
  opt_cancelUrl :: return_url

record session_status =
  sst_paid :: bool
  sst_paymentId :: "string option"
  sst_amountCentavos :: "number option"

text \<open>\<open>PaymentsPort\<close>: what PayMongo answered to the call an operation makes, or the error it raised.\<close>

record payments_port =
  createCheckoutSession :: "number \<Rightarrow> uuid \<Rightarrow> checkout_options \<Rightarrow> http_error + checkout_session"
  getCheckoutSession :: "string \<Rightarrow> http_error + session_status"
  refundAtProvider :: "string \<Rightarrow> number \<Rightarrow> string \<Rightarrow> http_error + string"

end
