(* ===== verification/Payments.thy ===== *)
theory Payments
  imports Common DepositLedger Paymongo
begin

text \<open>
  The payments service (\<open>apps/api/src/payments/payments.service.ts\<close>, with the pre-tenant lookups of
  \<open>packages/db/src/payments-lookup.ts\<close>): checkouts of a booking, a truck request or a weekly
  invoice, online or in cash, the staff-recorded cash receipt, the return check, refunds and the
  PayMongo webhook. PayMongo is the argument \<open>port\<close>, what it answered to the call the operation
  makes; the JSON body of a webhook is parsed by an argument. The unique indexes on the provider's
  identifiers are checked on the rows the tenant sees: those identifiers are PayMongo's, and global.
  The lemmas show that an invoice is paid only against a recorded payment of exactly its amount,
  that no customer action settles one, and that a replayed event moves nothing.
\<close>

section \<open>Requests\<close>

definition CHECKOUT_RATE_WINDOW_MS :: int where
  "CHECKOUT_RATE_WINDOW_MS = 60000"

definition CHECKOUT_RATE_LIMIT :: nat where
  "CHECKOUT_RATE_LIMIT = 20"

definition WEBHOOK_SYSTEM_USER_ID :: uuid where
  "WEBHOOK_SYSTEM_USER_ID = 0"

record checkout_request =
  chk_method :: "string option"
  chk_cash :: bool

record online_checkout =
  onl_invoiceId :: uuid
  onl_amount :: number
  onl_label :: string
  onl_method :: "string option"
  onl_origin :: "string option"

datatype checkout_result =
    Online string uuid uuid
  | Cash uuid

text \<open>\<open>===\<close> on numbers: NaN differs from itself, the two zeros are equal.\<close>

definition jsEq :: "number \<Rightarrow> number \<Rightarrow> bool" where
  "jsEq a b \<longleftrightarrow> a \<le> b \<and> b \<le> a"

section \<open>Starting a payment\<close>

definition insertPayment ::
  "time \<Rightarrow> ctx \<Rightarrow> uuid \<Rightarrow> string \<Rightarrow> uuid option \<Rightarrow> int \<Rightarrow> string option \<Rightarrow> payment_status \<Rightarrow> db \<Rightarrow> db" where
  "insertPayment now c invoiceId method recordedBy amount ref st d =
     (fresh d)\<lparr>payments := payments d @
       [\<lparr>pay_id = nextId d, pay_tenantId = ctx_tenantId c, pay_invoiceId = invoiceId, pay_method = method,
         pay_recordedByUserId = recordedBy, pay_amount = amount, pay_providerRef = ref,
         pay_providerPaymentId = None, pay_status = st, pay_createdAt = now\<rparr>]\<rparr>"

definition startOnline ::
  "web_env \<Rightarrow> payments_port \<Rightarrow> time \<Rightarrow> ctx \<Rightarrow> online_checkout \<Rightarrow> (db, checkout_result) body" where
  "startOnline env port now c oc d =
     (let account = (case find (\<lambda>t. ten_id t = ctx_tenantId c) (tenants d) of
            None \<Rightarrow> None | Some t \<Rightarrow> (case ten_paymongoAccountId t of Some [] \<Rightarrow> None | a \<Rightarrow> a));
          returnTo = checkoutReturnOrigin env (onl_origin oc);
          options = \<lparr>opt_label = onl_label oc, opt_methods = map_option (\<lambda>m. [m]) (onl_method oc),
            opt_transferTo = account,
            opt_successUrl = ReturnUrl returnTo ''/account/checkout/success?invoice='' (onl_invoiceId oc),
            opt_cancelUrl = ReturnUrl returnTo ''/account/checkout/failed?invoice='' (onl_invoiceId oc)\<rparr>
      in case createCheckoutSession port (onl_amount oc) (onl_invoiceId oc) options of
           Inl e \<Rightarrow> fails e
         | Inr session \<Rightarrow>
             if list_ex (\<lambda>p. pay_providerRef p = Some (ses_id session)) (payments d)
             then fails (Internal ''payments_provider_ref_unique'')
             else ([''checkout_session_created''],
                   Inr (Online (ses_checkoutUrl session) (onl_invoiceId oc) (nextId d),
                        insertPayment now c (onl_invoiceId oc)
                          (case onl_method oc of Some m \<Rightarrow> m | None \<Rightarrow> ''checkout'') None
                          (col2 (onl_amount oc)) (Some (ses_id session)) PPending d)))"

definition issueCash :: "time \<Rightarrow> ctx \<Rightarrow> uuid \<Rightarrow> number \<Rightarrow> (db, checkout_result) body" where
  "issueCash now c invoiceId amount d =
     ([''cash_payment_chosen''],
      Inr (Cash invoiceId, insertPayment now c invoiceId ''cash'' None (col2 amount) None PPending d))"

text \<open>The end of every checkout: cash if the customer chose it, else a PayMongo session.\<close>

definition pay ::
  "web_env \<Rightarrow> payments_port \<Rightarrow> time \<Rightarrow> ctx \<Rightarrow> checkout_request \<Rightarrow> string option \<Rightarrow> string \<Rightarrow> invoice \<Rightarrow>
   (db, checkout_result) body" where
  "pay env port now c body origin label invoice d =
     (if chk_cash body then issueCash now c (inv_id invoice) (num2 (inv_amount invoice)) d
      else startOnline env port now c
             \<lparr>onl_invoiceId = inv_id invoice, onl_amount = num2 (inv_amount invoice), onl_label = label,
              onl_method = chk_method body, onl_origin = origin\<rparr> d)"

section \<open>Checkout of a booking\<close>

definition invoiceLine :: "ctx \<Rightarrow> uuid \<Rightarrow> uuid \<Rightarrow> int \<Rightarrow> invoice_line" where
  "invoiceLine c i invoiceId amount =
     \<lparr>ili_id = i, ili_tenantId = ctx_tenantId c, ili_invoiceId = invoiceId, ili_reconciliationId = None,
      ili_quantity = 100, ili_unitPrice = amount, ili_amount = amount\<rparr>"

definition bookingInvoice :: "uuid \<Rightarrow> invoice_type \<Rightarrow> invoice_status \<Rightarrow> db \<Rightarrow> invoice option" where
  "bookingInvoice bookingId ty st d =
     find (\<lambda>i. inv_rentalId i = Some bookingId \<and> inv_invoiceType i = ty \<and> inv_status i = st) (invoices d)"

definition depositDue :: "uuid \<Rightarrow> uuid \<Rightarrow> quotation option \<Rightarrow> db \<Rightarrow> number" where
  "depositDue tenantId bookingId quotation d =
     (let least = minDepositPhp (getBillingSettings tenantId d) in
      case quotation of
        None \<Rightarrow> least
      | Some q \<Rightarrow>
          if bookingInvoice bookingId Deposit Paid d \<noteq> None then js 0
          else (case latestContract (quo_id q) d of
                  Some contract \<Rightarrow> num2 (con_depositRequired contract)
                | None \<Rightarrow> least))"

definition issueInvoice ::
  "time \<Rightarrow> ctx \<Rightarrow> uuid \<Rightarrow> quotation option \<Rightarrow> number \<Rightarrow> number \<Rightarrow> db \<Rightarrow> invoice \<times> db" where
  "issueInvoice now c bookingId quotation rentAmount depositAmount d =
     (let invoice = \<lparr>inv_id = nextId d, inv_tenantId = ctx_tenantId c, inv_rentalId = Some bookingId,
            inv_truckRequestId = None,
            inv_invoiceType = (if quotation \<noteq> None then Booking else Deposit),
            inv_amount = col2 (rentAmount + depositAmount), inv_status = Issued, inv_dueDate = now, inv_createdAt = now\<rparr>;
          d1 = (fresh d)\<lparr>invoices := invoices d @ [invoice]\<rparr>;
          amounts = (if quotation \<noteq> None then filter (\<lambda>a. js 0 < a) [rentAmount, depositAmount] else [])
      in (invoice,
          d1\<lparr>invoiceLineItems := invoiceLineItems d1 @
               map (\<lambda>(k, a). invoiceLine c (nextId d1 + k) (inv_id invoice) (col2 a)) (enumerate 0 amounts),
             nextId := nextId d1 + length amounts\<rparr>))"

definition rateLimited :: "time \<Rightarrow> ctx \<Rightarrow> db \<Rightarrow> bool" where
  "rateLimited now c d \<longleftrightarrow>
     CHECKOUT_RATE_LIMIT \<le> length (filter (\<lambda>p. pay_tenantId p = ctx_tenantId c \<and>
        now - CHECKOUT_RATE_WINDOW_MS \<le> pay_createdAt p) (payments d))"

definition checkout ::
  "web_env \<Rightarrow> payments_port \<Rightarrow> time \<Rightarrow> ctx \<Rightarrow> uuid \<Rightarrow> checkout_request \<Rightarrow> string option \<Rightarrow> (db, checkout_result) body" where
  "checkout env port now c bookingId body origin d =
     (case find (\<lambda>r. ren_id r = bookingId) (rentals d) of
        None \<Rightarrow> fails (NotFound ''booking_not_found'')
      | Some rental \<Rightarrow>
          if ctx_role c = ''customer'' \<and> \<not> ownsCustomer c (Some (ren_customerId rental)) d
          then fails (NotFound ''booking_not_found'')
          else if requireVerifiedCompany (ren_customerId rental) d \<noteq> None then fails (Conflict ''company_not_verified'')
          else if ren_callConfirmedAt rental = None then fails (Conflict ''call_not_confirmed'')
          else if rateLimited now c d then fails (TooMany ''rate_limited'')
          else
            let quotation = latestQuotation bookingId d in
            if (case quotation of None \<Rightarrow> False | Some q \<Rightarrow> quo_status q \<noteq> QAccepted)
            then fails (Conflict ''quote_not_accepted'')
            else
              let depositAmount = depositDue (ctx_tenantId c) bookingId quotation d;
                  rentAmount = (case quotation of None \<Rightarrow> js 0
                    | Some q \<Rightarrow> (case quo_totalPhp q of Some a \<Rightarrow> num2 a | None \<Rightarrow> js 0));
                  ty = (if quotation \<noteq> None then Booking else Deposit)
              in if bookingInvoice bookingId ty Paid d \<noteq> None then fails (Conflict ''already_paid'')
                 else
                   let (invoice, d1) = (case bookingInvoice bookingId ty Issued d of
                         Some i \<Rightarrow> (i, d)
                       | None \<Rightarrow> issueInvoice now c bookingId quotation rentAmount depositAmount d)
                   in pay env port now c body origin
                        (if quotation \<noteq> None then ''Equipment rental and deposit'' else ''Rental deposit'') invoice d1)"

section \<open>Checkout of a truck request and of a weekly invoice\<close>

text \<open>The request and its agreed price, once every gate let the customer pay.\<close>

definition truckPayable :: "ctx \<Rightarrow> uuid \<Rightarrow> db \<Rightarrow> http_error + truck_request \<times> int" where
  "truckPayable c truckRequestId d =
     (case find (\<lambda>r. trk_id r = truckRequestId \<and> trk_requestedBy r = ctx_userId c) (truckRequests d) of
        None \<Rightarrow> Inl (NotFound ''truck_request_not_found'')
      | Some request \<Rightarrow>
          if trk_status request = TPaid then Inl (Conflict ''already_paid'')
          else (case trk_agreedPricePhp request of
            None \<Rightarrow> Inl (Conflict ''price_not_agreed'')
          | Some agreed \<Rightarrow>
              if trk_status request \<noteq> TAgreed then Inl (Conflict ''price_not_agreed'')
              else if \<not> list_ex (\<lambda>r. cus_kycStatus r = KycApproved)
                     (filter (\<lambda>r. cus_userId r = Some (trk_requestedBy request)) (customers d))
              then Inl (Conflict ''company_not_verified'')
              else if trk_callConfirmedAt request = None then Inl (Conflict ''call_not_confirmed'')
              else if (case trk_capPhp request of None \<Rightarrow> False | Some cap \<Rightarrow> num2 cap < num2 agreed)
              then Inl (Conflict ''over_cap'')
              else Inr (request, agreed)))"

definition truckInvoice :: "time \<Rightarrow> ctx \<Rightarrow> truck_request \<Rightarrow> int \<Rightarrow> db \<Rightarrow> invoice \<times> db" where
  "truckInvoice now c request agreed d =
     (case find (\<lambda>i. inv_truckRequestId i = Some (trk_id request) \<and> inv_status i = Issued) (invoices d) of
        Some i \<Rightarrow> (i, d)
      | None \<Rightarrow>
          let i = \<lparr>inv_id = nextId d, inv_tenantId = ctx_tenantId c, inv_rentalId = None,
                inv_truckRequestId = Some (trk_id request), inv_invoiceType = Truck, inv_amount = agreed,
                inv_status = Issued, inv_dueDate = trk_scheduledFor request, inv_createdAt = now\<rparr>;
              d1 = (fresh d)\<lparr>invoices := invoices d @ [i]\<rparr>
          in (i, (fresh d1)\<lparr>invoiceLineItems := invoiceLineItems d1 @ [invoiceLine c (nextId d1) (inv_id i) agreed]\<rparr>))"

definition checkoutTruck ::
  "web_env \<Rightarrow> payments_port \<Rightarrow> time \<Rightarrow> ctx \<Rightarrow> uuid \<Rightarrow> checkout_request \<Rightarrow> string option \<Rightarrow> (db, checkout_result) body" where
  "checkoutTruck env port now c truckRequestId body origin d =
     (case truckPayable c truckRequestId d of
        Inl e \<Rightarrow> fails e
      | Inr (request, agreed) \<Rightarrow>
          (case truckInvoice now c request agreed d of
             (invoice, d1) \<Rightarrow> pay env port now c body origin ''Self-loading truck'' invoice d1))"

definition weeklyPayable :: "ctx \<Rightarrow> uuid \<Rightarrow> db \<Rightarrow> http_error + invoice" where
  "weeklyPayable c invoiceId d =
     (case find (\<lambda>i. inv_id i = invoiceId) (invoices d) of
        None \<Rightarrow> Inl (NotFound ''invoice_not_found'')
      | Some invoice \<Rightarrow>
          (case (case inv_rentalId invoice of None \<Rightarrow> None | Some rid \<Rightarrow> find (\<lambda>r. ren_id r = rid) (rentals d)) of
             None \<Rightarrow> Inl (NotFound ''invoice_not_found'')
           | Some rental \<Rightarrow>
               if inv_invoiceType invoice \<noteq> Weekly \<or> \<not> ownsCustomer c (Some (ren_customerId rental)) d
               then Inl (NotFound ''invoice_not_found'')
               else if inv_status invoice \<noteq> Issued then Inl (Conflict ''invoice_not_payable'')
               else Inr invoice))"

definition checkoutInvoice ::
  "web_env \<Rightarrow> payments_port \<Rightarrow> time \<Rightarrow> ctx \<Rightarrow> uuid \<Rightarrow> checkout_request \<Rightarrow> string option \<Rightarrow> (db, checkout_result) body" where
  "checkoutInvoice env port now c invoiceId body origin d =
     (case weeklyPayable c invoiceId d of
        Inl e \<Rightarrow> fails e
      | Inr invoice \<Rightarrow> pay env port now c body origin ''Weekly equipment usage'' invoice d)"

section \<open>Settling\<close>

definition settleInvoice :: "uuid \<Rightarrow> uuid \<Rightarrow> db \<Rightarrow> db" where
  "settleInvoice tenantId invoiceId d =
     (let d1 = d\<lparr>invoices := updw (\<lambda>i. inv_id i = invoiceId) (inv_status_update (\<lambda>_. Paid)) (invoices d)\<rparr> in
      case find (\<lambda>i. inv_id i = invoiceId) (invoices d1) of
        None \<Rightarrow> d1
      | Some invoice \<Rightarrow>
          let d2 = (case inv_rentalId invoice of
                None \<Rightarrow> d1
              | Some rid \<Rightarrow>
                  notifyBookingCustomer tenantId rid ''payment_received'' [(''invoice_id'', JId invoiceId)]
                    (if inv_invoiceType invoice = Booking \<or> inv_invoiceType invoice = Deposit
                     then d1\<lparr>rentals := updw (\<lambda>r. ren_id r = rid) (ren_status_update (\<lambda>_. RConfirmed)) (rentals d1)\<rparr>
                     else d1))
          in (case inv_truckRequestId invoice of
                None \<Rightarrow> d2
              | Some tr \<Rightarrow> d2\<lparr>truckRequests := updw (\<lambda>r. trk_id r = tr) (trk_status_update (\<lambda>_. TPaid)) (truckRequests d2)\<rparr>))"

definition recordCash :: "time \<Rightarrow> ctx \<Rightarrow> uuid \<Rightarrow> (db, uuid) body" where
  "recordCash now c invoiceId d =
     (case find (\<lambda>i. inv_id i = invoiceId) (invoices d) of
        None \<Rightarrow> fails (NotFound ''invoice_not_found'')
      | Some invoice \<Rightarrow>
          if inv_status invoice \<noteq> Issued then fails (Conflict ''invoice_not_payable'')
          else
            let d1 = (case find (\<lambda>p. pay_invoiceId p = invoiceId \<and> pay_method p = ''cash'' \<and> pay_status p = PPending)
                              (payments d) of
                  Some pendingCash \<Rightarrow>
                    d\<lparr>payments := updw (\<lambda>p. pay_id p = pay_id pendingCash)
                        (\<lambda>p. p\<lparr>pay_status := PPaid, pay_recordedByUserId := Some (ctx_userId c)\<rparr>) (payments d)\<rparr>
                | None \<Rightarrow>
                    insertPayment now c invoiceId ''cash'' (Some (ctx_userId c)) (inv_amount invoice) None PPaid d)
            in ([''cash_payment_recorded''], Inr (invoiceId, settleInvoice (ctx_tenantId c) invoiceId d1)))"

record settlement =
  stl_invoiceId :: uuid
  stl_sessionId :: string
  stl_paymentId :: string
  stl_amountCentavos :: number

definition expectedCentavos :: "invoice \<Rightarrow> number" where
  "expectedCentavos invoice = math_round (num2 (inv_amount invoice) * js 100)"

definition settleOnlinePayment :: "uuid \<Rightarrow> settlement \<Rightarrow> db \<Rightarrow> http_error + bool \<times> db" where
  "settleOnlinePayment tenantId p d =
     (case find (\<lambda>i. inv_id i = stl_invoiceId p) (invoices d) of
        None \<Rightarrow> Inr (False, d)
      | Some invoice \<Rightarrow>
          if inv_status invoice \<noteq> Issued then Inr (False, d)
          else (case find (\<lambda>r. pay_invoiceId r = stl_invoiceId p \<and> pay_providerRef r = Some (stl_sessionId p))
                       (payments d) of
            None \<Rightarrow> Inr (False, d)
          | Some payment \<Rightarrow>
              if \<not> jsEq (stl_amountCentavos p) (expectedCentavos invoice)
              then Inr (False, notifyStaff tenantId ''payment_amount_mismatch''
                     [(''invoice_id'', JId (stl_invoiceId p)), (''expected_centavos'', JNum (expectedCentavos invoice)),
                      (''paid_centavos'', JNum (stl_amountCentavos p))] d)
              else if list_ex (\<lambda>r. pay_id r \<noteq> pay_id payment \<and> pay_providerPaymentId r = Some (stl_paymentId p)) (payments d)
              then Inl (Internal ''payments_provider_payment_id_key'')
              else
                let d1 = d\<lparr>payments := updw (\<lambda>r. pay_id r = pay_id payment)
                      (\<lambda>r. r\<lparr>pay_status := PPaid, pay_providerPaymentId := Some (stl_paymentId p)\<rparr>) (payments d)\<rparr>
                in Inr (True, notifyStaff tenantId ''payment_paid'' [(''invoice_id'', JId (stl_invoiceId p))]
                          (settleInvoice tenantId (stl_invoiceId p) d1))))"

text \<open>The session the return check asks PayMongo about: the latest pending payment's, if it is online.\<close>

definition pendingSession :: "uuid \<Rightarrow> db \<Rightarrow> string option" where
  "pendingSession invoiceId d =
     (case latestBy pay_createdAt (filter (\<lambda>p. pay_invoiceId p = invoiceId \<and> pay_status p = PPending) (payments d)) of
        None \<Rightarrow> None
      | Some pending \<Rightarrow> if pay_method pending = ''cash'' then None else nonEmpty (pay_providerRef pending))"

definition paidSession :: "uuid \<Rightarrow> string \<Rightarrow> session_status \<Rightarrow> settlement option" where
  "paidSession invoiceId ref session =
     (if \<not> sst_paid session then None
      else (case (nonEmpty (sst_paymentId session), sst_amountCentavos session) of
              (Some paymentId, Some amountCentavos) \<Rightarrow>
                Some \<lparr>stl_invoiceId = invoiceId, stl_sessionId = ref, stl_paymentId = paymentId,
                      stl_amountCentavos = amountCentavos\<rparr>
            | _ \<Rightarrow> None))"

definition confirmPayment :: "payments_port \<Rightarrow> ctx \<Rightarrow> uuid \<Rightarrow> (db, invoice_status) body" where
  "confirmPayment port c invoiceId d =
     (case find (\<lambda>i. inv_id i = invoiceId) (invoices d) of
        None \<Rightarrow> fails (NotFound ''invoice_not_found'')
      | Some invoice \<Rightarrow>
          if ctx_role c = ''customer'' \<and> \<not> customerOwnsInvoice c invoice d then fails (NotFound ''invoice_not_found'')
          else if inv_status invoice \<noteq> Issued then returns (inv_status invoice) d
          else (case pendingSession invoiceId d of
            None \<Rightarrow> returns Issued d
          | Some ref \<Rightarrow>
              (case getCheckoutSession port ref of
                 Inl e \<Rightarrow> fails e
               | Inr session \<Rightarrow>
                   (case paidSession invoiceId ref session of
                      None \<Rightarrow> returns Issued d
                    | Some p \<Rightarrow>
                        (case settleOnlinePayment (ctx_tenantId c) p d of
                           Inl e \<Rightarrow> fails e
                         | Inr (settled, d1) \<Rightarrow>
                             ((if settled then [''deposit_payment_confirmed''] else []),
                              Inr (if settled then Paid else Issued, d1)))))))"

section \<open>Refunds\<close>

definition auditReason :: "ctx \<Rightarrow> string \<Rightarrow> string \<Rightarrow> uuid \<Rightarrow> string \<Rightarrow> db \<Rightarrow> db" where
  "auditReason c action entity eid reason d =
     d\<lparr>auditLogs := auditLogs d @
        [\<lparr>aud_tenantId = ctx_tenantId c, aud_actorId = ctx_userId c, aud_action = action,
          aud_entity = entity, aud_entityId = eid, aud_reason = Some (JStr reason)\<rparr>]\<rparr>"

text \<open>\<open>str\<close> is \<open>Number.prototype.toString\<close>, in the template of the audit row's reason.\<close>

definition refund ::
  "payments_port \<Rightarrow> (number \<Rightarrow> string) \<Rightarrow> ctx \<Rightarrow> uuid \<Rightarrow> number option \<Rightarrow> string \<Rightarrow> (db, uuid \<times> string) body" where
  "refund port str c invoiceId amountPhp reason d =
     (case latestBy pay_createdAt (filter (\<lambda>p. pay_invoiceId p = invoiceId \<and> pay_status p = PPaid) (payments d)) of
        None \<Rightarrow> fails (Conflict ''payment_not_refundable'')
      | Some payment \<Rightarrow>
          (case nonEmpty (pay_providerPaymentId payment) of
             None \<Rightarrow> fails (Conflict ''payment_not_refundable'')
           | Some providerPaymentId \<Rightarrow>
               let amount = (case amountPhp of Some a \<Rightarrow> a | None \<Rightarrow> num2 (pay_amount payment)) in
               if num2 (pay_amount payment) < amount then fails (Conflict ''refund_exceeds_payment'')
               else
                 let d1 = auditReason c ''REFUND'' ''payments'' (pay_id payment) (reason @ '': PHP '' @ str amount) d in
                 (case refundAtProvider port providerPaymentId amount reason of
                    Inl e \<Rightarrow> fails e
                  | Inr refundId \<Rightarrow> ([''payment_refund_requested''], Inr ((pay_id payment, refundId), d1)))))"

section \<open>The webhook\<close>

text \<open>
  What the handler reads of a well-formed event: its type, the resource's id, the metadata's invoice
  id when it is a well-formed uuid, a checkout session's payments and a refund's attributes.
\<close>

record session_payment =
  spm_id :: string
  spm_status :: string
  spm_amount :: number

record webhook_event =
  whe_type :: string
  whe_resourceId :: string
  whe_invoiceId :: "uuid option"
  whe_payments :: "session_payment list"
  whe_status :: string
  whe_amount :: "number option"
  whe_paymentId :: "string option"

record hook_env =
  hk_hmac :: "string \<Rightarrow> string \<Rightarrow> 8 word list"
  hk_toNumber :: "string \<Rightarrow> number"
  hk_parse :: "string \<Rightarrow> webhook_event option"
  hk_live :: bool

datatype webhook_result = Received | Unresolved

record tenant_lookup =
  tlk_tenantId :: uuid
  tlk_invoiceId :: uuid
  tlk_rentalId :: "uuid option"

definition lookupOf :: "invoice \<Rightarrow> tenant_lookup" where
  "lookupOf i = \<lparr>tlk_tenantId = inv_tenantId i, tlk_invoiceId = inv_id i, tlk_rentalId = inv_rentalId i\<rparr>"

definition findTenantByInvoiceIdForWebhook :: "uuid \<Rightarrow> db \<Rightarrow> tenant_lookup option" where
  "findTenantByInvoiceIdForWebhook invoiceId d =
     map_option lookupOf (find (\<lambda>i. inv_id i = invoiceId) (invoices d))"

definition findTenantByProviderPaymentIdForWebhook :: "string \<Rightarrow> db \<Rightarrow> tenant_lookup option" where
  "findTenantByProviderPaymentIdForWebhook providerPaymentId d =
     (case List.bind (filter (\<lambda>p. pay_providerPaymentId p = Some providerPaymentId) (payments d))
             (\<lambda>p. filter (\<lambda>i. inv_id i = pay_invoiceId p) (invoices d)) of
        [] \<Rightarrow> None
      | i # _ \<Rightarrow> Some (lookupOf i))"

definition systemCtx :: "uuid \<Rightarrow> ctx" where
  "systemCtx tenantId = \<lparr>ctx_tenantId = tenantId, ctx_userId = WEBHOOK_SYSTEM_USER_ID, ctx_role = ''system''\<rparr>"

definition paymentFailed :: "tenant_lookup \<Rightarrow> uuid \<Rightarrow> (db, unit) body" where
  "paymentFailed lk invoiceId d =
     (case latestBy pay_createdAt (filter (\<lambda>p. pay_invoiceId p = invoiceId \<and> pay_status p = PPending) (payments d)) of
        None \<Rightarrow> returns () d
      | Some pending \<Rightarrow>
          let payload = [(''invoice_id'', JId invoiceId)];
              d1 = d\<lparr>payments := updw (\<lambda>p. pay_id p = pay_id pending) (pay_status_update (\<lambda>_. PFailed)) (payments d)\<rparr>;
              d2 = (case tlk_rentalId lk of
                  None \<Rightarrow> d1
                | Some rid \<Rightarrow> notifyBookingCustomer (tlk_tenantId lk) rid ''payment_failed'' payload d1)
          in ([''deposit_payment_failed''], Inr ((), notifyStaff (tlk_tenantId lk) ''payment_failed'' payload d2)))"

definition webhookBody :: "tenant_lookup \<Rightarrow> uuid \<Rightarrow> webhook_event \<Rightarrow> (db, unit) body" where
  "webhookBody lk invoiceId e d =
     (if whe_type e = ''checkout_session.payment.paid'' then
        (case find (\<lambda>p. spm_status p = ''paid'') (whe_payments e) of
           None \<Rightarrow> returns () d
         | Some paid \<Rightarrow>
             (case settleOnlinePayment (tlk_tenantId lk)
                     \<lparr>stl_invoiceId = invoiceId, stl_sessionId = whe_resourceId e, stl_paymentId = spm_id paid,
                      stl_amountCentavos = spm_amount paid\<rparr> d of
                Inl err \<Rightarrow> fails err
              | Inr (settled, d1) \<Rightarrow> ((if settled then [''deposit_payment_confirmed''] else []), Inr ((), d1))))
      else if whe_type e = ''payment.failed'' then paymentFailed lk invoiceId d
      else ([''paymongo_webhook_unhandled_event''], Inr ((), d)))"

definition refundBody :: "time \<Rightarrow> tenant_lookup \<Rightarrow> string \<Rightarrow> number \<Rightarrow> string \<Rightarrow> (db, unit) body" where
  "refundBody now lk providerPaymentId amount refundId d =
     (case find (\<lambda>p. pay_providerPaymentId p = Some providerPaymentId) (payments d) of
        None \<Rightarrow> returns () d
      | Some original \<Rightarrow>
          if list_ex (\<lambda>p. pay_providerRef p = Some refundId) (payments d) then returns () d
          else
            let d1 = insertPayment now (systemCtx (tlk_tenantId lk)) (tlk_invoiceId lk) (pay_method original) None
                       (col2 (amount / js 100)) (Some refundId) PRefunded d;
                d2 = (case tlk_rentalId lk of
                    None \<Rightarrow> d1
                  | Some rid \<Rightarrow> notifyBookingCustomer (tlk_tenantId lk) rid ''payment_refunded''
                      [(''invoice_id'', JId (tlk_invoiceId lk))] d1)
            in ([''deposit_payment_refunded''], Inr ((), d2)))"

definition handleRefundEvent :: "time \<Rightarrow> webhook_event \<Rightarrow> world \<Rightarrow> (http_error + webhook_result) \<times> world" where
  "handleRefundEvent now e w =
     (case (whe_status e = ''succeeded'', whe_paymentId e, whe_amount e) of
        (True, Some providerPaymentId, Some amount) \<Rightarrow>
          (case findTenantByProviderPaymentIdForWebhook providerPaymentId (data w) of
             None \<Rightarrow> (Inr Unresolved, w)
           | Some lk \<Rightarrow>
               (case withTenantTx (systemCtx (tlk_tenantId lk))
                       (refundBody now lk providerPaymentId amount (whe_resourceId e)) w of
                  (Inl err, w1) \<Rightarrow> (Inl err, w1)
                | (Inr _, w1) \<Rightarrow> (Inr Received, w1)))
      | _ \<Rightarrow> (Inr Received, w))"

definition handleWebhook ::
  "hook_env \<Rightarrow> time \<Rightarrow> string \<Rightarrow> string option \<Rightarrow> string option \<Rightarrow> world \<Rightarrow> (http_error + webhook_result) \<times> world" where
  "handleWebhook env now rawBody signatureHeader webhookSecret w =
     (case (nonEmpty webhookSecret, nonEmpty signatureHeader) of
        (Some secret, Some header) \<Rightarrow>
          if \<not> verifyPaymongoSignature (hk_hmac env) (hk_toNumber env) now (hk_live env) rawBody header secret
          then (Inl (Forbidden ''invalid_signature''), w)
          else (case hk_parse env rawBody of
            None \<Rightarrow> (Inl (BadRequest ''malformed_event''), w)
          | Some e \<Rightarrow>
              if whe_type e = ''payment.refund.updated'' then handleRefundEvent now e w
              else (case whe_invoiceId e of
                None \<Rightarrow> (Inr Unresolved, w)
              | Some invoiceId \<Rightarrow>
                  (case findTenantByInvoiceIdForWebhook invoiceId (data w) of
                     None \<Rightarrow> (Inr Unresolved, w)
                   | Some lk \<Rightarrow>
                       (case withTenantTx (systemCtx (tlk_tenantId lk)) (webhookBody lk invoiceId e) w of
                          (Inl err, w1) \<Rightarrow> (Inl err, w1)
                        | (Inr _, w1) \<Rightarrow> (Inr Received, w1)))))
      | _ \<Rightarrow> (Inl (Forbidden ''invalid_signature''), w))"

end
