(* ===== verification/PaymentProtocol.thy ===== *)
theory PaymentProtocol
  imports Payments
begin

text \<open>
  What the payments service promises, as a protocol on invoices and payments alone, and the proof
  that the service implements it. The protocol issues invoices, lets a payment of exactly an
  invoice's amount be chosen, settles an issued invoice together with one of its payments, marks a
  pending payment failed and appends refunds. Its invariant, an invoice is paid only against a paid
  payment of its amount, then holds of every state the service reaches.
\<close>

section \<open>The protocol\<close>

text \<open>An invoice as its id, amount and status; a payment as its id, invoice, amount and status.\<close>

type_synonym pinvoice = "uuid \<times> int \<times> invoice_status"
type_synonym ppayment = "uuid \<times> uuid \<times> int \<times> payment_status"
type_synonym pview = "pinvoice list \<times> ppayment list"

definition setPaid :: "uuid \<Rightarrow> pinvoice list \<Rightarrow> pinvoice list" where
  "setPaid k = map (\<lambda>(k', a, s). (k', a, if k' = k then Paid else s))"

definition setPayment :: "uuid \<Rightarrow> payment_status \<Rightarrow> ppayment list \<Rightarrow> ppayment list" where
  "setPayment j st = map (\<lambda>(j', k, a, s). (j', k, a, if j' = j then st else s))"

inductive protoStep :: "pview \<Rightarrow> pview \<Rightarrow> bool" where
  issue: "k \<notin> fst ` set I \<Longrightarrow> k \<notin> (fst \<circ> snd) ` set P \<Longrightarrow> protoStep (I, P) (I @ [(k, a, Issued)], P)"
| choose: "(k, a, Issued) \<in> set I \<Longrightarrow> j \<notin> fst ` set P \<Longrightarrow> protoStep (I, P) (I, P @ [(j, k, a, PPending)])"
| settle: "(k, a, Issued) \<in> set I \<Longrightarrow> (j, k, x, st) \<in> set P \<Longrightarrow> st \<noteq> PRefunded \<Longrightarrow>
    protoStep (I, P) (setPaid k I, setPayment j PPaid P)"
| fail: "(j, k, x, PPending) \<in> set P \<Longrightarrow> protoStep (I, P) (I, setPayment j PFailed P)"
| refund: "j \<notin> fst ` set P \<Longrightarrow> k \<in> fst ` set I \<Longrightarrow> protoStep (I, P) (I, P @ [(j, k, x, PRefunded)])"

inductive_cases protoStepE: "protoStep v v'"

definition protoInv :: "pview \<Rightarrow> bool" where
  "protoInv v \<longleftrightarrow>
     distinct (map fst (fst v)) \<and> distinct (map fst (snd v)) \<and>
     (\<forall>(j, k, x, st) \<in> set (snd v). st \<noteq> PRefunded \<longrightarrow> (\<forall>(k', a, s) \<in> set (fst v). k' = k \<longrightarrow> x = a)) \<and>
     (\<forall>(k, a, s) \<in> set (fst v). s = Paid \<longrightarrow> (\<exists>j. (j, k, a, PPaid) \<in> set (snd v)))"

lemma fst_setPaid [simp]: "map fst (setPaid k I) = map fst I"
  by (simp add: setPaid_def case_prod_beta)

lemma fst_setPayment [simp]: "map fst (setPayment j st P) = map fst P"
  by (simp add: setPayment_def case_prod_beta)

lemma in_setPaid: "(k', a, s) \<in> set (setPaid k I) \<longleftrightarrow> (\<exists>s0. (k', a, s0) \<in> set I \<and> s = (if k' = k then Paid else s0))"
  by (force simp: setPaid_def)

lemma in_setPayment:
  "(j', k, a, s) \<in> set (setPayment j st P) \<longleftrightarrow> (\<exists>s0. (j', k, a, s0) \<in> set P \<and> s = (if j' = j then st else s0))"
  by (force simp: setPayment_def)

lemma distinct_fst_eq: "distinct (map fst P) \<Longrightarrow> (j, x) \<in> set P \<Longrightarrow> (j, y) \<in> set P \<Longrightarrow> x = y"
  by (metis distinct_map_eq fst_conv prod.inject)

lemma protoInvI:
  assumes "distinct (map fst I)" "distinct (map fst P)"
    and "\<And>j k x st a s. (j, k, x, st) \<in> set P \<Longrightarrow> st \<noteq> PRefunded \<Longrightarrow> (k, a, s) \<in> set I \<Longrightarrow> x = a"
    and "\<And>k a. (k, a, Paid) \<in> set I \<Longrightarrow> \<exists>j. (j, k, a, PPaid) \<in> set P"
  shows "protoInv (I, P)"
  using assms unfolding protoInv_def by fastforce

lemma protoInvD:
  assumes "protoInv (I, P)"
  shows "distinct (map fst I)" "distinct (map fst P)"
    and "(j, k, x, st) \<in> set P \<Longrightarrow> st \<noteq> PRefunded \<Longrightarrow> (k, a, s) \<in> set I \<Longrightarrow> x = a"
    and "(k, a, Paid) \<in> set I \<Longrightarrow> \<exists>j. (j, k, a, PPaid) \<in> set P"
  using assms unfolding protoInv_def by fastforce+

lemma protoInv_settle:
  assumes inv: "protoInv (I, P)" and "(k, a, Issued) \<in> set I" "(j, k, x, st) \<in> set P" "st \<noteq> PRefunded"
  shows "protoInv (setPaid k I, setPayment j PPaid P)"
proof (rule protoInvI)
  note D = protoInvD[OF inv]
  show "distinct (map fst (setPaid k I))" "distinct (map fst (setPayment j PPaid P))" using D(1,2) by simp_all
  show "x' = a'" if p: "(j', k', x', st') \<in> set (setPayment j PPaid P)" "st' \<noteq> PRefunded" and i: "(k', a', s') \<in> set (setPaid k I)"
    for j' k' x' st' a' s'
  proof -
    obtain s0 where s0: "(j', k', x', s0) \<in> set P" "st' = (if j' = j then PPaid else s0)" using p(1) by (auto simp: in_setPayment)
    obtain t0 where t0: "(k', a', t0) \<in> set I" using i by (auto simp: in_setPaid)
    have "s0 \<noteq> PRefunded" using s0 p(2) distinct_fst_eq[OF D(2) s0(1)] assms(3,4) by (cases "j' = j") auto
    then show ?thesis using D(3)[OF s0(1) _ t0] by simp
  qed
  show "\<exists>j'. (j', k', a', PPaid) \<in> set (setPayment j PPaid P)" if i: "(k', a', Paid) \<in> set (setPaid k I)" for k' a'
  proof (cases "k' = k")
    case True
    then obtain t0 where "(k, a', t0) \<in> set I" using i by (auto simp: in_setPaid)
    then have "x = a'" using D(3)[OF assms(3,4)] by blast
    then have "(j, k, a', PPaid) \<in> set (setPayment j PPaid P)" using assms(3) by (auto simp: in_setPayment)
    then show ?thesis using True by blast
  next
    case False
    then have "(k', a', Paid) \<in> set I" using i by (auto simp: in_setPaid)
    then obtain j' where "(j', k', a', PPaid) \<in> set P" using D(4) by blast
    then show ?thesis by (auto simp: in_setPayment intro!: exI[of _ j'])
  qed
qed

lemma protoInv_step:
  assumes inv: "protoInv v" and step: "protoStep v v'"
  shows "protoInv v'"
  using step
proof cases
  case (issue k I P a)
  note D = protoInvD[OF inv[unfolded issue(1)]]
  have fresh: "(j', k, x, st) \<notin> set P" for j' x st using issue(4) by force
  show ?thesis unfolding issue(2)
  proof (rule protoInvI)
    show "x = a'" if "(j', k', x, st) \<in> set P" "st \<noteq> PRefunded" "(k', a', s) \<in> set (I @ [(k, a, Issued)])" for j' k' x st a' s
      using that D(3)[of j' k' x st a' s] fresh by auto
    show "distinct (map fst (I @ [(k, a, Issued)]))" using D(1) issue(3) by simp
  qed (use D(2,4) in auto)
next
  case (choose k a I j P)
  note D = protoInvD[OF inv[unfolded choose(1)]]
  show ?thesis unfolding choose(2)
  proof (rule protoInvI)
    show "x = a'" if "(j', k', x, st) \<in> set (P @ [(j, k, a, PPending)])" "st \<noteq> PRefunded" "(k', a', s) \<in> set I" for j' k' x st a' s
      using that D(3)[of j' k' x st a' s] distinct_fst_eq[OF D(1) choose(3), of "(a', s)"] by auto
    show "distinct (map fst (P @ [(j, k, a, PPending)]))" using D(2) choose(4) by simp
    show "\<exists>j'. (j', k', a', PPaid) \<in> set (P @ [(j, k, a, PPending)])" if "(k', a', Paid) \<in> set I" for k' a'
      using D(4)[OF that] by auto
  qed (rule D(1))
next
  case (settle k a I j x st P)
  then show ?thesis using protoInv_settle[of I P k a j x st] inv by simp
next
  case (fail j k x P I)
  note D = protoInvD[OF inv[unfolded fail(1)]]
  show ?thesis unfolding fail(2)
  proof (rule protoInvI)
    show "x' = a'" if p: "(j', k', x', st') \<in> set (setPayment j PFailed P)" "st' \<noteq> PRefunded" and i: "(k', a', s') \<in> set I"
      for j' k' x' st' a' s'
    proof -
      obtain s0 where s0: "(j', k', x', s0) \<in> set P" "st' = (if j' = j then PFailed else s0)" using p(1) by (auto simp: in_setPayment)
      have "s0 \<noteq> PRefunded" using s0 p(2) distinct_fst_eq[OF D(2) s0(1)] fail(3) by (cases "j' = j") auto
      then show ?thesis using D(3)[OF s0(1) _ i] by simp
    qed
    show "\<exists>j'. (j', k', a', PPaid) \<in> set (setPayment j PFailed P)" if "(k', a', Paid) \<in> set I" for k' a'
    proof -
      obtain j' where j': "(j', k', a', PPaid) \<in> set P" using D(4) \<open>(k', a', Paid) \<in> set I\<close> by blast
      then have "j' \<noteq> j" using distinct_fst_eq[OF D(2) j'] fail(3) by auto
      then show ?thesis using j' by (auto simp: in_setPayment intro!: exI[of _ j'])
    qed
  qed (use D in simp_all)
next
  case (refund j P k I x)
  note D = protoInvD[OF inv[unfolded refund(1)]]
  show ?thesis unfolding refund(2)
  proof (rule protoInvI)
    show "x' = a'" if "(j', k', x', st) \<in> set (P @ [(j, k, x, PRefunded)])" "st \<noteq> PRefunded" "(k', a', s) \<in> set I"
      for j' k' x' st a' s
      using that D(3)[of j' k' x' st a' s] by auto
    show "distinct (map fst (P @ [(j, k, x, PRefunded)]))" using D(2) refund(3) by simp
    show "\<exists>j'. (j', k', a', PPaid) \<in> set (P @ [(j, k, x, PRefunded)])" if "(k', a', Paid) \<in> set I" for k' a'
      using D(4)[OF that] by auto
  qed (rule D(1))
qed

section \<open>The service's view\<close>

definition viewInvoice :: "invoice \<Rightarrow> pinvoice" where
  "viewInvoice i = (inv_id i, inv_amount i, inv_status i)"

definition viewPayment :: "payment \<Rightarrow> ppayment" where
  "viewPayment p = (pay_id p, pay_invoiceId p, pay_amount p, pay_status p)"

definition payView :: "db \<Rightarrow> pview" where
  "payView d = (map viewInvoice (invoices d), map viewPayment (payments d))"

text \<open>Fresh identifiers are fresh, and the unique index on \<open>provider_ref\<close>.\<close>

definition keysOk :: "db \<Rightarrow> bool" where
  "keysOk d \<longleftrightarrow> (\<forall>i \<in> set (invoices d). inv_id i < nextId d) \<and>
     (\<forall>p \<in> set (payments d). pay_id p < nextId d \<and> pay_invoiceId p < nextId d) \<and>
     (\<forall>p \<in> set (payments d). \<forall>q \<in> set (payments d).
        pay_providerRef p \<noteq> None \<and> pay_providerRef p = pay_providerRef q \<longrightarrow> p = q)"

text \<open>Amounts within the range in which a column's value survives the trip through a double.\<close>

definition amountsOk :: "db \<Rightarrow> bool" where
  "amountsOk d \<longleftrightarrow> (\<forall>i \<in> set (invoices d). \<bar>inv_amount i\<bar> \<le> 2 ^ 44)"

text \<open>A checkout session is never a refund (PayMongo prefixes the ids of the two differently).\<close>

definition notRefund :: "string \<Rightarrow> db \<Rightarrow> bool" where
  "notRefund session d \<longleftrightarrow> (\<forall>p \<in> set (payments d). pay_providerRef p = Some session \<longrightarrow> pay_status p \<noteq> PRefunded)"

definition refines :: "db \<Rightarrow> db \<Rightarrow> bool" where
  "refines d d' \<longleftrightarrow> keysOk d' \<and> protoStep\<^sup>*\<^sup>* (payView d) (payView d')"

lemma sameLedger_tables:
  "sameLedger d d' \<Longrightarrow> invoices d' = invoices d \<and> payments d' = payments d \<and> rentals d' = rentals d \<and> truckRequests d' = truckRequests d"
  by (simp add: sameLedger_def)

lemma refines_same:
  "keysOk d \<Longrightarrow> invoices d' = invoices d \<Longrightarrow> payments d' = payments d \<Longrightarrow> nextId d \<le> nextId d' \<Longrightarrow> refines d d'"
  unfolding refines_def keysOk_def payView_def by (auto intro: less_le_trans)

lemma refines_trans: "refines d d1 \<Longrightarrow> refines d1 d2 \<Longrightarrow> refines d d2"
  unfolding refines_def by auto

lemma refines_id:
  "refines d d1 \<Longrightarrow> invoices d2 = invoices d1 \<Longrightarrow> payments d2 = payments d1 \<Longrightarrow> nextId d1 \<le> nextId d2 \<Longrightarrow> refines d d2"
  using refines_trans refines_same unfolding refines_def by blast

lemma col2_num2: "\<bar>k\<bar> \<le> 2 ^ 44 \<Longrightarrow> col2 (num2 k) = k"
  by (rule amt_col2[OF amt_num2]) auto

lemma view_ids: "fst ` set (snd (payView d)) = pay_id ` set (payments d)" "fst ` set (fst (payView d)) = inv_id ` set (invoices d)"
  by (force simp: payView_def viewInvoice_def viewPayment_def)+

lemma in_payView:
  "(k, a, s) \<in> set (fst (payView d)) \<longleftrightarrow> (\<exists>i \<in> set (invoices d). inv_id i = k \<and> inv_amount i = a \<and> inv_status i = s)"
  "(j, k, a, st) \<in> set (snd (payView d)) \<longleftrightarrow>
     (\<exists>p \<in> set (payments d). pay_id p = j \<and> pay_invoiceId p = k \<and> pay_amount p = a \<and> pay_status p = st)"
  by (auto simp: payView_def viewInvoice_def viewPayment_def)

lemma view_setPaid:
  "map viewInvoice (updw (\<lambda>i. inv_id i = k) (inv_status_update (\<lambda>_. Paid)) is) = setPaid k (map viewInvoice is)"
  by (induction "is") (auto simp: viewInvoice_def setPaid_def)

lemma view_setPayment:
  "(\<And>p. viewPayment (f p) = (pay_id p, pay_invoiceId p, pay_amount p, st)) \<Longrightarrow>
   map viewPayment (updw (\<lambda>p. pay_id p = j) f ps) = setPayment j st (map viewPayment ps)"
  by (induction ps) (auto simp: setPayment_def viewPayment_def)

text \<open>Each primitive of the service is a step of the protocol.\<close>

lemma insertPayment_tables [simp]:
  "invoices (insertPayment now c k m b a r st d) = invoices d"
  "nextId (insertPayment now c k m b a r st d) = Suc (nextId d)"
  "rentals (insertPayment now c k m b a r st d) = rentals d"
  "truckRequests (insertPayment now c k m b a r st d) = truckRequests d"
  by (simp_all add: insertPayment_def fresh_def)

lemma keysOk_insert:
  assumes "keysOk d" "k < nextId d" "\<And>x. r = Some x \<Longrightarrow> \<forall>p \<in> set (payments d). pay_providerRef p \<noteq> Some x"
  shows "keysOk (insertPayment now c k m b a r st d)"
proof -
  let ?d = "insertPayment now c k m b a r st d"
  have refs: "p = q" if pq: "p \<in> set (payments ?d)" "q \<in> set (payments ?d)" "pay_providerRef p = Some x" "pay_providerRef q = Some x"
    for p q x
  proof (cases "p \<in> set (payments d) \<and> q \<in> set (payments d)")
    case True
    with assms(1) pq(3,4) show ?thesis unfolding keysOk_def by (metis option.distinct(1))
  next
    case False
    then have "r = Some x" using pq by (auto simp: insertPayment_def)
    then show ?thesis using pq assms(3)[of x] by (auto simp: insertPayment_def)
  qed
  have "\<forall>p \<in> set (payments ?d). pay_id p < nextId ?d \<and> pay_invoiceId p < nextId ?d"
    using assms(1,2) unfolding keysOk_def by (auto simp: insertPayment_def fresh_def intro: less_SucI)
  moreover have "\<forall>i \<in> set (invoices ?d). inv_id i < nextId ?d"
    using assms(1) unfolding keysOk_def by (auto intro: less_SucI)
  ultimately show ?thesis using refs unfolding keysOk_def by (metis option.exhaust)
qed

lemma view_insert:
  "payView (insertPayment now c k m b a r st d) = (fst (payView d), snd (payView d) @ [(nextId d, k, a, st)])"
  by (simp add: payView_def insertPayment_def fresh_def viewPayment_def)

lemma nextId_fresh: "keysOk d \<Longrightarrow> nextId d \<notin> fst ` set (snd (payView d))"
  "keysOk d \<Longrightarrow> nextId d \<notin> fst ` set (fst (payView d))"
  "keysOk d \<Longrightarrow> nextId d \<notin> (fst \<circ> snd) ` set (snd (payView d))"
  unfolding view_ids keysOk_def by (force simp: payView_def viewPayment_def)+

lemma refines_choose:
  assumes "keysOk d" "i \<in> set (invoices d)" "inv_status i = Issued" "inv_amount i = a"
    and "\<And>x. r = Some x \<Longrightarrow> \<forall>p \<in> set (payments d). pay_providerRef p \<noteq> Some x"
  shows "refines d (insertPayment now c (inv_id i) m b a r PPending d)"
proof -
  have "(inv_id i, a, Issued) \<in> set (fst (payView d))" using assms(2,3,4) by (auto simp: in_payView)
  then have "protoStep (fst (payView d), snd (payView d)) (fst (payView d), snd (payView d) @ [(nextId d, inv_id i, a, PPending)])"
    by (rule protoStep.choose) (rule nextId_fresh(1)[OF assms(1)])
  moreover have "inv_id i < nextId d" using assms(1,2) by (auto simp: keysOk_def)
  ultimately show ?thesis using keysOk_insert[OF assms(1) _ assms(5)] by (simp add: refines_def view_insert)
qed

lemma refines_issue:
  assumes "keysOk d" "invoices d1 = invoices d @ [i]" "payments d1 = payments d" "inv_id i = nextId d"
    "nextId d < nextId d1" "inv_status i = Issued"
  shows "refines d d1"
proof -
  have "protoStep (fst (payView d), snd (payView d)) (fst (payView d) @ [(nextId d, inv_amount i, Issued)], snd (payView d))"
    by (rule protoStep.issue) (use nextId_fresh[OF assms(1)] in auto)
  moreover have "payView d1 = (fst (payView d) @ [(nextId d, inv_amount i, Issued)], snd (payView d))"
    using assms(2-6) by (simp add: payView_def viewInvoice_def)
  moreover have "keysOk d1" using assms unfolding keysOk_def by (auto intro: less_trans)
  ultimately show ?thesis by (simp add: refines_def)
qed

lemma notify_ledger [simp]:
  "invoices (notifyBookingCustomer t r k p d) = invoices d" "payments (notifyBookingCustomer t r k p d) = payments d"
  "rentals (notifyBookingCustomer t r k p d) = rentals d" "truckRequests (notifyBookingCustomer t r k p d) = truckRequests d"
  "invoices (notifyStaff t k p d) = invoices d" "payments (notifyStaff t k p d) = payments d"
  "rentals (notifyStaff t k p d) = rentals d" "truckRequests (notifyStaff t k p d) = truckRequests d"
  using sameLedger_tables[OF sameLedger_notify(1)[of d t r k p]] sameLedger_tables[OF sameLedger_notify(2)[of d t k p]] by simp_all

lemma settleInvoice_tables [simp]:
  "invoices (settleInvoice t k d) = updw (\<lambda>i. inv_id i = k) (inv_status_update (\<lambda>_. Paid)) (invoices d)"
  "payments (settleInvoice t k d) = payments d" "nextId (settleInvoice t k d) = nextId d"
proof -
  define d1 where "d1 = d\<lparr>invoices := updw (\<lambda>i. inv_id i = k) (inv_status_update (\<lambda>_. Paid)) (invoices d)\<rparr>"
  have "invoices (settleInvoice t k d) = invoices d1 \<and> payments (settleInvoice t k d) = payments d1 \<and>
      nextId (settleInvoice t k d) = nextId d1"
  proof (cases "find (\<lambda>i. inv_id i = k) (invoices d1)")
    case (Some i)
    then show ?thesis unfolding settleInvoice_def Let_def d1_def[symmetric]
      by (cases "inv_rentalId i"; cases "inv_truckRequestId i") simp_all
  qed (simp add: settleInvoice_def Let_def flip: d1_def)
  then show "invoices (settleInvoice t k d) = updw (\<lambda>i. inv_id i = k) (inv_status_update (\<lambda>_. Paid)) (invoices d)"
    "payments (settleInvoice t k d) = payments d" "nextId (settleInvoice t k d) = nextId d"
    by (simp_all add: d1_def)
qed

lemma keysOk_updw:
  assumes "keysOk d" "payments d' = updw (\<lambda>p. pay_id p = j) f (payments d)" "nextId d' = nextId d"
    "map inv_id (invoices d') = map inv_id (invoices d)"
    "\<And>p. pay_id (f p) = pay_id p" "\<And>p. pay_invoiceId (f p) = pay_invoiceId p" "\<And>p. pay_providerRef (f p) = pay_providerRef p"
  shows "keysOk d'"
proof -
  have e: "set (map inv_id (invoices d')) = set (map inv_id (invoices d))" by (simp only: assms(4))
  have "\<forall>k \<in> set (map inv_id (invoices d)). k < nextId d" using assms(1) by (simp add: keysOk_def)
  then have "\<forall>k \<in> set (map inv_id (invoices d')). k < nextId d" unfolding e .
  then have "\<forall>i \<in> set (invoices d'). inv_id i < nextId d" by simp
  moreover have "p = q" if pq: "p \<in> set (payments d')" "q \<in> set (payments d')" "pay_providerRef p \<noteq> None" "pay_providerRef p = pay_providerRef q" for p q
  proof -
    obtain p0 q0 where 0: "p0 \<in> set (payments d)" "q0 \<in> set (payments d)" "p = (if pay_id p0 = j then f p0 else p0)"
      "q = (if pay_id q0 = j then f q0 else q0)"
      using pq(1,2) unfolding assms(2) in_updw by blast
    have "pay_providerRef p0 \<noteq> None" "pay_providerRef p0 = pay_providerRef q0" using 0(3,4) pq(3,4) assms(7) by (simp_all split: if_splits)
    moreover note assms(1)[unfolded keysOk_def, THEN conjunct2, THEN conjunct2]
    ultimately have "p0 = q0" using 0(1,2) by blast
    then show ?thesis using 0 by simp
  qed
  moreover have "\<forall>p \<in> set (payments d'). pay_id p < nextId d \<and> pay_invoiceId p < nextId d"
    using assms(1,5,6) unfolding assms(2) keysOk_def by (auto simp: in_updw)
  ultimately show ?thesis unfolding keysOk_def assms(3) by blast
qed

section \<open>The operations\<close>

text \<open>What a checkout pays: an issued invoice, the one it found or the one it has just inserted.\<close>

definition opens :: "db \<Rightarrow> invoice \<Rightarrow> db \<Rightarrow> bool" where
  "opens d i d1 \<longleftrightarrow> inv_status i = Issued \<and>
     (d1 = d \<and> i \<in> set (invoices d) \<or>
      invoices d1 = invoices d @ [i] \<and> payments d1 = payments d \<and> inv_id i = nextId d \<and> nextId d < nextId d1)"

lemma startOnlineD:
  assumes "committed (startOnline env port now c oc d) r d'"
  shows "\<exists>m ref. d' = insertPayment now c (onl_invoiceId oc) m None (col2 (onl_amount oc)) (Some ref) PPending d \<and>
    (\<forall>p \<in> set (payments d). pay_providerRef p \<noteq> Some ref)"
proof -
  define m where "m = (case onl_method oc of Some m \<Rightarrow> m | None \<Rightarrow> ''checkout'')"
  have "\<exists>session :: checkout_session. d' = insertPayment now c (onl_invoiceId oc) m None (col2 (onl_amount oc)) (Some (ses_id session)) PPending d \<and>
    \<not> list_ex (\<lambda>p. pay_providerRef p = Some (ses_id session)) (payments d)"
    using assms unfolding startOnline_def Let_def m_def[symmetric]
    by (auto split: sum.split_asm if_split_asm)
  then show ?thesis by (auto simp: list_ex_iff)
qed

lemma payD:
  assumes "committed (pay env port now c body origin label i d) r d'"
  shows "\<exists>m ref. d' = insertPayment now c (inv_id i) m None (col2 (num2 (inv_amount i))) ref PPending d \<and>
    (\<forall>x. ref = Some x \<longrightarrow> (\<forall>p \<in> set (payments d). pay_providerRef p \<noteq> Some x))"
proof (cases "chk_cash body")
  case True
  then have "d' = insertPayment now c (inv_id i) ''cash'' None (col2 (num2 (inv_amount i))) None PPending d"
    using assms by (simp add: pay_def issueCash_def)
  then show ?thesis by blast
next
  case False
  then show ?thesis using startOnlineD[of env port now c _ d r d'] assms by (fastforce simp: pay_def)
qed

lemma issueInvoice_tables:
  assumes "issueInvoice now c b q rent dep d = (i, d1)"
  shows "invoices d1 = invoices d @ [i]" "payments d1 = payments d" "inv_id i = nextId d" "nextId d < nextId d1"
    "inv_status i = Issued" "inv_amount i = col2 (rent + dep)" "inv_rentalId i = Some b"
    "inv_invoiceType i = (if q \<noteq> None then Booking else Deposit)"
  using assms by (auto simp: issueInvoice_def Let_def fresh_def)

lemma bookingInvoiceD:
  assumes "bookingInvoice b ty st d = Some i"
  shows "i \<in> set (invoices d)" "inv_rentalId i = Some b" "inv_invoiceType i = ty" "inv_status i = st"
  using find_SomeD[OF assms[unfolded bookingInvoice_def]] by auto

definition quotedRent :: "quotation option \<Rightarrow> number" where
  "quotedRent q = (case q of None \<Rightarrow> js 0 | Some q \<Rightarrow> (case quo_totalPhp q of Some a \<Rightarrow> num2 a | None \<Rightarrow> js 0))"

lemma checkoutD:
  assumes "committed (checkout env port now c b body origin d) r d'"
  obtains rental q i d1 label where "find (\<lambda>r. ren_id r = b) (rentals d) = Some rental"
    "ctx_role c = ''customer'' \<Longrightarrow> ownsCustomer c (Some (ren_customerId rental)) d"
    "requireVerifiedCompany (ren_customerId rental) d = None" "ren_callConfirmedAt rental \<noteq> None"
    "q = latestQuotation b d" "\<And>x. q = Some x \<Longrightarrow> quo_status x = QAccepted"
    "bookingInvoice b (if q \<noteq> None then Booking else Deposit) Paid d = None"
    "bookingInvoice b (if q \<noteq> None then Booking else Deposit) Issued d = Some i \<and> d1 = d \<or>
     bookingInvoice b (if q \<noteq> None then Booking else Deposit) Issued d = None \<and>
     issueInvoice now c b q (quotedRent q) (depositDue (ctx_tenantId c) b q d) d = (i, d1)"
    "committed (pay env port now c body origin label i d1) r d'"
  using assms
  by (cases "find (\<lambda>r. ren_id r = b) (rentals d)"; cases "latestQuotation b d")
     (auto simp: checkout_def Let_def quotedRent_def split: if_splits option.splits prod.splits)

lemma checkout_opens:
  assumes "committed (checkout env port now c b body origin d) r d'"
  shows "\<exists>i d1 label. opens d i d1 \<and> committed (pay env port now c body origin label i d1) r d'"
proof -
  obtain q i d1 label where "bookingInvoice b (if q \<noteq> None then Booking else Deposit) Issued d = Some i \<and> d1 = d \<or>
     bookingInvoice b (if q \<noteq> None then Booking else Deposit) Issued d = None \<and>
     issueInvoice now c b q (quotedRent q) (depositDue (ctx_tenantId c) b q d) d = (i, d1)"
    and c: "committed (pay env port now c body origin label i d1) r d'"
    by (rule checkoutD[OF assms]) blast
  then have "opens d i d1"
  proof (elim disjE conjE)
    assume "bookingInvoice b (if q \<noteq> None then Booking else Deposit) Issued d = Some i" "d1 = d"
    then show ?thesis using bookingInvoiceD(1,4) by (auto simp: opens_def)
  next
    assume n: "issueInvoice now c b q (quotedRent q) (depositDue (ctx_tenantId c) b q d) d = (i, d1)"
    show ?thesis using issueInvoice_tables(1-5)[OF n] by (simp add: opens_def)
  qed
  with c show ?thesis by blast
qed

lemma truckPayableD:
  assumes "truckPayable c t d = Inr (request, agreed)"
  shows "request \<in> set (truckRequests d) \<and> trk_id request = t \<and> trk_requestedBy request = ctx_userId c \<and>
    trk_status request = TAgreed \<and> trk_agreedPricePhp request = Some agreed \<and> trk_callConfirmedAt request \<noteq> None \<and>
    (\<forall>cap. trk_capPhp request = Some cap \<longrightarrow> \<not> num2 cap < num2 agreed)"
proof -
  obtain r where f: "find (\<lambda>r. trk_id r = t \<and> trk_requestedBy r = ctx_userId c) (truckRequests d) = Some r"
    using assms by (cases "find (\<lambda>r. trk_id r = t \<and> trk_requestedBy r = ctx_userId c) (truckRequests d)") (simp_all add: truckPayable_def)
  have "r = request \<and> trk_status r = TAgreed \<and> trk_agreedPricePhp r = Some agreed \<and> trk_callConfirmedAt r \<noteq> None \<and>
     \<not> (case trk_capPhp r of None \<Rightarrow> False | Some cap \<Rightarrow> num2 cap < num2 agreed)"
    using assms f by (cases "trk_agreedPricePhp r") (simp_all add: truckPayable_def split: if_split_asm)
  with find_SomeD[OF f] show ?thesis by auto
qed

lemma truckInvoice_opens:
  assumes "truckInvoice now c request agreed d = (i, d1)"
  shows "opens d i d1" "inv_truckRequestId i = Some (trk_id request)" "d1 = d \<or> inv_amount i = agreed"
  using assms find_SomeD[of "\<lambda>i. inv_truckRequestId i = Some (trk_id request) \<and> inv_status i = Issued" "invoices d" i]
  by (auto simp: truckInvoice_def Let_def opens_def fresh_def split: option.splits)

lemma checkoutTruckD:
  assumes "committed (checkoutTruck env port now c t body origin d) r d'"
  obtains request agreed i d1 where "truckPayable c t d = Inr (request, agreed)" "truckInvoice now c request agreed d = (i, d1)"
    "committed (pay env port now c body origin ''Self-loading truck'' i d1) r d'"
  using assms by (auto simp: checkoutTruck_def split: sum.splits prod.splits)

lemma weeklyPayableD:
  assumes "weeklyPayable c k d = Inr i"
  shows "i \<in> set (invoices d)" "inv_id i = k" "inv_status i = Issued" "inv_invoiceType i = Weekly"
    "\<exists>rental \<in> set (rentals d). inv_rentalId i = Some (ren_id rental) \<and> ownsCustomer c (Some (ren_customerId rental)) d"
proof -
  obtain rental where f: "find (\<lambda>i. inv_id i = k) (invoices d) = Some i" "inv_status i = Issued" "inv_invoiceType i = Weekly"
    "(case inv_rentalId i of None \<Rightarrow> None | Some rid \<Rightarrow> find (\<lambda>r. ren_id r = rid) (rentals d)) = Some rental"
    "ownsCustomer c (Some (ren_customerId rental)) d"
    using assms by (auto simp: weeklyPayable_def split: option.split_asm if_split_asm)
  from f(4) obtain rid where "inv_rentalId i = Some rid" "find (\<lambda>r. ren_id r = rid) (rentals d) = Some rental"
    by (auto split: option.splits)
  with f find_SomeD[OF f(1)] find_SomeD[of _ "rentals d" rental] show "i \<in> set (invoices d)" "inv_id i = k" "inv_status i = Issued"
    "inv_invoiceType i = Weekly"
    "\<exists>rental \<in> set (rentals d). inv_rentalId i = Some (ren_id rental) \<and> ownsCustomer c (Some (ren_customerId rental)) d"
    by auto
qed

lemma checkoutInvoiceD:
  assumes "committed (checkoutInvoice env port now c k body origin d) r d'"
  obtains i where "weeklyPayable c k d = Inr i" "committed (pay env port now c body origin ''Weekly equipment usage'' i d) r d'"
  using assms by (auto simp: checkoutInvoice_def split: sum.splits)

lemma refines_pay:
  assumes "keysOk d" "opens d i d1" "committed (pay env port now c body origin label i d1) r d'" "\<bar>inv_amount i\<bar> \<le> 2 ^ 44"
  shows "refines d d'"
proof -
  have d1: "refines d d1" "i \<in> set (invoices d1)" "inv_status i = Issued"
    using assms(1,2) refines_issue[OF assms(1), of d1 i] refines_same[OF assms(1), of d1] by (auto simp: opens_def)
  obtain m ref where p: "d' = insertPayment now c (inv_id i) m None (col2 (num2 (inv_amount i))) ref PPending d1"
    "\<And>x. ref = Some x \<Longrightarrow> \<forall>p \<in> set (payments d1). pay_providerRef p \<noteq> Some x"
    using payD[OF assms(3)] by blast
  have "refines d1 d'" unfolding p(1)
    by (rule refines_choose) (use d1 p(2) col2_num2[OF assms(4)] in \<open>auto simp: refines_def\<close>)
  with d1(1) show ?thesis by (rule refines_trans)
qed

lemma refines_settle:
  assumes "keysOk d" "i \<in> set (invoices d)" "inv_status i = Issued" "p \<in> set (payments d)"
    "pay_invoiceId p = inv_id i" "pay_status p \<noteq> PRefunded"
    and "invoices d' = updw (\<lambda>i'. inv_id i' = inv_id i) (inv_status_update (\<lambda>_. Paid)) (invoices d)"
    and "payments d' = updw (\<lambda>q. pay_id q = pay_id p) f (payments d)" "nextId d' = nextId d"
    and "\<And>q. viewPayment (f q) = (pay_id q, pay_invoiceId q, pay_amount q, PPaid)" "\<And>q. pay_providerRef (f q) = pay_providerRef q"
  shows "refines d d'"
proof -
  have "(inv_id i, inv_amount i, Issued) \<in> set (fst (payView d))"
    "(pay_id p, inv_id i, pay_amount p, pay_status p) \<in> set (snd (payView d))"
    using assms(2-5) by (auto simp: in_payView)
  then have "protoStep (fst (payView d), snd (payView d))
      (setPaid (inv_id i) (fst (payView d)), setPayment (pay_id p) PPaid (snd (payView d)))"
    by (rule protoStep.settle) (rule assms(6))
  moreover have "payView d' = (setPaid (inv_id i) (fst (payView d)), setPayment (pay_id p) PPaid (snd (payView d)))"
    using view_setPayment[OF assms(10)] by (simp add: payView_def assms(7,8) view_setPaid)
  moreover have "keysOk d'"
    by (rule keysOk_updw[OF assms(1,8,9)])
       (use assms(10,11) in \<open>auto simp: assms(7) viewPayment_def intro!: map_updw\<close>)
  ultimately show ?thesis by (simp add: refines_def)
qed

lemma refines_recordCash:
  assumes "keysOk d" "committed (recordCash now c k d) r d'"
  shows "refines d d'"
proof -
  obtain i where f: "find (\<lambda>i. inv_id i = k) (invoices d) = Some i" "inv_status i = Issued"
    using assms(2) by (cases "find (\<lambda>i. inv_id i = k) (invoices d)") (auto simp: recordCash_def split: if_split_asm)
  note i = find_SomeD[OF f(1)]
  let ?P = "\<lambda>p. pay_invoiceId p = k \<and> pay_method p = ''cash'' \<and> pay_status p = PPending"
  let ?f = "\<lambda>p. p\<lparr>pay_status := PPaid, pay_recordedByUserId := Some (ctx_userId c)\<rparr>"
  show ?thesis
  proof (cases "find ?P (payments d)")
    case (Some p)
    then have d': "d' = settleInvoice (ctx_tenantId c) k (d\<lparr>payments := updw (\<lambda>q. pay_id q = pay_id p) ?f (payments d)\<rparr>)"
      using assms(2) f by (simp add: recordCash_def Let_def)
    show ?thesis
      by (rule refines_settle[OF assms(1), of i p d' ?f])
         (use i f(2) find_SomeD[OF Some] in \<open>simp_all add: d' viewPayment_def\<close>)
  next
    case None
    define d1 where "d1 = insertPayment now c k ''cash'' (Some (ctx_userId c)) (inv_amount i) None PPaid d"
    have d': "d' = settleInvoice (ctx_tenantId c) k d1" using assms(2) f None by (simp add: recordCash_def Let_def d1_def)
    let ?d0 = "insertPayment now c k ''cash'' (Some (ctx_userId c)) (inv_amount i) None PPending d"
    have 0: "refines d ?d0"
      using refines_choose[OF assms(1), of i "inv_amount i" None now c "''cash''" "Some (ctx_userId c)"] i f(2) by simp
    have fresh: "pay_id q \<noteq> nextId d" if "q \<in> set (payments d)" for q using assms(1) that by (auto simp: keysOk_def)
    let ?p = "last (payments ?d0)"
    have last: "?p \<in> set (payments ?d0)" "pay_invoiceId ?p = k" "pay_status ?p = PPending" "pay_id ?p = nextId d"
      by (simp_all add: insertPayment_def fresh_def)
    have pay: "payments d1 = updw (\<lambda>q. pay_id q = nextId d) (pay_status_update (\<lambda>_. PPaid)) (payments ?d0)"
      using fresh by (simp add: d1_def insertPayment_def fresh_def updw_id)
    have "refines ?d0 d'"
    proof (rule refines_settle[of ?d0 i ?p d' "pay_status_update (\<lambda>_. PPaid)"])
      show "keysOk ?d0" using 0 by (simp add: refines_def)
    qed (use i f(2) last pay in \<open>simp_all add: d' viewPayment_def\<close>, simp_all add: d1_def)
    with 0 show ?thesis by (rule refines_trans)
  qed
qed

lemma refines_settleOnline:
  assumes "keysOk d" "settleOnlinePayment t p d = Inr (b, d')" "notRefund (stl_sessionId p) d"
  shows "refines d d'"
proof (cases b)
  case False
  then have "invoices d' = invoices d \<and> payments d' = payments d \<and> nextId d' = nextId d"
    using assms(2) by (auto simp: settleOnlinePayment_def Let_def split: option.split_asm if_split_asm)
  then show ?thesis using refines_same[OF assms(1)] by simp
next
  case True
  obtain i where f: "find (\<lambda>i. inv_id i = stl_invoiceId p) (invoices d) = Some i" "inv_status i = Issued"
    using assms(2) True by (cases "find (\<lambda>i. inv_id i = stl_invoiceId p) (invoices d)") (auto simp: settleOnlinePayment_def split: if_split_asm)
  let ?P = "\<lambda>r. pay_invoiceId r = stl_invoiceId p \<and> pay_providerRef r = Some (stl_sessionId p)"
  let ?f = "\<lambda>r. r\<lparr>pay_status := PPaid, pay_providerPaymentId := Some (stl_paymentId p)\<rparr>"
  obtain q where q: "find ?P (payments d) = Some q"
    using assms(2) True f by (cases "find ?P (payments d)") (auto simp: settleOnlinePayment_def)
  have d': "d' = notifyStaff t ''payment_paid'' [(''invoice_id'', JId (stl_invoiceId p))]
      (settleInvoice t (stl_invoiceId p) (d\<lparr>payments := updw (\<lambda>r. pay_id r = pay_id q) ?f (payments d)\<rparr>))"
    using assms(2) True f q by (simp add: settleOnlinePayment_def Let_def split: if_split_asm)
  show ?thesis
    by (rule refines_settle[OF assms(1), of i q d' ?f])
       (use find_SomeD[OF f(1)] f(2) find_SomeD[OF q] assms(3) in \<open>simp_all add: d' viewPayment_def notRefund_def\<close>)
qed

lemma paidSessionD: "paidSession k ref session = Some p \<Longrightarrow> stl_invoiceId p = k \<and> stl_sessionId p = ref"
  by (auto simp: paidSession_def split: if_split_asm option.split_asm)

lemma confirmPaymentD:
  assumes "committed (confirmPayment port c k d) st d'"
  shows "d' = d \<or> (\<exists>ref p b. pendingSession k d = Some ref \<and> stl_invoiceId p = k \<and> stl_sessionId p = ref \<and>
      settleOnlinePayment (ctx_tenantId c) p d = Inr (b, d'))"
proof -
  obtain i where f: "find (\<lambda>i. inv_id i = k) (invoices d) = Some i"
    using assms by (cases "find (\<lambda>i. inv_id i = k) (invoices d)") (auto simp: confirmPayment_def)
  show ?thesis
  proof (cases "pendingSession k d")
    case None
    then show ?thesis using assms f by (auto simp: confirmPayment_def split: if_split_asm)
  next
    case ref: (Some ref)
    show ?thesis
    proof (cases "getCheckoutSession port ref")
      case (Inl e)
      then show ?thesis using assms f ref by (auto simp: confirmPayment_def split: if_split_asm)
    next
      case session: (Inr session)
      show ?thesis
      proof (cases "paidSession k ref session")
        case None
        then show ?thesis using assms f ref session by (auto simp: confirmPayment_def split: if_split_asm)
      next
        case p: (Some p)
        then show ?thesis using assms f ref session paidSessionD[OF p]
          by (cases "settleOnlinePayment (ctx_tenantId c) p d") (auto simp: confirmPayment_def split: if_split_asm)
      qed
    qed
  qed
qed

lemma refines_confirm:
  assumes "keysOk d" "committed (confirmPayment port c k d) st d'"
  shows "refines d d'"
  using confirmPaymentD[OF assms(2)]
proof (elim disjE exE conjE)
  assume "d' = d"
  then show ?thesis using refines_same[OF assms(1)] by simp
next
  fix ref p b
  assume ref: "pendingSession k d = Some ref" and p: "stl_sessionId p = ref"
    and s: "settleOnlinePayment (ctx_tenantId c) p d = Inr (b, d')"
  obtain q where q: "latestBy pay_createdAt (filter (\<lambda>p. pay_invoiceId p = k \<and> pay_status p = PPending) (payments d)) = Some q"
    "pay_providerRef q = Some ref"
    using ref by (auto simp: pendingSession_def nonEmpty_def split: option.split_asm if_split_asm list.split_asm)
  have pp: "q \<in> set (payments d)" "pay_status q = PPending" using latestBy_SomeD[OF q(1)] by auto
  have "notRefund ref d" unfolding notRefund_def
  proof (intro ballI impI)
    fix q' assume q': "q' \<in> set (payments d)" "pay_providerRef q' = Some ref"
    have "q = q'" using assms(1)[unfolded keysOk_def, THEN conjunct2, THEN conjunct2] pp(1) q' q(2) by fastforce
    then show "pay_status q' \<noteq> PRefunded" using pp(2) by simp
  qed
  then show ?thesis using refines_settleOnline[OF assms(1) s] p by simp
qed

lemma refines_webhook:
  assumes "keysOk d" "committed (webhookBody lk k e d) u d'" "notRefund (whe_resourceId e) d"
  shows "refines d d'"
proof (cases "whe_type e = ''checkout_session.payment.paid''")
  case True
  show ?thesis
  proof (cases "find (\<lambda>p. spm_status p = ''paid'') (whe_payments e)")
    case None
    then have "d' = d" using assms(2) True by (simp add: webhookBody_def)
    then show ?thesis using refines_same[OF assms(1)] by simp
  next
    case (Some paid)
    define p where "p = \<lparr>stl_invoiceId = k, stl_sessionId = whe_resourceId e, stl_paymentId = spm_id paid,
      stl_amountCentavos = spm_amount paid\<rparr>"
    have c: "committed (case settleOnlinePayment (tlk_tenantId lk) p d of Inl err \<Rightarrow> fails err
        | Inr (settled, d1) \<Rightarrow> ((if settled then [''deposit_payment_confirmed''] else []), Inr ((), d1))) u d'"
      using assms(2) unfolding webhookBody_def if_P[OF True] Some option.case p_def[symmetric] .
    have n: "notRefund (stl_sessionId p) d" using assms(3) by (simp add: p_def)
    show ?thesis
    proof (cases "settleOnlinePayment (tlk_tenantId lk) p d")
      case (Inr bd)
      then have "settleOnlinePayment (tlk_tenantId lk) p d = Inr (fst bd, d')" using c by (cases bd) auto
      then show ?thesis using n by (rule refines_settleOnline[OF assms(1)])
    qed (use c in simp)
  qed
next
  case False
  show ?thesis
  proof (cases "whe_type e = ''payment.failed'' \<and>
      latestBy pay_createdAt (filter (\<lambda>p. pay_invoiceId p = k \<and> pay_status p = PPending) (payments d)) \<noteq> None")
    case True
    then obtain p where p: "latestBy pay_createdAt (filter (\<lambda>p. pay_invoiceId p = k \<and> pay_status p = PPending) (payments d)) = Some p"
      unfolding not_None_eq by blast
    have tabs: "invoices d' = invoices d" "nextId d' = nextId d"
      "payments d' = updw (\<lambda>q. pay_id q = pay_id p) (pay_status_update (\<lambda>_. PFailed)) (payments d)"
      using assms(2) False True p
      by (auto simp: webhookBody_def paymentFailed_def Let_def split: option.split_asm)
    have "(pay_id p, pay_invoiceId p, pay_amount p, PPending) \<in> set (snd (payView d))"
      using latestBy_SomeD[OF p] by (auto simp: in_payView)
    then have "protoStep (fst (payView d), snd (payView d)) (fst (payView d), setPayment (pay_id p) PFailed (snd (payView d)))"
      by (rule protoStep.fail)
    moreover have "payView d' = (fst (payView d), setPayment (pay_id p) PFailed (snd (payView d)))"
      by (simp add: payView_def tabs view_setPayment viewPayment_def)
    moreover have "keysOk d'" by (rule keysOk_updw[OF assms(1) tabs(3,2)]) (simp_all add: tabs)
    ultimately show ?thesis by (simp add: refines_def)
  next
    case none: False
    then have "d' = d" using assms(2) False by (auto simp: webhookBody_def paymentFailed_def split: if_split_asm option.split_asm)
    then show ?thesis using refines_same[OF assms(1)] by simp
  qed
qed

lemma refines_refundEvent:
  assumes "keysOk d" "committed (refundBody now lk pid amount ref d) u d'" "i \<in> set (invoices d)" "tlk_invoiceId lk = inv_id i"
  shows "refines d d'"
proof (cases "find (\<lambda>p. pay_providerPaymentId p = Some pid) (payments d)")
  case None
  then have "d' = d" using assms(2) by (simp add: refundBody_def)
  then show ?thesis using refines_same[OF assms(1)] by simp
next
  case (Some orig)
  show ?thesis
  proof (cases "list_ex (\<lambda>p. pay_providerRef p = Some ref) (payments d)")
    case True
    then have "d' = d" using assms(2) Some by (simp add: refundBody_def)
    then show ?thesis using refines_same[OF assms(1)] by simp
  next
    case False
    define d1 where "d1 = insertPayment now (systemCtx (tlk_tenantId lk)) (tlk_invoiceId lk) (pay_method orig) None
        (col2 (amount / js 100)) (Some ref) PRefunded d"
    have d': "invoices d' = invoices d1 \<and> payments d' = payments d1 \<and> nextId d' = nextId d1"
      using assms(2) Some False by (cases "tlk_rentalId lk") (auto simp: refundBody_def Let_def d1_def)
    have "inv_id i < nextId d" "inv_id i \<in> fst ` set (fst (payView d))" using assms(1,3) by (auto simp: keysOk_def view_ids)
    moreover have "protoStep (fst (payView d), snd (payView d))
        (fst (payView d), snd (payView d) @ [(nextId d, inv_id i, col2 (amount / js 100), PRefunded)])"
      by (rule protoStep.refund) (use nextId_fresh(1)[OF assms(1)] calculation in auto)
    moreover have "keysOk d1" unfolding d1_def assms(4)
      by (rule keysOk_insert[OF assms(1)]) (use calculation False in \<open>auto simp: list_ex_iff\<close>)
    ultimately have "refines d d1" by (simp add: refines_def d1_def view_insert assms(4))
    then show ?thesis by (rule refines_id) (use d' in auto)
  qed
qed

section \<open>Every committed operation is protocol steps\<close>

text \<open>
  The committed operations of the service. A webhook's session is not a refund's id, a refund event
  is about an invoice of the tenant, and amounts stay within the range of \<open>amountsOk\<close>.
\<close>

inductive payStep :: "db \<Rightarrow> db \<Rightarrow> bool" where
  checkout: "committed (checkout env port now c b body origin d) r d' \<Longrightarrow> amountsOk d' \<Longrightarrow> payStep d d'"
| checkoutTruck: "committed (checkoutTruck env port now c t body origin d) r d' \<Longrightarrow> amountsOk d' \<Longrightarrow> payStep d d'"
| checkoutInvoice: "committed (checkoutInvoice env port now c k body origin d) r d' \<Longrightarrow> amountsOk d' \<Longrightarrow> payStep d d'"
| recordCash: "committed (recordCash now c k d) r2 d' \<Longrightarrow> payStep d d'"
| confirmPayment: "committed (confirmPayment port c k d) st d' \<Longrightarrow> payStep d d'"
| refund: "committed (refund port str c k amount reason d) pr d' \<Longrightarrow> payStep d d'"
| webhook: "notRefund (whe_resourceId e) d \<Longrightarrow> committed (webhookBody lk k e d) u d' \<Longrightarrow> payStep d d'"
| refundEvent: "i \<in> set (invoices d) \<Longrightarrow> tlk_invoiceId lk = inv_id i \<Longrightarrow>
    committed (refundBody now lk pid amount ref d) u d' \<Longrightarrow> payStep d d'"

inductive_cases payStepE: "payStep d d'"

lemma pay_invoices:
  assumes "opens d i d1" "committed (pay env port now c body origin label i d1) r d'" "amountsOk d'"
  shows "\<bar>inv_amount i\<bar> \<le> 2 ^ 44"
proof -
  obtain m ref where "d' = insertPayment now c (inv_id i) m None (col2 (num2 (inv_amount i))) ref PPending d1"
    using payD[OF assms(2)] by blast
  then have "invoices d' = invoices d1" by simp
  moreover have "i \<in> set (invoices d1)" using assms(1) by (auto simp: opens_def)
  ultimately show ?thesis using assms(3) by (simp add: amountsOk_def)
qed

lemma refund_sameLedger:
  "committed (refund port str c k amount reason d) pr d' \<Longrightarrow> sameLedger d d' \<and> nextId d' = nextId d"
  by (auto simp: refund_def Let_def auditReason_def sameLedger_def split: option.split_asm if_split_asm sum.split_asm)

lemma payStep_refines:
  assumes "keysOk d" "payStep d d'"
  shows "refines d d'"
  using assms(2)
proof cases
  case (checkout env port now c b body origin r)
  then obtain i d1 label where o: "opens d i d1" and p: "committed (pay env port now c body origin label i d1) r d'"
    using checkout_opens by blast
  show ?thesis by (rule refines_pay[OF assms(1) o p pay_invoices[OF o p checkout(2)]])
next
  case (checkoutTruck env port now c t body origin r)
  obtain rq agreed i d1 where "truckInvoice now c rq agreed d = (i, d1)"
    and p: "committed (pay env port now c body origin ''Self-loading truck'' i d1) r d'"
    by (rule checkoutTruckD[OF checkoutTruck(1)])
  then have o: "opens d i d1" by (intro truckInvoice_opens(1))
  show ?thesis by (rule refines_pay[OF assms(1) o p pay_invoices[OF o p checkoutTruck(2)]])
next
  case (checkoutInvoice env port now c k body origin r)
  obtain i where i: "weeklyPayable c k d = Inr i" and p: "committed (pay env port now c body origin ''Weekly equipment usage'' i d) r d'"
    by (rule checkoutInvoiceD[OF checkoutInvoice(1)])
  have o: "opens d i d" using weeklyPayableD(1,3)[OF i] by (simp add: opens_def)
  show ?thesis by (rule refines_pay[OF assms(1) o p pay_invoices[OF o p checkoutInvoice(2)]])
next
  case (recordCash now c k r2)
  then show ?thesis using refines_recordCash[OF assms(1)] by blast
next
  case (confirmPayment port c k st)
  then show ?thesis using refines_confirm[OF assms(1)] by blast
next
  case (refund port str c k amount reason pr)
  then have "sameLedger d d' \<and> nextId d' = nextId d" using refund_sameLedger by blast
  then show ?thesis using refines_same[OF assms(1)] sameLedger_tables by simp
next
  case (webhook e lk k u)
  then show ?thesis using refines_webhook[OF assms(1)] by blast
next
  case (refundEvent i lk now pid amount ref u)
  then show ?thesis using refines_refundEvent[OF assms(1)] by blast
qed

interpretation pay_sim: simulation payView payStep protoStep keysOk protoInv
proof
  show "keysOk d' \<and> protoStep\<^sup>*\<^sup>* (payView d) (payView d')" if "keysOk d" "protoInv (payView d)" "payStep d d'" for d d'
    using payStep_refines[OF that(1,3)] by (simp add: refines_def)
  show "protoInv a'" if "protoInv a" "protoStep a a'" for a a'
    using that by (rule protoInv_step)
qed

section \<open>Properties\<close>

text \<open>
  C13. The payments service implements the payment protocol. From any state with sound keys, whatever
  sequence of operations commits (checkouts of the three kinds, online or in cash, cash receipts,
  return checks, refunds, webhook events), the invoices and payments it leaves are those of a
  sequence of protocol steps, and keys and unique provider references stay sound.
\<close>

theorem payments_refine_protocol:
  assumes "keysOk d" "protoInv (payView d)" "payStep\<^sup>*\<^sup>* d d'"
  shows "protoStep\<^sup>*\<^sup>* (payView d) (payView d') \<and> keysOk d'"
  using pay_sim.refines[OF assms(3,1,2)] by blast

text \<open>
  C12. An invoice is paid only against money. In every state the payments operations reach, each paid
  invoice has a payment marked paid, for that invoice, of exactly the invoice's amount: no path
  through checkout, cash receipt, return check, webhook or refund marks an invoice paid without one,
  and none changes an amount afterwards.
\<close>

theorem paid_invoices_backed:
  assumes "keysOk d" "protoInv (payView d)" "payStep\<^sup>*\<^sup>* d d'"
  shows "\<forall>i \<in> set (invoices d'). inv_status i = Paid \<longrightarrow>
    (\<exists>p \<in> set (payments d'). pay_invoiceId p = inv_id i \<and> pay_status p = PPaid \<and> pay_amount p = inv_amount i)"
proof (intro ballI impI)
  fix i assume "i \<in> set (invoices d')" "inv_status i = Paid"
  then have "(inv_id i, inv_amount i, Paid) \<in> set (fst (payView d'))" by (auto simp: in_payView)
  moreover have "protoInv (payView d')" using pay_sim.refines[OF assms(3,1,2)] by blast
  ultimately obtain j where "(j, inv_id i, inv_amount i, PPaid) \<in> set (snd (payView d'))"
    using protoInvD(4)[of "fst (payView d')" "snd (payView d')"] by auto
  then show "\<exists>p \<in> set (payments d'). pay_invoiceId p = inv_id i \<and> pay_status p = PPaid \<and> pay_amount p = inv_amount i"
    by (auto simp: in_payView)
qed

definition open_invoice :: invoice where
  "open_invoice = \<lparr>inv_id = 40, inv_tenantId = 1, inv_rentalId = Some 5, inv_truckRequestId = None, inv_invoiceType = Weekly,
     inv_amount = 250000, inv_status = Issued, inv_dueDate = 0, inv_createdAt = 0\<rparr>"

definition open_payment :: payment where
  "open_payment = \<lparr>pay_id = 41, pay_tenantId = 1, pay_invoiceId = 40, pay_method = ''checkout'', pay_recordedByUserId = None,
     pay_amount = 250000, pay_providerRef = Some ''cs_1'', pay_providerPaymentId = None, pay_status = PPending, pay_createdAt = 0\<rparr>"

definition invoice_db :: db where
  "invoice_db = empty_db\<lparr>invoices := [open_invoice], payments := [open_payment]\<rparr>"

lemmas invoice_eval = invoice_db_def open_invoice_def open_payment_def empty_db_def

lemma invoice_db_ok: "keysOk invoice_db" "protoInv (payView invoice_db)"
  by (simp_all add: keysOk_def protoInv_def payView_def viewInvoice_def viewPayment_def invoice_eval)

lemma invoice_db_cash: "\<exists>r d'. committed (recordCash 7 demo_ctx 40 invoice_db) r d'"
  by (simp add: recordCash_def Let_def invoice_eval)

theorem payments_refine_protocol_witness:
  "\<exists>r d'. committed (recordCash 7 demo_ctx 40 invoice_db) r d' \<and> protoStep\<^sup>*\<^sup>* (payView invoice_db) (payView d')"
proof -
  obtain r d' where c: "committed (recordCash 7 demo_ctx 40 invoice_db) r d'" using invoice_db_cash by blast
  have "payStep\<^sup>*\<^sup>* invoice_db d'" using payStep.recordCash[OF c] by (rule r_into_rtranclp)
  from payments_refine_protocol[OF invoice_db_ok this] c show ?thesis by blast
qed

theorem paid_invoices_backed_witness:
  "\<exists>r d' p. committed (recordCash 7 demo_ctx 40 invoice_db) r d' \<and> p \<in> set (payments d') \<and>
     pay_status p = PPaid \<and> pay_amount p = 250000"
proof -
  obtain r d' where c: "committed (recordCash 7 demo_ctx 40 invoice_db) r d'" using invoice_db_cash by blast
  have "payStep\<^sup>*\<^sup>* invoice_db d'" using payStep.recordCash[OF c] by (rule r_into_rtranclp)
  note backed = paid_invoices_backed[OF invoice_db_ok this]
  have "invoices d' = [open_invoice\<lparr>inv_status := Paid\<rparr>]"
    using c by (simp add: recordCash_def Let_def invoice_eval)
  then obtain p where "p \<in> set (payments d')" "pay_status p = PPaid" "pay_amount p = 250000"
    using backed by (auto simp: open_invoice_def)
  with c show ?thesis by blast
qed

end
