(* ===== verification/PaymentEvents.thy ===== *)
theory PaymentEvents
  imports PaymentProtocol
begin

text \<open>
  What the single operations of the payments service do with money: a booking's checkout charges the
  accepted quote and the deposit to the centavo and leaves the invoice unpaid, an online payment
  settles only at exactly the invoice's amount, a refund never asks for more than was paid, and a
  webhook event delivered again moves nothing.
\<close>

section \<open>Checkout of a booking\<close>

text \<open>The accepted quote's total in centavos; nothing for a booking without a quote.\<close>

definition quotedCentavos :: "quotation option \<Rightarrow> int" where
  "quotedCentavos q = (case q of None \<Rightarrow> 0 | Some q \<Rightarrow> (case quo_totalPhp q of None \<Rightarrow> 0 | Some a \<Rightarrow> a))"

lemma amt_quotedRent: "\<bar>quotedCentavos q\<bar> \<le> 2 ^ 45 \<Longrightarrow> amt (quotedRent q) (quotedCentavos q)"
  by (auto simp: quotedRent_def quotedCentavos_def amt_js_0 intro: amt_num2 split: option.splits)

lemma col2_plus:
  assumes "amt x a" "amt y b" "\<bar>a\<bar> \<le> 2 ^ 36" "\<bar>b\<bar> \<le> 2 ^ 36"
  shows "col2 (x + y) = a + b"
proof (rule near_col2)
  have "near x a (1 / 4000)" "near y b (1 / 4000)" using assms by (auto intro!: near_amt)
  then show "near (x + y) (a + b) (1 / 4000 + 1 / 4000 + 1 / 100000)"
    by (rule near_plus) (use assms(3,4) in auto)
qed (use assms(3,4) in auto)

lemma requireVerifiedCompany_None:
  "requireVerifiedCompany k d = None \<Longrightarrow> \<exists>x \<in> set (customers d). cus_id x = k \<and> cus_kycStatus x = KycApproved"
  by (auto simp: requireVerifiedCompany_def split: option.split_asm if_split_asm dest: find_SomeD)

text \<open>
  A checkout charges the price the customer agreed to, and settles nothing. When the checkout of
  a booking commits, its company is verified and staff have confirmed the booking by phone; its
  latest quote, if there is one, is accepted; the invoice it charges is issued, either the one issued
  before, at the amount issued, or a new one of exactly the quote's total plus the deposit due; and
  all it writes to the ledger is one pending payment of exactly the invoice's amount.
\<close>

theorem checkout_charges_agreed_price:
  assumes "committed (checkout env port now c b body origin d) r d'"
    and "amt (depositDue (ctx_tenantId c) b (latestQuotation b d) d) dep" "0 \<le> dep" "dep \<le> 2 ^ 36"
    and "0 \<le> quotedCentavos (latestQuotation b d)" "quotedCentavos (latestQuotation b d) \<le> 2 ^ 36" "amountsOk d"
  shows "\<exists>rental i p. rental \<in> set (rentals d) \<and> ren_id rental = b \<and> ren_callConfirmedAt rental \<noteq> None \<and>
    (\<exists>company \<in> set (customers d). cus_id company = ren_customerId rental \<and> cus_kycStatus company = KycApproved) \<and>
    (\<forall>q. latestQuotation b d = Some q \<longrightarrow> quo_status q = QAccepted) \<and>
    inv_rentalId i = Some b \<and> inv_status i = Issued \<and>
    (i \<in> set (invoices d) \<and> invoices d' = invoices d \<or>
     invoices d' = invoices d @ [i] \<and> inv_amount i = quotedCentavos (latestQuotation b d) + dep) \<and>
    payments d' = payments d @ [p] \<and> pay_invoiceId p = inv_id i \<and> pay_status p = PPending \<and> pay_amount p = inv_amount i"
proof -
  let ?q = "latestQuotation b d"
  obtain rental i d1 label where f: "find (\<lambda>r. ren_id r = b) (rentals d) = Some rental"
    and g: "requireVerifiedCompany (ren_customerId rental) d = None" "ren_callConfirmedAt rental \<noteq> None"
      "\<And>x. ?q = Some x \<Longrightarrow> quo_status x = QAccepted"
    and inv: "bookingInvoice b (if ?q \<noteq> None then Booking else Deposit) Issued d = Some i \<and> d1 = d \<or>
      issueInvoice now c b ?q (quotedRent ?q) (depositDue (ctx_tenantId c) b ?q d) d = (i, d1)"
    and p: "committed (pay env port now c body origin label i d1) r d'"
    by (rule checkoutD[OF assms(1)]) blast
  obtain m ref where d': "d' = insertPayment now c (inv_id i) m None (col2 (num2 (inv_amount i))) ref PPending d1"
    using payD[OF p] by blast
  have i: "inv_rentalId i = Some b \<and> inv_status i = Issued \<and> payments d1 = payments d \<and> \<bar>inv_amount i\<bar> \<le> 2 ^ 44 \<and>
    (i \<in> set (invoices d) \<and> invoices d1 = invoices d \<or>
     invoices d1 = invoices d @ [i] \<and> inv_amount i = quotedCentavos ?q + dep)"
    using inv
  proof (elim disjE conjE)
    assume "bookingInvoice b (if ?q \<noteq> None then Booking else Deposit) Issued d = Some i" "d1 = d"
    with bookingInvoiceD[OF this(1)] show ?thesis using assms(7) by (auto simp: amountsOk_def)
  next
    assume n: "issueInvoice now c b ?q (quotedRent ?q) (depositDue (ctx_tenantId c) b ?q d) d = (i, d1)"
    have "inv_amount i = quotedCentavos ?q + dep"
      unfolding issueInvoice_tables(6)[OF n] by (rule col2_plus[OF amt_quotedRent assms(2)]) (use assms(3-6) in auto)
    with issueInvoice_tables(1,2,5,7)[OF n] assms(3-6) show ?thesis by simp
  qed
  define pay where "pay = last (payments d')"
  have "payments d' = payments d1 @ [pay]" "pay_invoiceId pay = inv_id i" "pay_status pay = PPending" "pay_amount pay = inv_amount i"
    "invoices d' = invoices d1"
    using i col2_num2[of "inv_amount i"] by (simp_all add: pay_def d' insertPayment_def fresh_def)
  then show ?thesis
    using i g find_SomeD[OF f] requireVerifiedCompany_None[OF g(1)]
    by (intro exI[of _ rental] exI[of _ i] exI[of _ pay]) auto
qed

definition quoted_db :: db where
  "quoted_db = empty_db\<lparr>
     customers := [\<lparr>cus_id = 6, cus_tenantId = 1, cus_userId = Some 7, cus_companyName = ''Acme'', cus_tin = None, cus_secNumber = None,
       cus_billingAddress = None, cus_kycStatus = KycApproved, cus_reviewComment = None, cus_unlockedFields = [], cus_createdAt = 0\<rparr>],
     rentals := [\<lparr>ren_id = 5, ren_tenantId = 1, ren_customerId = 6, ren_projectSiteId = 12, ren_status = RPending,
       ren_siteContact = None, ren_siteNotes = None, ren_startDate = 0, ren_endDate = None, ren_callRequestedAt = None,
       ren_callConfirmedAt = Some 3, ren_callConfirmedBy = Some 8, ren_createdAt = 0\<rparr>],
     quotations := [\<lparr>quo_id = 20, quo_tenantId = 1, quo_customerId = 6, quo_rentalId = Some 5, quo_revision = 1,
       quo_parentQuotationId = None, quo_status = QAccepted, quo_dieselPriceSnapshot = None, quo_dieselPriceReadingId = None, quo_dieselPriceDate = None,
       quo_dieselPriceSource = None, quo_priceStale = False, quo_pricingParamsId = None, quo_discountType = ''none'',
       quo_discountValue = 0, quo_mobilizationPhp = 0, quo_demobilizationPhp = 0, quo_subtotalPhp = Some 250000,
       quo_totalPhp = Some 250000, quo_printableUrl = None, quo_createdAt = 0\<rparr>],
     rentalContracts := [\<lparr>con_id = 21, con_tenantId = 1, con_quotationId = 20, con_depositRequired = 100000, con_createdAt = 0\<rparr>]\<rparr>"

lemma quoted_db_checkout:
  "\<exists>r d'. committed (checkout env port 9 \<lparr>ctx_tenantId = 1, ctx_userId = 7, ctx_role = ''customer''\<rparr> 5
     \<lparr>chk_method = None, chk_cash = True\<rparr> None quoted_db) r d'"
  by (simp add: checkout_def quoted_db_def empty_db_def ownsCustomer_def ownCustomers_def requireVerifiedCompany_def
      rateLimited_def latestQuotation_def bookingInvoice_def pay_def issueCash_def Let_def CHECKOUT_RATE_LIMIT_def
      split: prod.split)

theorem checkout_charges_agreed_price_witness:
  "\<exists>env port r d' i p. committed (checkout env port 9 \<lparr>ctx_tenantId = 1, ctx_userId = 7, ctx_role = ''customer''\<rparr> 5
       \<lparr>chk_method = None, chk_cash = True\<rparr> None quoted_db) r d' \<and>
     invoices d' = [i] \<and> inv_amount i = 350000 \<and> payments d' = [p] \<and> pay_amount p = 350000"
proof -
  define c where "c = \<lparr>ctx_tenantId = 1, ctx_userId = 7, ctx_role = ''customer''\<rparr>"
  obtain env port r d' where x: "committed (checkout env port 9 c 5 \<lparr>chk_method = None, chk_cash = True\<rparr> None quoted_db) r d'"
    using quoted_db_checkout unfolding c_def by blast
  have q: "quotedCentavos (latestQuotation 5 quoted_db) = 250000"
    by (simp add: quotedCentavos_def latestQuotation_def quoted_db_def)
  have e: "depositDue (ctx_tenantId c) 5 (latestQuotation 5 quoted_db) quoted_db = num2 100000"
    by (simp add: depositDue_def Let_def latestQuotation_def latestContract_def bookingInvoice_def quoted_db_def empty_db_def)
  have dep: "amt (depositDue (ctx_tenantId c) 5 (latestQuotation 5 quoted_db) quoted_db) 100000"
    unfolding e by (rule amt_num2) simp
  have none: "invoices quoted_db = []" "payments quoted_db = []" "amountsOk quoted_db"
    by (simp_all add: quoted_db_def empty_db_def amountsOk_def)
  from checkout_charges_agreed_price[OF x dep] q none obtain i p where
    "invoices d' = [i]" "inv_amount i = 350000" "payments d' = [p]" "pay_amount p = inv_amount i" by auto
  with x show ?thesis unfolding c_def by metis
qed

section \<open>Settling an online payment\<close>

lemma isn_expectedCentavos:
  assumes "\<bar>inv_amount i\<bar> \<le> 2 ^ 44"
  shows "isn (expectedCentavos i) (of_int (inv_amount i))"
proof -
  let ?k = "inv_amount i"
  have k: "\<bar>?k\<bar> \<le> 2 ^ 45" using assms by simp
  have e: "\<bar>dbl.cv ?k - of_int ?k / 100\<bar> \<le> 1 / 16384" by (rule dbl.cv_err[OF k])
  have b: "\<bar>dbl.cv ?k * 100\<bar> \<le> 35184372088900" using cv_bound[OF k] by (simp add: abs_le_iff)
  have r: "\<bar>fl (dbl.cv ?k * 100) - dbl.cv ?k * 100\<bar> \<le> 35184372088900 / 2 ^ 53 + 1 / 2 ^ 200"
    by (rule dbl.rd_bound[OF b])
  have 1: "isn (num2 ?k * js 100) (fl (dbl.cv ?k * 100))"
    using amt_num2[OF k] b by (intro isn_times isn_100) (auto simp: amt_def)
  have "\<bar>fl (dbl.cv ?k * 100) - of_int ?k\<bar> < 1 / 2"
    using dbl.absD[OF e] dbl.absD[OF r] unfolding abs_less_iff by (simp add: field_simps)
  then have "of_int ?k \<le> fl (dbl.cv ?k * 100) + 1 / 2" "fl (dbl.cv ?k * 100) + 1 / 2 < of_int ?k + 1" by linarith+
  then have "\<lfloor>fl (dbl.cv ?k * 100) + 1 / 2\<rfloor> = ?k" unfolding floor_eq_iff by blast
  with isn_math_round[OF 1] show ?thesis by (simp add: expectedCentavos_def)
qed

lemma isn_jsEq: "jsEq x y \<Longrightarrow> isn y v \<Longrightarrow> isFinite x \<and> val x = v"
  by (cases x; cases y) (auto simp: jsEq_def isn_def split: if_splits)

lemma settleD:
  assumes "settleOnlinePayment t p d = Inr (True, d')"
  obtains i r where "find (\<lambda>i. inv_id i = stl_invoiceId p) (invoices d) = Some i" "inv_status i = Issued"
    "r \<in> set (payments d)" "pay_invoiceId r = stl_invoiceId p" "pay_providerRef r = Some (stl_sessionId p)"
    "jsEq (stl_amountCentavos p) (expectedCentavos i)"
    "invoices d' = updw (\<lambda>i. inv_id i = stl_invoiceId p) (inv_status_update (\<lambda>_. Paid)) (invoices d)"
    "payments d' = updw (\<lambda>q. pay_id q = pay_id r)
      (\<lambda>q. q\<lparr>pay_status := PPaid, pay_providerPaymentId := Some (stl_paymentId p)\<rparr>) (payments d)"
    "\<forall>q \<in> set (payments d). pay_providerPaymentId q = Some (stl_paymentId p) \<longrightarrow> pay_id q = pay_id r"
proof -
  obtain i where i: "find (\<lambda>i. inv_id i = stl_invoiceId p) (invoices d) = Some i"
    using assms by (cases "find (\<lambda>i. inv_id i = stl_invoiceId p) (invoices d)") (simp_all add: settleOnlinePayment_def)
  obtain r where r: "find (\<lambda>r. pay_invoiceId r = stl_invoiceId p \<and> pay_providerRef r = Some (stl_sessionId p)) (payments d) = Some r"
    using assms i by (cases "find (\<lambda>r. pay_invoiceId r = stl_invoiceId p \<and> pay_providerRef r = Some (stl_sessionId p)) (payments d)")
      (simp_all add: settleOnlinePayment_def split: if_split_asm)
  show thesis
    by (rule that[OF i, of r]) (use assms i r find_SomeD[OF r] in
      \<open>auto simp: settleOnlinePayment_def Let_def list_ex_iff split: if_split_asm\<close>)
qed

text \<open>
  C15. Only exactly the invoice's amount settles it. When an online payment settles, whoever reports
  it, the invoice was issued and unpaid, one of its payments holds the session that was paid, the
  amount PayMongo took is the invoice's amount to the centavo, and afterwards that invoice and that
  payment are marked paid, under PayMongo's payment id, which no other payment has.
\<close>

theorem settles_only_exact_amount:
  assumes "settleOnlinePayment t p d = Inr (True, d')" "amountsOk d"
  shows "\<exists>i \<in> set (invoices d). \<exists>r \<in> set (payments d). inv_id i = stl_invoiceId p \<and> inv_status i = Issued \<and>
    pay_invoiceId r = inv_id i \<and> pay_providerRef r = Some (stl_sessionId p) \<and>
    isFinite (stl_amountCentavos p) \<and> val (stl_amountCentavos p) = of_int (inv_amount i) \<and>
    i\<lparr>inv_status := Paid\<rparr> \<in> set (invoices d') \<and>
    r\<lparr>pay_status := PPaid, pay_providerPaymentId := Some (stl_paymentId p)\<rparr> \<in> set (payments d') \<and>
    (\<forall>q \<in> set (payments d'). pay_providerPaymentId q = Some (stl_paymentId p) \<longrightarrow> pay_id q = pay_id r)"
proof -
  obtain i r where f: "find (\<lambda>i. inv_id i = stl_invoiceId p) (invoices d) = Some i" "inv_status i = Issued"
    "r \<in> set (payments d)" "pay_invoiceId r = stl_invoiceId p" "pay_providerRef r = Some (stl_sessionId p)"
    "jsEq (stl_amountCentavos p) (expectedCentavos i)"
    "invoices d' = updw (\<lambda>i. inv_id i = stl_invoiceId p) (inv_status_update (\<lambda>_. Paid)) (invoices d)"
    "payments d' = updw (\<lambda>q. pay_id q = pay_id r)
      (\<lambda>q. q\<lparr>pay_status := PPaid, pay_providerPaymentId := Some (stl_paymentId p)\<rparr>) (payments d)"
    "\<forall>q \<in> set (payments d). pay_providerPaymentId q = Some (stl_paymentId p) \<longrightarrow> pay_id q = pay_id r"
    by (rule settleD[OF assms(1)])
  have i: "i \<in> set (invoices d)" "inv_id i = stl_invoiceId p" using find_SomeD[OF f(1)] by auto
  have "isFinite (stl_amountCentavos p) \<and> val (stl_amountCentavos p) = of_int (inv_amount i)"
    using isn_jsEq[OF f(6) isn_expectedCentavos] assms(2) i(1) by (simp add: amountsOk_def)
  moreover have "i\<lparr>inv_status := Paid\<rparr> \<in> set (invoices d')"
    unfolding f(7) in_updw using i by (intro bexI[of _ i]) simp_all
  moreover have "r\<lparr>pay_status := PPaid, pay_providerPaymentId := Some (stl_paymentId p)\<rparr> \<in> set (payments d')"
    unfolding f(8) in_updw using f(3) by (intro bexI[of _ r]) simp_all
  moreover have "\<forall>q \<in> set (payments d'). pay_providerPaymentId q = Some (stl_paymentId p) \<longrightarrow> pay_id q = pay_id r"
    using f(9) unfolding f(8) by (auto simp: in_updw split: if_split_asm)
  ultimately show ?thesis using i f(2-5) by (intro bexI[OF _ i(1)] bexI[OF _ f(3)]) simp
qed

definition full_payment :: settlement where
  "full_payment = \<lparr>stl_invoiceId = 40, stl_sessionId = ''cs_1'', stl_paymentId = ''pay_1'', stl_amountCentavos = js 250000\<rparr>"

lemma full_payment_exact: "jsEq (js 250000) (expectedCentavos open_invoice)"
  using isn_expectedCentavos[of open_invoice] isn_int[of 250000] isn_less_eq[of "js 250000" 250000 "expectedCentavos open_invoice" 250000]
    isn_less_eq[of "expectedCentavos open_invoice" 250000 "js 250000" 250000]
  by (simp add: jsEq_def open_invoice_def)

lemma full_payment_settles:
  "\<exists>d'. settleOnlinePayment 1 full_payment invoice_db = Inr (True, d') \<and> rls 1 d' = d' \<and> map inv_status (invoices d') = [Paid]"
  using full_payment_exact by (simp add: settleOnlinePayment_def settleInvoice_def notifyStaff_def notifyBookingCustomer_def
      rls_def Let_def full_payment_def invoice_db_def empty_db_def open_payment_def open_invoice_def)

theorem settles_only_exact_amount_witness:
  "\<exists>d' i. settleOnlinePayment 1 full_payment invoice_db = Inr (True, d') \<and> i \<in> set (invoices d') \<and> inv_status i = Paid \<and>
     val (stl_amountCentavos full_payment) = of_int (inv_amount i)"
proof -
  obtain d' where d': "settleOnlinePayment 1 full_payment invoice_db = Inr (True, d')" using full_payment_settles by blast
  have "amountsOk invoice_db" by (simp add: amountsOk_def invoice_eval)
  from settles_only_exact_amount[OF d' this] obtain i where
    "val (stl_amountCentavos full_payment) = of_int (inv_amount i)" "i\<lparr>inv_status := Paid\<rparr> \<in> set (invoices d')" by blast
  with d' show ?thesis by (intro exI[of _ d'] exI[of _ "i\<lparr>inv_status := Paid\<rparr>"]) simp
qed

section \<open>Replaying a webhook event\<close>

text \<open>Invoices are looked up by what the lookup returns of them, which no operation here changes.\<close>

definition lookups :: "db \<Rightarrow> tenant_lookup set" where
  "lookups d = lookupOf ` set (invoices d)"

definition uniqueInvoices :: "db \<Rightarrow> bool" where
  "uniqueInvoices d \<longleftrightarrow> (\<forall>x \<in> lookups d. \<forall>y \<in> lookups d. tlk_invoiceId x = tlk_invoiceId y \<longrightarrow> x = y)"

text \<open>The invoices the payments with a given provider id are of.\<close>

definition paidFor :: "string \<Rightarrow> db \<Rightarrow> uuid set" where
  "paidFor pid d = {pay_invoiceId p |p. p \<in> set (payments d) \<and> pay_providerPaymentId p = Some pid}"

definition uniqueProviderIds :: "db \<Rightarrow> bool" where
  "uniqueProviderIds d \<longleftrightarrow> (\<forall>pid. \<forall>x \<in> paidFor pid d. \<forall>y \<in> paidFor pid d. x = y)"

lemma lookupOf_id [simp]: "tlk_invoiceId (lookupOf i) = inv_id i"
  by (simp add: lookupOf_def)

lemma find_invoice_iff:
  assumes "uniqueInvoices d"
  shows "findTenantByInvoiceIdForWebhook k d = Some lk \<longleftrightarrow> lk \<in> lookups d \<and> tlk_invoiceId lk = k"
proof (cases "find (\<lambda>i. inv_id i = k) (invoices d)")
  case None
  then have "\<forall>i \<in> set (invoices d). inv_id i \<noteq> k" by (simp add: find_None_iff)
  then show ?thesis unfolding findTenantByInvoiceIdForWebhook_def None by (auto simp: lookups_def)
next
  case (Some i)
  then have "lookupOf i \<in> lookups d" "tlk_invoiceId (lookupOf i) = k"
    using find_SomeD[OF Some] by (auto simp: lookups_def)
  moreover have "findTenantByInvoiceIdForWebhook k d = Some (lookupOf i)" using Some by (simp add: findTenantByInvoiceIdForWebhook_def)
  ultimately show ?thesis using assms unfolding uniqueInvoices_def by (metis option.inject)
qed

lemma find_payment_iff:
  assumes "uniqueInvoices d" "uniqueProviderIds d"
  shows "findTenantByProviderPaymentIdForWebhook pid d = Some lk \<longleftrightarrow> lk \<in> lookups d \<and> tlk_invoiceId lk \<in> paidFor pid d"
proof -
  let ?l = "List.bind (filter (\<lambda>p. pay_providerPaymentId p = Some pid) (payments d))
             (\<lambda>p. filter (\<lambda>i. inv_id i = pay_invoiceId p) (invoices d))"
  have s: "i \<in> set ?l \<longleftrightarrow> i \<in> set (invoices d) \<and> inv_id i \<in> paidFor pid d" for i
    by (auto simp: List.bind_def paidFor_def)
  have l: "lk \<in> lookupOf ` set ?l \<longleftrightarrow> lk \<in> lookups d \<and> tlk_invoiceId lk \<in> paidFor pid d" for lk
    unfolding lookups_def image_iff Bex_def s by auto
  have u: "x = y" if "x \<in> lookupOf ` set ?l" "y \<in> lookupOf ` set ?l" for x y
    using that assms unfolding l uniqueInvoices_def uniqueProviderIds_def by metis
  show ?thesis
  proof (cases ?l)
    case Nil
    then show ?thesis using l[of lk] by (simp add: findTenantByProviderPaymentIdForWebhook_def)
  next
    case (Cons i rest)
    then have i: "lookupOf i \<in> lookupOf ` set ?l" by simp
    have "findTenantByProviderPaymentIdForWebhook pid d = Some (lookupOf i)"
      using Cons by (simp add: findTenantByProviderPaymentIdForWebhook_def)
    then show ?thesis using u[OF i] i unfolding l[of lk, symmetric] by (metis option.inject)
  qed
qed

lemma settle_unsettled:
  "settleOnlinePayment t p d = Inr (False, d') \<Longrightarrow> sameLedger d d'"
  by (auto simp: settleOnlinePayment_def Let_def split: option.split_asm if_split_asm)

lemma settle_cong:
  assumes "invoices d' = invoices d" "payments d' = payments d"
    and "settleOnlinePayment t p d = Inr (b, x)" "settleOnlinePayment t p d' = Inr (b', x')"
  shows "b' = b"
  using assms(3,4) unfolding settleOnlinePayment_def assms(1,2) Let_def
  by (auto split: option.split_asm if_split_asm)

lemma settle_again:
  assumes "settleOnlinePayment t p d = Inr (b, d1)" "settleOnlinePayment t p d1 = Inr (b', d2)"
  shows "sameLedger d1 d2"
proof (cases b')
  case True
  show ?thesis
  proof (cases b)
    case False
    then have "sameLedger d d1" using settle_unsettled assms(1) by simp
    then have "b' = b" using settle_cong[OF _ _ assms] by (simp add: sameLedger_def)
    then show ?thesis using True False by simp
  next
    case True
    obtain i where f: "find (\<lambda>i. inv_id i = stl_invoiceId p) (invoices d1) = Some i" "inv_status i = Issued"
      by (rule settleD[OF assms(2)[unfolded \<open>b'\<close>[THEN eqTrueI]]])
    have "invoices d1 = updw (\<lambda>i. inv_id i = stl_invoiceId p) (inv_status_update (\<lambda>_. Paid)) (invoices d)"
      by (rule settleD[OF assms(1)[unfolded True[THEN eqTrueI]]])
    then have "i \<in> set (updw (\<lambda>i. inv_id i = stl_invoiceId p) (inv_status_update (\<lambda>_. Paid)) (invoices d))" "inv_id i = stl_invoiceId p"
      using find_SomeD[OF f(1)] by simp_all
    then have "\<exists>i0 \<in> set (invoices d). inv_id i0 = stl_invoiceId p \<and> i = inv_status_update (\<lambda>_. Paid) i0" by (rule updw_hit) simp
    then obtain i0 where "i = inv_status_update (\<lambda>_. Paid) i0" by blast
    then show ?thesis using f(2) by simp
  qed
qed (use settle_unsettled assms(2) in simp)

lemma settle_lookups:
  assumes "settleOnlinePayment t p d = Inr (b, d')"
  shows "lookups d' = lookups d"
proof (cases b)
  case True
  have f: "invoices d' = updw (\<lambda>i. inv_id i = stl_invoiceId p) (inv_status_update (\<lambda>_. Paid)) (invoices d)"
    by (rule settleD[OF assms[unfolded True[THEN eqTrueI]]])
  have "map lookupOf (invoices d') = map lookupOf (invoices d)" unfolding f by (rule map_updw) (simp add: lookupOf_def)
  then show ?thesis unfolding lookups_def by (metis set_map)
qed (use assms settle_unsettled[of t p d d'] in \<open>simp add: lookups_def sameLedger_def\<close>)

lemma webhookBodyD:
  assumes "committed (webhookBody lk k e d) u d1" "whe_type e \<noteq> ''payment.failed''"
  obtains (same) "d1 = d" | (settle) p b where "settleOnlinePayment (tlk_tenantId lk) p d = Inr (b, d1)"
    "\<And>d d1. committed (webhookBody lk k e d) u d1 \<Longrightarrow> \<exists>b. settleOnlinePayment (tlk_tenantId lk) p d = Inr (b, d1)"
proof (cases "whe_type e = ''checkout_session.payment.paid''")
  case True
  show ?thesis
  proof (cases "find (\<lambda>p. spm_status p = ''paid'') (whe_payments e)")
    case None
    then show ?thesis using assms(1) True by (intro same) (simp add: webhookBody_def)
  next
    case (Some paid)
    define p where "p = \<lparr>stl_invoiceId = k, stl_sessionId = whe_resourceId e, stl_paymentId = spm_id paid,
                      stl_amountCentavos = spm_amount paid\<rparr>"
    have all: "\<exists>b. settleOnlinePayment (tlk_tenantId lk) p d = Inr (b, d1)" if "committed (webhookBody lk k e d) u d1" for d d1
    proof -
      have e: "webhookBody lk k e d = (case settleOnlinePayment (tlk_tenantId lk) p d of Inl err \<Rightarrow> fails err
          | Inr (settled, d1) \<Rightarrow> ((if settled then [''deposit_payment_confirmed''] else []), Inr ((), d1)))"
        unfolding webhookBody_def if_P[OF True] Some option.case p_def by (rule refl)
      show ?thesis
      proof (cases "settleOnlinePayment (tlk_tenantId lk) p d")
        case (Inr x)
        then show ?thesis using that unfolding e by (cases x) simp
      qed (use that e in simp)
    qed
    then show ?thesis using settle assms(1) by blast
  qed
next
  case False
  then show ?thesis using assms by (intro same) (simp add: webhookBody_def)
qed

lemma webhook_again:
  assumes "committed (webhookBody lk k e d) u d1" "committed (webhookBody lk k e d1) u d2" "whe_type e \<noteq> ''payment.failed''"
  shows "sameLedger d1 d2" "lookups d1 = lookups d"
proof -
  show "lookups d1 = lookups d" using assms(1,3) by (cases rule: webhookBodyD) (auto dest: settle_lookups)
  show "sameLedger d1 d2"
    using assms(1,3)
  proof (cases rule: webhookBodyD)
    case same
    show ?thesis
      using assms(2,3)
    proof (cases rule: webhookBodyD)
      case (settle p b)
      obtain b0 where "settleOnlinePayment (tlk_tenantId lk) p d = Inr (b0, d1)" using settle(2)[OF assms(1)] by blast
      then show ?thesis using settle_again settle(1) by blast
    qed simp
  next
    case (settle p b)
    obtain b2 where "settleOnlinePayment (tlk_tenantId lk) p d1 = Inr (b2, d2)" using settle(2)[OF assms(2)] by blast
    then show ?thesis using settle_again settle(1) by blast
  qed
qed

lemma refundBody_again:
  assumes "committed (refundBody now lk pid amount ref d) u d1"
  shows "lookups d1 = lookups d" "paidFor x d1 = paidFor x d"
    and "committed (refundBody now' lk pid amount ref d1) u' d2 \<Longrightarrow> d2 = d1"
proof -
  consider "find (\<lambda>p. pay_providerPaymentId p = Some pid) (payments d) = None" "d1 = d"
    | "list_ex (\<lambda>p. pay_providerRef p = Some ref) (payments d)" "d1 = d"
    | m a where "invoices d1 = invoices d" "payments d1 = payments (insertPayment now (systemCtx (tlk_tenantId lk)) (tlk_invoiceId lk) m None a (Some ref) PRefunded d)"
    using assms by (cases "find (\<lambda>p. pay_providerPaymentId p = Some pid) (payments d)";
      cases "list_ex (\<lambda>p. pay_providerRef p = Some ref) (payments d)"; cases "tlk_rentalId lk")
      (simp_all add: refundBody_def Let_def)
  then have "lookups d1 = lookups d \<and> paidFor x d1 = paidFor x d \<and>
     (committed (refundBody now' lk pid amount ref d1) u' d2 \<longrightarrow> d2 = d1)"
  proof cases
    case 3
    then have "list_ex (\<lambda>p. pay_providerRef p = Some ref) (payments d1)" by (simp add: insertPayment_def)
    then have "committed (refundBody now' lk pid amount ref d1) u' d2 \<longrightarrow> d2 = d1"
      by (cases "find (\<lambda>p. pay_providerPaymentId p = Some pid) (payments d1)") (simp_all add: refundBody_def)
    then show ?thesis using 3 by (auto simp: lookups_def paidFor_def insertPayment_def)
  qed (auto simp: refundBody_def split: option.splits)
  then show "lookups d1 = lookups d" "paidFor x d1 = paidFor x d"
    "committed (refundBody now' lk pid amount ref d1) u' d2 \<Longrightarrow> d2 = d1" by blast+
qed

lemma rows_merge:
  assumes "rls t v = v"
  shows "set (invoices (merge (hidden t d) v)) = {i \<in> set (invoices d). inv_tenantId i \<noteq> t} \<union> set (invoices v)"
    "set (payments (merge (hidden t d) v)) = {p \<in> set (payments d). pay_tenantId p \<noteq> t} \<union> set (payments v)"
    "set (invoices (rls t d)) = {i \<in> set (invoices d). inv_tenantId i = t}"
    "set (payments (rls t d)) = {p \<in> set (payments d). pay_tenantId p = t}"
  by (auto simp: merge_def hidden_def rls_def)

lemma lookups_commit:
  assumes "rls t v = v" "lookups v = lookups (rls t d)"
  shows "lookups (merge (hidden t d) v) = lookups d"
proof -
  have "lookups (merge (hidden t d) v) = lookupOf ` {i \<in> set (invoices d). inv_tenantId i \<noteq> t} \<union> lookups v"
    unfolding lookups_def rows_merge(1)[OF assms(1)] by (rule image_Un)
  also have "\<dots> = lookupOf ` ({i \<in> set (invoices d). inv_tenantId i \<noteq> t} \<union> {i \<in> set (invoices d). inv_tenantId i = t})"
    unfolding assms(2) unfolding lookups_def rows_merge(3)[OF assms(1)] by (rule image_Un[symmetric])
  also have "\<dots> = lookups d" unfolding lookups_def by (rule arg_cong[where f = "image lookupOf"]) auto
  finally show ?thesis .
qed

lemma paidFor_commit:
  assumes "rls t v = v" "paidFor x v = paidFor x (rls t d)"
  shows "paidFor x (merge (hidden t d) v) = paidFor x d"
proof -
  have "paidFor x (merge (hidden t d) v) = pay_invoiceId ` {p \<in> set (payments d). pay_tenantId p \<noteq> t \<and> pay_providerPaymentId p = Some x} \<union> paidFor x v"
    unfolding paidFor_def rows_merge(2)[OF assms(1)] by blast
  also have "\<dots> = paidFor x d" unfolding assms(2) unfolding paidFor_def rows_merge(4)[OF assms(1)] by blast
  finally show ?thesis .
qed

text \<open>One transaction for the invoice a lookup found, and the same again: the second moves nothing.\<close>

lemma tx_again:
  fixes u :: unit
  assumes "withTenantTx (systemCtx t) body w = (Inr u, w1)"
    and "\<And>v v'. committed (body (rls t (data w))) u v \<Longrightarrow> committed (body' v) u v' \<Longrightarrow> sameLedger v v'"
    and "\<And>v. committed (body (rls t (data w))) u v \<Longrightarrow> lookups v = lookups (rls t (data w))"
  shows "sameLedger (data w1) (data (snd (withTenantTx (systemCtx t) body' w1)))" "lookups (data w1) = lookups (data w)"
proof -
  have t: "ctx_tenantId (systemCtx t) = t" by (simp add: systemCtx_def)
  show "sameLedger (data w1) (data (snd (withTenantTx (systemCtx t) body' w1)))"
    by (rule withTenantTx_replay[OF assms(1) _ surjective_pairing]) (use assms(2) in \<open>simp add: t\<close>)
  obtain v where v: "committed (body (rls t (data w))) u v" "rls t v = v" "data w1 = merge (hidden t (data w)) v"
    by (rule withTenantTx_commitD[OF assms(1)]) (simp add: t)
  show "lookups (data w1) = lookups (data w)" unfolding v(3) by (rule lookups_commit[OF v(2) assms(3)[OF v(1)]])
qed

lemma uniqueInvoices_cong: "lookups d' = lookups d \<Longrightarrow> uniqueInvoices d' = uniqueInvoices d"
  by (simp add: uniqueInvoices_def)

lemma refundEvent_again:
  assumes "handleRefundEvent now e w = (Inr r, w1)" "uniqueInvoices (data w)" "uniqueProviderIds (data w)"
  shows "sameLedger (data w1) (data (snd (handleRefundEvent now' e w1)))"
proof (cases "whe_status e = ''succeeded'' \<and> whe_paymentId e \<noteq> None \<and> whe_amount e \<noteq> None")
  case False
  then have "snd (handleRefundEvent now' e w1) = w1"
    by (auto simp: handleRefundEvent_def split: option.split bool.split)
  then show ?thesis by simp
next
  case True
  then obtain pid amount where e: "whe_status e = ''succeeded''" "whe_paymentId e = Some pid" "whe_amount e = Some amount" by auto
  let ?body = "\<lambda>lk now. refundBody now lk pid amount (whe_resourceId e)"
  have h: "handleRefundEvent now e w = (case findTenantByProviderPaymentIdForWebhook pid (data w) of
      None \<Rightarrow> (Inr Unresolved, w)
    | Some lk \<Rightarrow> (case withTenantTx (systemCtx (tlk_tenantId lk)) (?body lk now) w of
        (Inl err, w1) \<Rightarrow> (Inl err, w1) | (Inr _, w1) \<Rightarrow> (Inr Received, w1)))" for now w
    by (simp add: handleRefundEvent_def e)
  show ?thesis
  proof (cases "findTenantByProviderPaymentIdForWebhook pid (data w)")
    case None
    then have "w1 = w" using assms(1) by (simp add: h)
    then have "snd (handleRefundEvent now' e w1) = w1" using None by (simp add: h)
    then show ?thesis by simp
  next
    case (Some lk)
    let ?t = "tlk_tenantId lk"
    have tx: "withTenantTx (systemCtx ?t) (?body lk now) w = (Inr (), w1)"
      using assms(1) unfolding h Some by (auto split: prod.splits sum.splits)
    have "lookups (data w1) = lookups (data w)"
      by (rule tx_again(2)[OF tx, of "\<lambda>v. fails undefined"]) (auto dest: refundBody_again(1))
    moreover have "paidFor x (data w1) = paidFor x (data w)" for x
    proof -
      have t: "ctx_tenantId (systemCtx ?t) = ?t" by (simp add: systemCtx_def)
      obtain v where v: "committed (?body lk now (rls ?t (data w))) () v" "rls ?t v = v" "data w1 = merge (hidden ?t (data w)) v"
        by (rule withTenantTx_commitD[OF tx]) (simp add: t)
      show ?thesis unfolding v(3) by (rule paidFor_commit[OF v(2) refundBody_again(2)[OF v(1)]])
    qed
    ultimately have same: "lookups (data w1) = lookups (data w)" "\<And>x. paidFor x (data w1) = paidFor x (data w)" by blast+
    have "uniqueInvoices (data w1)" "uniqueProviderIds (data w1)"
      using assms(2,3) unfolding uniqueInvoices_def uniqueProviderIds_def same by blast+
    then have "findTenantByProviderPaymentIdForWebhook pid (data w1) = Some lk"
      using Some unfolding find_payment_iff[OF assms(2,3)] by (simp only: find_payment_iff same)
    then have "snd (handleRefundEvent now' e w1) = snd (withTenantTx (systemCtx ?t) (?body lk now') w1)"
      unfolding h by (auto split: prod.splits sum.splits)
    moreover have "sameLedger (data w1) (data (snd (withTenantTx (systemCtx ?t) (?body lk now') w1)))"
    proof (rule tx_again(1)[OF tx])
      show "sameLedger v v'" if "committed (?body lk now (rls ?t (data w))) () v" "committed (?body lk now' v) () v'" for v v'
        using refundBody_again(3)[OF that] by simp
    qed (rule refundBody_again(1))
    ultimately show ?thesis by simp
  qed
qed

lemma hookEvent_again:
  assumes "findTenantByInvoiceIdForWebhook k (data w) = Some lk" "whe_type e \<noteq> ''payment.failed''" "uniqueInvoices (data w)"
    "withTenantTx (systemCtx (tlk_tenantId lk)) (webhookBody lk k e) w = (Inr (), w1)"
  shows "findTenantByInvoiceIdForWebhook k (data w1) = Some lk"
    "sameLedger (data w1) (data (snd (withTenantTx (systemCtx (tlk_tenantId lk)) (webhookBody lk k e) w1)))"
proof -
  have l: "lookups d1 = lookups d" if "committed (webhookBody lk k e d) u d1" for d u d1
    using that assms(2) by (cases rule: webhookBodyD) (auto dest: settle_lookups)
  have same: "lookups (data w1) = lookups (data w)"
    by (rule tx_again(2)[OF assms(4), of "\<lambda>v. fails undefined"]) (auto dest: l)
  show "findTenantByInvoiceIdForWebhook k (data w1) = Some lk"
    using assms(1) unfolding find_invoice_iff[OF assms(3)] by (simp only: find_invoice_iff uniqueInvoices_cong[OF same] assms(3) same)
  show "sameLedger (data w1) (data (snd (withTenantTx (systemCtx (tlk_tenantId lk)) (webhookBody lk k e) w1)))"
    by (rule tx_again(1)[OF assms(4) webhook_again(1)[OF _ _ assms(2)] l])
qed

text \<open>A webhook request that passes the signature check, and what becomes of its event.\<close>

definition handleEvent :: "time \<Rightarrow> webhook_event \<Rightarrow> world \<Rightarrow> (http_error + webhook_result) \<times> world" where
  "handleEvent now e w =
     (if whe_type e = ''payment.refund.updated'' then handleRefundEvent now e w
      else (case whe_invoiceId e of
        None \<Rightarrow> (Inr Unresolved, w)
      | Some invoiceId \<Rightarrow>
          (case findTenantByInvoiceIdForWebhook invoiceId (data w) of
             None \<Rightarrow> (Inr Unresolved, w)
           | Some lk \<Rightarrow>
               (case withTenantTx (systemCtx (tlk_tenantId lk)) (webhookBody lk invoiceId e) w of
                  (Inl err, w1) \<Rightarrow> (Inl err, w1)
                | (Inr _, w1) \<Rightarrow> (Inr Received, w1)))))"

lemma handleWebhook_event:
  assumes "nonEmpty secret = Some s" "nonEmpty header = Some h"
    "verifyPaymongoSignature (hk_hmac env) (hk_toNumber env) now (hk_live env) raw h s" "hk_parse env raw = Some e"
  shows "handleWebhook env now raw header secret w = handleEvent now e w"
  using assms by (simp add: handleWebhook_def handleEvent_def)

lemma handleWebhook_cases:
  obtains (refused) err where "\<And>w. handleWebhook env now raw header secret w = (Inl err, w)"
    | (event) e where "hk_parse env raw = Some e" "\<And>w. handleWebhook env now raw header secret w = handleEvent now e w"
proof (cases "nonEmpty secret"; cases "nonEmpty header")
  fix s h assume sh: "nonEmpty secret = Some s" "nonEmpty header = Some h"
  show thesis
  proof (cases "verifyPaymongoSignature (hk_hmac env) (hk_toNumber env) now (hk_live env) raw h s")
    case True
    show thesis
    proof (cases "hk_parse env raw")
      case (Some e)
      show thesis by (rule event[OF Some]) (rule handleWebhook_event[OF sh True Some])
    qed (use True sh in \<open>intro refused; simp add: handleWebhook_def\<close>)
  qed (use sh in \<open>intro refused; simp add: handleWebhook_def\<close>)
qed (use refused in \<open>simp_all add: handleWebhook_def\<close>)

lemma handleEvent_again:
  assumes "handleEvent now e w = (Inr r, w1)" "whe_type e \<noteq> ''payment.failed''"
    and "uniqueInvoices (data w)" "uniqueProviderIds (data w)"
  shows "sameLedger (data w1) (data (snd (handleEvent now' e w1)))"
proof (cases "whe_type e = ''payment.refund.updated''")
  case True
  then show ?thesis using refundEvent_again[OF _ assms(3,4)] assms(1) by (simp add: handleEvent_def)
next
  case False
  show ?thesis
  proof (cases "whe_invoiceId e")
    case None
    then show ?thesis using False assms(1) by (simp add: handleEvent_def)
  next
    case k: (Some k)
    show ?thesis
    proof (cases "findTenantByInvoiceIdForWebhook k (data w)")
      case None
      then have "w1 = w" using assms(1) False k by (simp add: handleEvent_def)
      then show ?thesis using None False k by (simp add: handleEvent_def)
    next
      case (Some lk)
      let ?tx = "withTenantTx (systemCtx (tlk_tenantId lk)) (webhookBody lk k e)"
      have h: "handleEvent now e w = (case ?tx w of (Inl err, w1) \<Rightarrow> (Inl err, w1) | (Inr _, w1) \<Rightarrow> (Inr Received, w1))"
        if "findTenantByInvoiceIdForWebhook k (data w) = Some lk" for now w
        unfolding handleEvent_def if_not_P[OF False] k option.case that by (rule refl)
      have tx: "?tx w = (Inr (), w1)"
        using assms(1) unfolding h[OF Some] by (auto split: prod.splits sum.splits)
      have "snd (handleEvent now' e w1) = snd (?tx w1)"
        unfolding h[OF hookEvent_again(1)[OF Some assms(2,3) tx]] by (cases "?tx w1") (simp split: sum.split)
      then show ?thesis using hookEvent_again(2)[OF Some assms(2,3) tx] by simp
    qed
  qed
qed

text \<open>
  C14. PayMongo may deliver an event twice. A webhook request that was accepted and is delivered again
  to the state it left, at any time and under any header, changes no ledger row the second time: no invoice, payment,
  booking or truck request moves, whether the event was a paid checkout, a refund or one the service
  ignores. Only \<open>payment.failed\<close> is excluded: delivered again, it fails the customer's next attempt.
\<close>

theorem webhook_replay_moves_nothing:
  assumes "handleWebhook env now raw header secret w = (Inr r, w1)"
    and "map_option whe_type (hk_parse env raw) \<noteq> Some ''payment.failed''"
    and "uniqueInvoices (data w)" "uniqueProviderIds (data w)"
  shows "sameLedger (data w1) (data (snd (handleWebhook env now' raw header' secret' w1)))"
proof (cases env now' raw header' secret' rule: handleWebhook_cases)
  case (refused err)
  then show ?thesis by simp
next
  case again: (event e)
  have "handleEvent now e w = (Inr r, w1)"
    by (cases env now raw header secret rule: handleWebhook_cases) (use assms(1) again(1) in auto)
  then show ?thesis using handleEvent_again[OF _ _ assms(3,4)] assms(2) again by simp
qed

definition hook_demo :: hook_env where
  "hook_demo = \<lparr>hk_hmac = \<lambda>k m. [171, of_nat (length m)], hk_toNumber = \<lambda>_. js 1000,
     hk_parse = \<lambda>_. Some \<lparr>whe_type = ''checkout_session.payment.paid'', whe_resourceId = ''cs_1'', whe_invoiceId = Some 40,
       whe_payments = [\<lparr>spm_id = ''pay_1'', spm_status = ''paid'', spm_amount = js 250000\<rparr>], whe_status = ''active'',
       whe_amount = None, whe_paymentId = None\<rparr>,
     hk_live = True\<rparr>"

definition deliver_demo :: "world \<Rightarrow> (http_error + webhook_result) \<times> world" where
  "deliver_demo = handleWebhook hook_demo 1000000 ''{}'' (Some (paymongoHeader ''1000'' '''' ''ab07'')) (Some ''whsec'')"

lemma nonEmpty_Some: "x \<noteq> [] \<Longrightarrow> nonEmpty (Some x) = Some x"
  by (cases x) (simp_all add: nonEmpty_def)

lemma demo_signed:
  "verifyPaymongoSignature (\<lambda>k m. [171, of_nat (length m)]) (\<lambda>_. js 1000) 1000000 True ''{}''
     (paymongoHeader ''1000'' '''' ''ab07'') ''whsec''"
proof -
  have p: "parsePaymongoSignatureHeader (paymongoHeader ''1000'' '''' ''ab07'') = [''t'' \<mapsto> ''1000'', ''te'' \<mapsto> '''', ''li'' \<mapsto> ''ab07'']"
    by (rule parse_paymongoHeader) simp_all
  have "hexDecode ''ab07'' = [171, 7]" by (simp add: hexDigit_def)
  then show ?thesis using clock_in_tolerance by (simp add: verifyPaymongoSignature_def p Let_def del: hexEncode.simps)
qed

lemma deliver_demo_settles:
  "\<exists>w1. deliver_demo \<lparr>data = invoice_db, events = []\<rparr> = (Inr Received, w1) \<and> map inv_status (invoices (data w1)) = [Paid]"
proof -
  let ?w = "\<lparr>data = invoice_db, events = []\<rparr>" and ?lk = "lookupOf open_invoice"
  obtain e where e: "hk_parse hook_demo ''{}'' = Some e" "whe_type e = ''checkout_session.payment.paid''" "whe_resourceId e = ''cs_1''"
    "whe_invoiceId e = Some 40" "whe_payments e = [\<lparr>spm_id = ''pay_1'', spm_status = ''paid'', spm_amount = js 250000\<rparr>]"
    by (simp add: hook_demo_def)
  have n: "nonEmpty (Some ''whsec'') = Some ''whsec''" by (simp add: nonEmpty_def)
  have "paymongoHeader ''1000'' '''' ''ab07'' \<noteq> []" by (simp add: paymongoHeader_def)
  then have n2: "nonEmpty (Some (paymongoHeader ''1000'' '''' ''ab07'')) = Some (paymongoHeader ''1000'' '''' ''ab07'')"
    by (rule nonEmpty_Some)
  have v: "verifyPaymongoSignature (hk_hmac hook_demo) (hk_toNumber hook_demo) 1000000 (hk_live hook_demo) ''{}''
     (paymongoHeader ''1000'' '''' ''ab07'') ''whsec''"
    unfolding hook_demo_def hook_env.select_convs by (rule demo_signed)
  have 1: "deliver_demo ?w = handleEvent 1000000 e ?w"
    unfolding deliver_demo_def by (rule handleWebhook_event[OF n n2 v e(1)])
  obtain d' where d': "settleOnlinePayment 1 full_payment invoice_db = Inr (True, d')" "rls 1 d' = d'"
    "map inv_status (invoices d') = [Paid]"
    using full_payment_settles by (elim exE conjE)
  have lk: "tlk_tenantId ?lk = 1" "ctx_tenantId (systemCtx 1) = 1" by (simp_all add: lookupOf_def open_invoice_def systemCtx_def)
  have 2: "webhookBody ?lk 40 e invoice_db = ([''deposit_payment_confirmed''], Inr ((), d'))"
    using d'(1) by (simp add: webhookBody_def e full_payment_def lk)
  have 3: "rls 1 invoice_db = invoice_db" "invoices (hidden 1 invoice_db) = []"
    by (simp_all add: rls_def hidden_def invoice_eval)
  have "withTenantTx (systemCtx 1) (webhookBody ?lk 40 e) ?w =
      (Inr (), \<lparr>data = merge (hidden 1 invoice_db) d', events = [(1, ''deposit_payment_confirmed'')]\<rparr>)"
    unfolding withTenantTx_def Let_def lk(2) by (simp add: 3(1) 2 d'(2) del: One_nat_def)
  moreover have "findTenantByInvoiceIdForWebhook 40 invoice_db = Some ?lk"
    by (simp add: findTenantByInvoiceIdForWebhook_def invoice_db_def open_invoice_def)
  ultimately have "handleEvent 1000000 e ?w = (Inr Received, \<lparr>data = merge (hidden 1 invoice_db) d', events = [(1, ''deposit_payment_confirmed'')]\<rparr>)"
    by (simp add: handleEvent_def e(2,4) lk(1) del: One_nat_def)
  then show ?thesis unfolding 1 using d'(3) 3(2) by (simp add: merge_def)
qed

theorem webhook_replay_moves_nothing_witness:
  "\<exists>w1. deliver_demo \<lparr>data = invoice_db, events = []\<rparr> = (Inr Received, w1) \<and> map inv_status (invoices (data w1)) = [Paid] \<and>
     sameLedger (data w1) (data (snd (deliver_demo w1)))"
proof -
  obtain w1 where w1: "deliver_demo \<lparr>data = invoice_db, events = []\<rparr> = (Inr Received, w1)" "map inv_status (invoices (data w1)) = [Paid]"
    using deliver_demo_settles by (elim exE conjE)
  have "lookups invoice_db = {lookupOf open_invoice}" "paidFor x invoice_db = {}" for x
    by (simp_all add: lookups_def paidFor_def invoice_db_def open_payment_def)
  then have "uniqueInvoices invoice_db" "uniqueProviderIds invoice_db"
    by (simp_all add: uniqueInvoices_def uniqueProviderIds_def)
  moreover have "map_option whe_type (hk_parse hook_demo ''{}'') \<noteq> Some ''payment.failed''" by (simp add: hook_demo_def)
  ultimately have "sameLedger (data w1) (data (snd (deliver_demo w1)))"
    unfolding deliver_demo_def
    by (intro webhook_replay_moves_nothing[OF w1(1)[unfolded deliver_demo_def]]) simp_all
  with w1 show ?thesis by (intro exI conjI)
qed

section \<open>What settling does not check\<close>

text \<open>Settling a booking's invoice confirms the booking whatever became of it: a cancelled one, a running one.\<close>

lemma settle_confirms_any_booking:
  assumes "find (\<lambda>i. inv_id i = k) (invoices d) = Some i" "inv_rentalId i = Some (ren_id r)" "inv_truckRequestId i = None"
    "inv_invoiceType i = Booking \<or> inv_invoiceType i = Deposit" "r \<in> set (rentals d)"
  shows "r\<lparr>ren_status := RConfirmed\<rparr> \<in> set (rentals (settleInvoice t k d))"
proof -
  let ?is = "updw (\<lambda>i. inv_id i = k) (inv_status_update (\<lambda>_. Paid)) (invoices d)"
  have "find (\<lambda>i. inv_id i = k) ?is = Some (i\<lparr>inv_status := Paid\<rparr>)"
    using find_SomeD[OF assms(1)] by (subst find_updw) (simp_all add: assms(1))
  then have "rentals (settleInvoice t k d) = updw (\<lambda>q. ren_id q = ren_id r) (ren_status_update (\<lambda>_. RConfirmed)) (rentals d)"
    using assms(2-4) by (simp add: settleInvoice_def Let_def)
  then show ?thesis using assms(5) by (auto simp: in_updw)
qed

text \<open>A second session paid for the same invoice is money taken that no row and no notification records.\<close>

lemma second_session_unreported:
  "find (\<lambda>i. inv_id i = stl_invoiceId p) (invoices d) = Some i \<Longrightarrow> inv_status i = Paid \<Longrightarrow> settleOnlinePayment t p d = Inr (False, d)"
  by (simp add: settleOnlinePayment_def)

text \<open>A failure event fails the latest pending attempt, though its session may be another one's, or it be cash.\<close>

lemma failed_event_fails_any_attempt:
  assumes "latestBy pay_createdAt (filter (\<lambda>p. pay_invoiceId p = k \<and> pay_status p = PPending) (payments d)) = Some r"
    "committed (paymentFailed lk k d) u d'"
  shows "r\<lparr>pay_status := PFailed\<rparr> \<in> set (payments d')"
  using assms latestBy_SomeD[OF assms(1)]
  by (auto simp: paymentFailed_def Let_def in_updw split: option.split_asm)

end
