(* ===== verification/Formula.thy ===== *)
theory Formula
  imports JsNumber
begin

text \<open>
  The evaluator of a tenant's truck price formula (\<open>packages/shared/src/formula.ts\<close>): its tokenizer,
  its recursive descent parser, which computes while it parses, and the variable name of an extra
  charge. A string is its list of code units up to 255, which covers every character a formula may
  hold; the index into the token array is the list of the tokens left. The mutual recursion takes
  fuel, one unit a call; \<open>None\<close> is running out of it. The lemmas show that the fuel
  \<open>evaluateFormula\<close> gives is always enough, that whether a formula parses does not depend on the
  values of its variables, and that a printed expression evaluates to its value.
\<close>

section \<open>Tokens\<close>

datatype formula_error =
    TooLong
  | UnexpectedCharacter nat
  | UnexpectedEnd
  | MissingParen
  | UnknownVariable string
  | Unexpected string
  | NotFinite

definition MAX_LENGTH :: nat where
  "MAX_LENGTH = 500"

definition FORMULA_BASE_VARS :: "string list" where
  "FORMULA_BASE_VARS = [''km'', ''base'', ''per_km'', ''diesel'', ''fuel_l_per_km'', ''driver_fee'', ''tolls'', ''weight_t'', ''extras'']"

definition charCode :: "char \<Rightarrow> nat" where
  "charCode c = of_char c"

definition isSpace :: "char \<Rightarrow> bool" where
  "isSpace c \<longleftrightarrow> c \<in> {CHR 0x09, CHR 0x0A, CHR 0x0B, CHR 0x0C, CHR 0x0D, CHR 0x20, CHR 0xA0}"

definition isDigit :: "char \<Rightarrow> bool" where
  "isDigit c \<longleftrightarrow> 48 \<le> charCode c \<and> charCode c \<le> 57"

definition isIdStart :: "char \<Rightarrow> bool" where
  "isIdStart c \<longleftrightarrow> 97 \<le> charCode c \<and> charCode c \<le> 122 \<or> c = CHR ''_''"

definition isIdChar :: "char \<Rightarrow> bool" where
  "isIdChar c \<longleftrightarrow> isIdStart c \<or> isDigit c"

definition isOperator :: "char \<Rightarrow> bool" where
  "isOperator c \<longleftrightarrow> c \<in> set ''-+*/()''"

text \<open>One match of \<open>TOKEN\<close> after its leading blanks: a number, a name or an operator, and the rest.\<close>

definition nextToken :: "string \<Rightarrow> (string \<times> string) option" where
  "nextToken s =
     (case s of
        [] \<Rightarrow> None
      | c # cs \<Rightarrow>
          if isDigit c then
            (let whole = takeWhile isDigit s; rest = dropWhile isDigit s in
             case rest of
               p # d # more \<Rightarrow>
                 if p = CHR ''.'' \<and> isDigit d
                 then Some (whole @ p # takeWhile isDigit (d # more), dropWhile isDigit (d # more))
                 else Some (whole, rest)
             | _ \<Rightarrow> Some (whole, rest))
          else if isIdStart c then Some (takeWhile isIdChar s, dropWhile isIdChar s)
          else if isOperator c then Some ([c], cs)
          else None)"

lemma dropWhile_shorter: "dropWhile p xs = y # ys \<Longrightarrow> length ys < length xs"
  using length_dropWhile_le[of p xs] by simp

lemma nextToken_shorter: "nextToken s = Some (t, rest) \<Longrightarrow> length rest < length s"
proof (cases s)
  case (Cons c cs)
  note le = length_dropWhile_le[of isDigit] length_dropWhile_le[of isIdChar]
  assume t: "nextToken s = Some (t, rest)"
  show ?thesis
  proof (cases "isDigit c")
    case True
    have "rest = dropWhile isDigit cs \<or> (\<exists>d more. dropWhile isDigit cs = CHR ''.'' # d # more \<and> rest = dropWhile isDigit (d # more))"
      using t Cons True by (auto simp: nextToken_def Let_def split: list.split_asm if_split_asm)
    then have "length rest \<le> length (dropWhile isDigit cs)"
    proof
      assume "\<exists>d more. dropWhile isDigit cs = CHR ''.'' # d # more \<and> rest = dropWhile isDigit (d # more)"
      then obtain d more where "dropWhile isDigit cs = CHR ''.'' # d # more" "rest = dropWhile isDigit (d # more)" by blast
      then show ?thesis using le(1)[of "d # more"] by (simp only: list.size)
    qed simp
    then show ?thesis using le(1)[of cs] Cons by simp
  next
    case False
    then show ?thesis using t Cons le(2)[of cs] by (auto simp: nextToken_def isIdChar_def less_Suc_eq_le split: if_split_asm)
  qed
qed (simp add: nextToken_def)

function tokensFrom :: "nat \<Rightarrow> string \<Rightarrow> formula_error + string list" where
  "tokensFrom len s =
     (if dropWhile isSpace s = [] then Inr []
      else (case nextToken (dropWhile isSpace s) of
              None \<Rightarrow> Inl (UnexpectedCharacter (len - length s + 1))
            | Some (t, rest) \<Rightarrow> map_sum id ((#) t) (tokensFrom len rest)))"
  by pat_completeness auto
termination
  by (relation "measure (length \<circ> snd)")
     (auto dest!: nextToken_shorter intro: less_le_trans[OF _ length_dropWhile_le])

declare tokensFrom.simps [simp del]

definition tokenize :: "string \<Rightarrow> formula_error + string list" where
  "tokenize src = (if MAX_LENGTH < length src then Inl TooLong else tokensFrom (length src) src)"

section \<open>The parser\<close>

text \<open>\<open>Number(t)\<close> of a numeric token.\<close>

fun digitsValue :: "nat \<Rightarrow> string \<Rightarrow> nat" where
  "digitsValue k [] = k"
| "digitsValue k (c # cs) = digitsValue (10 * k + (charCode c - 48)) cs"

definition literal :: "string \<Rightarrow> number" where
  "literal t =
     (let whole = takeWhile isDigit t; frac = drop (Suc (length whole)) t
      in js (of_nat (digitsValue 0 (whole @ frac)) / 10 ^ length frac))"

type_synonym 'v parsed = "(formula_error + 'v \<times> string list) option"

definition feed :: "number parsed \<Rightarrow> (number \<Rightarrow> string list \<Rightarrow> number parsed) \<Rightarrow> number parsed" where
  "feed r k = (case r of None \<Rightarrow> None | Some (Inl e) \<Rightarrow> Some (Inl e) | Some (Inr (v, rest)) \<Rightarrow> k v rest)"

definition startsWith :: "(char \<Rightarrow> bool) \<Rightarrow> string \<Rightarrow> bool" where
  "startsWith p t = (case t of [] \<Rightarrow> False | c # _ \<Rightarrow> p c)"

definition closeParen :: "number \<Rightarrow> string list \<Rightarrow> number parsed" where
  "closeParen v after =
     (case after of
        [] \<Rightarrow> Some (Inl MissingParen)
      | c # more \<Rightarrow> if c = '')'' then Some (Inr (v, more)) else Some (Inl MissingParen))"

function primary :: "nat \<Rightarrow> (string \<rightharpoonup> number) \<Rightarrow> string list \<Rightarrow> number parsed"
  and termLoop :: "nat \<Rightarrow> (string \<rightharpoonup> number) \<Rightarrow> number \<Rightarrow> string list \<Rightarrow> number parsed"
  and parseTerm :: "nat \<Rightarrow> (string \<rightharpoonup> number) \<Rightarrow> string list \<Rightarrow> number parsed"
  and exprLoop :: "nat \<Rightarrow> (string \<rightharpoonup> number) \<Rightarrow> number \<Rightarrow> string list \<Rightarrow> number parsed"
  and expr :: "nat \<Rightarrow> (string \<rightharpoonup> number) \<Rightarrow> string list \<Rightarrow> number parsed" where
  "primary 0 vars ts = None"
| "primary (Suc n) vars ts =
     (case ts of
        [] \<Rightarrow> Some (Inl UnexpectedEnd)
      | t # rest \<Rightarrow>
          if t = ''('' then
            feed (expr n vars rest) closeParen
          else if t = ''-'' then feed (primary n vars rest) (\<lambda>v after. Some (Inr (- v, after)))
          else if t = ''+'' then primary n vars rest
          else if startsWith isDigit t then Some (Inr (literal t, rest))
          else if startsWith isIdStart t then
            (case vars t of None \<Rightarrow> Some (Inl (UnknownVariable t)) | Some v \<Rightarrow> Some (Inr (v, rest)))
          else Some (Inl (Unexpected t)))"
| "termLoop 0 vars v ts = None"
| "termLoop (Suc n) vars v ts =
     (case ts of
        [] \<Rightarrow> Some (Inr (v, ts))
      | op # rest \<Rightarrow>
          if op = ''*'' \<or> op = ''/'' then
            feed (primary n vars rest) (\<lambda>r after. termLoop n vars (if op = ''*'' then v * r else v / r) after)
          else Some (Inr (v, ts)))"
| "parseTerm 0 vars ts = None"
| "parseTerm (Suc n) vars ts = feed (primary n vars ts) (\<lambda>v rest. termLoop n vars v rest)"
| "exprLoop 0 vars v ts = None"
| "exprLoop (Suc n) vars v ts =
     (case ts of
        [] \<Rightarrow> Some (Inr (v, ts))
      | op # rest \<Rightarrow>
          if op = ''+'' \<or> op = ''-'' then
            feed (parseTerm n vars rest) (\<lambda>r after. exprLoop n vars (if op = ''+'' then v + r else v - r) after)
          else Some (Inr (v, ts)))"
| "expr 0 vars ts = None"
| "expr (Suc n) vars ts = feed (parseTerm n vars ts) (\<lambda>v rest. exprLoop n vars v rest)"
  by pat_completeness auto
termination
  by (relation "measure (case_sum (case_sum fst fst) (case_sum fst (case_sum fst fst)))") auto

definition evaluateWith :: "nat \<Rightarrow> (string \<rightharpoonup> number) \<Rightarrow> string list \<Rightarrow> (formula_error + number) option" where
  "evaluateWith n vars tokens =
     (case expr n vars tokens of
        None \<Rightarrow> None
      | Some (Inl e) \<Rightarrow> Some (Inl e)
      | Some (Inr (v, rest)) \<Rightarrow>
          if rest \<noteq> [] then Some (Inl (Unexpected (hd rest)))
          else if \<not> isFinite v then Some (Inl NotFinite)
          else Some (Inr v))"

definition evaluateFormula :: "string \<Rightarrow> (string \<rightharpoonup> number) \<Rightarrow> (formula_error + number) option" where
  "evaluateFormula src vars =
     (case tokenize src of
        Inl e \<Rightarrow> Some (Inl e)
      | Inr tokens \<Rightarrow> evaluateWith (3 * length tokens + 3) vars tokens)"

section \<open>Names of extra charges\<close>

definition lowerCase :: "char \<Rightarrow> char" where
  "lowerCase c = (if 65 \<le> charCode c \<and> charCode c \<le> 90 then char_of (charCode c + 32) else c)"

fun underscores :: "string \<Rightarrow> string" where
  "underscores [] = []"
| "underscores (c # cs) =
     (if isIdChar c \<and> c \<noteq> CHR ''_'' then c # underscores cs
      else (case underscores cs of
              [] \<Rightarrow> ''_''
            | d # ds \<Rightarrow> if d = CHR ''_'' then d # ds else CHR ''_'' # d # ds))"

definition trimUnderscores :: "string \<Rightarrow> string" where
  "trimUnderscores s =
     rev (dropWhile (\<lambda>c. c = CHR ''_'') (rev (dropWhile (\<lambda>c. c = CHR ''_'') s)))"

definition formulaVarName :: "string \<Rightarrow> string" where
  "formulaVarName label =
     (let name = trimUnderscores (underscores (map lowerCase label))
      in if startsWith isDigit name then CHR ''_'' # name else name)"

section \<open>Termination\<close>

lemma feed_simps [simp]:
  "feed None k = None" "feed (Some (Inl e)) k = Some (Inl e)" "feed (Some (Inr (v, rest))) k = k v rest"
  by (simp_all add: feed_def)

lemma feed_cases:
  obtains (none) "r = None" "feed r k = None"
    | (error) e where "r = Some (Inl e)" "feed r k = Some (Inl e)"
    | (got) v rest where "r = Some (Inr (v, rest))" "feed r k = k v rest"
proof (cases r)
  case (Some a)
  show thesis
  proof (cases a)
    case (Inr x)
    then show thesis using got[of "fst x" "snd x"] Some by (cases x) simp
  qed (use error Some in simp)
qed (use none in simp)

text \<open>A parse from a token list of length at most \<open>k\<close> leaves fewer than \<open>k\<close> tokens, when it succeeds.\<close>

definition leaves :: "nat \<Rightarrow> number parsed \<Rightarrow> bool" where
  "leaves k r \<longleftrightarrow> (\<forall>v rest. r = Some (Inr (v, rest)) \<longrightarrow> length rest < k)"

lemma leaves_simps [simp]:
  "leaves k None" "leaves k (Some (Inl e))" "leaves k (Some (Inr (v, rest))) \<longleftrightarrow> length rest < k"
  by (auto simp: leaves_def)

lemma leaves_feed: "leaves j r \<Longrightarrow> (\<And>v rest. length rest < j \<Longrightarrow> leaves k (f v rest)) \<Longrightarrow> leaves k (feed r f)"
  by (cases r f rule: feed_cases) simp_all

lemma leaves_le: "leaves j r \<Longrightarrow> j \<le> k \<Longrightarrow> leaves k r"
  by (auto simp: leaves_def)

lemma parse_shorter:
  "leaves (length ts) (primary n vars ts) \<and> leaves (Suc (length ts)) (termLoop n vars u ts) \<and>
   leaves (length ts) (parseTerm n vars ts) \<and> leaves (Suc (length ts)) (exprLoop n vars u ts) \<and>
   leaves (length ts) (expr n vars ts)"
proof (induction n arbitrary: ts u)
  case (Suc n)
  note IH = Suc.IH[THEN conjunct1] Suc.IH[THEN conjunct2, THEN conjunct1]
    Suc.IH[THEN conjunct2, THEN conjunct2, THEN conjunct1]
    Suc.IH[THEN conjunct2, THEN conjunct2, THEN conjunct2, THEN conjunct1]
    Suc.IH[THEN conjunct2, THEN conjunct2, THEN conjunct2, THEN conjunct2]
  have "leaves (length ts) (primary (Suc n) vars ts)"
  proof (cases ts)
    case (Cons t us)
    have "leaves (Suc (length us)) (feed (expr n vars us) closeParen)"
      by (rule leaves_feed[OF IH(5)]) (auto simp: closeParen_def split: list.split)
    moreover have "leaves (Suc (length us)) (feed (primary n vars us) (\<lambda>v after. Some (Inr (- v, after))))"
      by (rule leaves_feed[OF IH(1)]) simp
    moreover have "leaves (Suc (length us)) (primary n vars us)" by (rule leaves_le[OF IH(1)]) simp
    ultimately show ?thesis using Cons by (simp split: option.split)
  qed simp
  moreover have "leaves (Suc (length ts)) (termLoop (Suc n) vars u ts)"
  proof (cases ts)
    case (Cons t us)
    have "leaves (Suc (length ts)) (feed (primary n vars us) (\<lambda>r after. termLoop n vars (f r) after))" for f
      by (rule leaves_feed[OF IH(1)], rule leaves_le[OF IH(2)]) (simp add: Cons)
    then show ?thesis using Cons by simp
  qed simp
  moreover have "leaves (length ts) (parseTerm (Suc n) vars ts)"
    unfolding parseTerm.simps by (rule leaves_feed[OF IH(1)], rule leaves_le[OF IH(2)]) simp
  moreover have "leaves (Suc (length ts)) (exprLoop (Suc n) vars u ts)"
  proof (cases ts)
    case (Cons t us)
    have "leaves (Suc (length ts)) (feed (parseTerm n vars us) (\<lambda>r after. exprLoop n vars (f r) after))" for f
      by (rule leaves_feed[OF IH(3)], rule leaves_le[OF IH(4)]) (simp add: Cons)
    then show ?thesis using Cons by simp
  qed simp
  moreover have "leaves (length ts) (expr (Suc n) vars ts)"
    unfolding expr.simps by (rule leaves_feed[OF IH(3)], rule leaves_le[OF IH(4)]) simp
  ultimately show ?case by blast
qed simp

lemmas shorter = parse_shorter[THEN conjunct1] parse_shorter[THEN conjunct2, THEN conjunct2, THEN conjunct1]

text \<open>Three units of fuel a token, and one to three more for the calls at the level it starts on.\<close>

lemma feed_returns:
  "leaves j r \<Longrightarrow> r \<noteq> None \<Longrightarrow> (\<And>v rest. length rest < j \<Longrightarrow> k v rest \<noteq> None) \<Longrightarrow> feed r k \<noteq> None"
  by (cases r k rule: feed_cases) simp_all

lemma parse_returns:
  "(3 * length ts + 1 \<le> n \<longrightarrow> primary n vars ts \<noteq> None) \<and>
   (3 * length ts + 1 \<le> n \<longrightarrow> termLoop n vars u ts \<noteq> None) \<and>
   (3 * length ts + 2 \<le> n \<longrightarrow> parseTerm n vars ts \<noteq> None) \<and>
   (3 * length ts + 1 \<le> n \<longrightarrow> exprLoop n vars u ts \<noteq> None) \<and>
   (3 * length ts + 3 \<le> n \<longrightarrow> expr n vars ts \<noteq> None)"
proof (induction n arbitrary: ts u)
  case (Suc n)
  have p: "primary n vars ts \<noteq> None" if "3 * length ts + 1 \<le> n" for ts using Suc.IH[of ts u] that by blast
  have tl: "termLoop n vars u ts \<noteq> None" if "3 * length ts + 1 \<le> n" for ts u using Suc.IH[of ts u] that by blast
  have t: "parseTerm n vars ts \<noteq> None" if "3 * length ts + 2 \<le> n" for ts using Suc.IH[of ts u] that by blast
  have el: "exprLoop n vars u ts \<noteq> None" if "3 * length ts + 1 \<le> n" for ts u using Suc.IH[of ts u] that by blast
  have e: "expr n vars ts \<noteq> None" if "3 * length ts + 3 \<le> n" for ts using Suc.IH[of ts u] that by blast
  show ?case
  proof (intro conjI impI)
    show "primary (Suc n) vars ts \<noteq> None" if h: "3 * length ts + 1 \<le> Suc n"
    proof (cases ts)
      case (Cons x us)
      have "expr n vars us \<noteq> None" by (rule e) (use h Cons in simp)
      moreover have "primary n vars us \<noteq> None" by (rule p) (use h Cons in simp)
      ultimately show ?thesis using Cons
        by (cases "expr n vars us" closeParen rule: feed_cases;
            cases "primary n vars us" "\<lambda>v after. Some (Inr (- v, after)) :: number parsed" rule: feed_cases)
          (simp_all add: closeParen_def split: list.split option.split)
    qed simp
    show "termLoop (Suc n) vars u ts \<noteq> None" if h: "3 * length ts + 1 \<le> Suc n"
    proof (cases ts)
      case (Cons x us)
      have "feed (primary n vars us) (\<lambda>r after. termLoop n vars (f r) after) \<noteq> None" for f
        by (rule feed_returns[OF shorter(1) p tl]) (use h Cons in simp_all)
      then show ?thesis using Cons by (simp del: not_None_eq)
    qed simp
    show "parseTerm (Suc n) vars ts \<noteq> None" if h: "3 * length ts + 2 \<le> Suc n"
      unfolding parseTerm.simps by (rule feed_returns[OF shorter(1) p tl]) (use h in simp_all)
    show "exprLoop (Suc n) vars u ts \<noteq> None" if h: "3 * length ts + 1 \<le> Suc n"
    proof (cases ts)
      case (Cons x us)
      have "feed (parseTerm n vars us) (\<lambda>r after. exprLoop n vars (f r) after) \<noteq> None" for f
        by (rule feed_returns[OF shorter(2) t el]) (use h Cons in simp_all)
      then show ?thesis using Cons by (simp del: not_None_eq)
    qed simp
    show "expr (Suc n) vars ts \<noteq> None" if h: "3 * length ts + 3 \<le> Suc n"
      unfolding expr.simps by (rule feed_returns[OF shorter(2) t el]) (use h in simp_all)
  qed
qed simp

section \<open>More fuel, other values\<close>

text \<open>More fuel changes nothing once there was enough.\<close>

definition fuelLe :: "number parsed \<Rightarrow> number parsed \<Rightarrow> bool" where
  "fuelLe r r' \<longleftrightarrow> r = None \<or> r' = r"

lemma fuelLe_refl [simp]: "fuelLe r r" "fuelLe None r"
  by (simp_all add: fuelLe_def)

lemma fuelLe_feed: "fuelLe r r' \<Longrightarrow> (\<And>v rest. fuelLe (k v rest) (k' v rest)) \<Longrightarrow> fuelLe (feed r k) (feed r' k')"
  by (cases r k rule: feed_cases) (auto simp: fuelLe_def)

lemma parse_more:
  "fuelLe (primary n vars ts) (primary (Suc n) vars ts) \<and> fuelLe (termLoop n vars u ts) (termLoop (Suc n) vars u ts) \<and>
   fuelLe (parseTerm n vars ts) (parseTerm (Suc n) vars ts) \<and> fuelLe (exprLoop n vars u ts) (exprLoop (Suc n) vars u ts) \<and>
   fuelLe (expr n vars ts) (expr (Suc n) vars ts)"
proof (induction n arbitrary: ts u)
  case (Suc n)
  define m where "m = Suc n"
  note IH = Suc.IH[THEN conjunct1, folded m_def] Suc.IH[THEN conjunct2, THEN conjunct1, folded m_def]
    Suc.IH[THEN conjunct2, THEN conjunct2, THEN conjunct1, folded m_def]
    Suc.IH[THEN conjunct2, THEN conjunct2, THEN conjunct2, THEN conjunct1, folded m_def]
    Suc.IH[THEN conjunct2, THEN conjunct2, THEN conjunct2, THEN conjunct2, folded m_def]
  have "fuelLe (primary (Suc n) vars ts) (primary (Suc m) vars ts)"
  proof (cases ts)
    case (Cons t rest)
    have "fuelLe (feed (expr n vars rest) closeParen) (feed (expr m vars rest) closeParen)"
      "fuelLe (feed (primary n vars rest) (\<lambda>v after. Some (Inr (- v, after))))
         (feed (primary m vars rest) (\<lambda>v after. Some (Inr (- v, after))))"
      by (rule fuelLe_feed[OF IH(5)], simp, rule fuelLe_feed[OF IH(1)], simp)
    then show ?thesis using IH(1)[of rest] by (simp add: Cons)
  qed simp
  moreover have "fuelLe (termLoop (Suc n) vars u ts) (termLoop (Suc m) vars u ts)"
    by (auto intro!: fuelLe_feed IH split: list.split)
  moreover have "fuelLe (parseTerm (Suc n) vars ts) (parseTerm (Suc m) vars ts)"
    unfolding parseTerm.simps by (intro fuelLe_feed IH)
  moreover have "fuelLe (exprLoop (Suc n) vars u ts) (exprLoop (Suc m) vars u ts)"
    by (auto intro!: fuelLe_feed IH split: list.split)
  moreover have "fuelLe (expr (Suc n) vars ts) (expr (Suc m) vars ts)"
    unfolding expr.simps by (intro fuelLe_feed IH)
  ultimately show ?case unfolding m_def by blast
qed simp

lemma fuel_le:
  assumes "\<And>n. fuelLe (f n) (f (Suc n))" "f m = Some r" "m \<le> n"
  shows "f n = Some r"
  using assms(3)
proof (induction rule: dec_induct)
  case (step k)
  then show ?case using assms(1)[of k] by (simp add: fuelLe_def)
qed (rule assms(2))

lemmas more_fuel =
  fuel_le[of "\<lambda>n. primary n vars ts" for vars ts, OF parse_more[THEN conjunct1]]
  fuel_le[of "\<lambda>n. termLoop n vars u ts" for vars u ts, OF parse_more[THEN conjunct2, THEN conjunct1]]
  fuel_le[of "\<lambda>n. parseTerm n vars ts" for vars ts, OF parse_more[THEN conjunct2, THEN conjunct2, THEN conjunct1]]
  fuel_le[of "\<lambda>n. exprLoop n vars u ts" for vars u ts,
    OF parse_more[THEN conjunct2, THEN conjunct2, THEN conjunct2, THEN conjunct1]]
  fuel_le[of "\<lambda>n. expr n vars ts" for vars ts, OF parse_more[THEN conjunct2, THEN conjunct2, THEN conjunct2, THEN conjunct2]]

text \<open>Where a parse succeeds, it succeeds over other values of the variables, and leaves the same tokens.\<close>

definition sameCourse :: "number parsed \<Rightarrow> number parsed \<Rightarrow> bool" where
  "sameCourse r r' \<longleftrightarrow> (\<forall>v rest. r = Some (Inr (v, rest)) \<longrightarrow> (\<exists>v'. r' = Some (Inr (v', rest))))"

lemma sameCourse_simps [simp]:
  "sameCourse None r" "sameCourse (Some (Inl e)) r" "sameCourse (Some (Inr (v, rest))) (Some (Inr (v', rest)))"
  by (simp_all add: sameCourse_def)

lemma sameCourse_feed:
  "sameCourse r r' \<Longrightarrow> (\<And>v v' rest. sameCourse (k v rest) (k' v' rest)) \<Longrightarrow> sameCourse (feed r k) (feed r' k')"
  by (cases r k rule: feed_cases) (auto simp: sameCourse_def)

lemma closeParen_course: "sameCourse (closeParen v rest) (closeParen v' rest)"
  by (cases rest) (simp_all add: closeParen_def)

lemma parse_course:
  assumes "dom vars \<subseteq> dom vars'"
  shows "sameCourse (primary n vars ts) (primary n vars' ts) \<and> sameCourse (termLoop n vars u ts) (termLoop n vars' u' ts) \<and>
    sameCourse (parseTerm n vars ts) (parseTerm n vars' ts) \<and> sameCourse (exprLoop n vars u ts) (exprLoop n vars' u' ts) \<and>
    sameCourse (expr n vars ts) (expr n vars' ts)"
proof (induction n arbitrary: ts u u')
  case (Suc n)
  note IH = Suc.IH[THEN conjunct1] Suc.IH[THEN conjunct2, THEN conjunct1]
    Suc.IH[THEN conjunct2, THEN conjunct2, THEN conjunct1]
    Suc.IH[THEN conjunct2, THEN conjunct2, THEN conjunct2, THEN conjunct1]
    Suc.IH[THEN conjunct2, THEN conjunct2, THEN conjunct2, THEN conjunct2]
  have var: "sameCourse (case vars t of None \<Rightarrow> Some (Inl (UnknownVariable t)) | Some v \<Rightarrow> Some (Inr (v, rest)))
     (case vars' t of None \<Rightarrow> Some (Inl (UnknownVariable t)) | Some v \<Rightarrow> Some (Inr (v, rest)))" for t rest
    using assms by (cases "vars t"; cases "vars' t") auto
  have "sameCourse (primary (Suc n) vars ts) (primary (Suc n) vars' ts)"
  proof (cases ts)
    case (Cons t rest)
    have "sameCourse (feed (expr n vars rest) closeParen) (feed (expr n vars' rest) closeParen)"
      "sameCourse (feed (primary n vars rest) (\<lambda>v after. Some (Inr (- v, after))))
         (feed (primary n vars' rest) (\<lambda>v after. Some (Inr (- v, after))))"
      by (rule sameCourse_feed[OF IH(5) closeParen_course], rule sameCourse_feed[OF IH(1)]) simp
    then show ?thesis using Cons var[of t rest] IH(1)[of rest] by simp
  qed simp
  moreover have "sameCourse (termLoop (Suc n) vars u ts) (termLoop (Suc n) vars' u' ts)"
    by (auto intro!: sameCourse_feed IH split: list.split)
  moreover have "sameCourse (parseTerm (Suc n) vars ts) (parseTerm (Suc n) vars' ts)"
    unfolding parseTerm.simps by (intro sameCourse_feed IH)
  moreover have "sameCourse (exprLoop (Suc n) vars u ts) (exprLoop (Suc n) vars' u' ts)"
    by (auto intro!: sameCourse_feed IH split: list.split)
  moreover have "sameCourse (expr (Suc n) vars ts) (expr (Suc n) vars' ts)"
    unfolding expr.simps by (intro sameCourse_feed IH)
  ultimately show ?case by blast
qed simp

section \<open>Expressions\<close>

text \<open>
  What a formula means: an expression tree and its value in double arithmetic. \<open>printed\<close> writes it
  with the parentheses its precedences need and no others: sums at level 0, products at level 1,
  factors at level 2, operators of a level grouping to the left.
\<close>

datatype binary_op = Plus | Minus | Times | Div

datatype fexp =
    Lit string
  | Var string
  | Neg fexp
  | Bin binary_op fexp fexp

fun level :: "binary_op \<Rightarrow> nat" where
  "level Plus = 0"
| "level Minus = 0"
| "level Times = 1"
| "level Div = 1"

fun symbol :: "binary_op \<Rightarrow> string" where
  "symbol Plus = ''+''"
| "symbol Minus = ''-''"
| "symbol Times = ''*''"
| "symbol Div = ''/''"

fun apply_op :: "binary_op \<Rightarrow> number \<Rightarrow> number \<Rightarrow> number" where
  "apply_op Plus a b = a + b"
| "apply_op Minus a b = a - b"
| "apply_op Times a b = a * b"
| "apply_op Div a b = a / b"

fun evalExp :: "(string \<rightharpoonup> number) \<Rightarrow> fexp \<Rightarrow> number" where
  "evalExp vars (Lit t) = literal t"
| "evalExp vars (Var x) = the (vars x)"
| "evalExp vars (Neg e) = - evalExp vars e"
| "evalExp vars (Bin op a b) = apply_op op (evalExp vars a) (evalExp vars b)"

fun printed :: "nat \<Rightarrow> fexp \<Rightarrow> string list" where
  "printed k (Lit t) = [t]"
| "printed k (Var x) = [x]"
| "printed k (Neg e) = ''-'' # printed 2 e"
| "printed k (Bin op a b) =
     (let body = printed (level op) a @ symbol op # printed (Suc (level op)) b
      in if level op < k then ''('' # body @ ['')''] else body)"

definition isNumeral :: "string \<Rightarrow> bool" where
  "isNumeral t \<longleftrightarrow>
     (\<exists>w f. w \<noteq> [] \<and> list_all isDigit w \<and> list_all isDigit f \<and> (t = w \<or> f \<noteq> [] \<and> t = w @ CHR ''.'' # f))"

definition isName :: "string \<Rightarrow> bool" where
  "isName x \<longleftrightarrow> startsWith isIdStart x \<and> list_all isIdChar x"

fun wellFormed :: "(string \<rightharpoonup> number) \<Rightarrow> fexp \<Rightarrow> bool" where
  "wellFormed vars (Lit t) \<longleftrightarrow> isNumeral t"
| "wellFormed vars (Var x) \<longleftrightarrow> isName x \<and> x \<in> dom vars"
| "wellFormed vars (Neg e) \<longleftrightarrow> wellFormed vars e"
| "wellFormed vars (Bin op a b) \<longleftrightarrow> wellFormed vars a \<and> wellFormed vars b"

text \<open>Each token after a blank.\<close>

definition spaced :: "string list \<Rightarrow> string" where
  "spaced ts = concat (map (\<lambda>t. CHR '' '' # t) ts)"

lemma operator_chars: "isOperator c \<longleftrightarrow> c = CHR ''-'' \<or> c = CHR ''+'' \<or> c = CHR ''*'' \<or> c = CHR ''/'' \<or> c = CHR ''('' \<or> c = CHR '')''"
  by (auto simp: isOperator_def)

lemma no_digit [simp]: "\<not> isDigit CHR ''-''" "\<not> isDigit CHR ''+''" "\<not> isDigit CHR ''*''" "\<not> isDigit CHR ''/''"
  "\<not> isDigit CHR ''(''" "\<not> isDigit CHR '')''" "\<not> isDigit CHR '' ''" "\<not> isDigit CHR ''.''" "\<not> isDigit CHR ''_''"
  by (simp_all add: isDigit_def charCode_def)

lemma no_name [simp]: "\<not> isIdStart CHR ''-''" "\<not> isIdStart CHR ''+''" "\<not> isIdStart CHR ''*''" "\<not> isIdStart CHR ''/''"
  "\<not> isIdStart CHR ''(''" "\<not> isIdStart CHR '')''" "\<not> isIdStart CHR '' ''" "\<not> isIdStart CHR ''.''"
  by (simp_all add: isIdStart_def charCode_def)

lemma digit_not_name: "isDigit c \<Longrightarrow> \<not> isIdStart c"
  by (auto simp: isDigit_def isIdStart_def charCode_def)

lemma no_space [simp]: "isDigit c \<Longrightarrow> \<not> isSpace c" "isIdStart c \<Longrightarrow> \<not> isSpace c" "isOperator c \<Longrightarrow> \<not> isSpace c"
  by (auto simp: isDigit_def isIdStart_def isSpace_def charCode_def operator_chars)

definition isToken :: "string \<Rightarrow> bool" where
  "isToken t \<longleftrightarrow> isNumeral t \<or> isName t \<or> (\<exists>c. isOperator c \<and> t = [c])"

definition blankFirst :: "string \<Rightarrow> bool" where
  "blankFirst s \<longleftrightarrow> s = [] \<or> hd s = CHR '' ''"

lemma take_drop_while:
  assumes "list_all p w" "s = [] \<or> \<not> p (hd s)"
  shows "takeWhile p (w @ s) = w" "dropWhile p (w @ s) = s"
  using assms by (induction w) (cases s; auto)+

lemma blankFirst_cases: "blankFirst s \<Longrightarrow> s = [] \<or> (\<exists>r. s = CHR '' '' # r)"
  by (cases s) (auto simp: blankFirst_def)

lemma nextToken_numeral:
  assumes "isNumeral t" "blankFirst s"
  shows "nextToken (t @ s) = Some (t, s)"
proof -
  obtain w f where w: "w \<noteq> []" "list_all isDigit w" "list_all isDigit f" "t = w \<or> f \<noteq> [] \<and> t = w @ CHR ''.'' # f"
    using assms(1) unfolding isNumeral_def by (elim exE conjE)
  have s: "s = [] \<or> \<not> isDigit (hd s)" using blankFirst_cases[OF assms(2)] by auto
  have n: "nextToken u = (case dropWhile isDigit u of
      p # d # more \<Rightarrow> if p = CHR ''.'' \<and> isDigit d
        then Some (takeWhile isDigit u @ p # takeWhile isDigit (d # more), dropWhile isDigit (d # more))
        else Some (takeWhile isDigit u, dropWhile isDigit u)
    | _ \<Rightarrow> Some (takeWhile isDigit u, dropWhile isDigit u))" if ne: "u \<noteq> []" "isDigit (hd u)" for u
  proof -
    obtain c cs where u: "u = c # cs" using ne(1) by (cases u) auto
    then have c: "isDigit c" using ne(2) by simp
    show ?thesis unfolding nextToken_def u list.case if_P[OF c] Let_def by (rule refl)
  qed
  have hd: "w @ r \<noteq> [] \<and> isDigit (hd (w @ r))" for r using w(1,2) by (cases w) auto
  from w(4) show ?thesis
  proof
    assume t: "t = w"
    show ?thesis unfolding t n[OF conjunct1[OF hd] conjunct2[OF hd]] take_drop_while[OF w(2) s]
      using blankFirst_cases[OF assms(2)] by (auto split: list.split)
  next
    assume t: "f \<noteq> [] \<and> t = w @ CHR ''.'' # f"
    then obtain d ds where f: "f = d # ds" by (cases f) auto
    have "takeWhile isDigit (w @ CHR ''.'' # f @ s) = w" "dropWhile isDigit (w @ CHR ''.'' # f @ s) = CHR ''.'' # f @ s"
      by (rule take_drop_while[OF w(2)]; simp)+
    moreover have "takeWhile isDigit (f @ s) = f" "dropWhile isDigit (f @ s) = s" using take_drop_while[OF w(3) s] by blast+
    moreover have "t @ s = w @ CHR ''.'' # f @ s" using t by simp
    ultimately show ?thesis using n[of "t @ s"] hd[of "CHR ''.'' # f @ s"] w(3) by (simp add: f)
  qed
qed

lemma nextToken_name:
  assumes "isName t" "blankFirst s"
  shows "nextToken (t @ s) = Some (t, s)"
proof -
  obtain c cs where t: "t = c # cs" "isIdStart c" using assms(1) by (auto simp: isName_def startsWith_def split: list.split_asm)
  have s: "s = [] \<or> \<not> isIdChar (hd s)" using blankFirst_cases[OF assms(2)] by (auto simp: isIdChar_def)
  have a: "list_all isIdChar t" using assms(1) by (simp add: isName_def)
  from take_drop_while[OF a s] t have "takeWhile isIdChar (c # cs @ s) = c # cs" "dropWhile isIdChar (c # cs @ s) = s" by simp_all
  moreover have "\<not> isDigit c" using t(2) digit_not_name by blast
  ultimately show ?thesis using t by (simp add: nextToken_def)
qed

lemma nextToken_token:
  assumes "isToken t" "blankFirst s"
  shows "nextToken (t @ s) = Some (t, s)"
proof -
  consider "isNumeral t" | "isName t" | c where "isOperator c" "t = [c]" using assms(1) unfolding isToken_def by blast
  then show ?thesis
  proof cases
    case 3
    then show ?thesis by (auto simp: nextToken_def operator_chars)
  qed (use nextToken_numeral nextToken_name assms(2) in blast)+
qed

lemma token_solid:
  assumes "isToken t"
  shows "dropWhile isSpace (t @ s) = t @ s" "t \<noteq> []"
proof -
  consider w r where "w \<noteq> []" "list_all isDigit w" "t = w @ r" | "isName t" | c where "isOperator c" "t = [c]"
    using assms unfolding isToken_def isNumeral_def by (metis append_Nil2)
  then have "\<exists>c cs. t = c # cs \<and> \<not> isSpace c"
  proof cases
    case 1
    then show ?thesis by (cases w) auto
  next
    case 2
    then show ?thesis by (cases t) (auto simp: isName_def startsWith_def)
  qed auto
  then show "dropWhile isSpace (t @ s) = t @ s" "t \<noteq> []" by auto
qed

lemma tokensFrom_spaced: "list_all isToken ts \<Longrightarrow> tokensFrom k (spaced ts) = Inr ts"
proof (induction ts)
  case Nil
  show ?case by (subst tokensFrom.simps) (simp add: spaced_def)
next
  case (Cons t ts)
  have e: "spaced (t # ts) = CHR '' '' # t @ spaced ts" by (simp add: spaced_def)
  have b: "blankFirst (spaced ts)" by (cases ts) (simp_all add: spaced_def blankFirst_def)
  have t: "isToken t" using Cons.prems by simp
  have d: "dropWhile isSpace (spaced (t # ts)) = t @ spaced ts"
    using token_solid(1)[OF t] by (simp add: e isSpace_def[of "CHR '' ''"])
  show ?case
    by (subst tokensFrom.simps) (use Cons token_solid(2)[OF t] in \<open>simp add: d nextToken_token[OF t b]\<close>)
qed

text \<open>A parse that succeeds with all the fuel from some amount on.\<close>

definition runs :: "(nat \<Rightarrow> number parsed) \<Rightarrow> number \<times> string list \<Rightarrow> bool" where
  "runs f x \<longleftrightarrow> (\<exists>n. \<forall>k \<ge> n. f k = Some (Inr x))"

lemma runs_const: "runs (\<lambda>k. Some (Inr x)) x"
  by (simp add: runs_def)

lemma runs_Suc: "runs (\<lambda>k. f (Suc k)) x \<Longrightarrow> runs f x"
  unfolding runs_def by (metis Suc_le_D Suc_le_mono)

lemma runs_feed:
  assumes "runs f (v, rest)" "runs (\<lambda>k. g k v rest) x"
  shows "runs (\<lambda>k. feed (f k) (g k)) x"
proof -
  obtain n m where "\<forall>k \<ge> n. f k = Some (Inr (v, rest))" "\<forall>k \<ge> m. g k v rest = Some (Inr x)"
    using assms unfolding runs_def by blast
  then show ?thesis unfolding runs_def by (intro exI[of _ "max n m"]) simp
qed

definition noFactor :: "string list \<Rightarrow> bool" where
  "noFactor ts \<longleftrightarrow> (case ts of [] \<Rightarrow> True | t # _ \<Rightarrow> t \<noteq> ''*'' \<and> t \<noteq> ''/'')"

definition noTerm :: "string list \<Rightarrow> bool" where
  "noTerm ts \<longleftrightarrow> (case ts of [] \<Rightarrow> True | t # _ \<Rightarrow> t \<noteq> ''+'' \<and> t \<noteq> ''-'')"

lemma runs_primary:
  "startsWith isDigit t \<Longrightarrow> runs (\<lambda>k. primary k vars (t # rest)) (literal t, rest)"
  "startsWith isIdStart t \<Longrightarrow> vars t = Some v \<Longrightarrow> runs (\<lambda>k. primary k vars (t # rest)) (v, rest)"
  "runs (\<lambda>k. primary k vars ts) (v, rest) \<Longrightarrow> runs (\<lambda>k. primary k vars (''-'' # ts)) (- v, rest)"
  "runs (\<lambda>k. expr k vars ts) (v, '')'' # rest) \<Longrightarrow> runs (\<lambda>k. primary k vars (''('' # ts)) (v, rest)"
proof -
  have d: "\<not> startsWith isDigit t" if "startsWith isIdStart t"
    using that digit_not_name by (auto simp: startsWith_def split: list.split_asm)
  have ops: "t \<noteq> ''(''" "t \<noteq> ''-''" "t \<noteq> ''+''" if "startsWith isDigit t \<or> startsWith isIdStart t"
    using that by (auto simp: startsWith_def)
  show "runs (\<lambda>k. primary k vars (t # rest)) (literal t, rest)" if "startsWith isDigit t"
    by (rule runs_Suc) (simp add: ops that runs_const)
  show "runs (\<lambda>k. primary k vars (t # rest)) (v, rest)" if "startsWith isIdStart t" "vars t = Some v"
    by (rule runs_Suc) (simp add: ops d that runs_const)
  show "runs (\<lambda>k. primary k vars (''-'' # ts)) (- v, rest)" if "runs (\<lambda>k. primary k vars ts) (v, rest)"
    by (rule runs_Suc, simp, rule runs_feed[OF that runs_const])
  show "runs (\<lambda>k. primary k vars (''('' # ts)) (v, rest)" if "runs (\<lambda>k. expr k vars ts) (v, '')'' # rest)"
    by (rule runs_Suc, simp, rule runs_feed[OF that]) (simp add: closeParen_def runs_const)
qed

lemma runs_loops:
  "noFactor ts \<Longrightarrow> runs (\<lambda>k. termLoop k vars v ts) (v, ts)"
  "noTerm ts \<Longrightarrow> runs (\<lambda>k. exprLoop k vars v ts) (v, ts)"
  "level op = 1 \<Longrightarrow> runs (\<lambda>k. primary k vars ts) (w, rest) \<Longrightarrow> runs (\<lambda>k. termLoop k vars (apply_op op v w) rest) x \<Longrightarrow>
    runs (\<lambda>k. termLoop k vars v (symbol op # ts)) x"
  "level op = 0 \<Longrightarrow> runs (\<lambda>k. parseTerm k vars ts) (w, rest) \<Longrightarrow> runs (\<lambda>k. exprLoop k vars (apply_op op v w) rest) x \<Longrightarrow>
    runs (\<lambda>k. exprLoop k vars v (symbol op # ts)) x"
proof -
  show "runs (\<lambda>k. termLoop k vars v ts) (v, ts)" if "noFactor ts"
    by (rule runs_Suc) (use that in \<open>cases ts; simp add: noFactor_def runs_const\<close>)
  show "runs (\<lambda>k. exprLoop k vars v ts) (v, ts)" if "noTerm ts"
    by (rule runs_Suc) (use that in \<open>cases ts; simp add: noTerm_def runs_const\<close>)
  show "runs (\<lambda>k. termLoop k vars v (symbol op # ts)) x"
    if "level op = 1" "runs (\<lambda>k. primary k vars ts) (w, rest)" "runs (\<lambda>k. termLoop k vars (apply_op op v w) rest) x"
    by (rule runs_Suc) (use that runs_feed[OF that(2)] in \<open>cases op; simp\<close>)
  show "runs (\<lambda>k. exprLoop k vars v (symbol op # ts)) x"
    if "level op = 0" "runs (\<lambda>k. parseTerm k vars ts) (w, rest)" "runs (\<lambda>k. exprLoop k vars (apply_op op v w) rest) x"
    by (rule runs_Suc) (use that runs_feed[OF that(2)] in \<open>cases op; simp\<close>)
qed

lemma runs_levels:
  "runs (\<lambda>k. primary k vars ts) (v, rest) \<Longrightarrow> runs (\<lambda>k. termLoop k vars v rest) x \<Longrightarrow> runs (\<lambda>k. parseTerm k vars ts) x"
  "runs (\<lambda>k. parseTerm k vars ts) (v, rest) \<Longrightarrow> runs (\<lambda>k. exprLoop k vars v rest) x \<Longrightarrow> runs (\<lambda>k. expr k vars ts) x"
  by (rule runs_Suc, simp, rule runs_feed, assumption+)+

definition parsed_as :: "(string \<rightharpoonup> number) \<Rightarrow> fexp \<Rightarrow> bool" where
  "parsed_as vars e \<longleftrightarrow>
     (\<forall>rest. runs (\<lambda>k. primary k vars (printed 2 e @ rest)) (evalExp vars e, rest)) \<and>
     (\<forall>rest x. runs (\<lambda>k. termLoop k vars (evalExp vars e) rest) x \<longrightarrow> runs (\<lambda>k. parseTerm k vars (printed 1 e @ rest)) x) \<and>
     (\<forall>rest x. noFactor rest \<longrightarrow> runs (\<lambda>k. exprLoop k vars (evalExp vars e) rest) x \<longrightarrow>
        runs (\<lambda>k. expr k vars (printed 0 e @ rest)) x)"

lemma parsed_asI:
  assumes p: "\<And>rest. runs (\<lambda>k. primary k vars (printed 2 e @ rest)) (evalExp vars e, rest)"
    and "printed 1 e = printed 2 e" "printed 0 e = printed 1 e"
  shows "parsed_as vars e"
  unfolding parsed_as_def assms(3) assms(2)
  using p runs_levels(1)[OF p] runs_levels(2)[OF runs_levels(1)[OF p runs_loops(1)]] by blast

lemma parsed_as_parens:
  assumes "\<And>rest x. noFactor rest \<Longrightarrow> runs (\<lambda>k. exprLoop k vars (evalExp vars e) rest) x \<Longrightarrow> runs (\<lambda>k. expr k vars (printed 0 e @ rest)) x"
    and "printed 2 e = ''('' # printed 0 e @ ['')'']"
  shows "runs (\<lambda>k. primary k vars (printed 2 e @ rest)) (evalExp vars e, rest)"
proof -
  have "runs (\<lambda>k. expr k vars (printed 0 e @ '')'' # rest)) (evalExp vars e, '')'' # rest)"
    by (rule assms(1)) (simp add: noFactor_def, rule runs_loops(2), simp add: noTerm_def)
  from runs_primary(4)[OF this] show ?thesis by (simp add: assms(2))
qed

lemma printed_parses: "wellFormed vars e \<Longrightarrow> parsed_as vars e"
proof (induction e)
  case (Lit t)
  then obtain w r where "w \<noteq> []" "list_all isDigit w" "t = w @ r" unfolding wellFormed.simps isNumeral_def by (metis append_Nil2)
  then have "startsWith isDigit t" by (cases w) (simp_all add: startsWith_def)
  then show ?case by (intro parsed_asI) (simp_all add: runs_primary(1))
next
  case (Var x)
  then obtain v where "startsWith isIdStart x" "vars x = Some v" by (auto simp: isName_def)
  then show ?case by (intro parsed_asI) (simp_all add: runs_primary(2))
next
  case (Neg e)
  then show ?case by (intro parsed_asI) (simp_all add: runs_primary(3) parsed_as_def)
next
  case (Bin op a b)
  let ?e = "Bin op a b"
  have "wellFormed vars a" "wellFormed vars b" using Bin.prems by simp_all
  then have a: "parsed_as vars a" and b: "parsed_as vars b" using Bin.IH by blast+
  note A = b[unfolded parsed_as_def, THEN conjunct1, rule_format]
  note Ba = a[unfolded parsed_as_def, THEN conjunct2, THEN conjunct1, rule_format]
  note Bb = b[unfolded parsed_as_def, THEN conjunct2, THEN conjunct1, rule_format]
  note Ca = a[unfolded parsed_as_def, THEN conjunct2, THEN conjunct2, rule_format]
  have parens: "printed 2 ?e = ''('' # printed 0 ?e @ ['')'']" by (cases op) (simp_all add: Let_def)
  show ?case
  proof (cases "level op = 1")
    case True
    have B: "runs (\<lambda>k. parseTerm k vars (printed 1 ?e @ rest)) x"
      if t: "runs (\<lambda>k. termLoop k vars (evalExp vars ?e) rest) x" for rest x
    proof -
      have "runs (\<lambda>k. termLoop k vars (evalExp vars a) (symbol op # printed 2 b @ rest)) x"
        by (rule runs_loops(3)[OF True A]) (use t in simp)
      from Ba[OF this] show ?thesis using True by (simp add: Let_def numeral_2_eq_2)
    qed
    have "printed 0 ?e = printed 1 ?e" using True by (simp add: Let_def)
    then have C: "runs (\<lambda>k. expr k vars (printed 0 ?e @ rest)) x"
      if "noFactor rest" "runs (\<lambda>k. exprLoop k vars (evalExp vars ?e) rest) x" for rest x
      using runs_levels(2)[OF B[OF runs_loops(1)[OF that(1)]] that(2)] by simp
    show ?thesis unfolding parsed_as_def using parsed_as_parens[OF C parens] B C by blast
  next
    case False
    then have 0: "level op = 0" by (cases op) auto
    have C: "runs (\<lambda>k. expr k vars (printed 0 ?e @ rest)) x"
      if t: "noFactor rest" "runs (\<lambda>k. exprLoop k vars (evalExp vars ?e) rest) x" for rest x
    proof -
      have "runs (\<lambda>k. exprLoop k vars (evalExp vars a) (symbol op # printed 1 b @ rest)) x"
        by (rule runs_loops(4)[OF 0 Bb[OF runs_loops(1)[OF t(1)]]]) (use t(2) in simp)
      moreover have "noFactor (symbol op # printed 1 b @ rest)" using 0 by (cases op) (simp_all add: noFactor_def)
      ultimately show ?thesis using Ca 0 by (simp add: Let_def)
    qed
    note P = parsed_as_parens[OF C parens]
    have B: "runs (\<lambda>k. parseTerm k vars (printed 1 ?e @ rest)) x"
      if "runs (\<lambda>k. termLoop k vars (evalExp vars ?e) rest) x" for rest x
    proof -
      have "printed 1 ?e = printed 2 ?e" using 0 by (simp add: Let_def)
      then show ?thesis using runs_levels(1)[OF P that] by simp
    qed
    show ?thesis unfolding parsed_as_def using P B C by blast
  qed
qed

lemma printed_tokens: "wellFormed vars e \<Longrightarrow> list_all isToken (printed k e)"
proof (induction e arbitrary: k)
  case (Bin op a b)
  have "isToken (symbol op)" "isToken ''(''" "isToken '')''"
    by (cases op; simp add: isToken_def operator_chars)+
  then show ?case using Bin by (simp add: Let_def)
qed (auto simp: isToken_def operator_chars)

section \<open>Properties\<close>

text \<open>The tokens of the formula, and the variables it is checked against and priced with.\<close>

lemma evaluate_expr:
  assumes "runs (\<lambda>k. expr k vars ts) (v, rest)"
  shows "expr (3 * length ts + 3) vars ts = Some (Inr (v, rest))"
proof -
  obtain n where n: "\<forall>k \<ge> n. expr k vars ts = Some (Inr (v, rest))" using assms unfolding runs_def by blast
  have "expr (3 * length ts + 3) vars ts \<noteq> None" using parse_returns by blast
  then obtain r where r: "expr (3 * length ts + 3) vars ts = Some r" by blast
  from more_fuel(5)[OF r, of "max n (3 * length ts + 3)"] n r show ?thesis by simp
qed

text \<open>
  C18. Evaluating a formula always ends. On every source text and variables the parser returns, a
  value or an error, with the fuel of three calls a token and three more; with more fuel it returns
  the same.
\<close>

theorem formula_always_returns:
  "\<exists>r. evaluateFormula src vars = Some r \<and>
     (case tokenize src of Inl e \<Rightarrow> r = Inl e
      | Inr ts \<Rightarrow> (\<forall>n. evaluateWith (3 * length ts + 3 + n) vars ts = Some r))"
proof (cases "tokenize src")
  case (Inr ts)
  have "expr (3 * length ts + 3) vars ts \<noteq> None" using parse_returns by blast
  then obtain r where r: "expr (3 * length ts + 3) vars ts = Some r" by blast
  have "expr (3 * length ts + 3 + n) vars ts = Some r" for n using more_fuel(5)[OF r] by simp
  then have e: "evaluateWith (3 * length ts + 3 + n) vars ts = evaluateWith (3 * length ts + 3) vars ts" for n
    by (simp add: evaluateWith_def r)
  have "evaluateWith (3 * length ts + 3) vars ts \<noteq> None"
    unfolding evaluateWith_def r by (cases r) auto
  then obtain r' where "evaluateWith (3 * length ts + 3) vars ts = Some r'" by blast
  then show ?thesis using Inr e by (simp add: evaluateFormula_def)
qed (simp add: evaluateFormula_def)

lemma evaluate_printed:
  assumes "wellFormed vars e" "length (spaced (printed 0 e)) \<le> MAX_LENGTH"
  shows "evaluateFormula (spaced (printed 0 e)) vars =
    Some (if isFinite (evalExp vars e) then Inr (evalExp vars e) else Inl NotFinite)"
proof -
  let ?ts = "printed 0 e"
  have "runs (\<lambda>k. expr k vars (?ts @ [])) (evalExp vars e, [])"
    by (rule printed_parses[OF assms(1), unfolded parsed_as_def, THEN conjunct2, THEN conjunct2, rule_format])
      (simp add: noFactor_def, rule runs_loops(2), simp add: noTerm_def)
  then have "expr (3 * length ?ts + 3) vars ?ts = Some (Inr (evalExp vars e, []))" by (intro evaluate_expr) simp
  moreover have "tokenize (spaced ?ts) = Inr ?ts"
    using assms(2) tokensFrom_spaced[OF printed_tokens[OF assms(1)]] by (simp add: tokenize_def)
  ultimately show ?thesis by (simp add: evaluateFormula_def evaluateWith_def)
qed

text \<open>
  C17. A formula means what its expression means. Print any expression over numerals and known
  variables with only the parentheses its precedences need; if the text fits the length limit,
  evaluating it gives the expression's value in double arithmetic, products binding tighter than
  sums and operators of a level grouping to the left, or \<open>NotFinite\<close> when that value is not a number.
\<close>

theorem formula_means_expression:
  assumes "wellFormed vars e" "length (spaced (printed 0 e)) \<le> MAX_LENGTH"
  shows "evaluateFormula (spaced (printed 0 e)) vars =
    Some (if isFinite (evalExp vars e) then Inr (evalExp vars e) else Inl NotFinite)"
  using assms by (rule evaluate_printed)

definition nested_exp :: fexp where
  "nested_exp = Bin Minus (Bin Minus (Var ''base'') (Var ''km'')) (Bin Times (Bin Plus (Var ''km'') (Var ''tolls'')) (Neg (Var ''diesel'')))"

theorem formula_means_expression_witness:
  "evaluateFormula '' base - km - ( km + tolls ) * - diesel'' (\<lambda>_. Some 0) =
     Some (Inr (0 - 0 - (0 + 0) * (- 0)))"
proof -
  have n: "isName ''base''" "isName ''km''" "isName ''tolls''" "isName ''diesel''"
    by (simp_all add: isName_def startsWith_def isIdChar_def isIdStart_def charCode_def)
  have s: "spaced (printed 0 nested_exp) = '' base - km - ( km + tolls ) * - diesel''"
    by (simp add: spaced_def nested_exp_def)
  have v: "evalExp (\<lambda>_. Some 0) nested_exp = 0 - 0 - (0 + 0) * (- 0)" by (simp add: nested_exp_def)
  have "isFinite (0 - 0 - (0 + 0) * (- 0))" by (simp add: zero_number_def minus_number_def mk_def Let_def)
  moreover have "wellFormed (\<lambda>_. Some 0) nested_exp" using n by (simp add: nested_exp_def)
  ultimately show ?thesis
    using formula_means_expression[of "\<lambda>_. Some 0" nested_exp] unfolding s v by (simp add: MAX_LENGTH_def)
qed

text \<open>
  C19. What the settings form checks. A formula is accepted when it evaluates over sample values of its
  variables. From then on, over any other values of those variables, it never fails for its syntax,
  its length or an unknown name: it gives a value, or \<open>NotFinite\<close>.
\<close>

theorem accepted_formula_never_malformed:
  assumes "evaluateFormula src vars = Some (Inr v)" "dom vars \<subseteq> dom vars'"
  shows "(\<exists>v'. evaluateFormula src vars' = Some (Inr v')) \<or> evaluateFormula src vars' = Some (Inl NotFinite)"
proof -
  obtain ts where ts: "tokenize src = Inr ts" using assms(1) by (cases "tokenize src") (simp_all add: evaluateFormula_def)
  let ?n = "3 * length ts + 3"
  have "evaluateWith ?n vars ts = Some (Inr v)" using assms(1) ts by (simp add: evaluateFormula_def)
  then have "expr ?n vars ts = Some (Inr (v, []))"
    by (auto simp: evaluateWith_def split: option.split_asm sum.split_asm if_split_asm)
  moreover have "sameCourse (expr ?n vars ts) (expr ?n vars' ts)" using parse_course[OF assms(2)] by blast
  ultimately obtain v' where "expr ?n vars' ts = Some (Inr (v', []))" unfolding sameCourse_def by blast
  then show ?thesis using ts by (simp add: evaluateFormula_def evaluateWith_def)
qed

theorem accepted_formula_never_malformed_witness:
  "\<exists>v'. evaluateFormula '' km'' [''km'' \<mapsto> 1] = Some (Inr 1) \<and>
     (evaluateFormula '' km'' [''km'' \<mapsto> NaN] = Some (Inr v') \<or> evaluateFormula '' km'' [''km'' \<mapsto> NaN] = Some (Inl NotFinite))"
proof -
  have "spaced (printed 0 (Var ''km'')) = '' km''" by (simp add: spaced_def)
  moreover have "wellFormed [''km'' \<mapsto> 1] (Var ''km'')" by (simp add: isName_def startsWith_def isIdChar_def isIdStart_def charCode_def)
  ultimately have "evaluateFormula '' km'' [''km'' \<mapsto> 1] = Some (Inr 1)"
    using evaluate_printed[of "[''km'' \<mapsto> 1]" "Var ''km''"] by (simp add: MAX_LENGTH_def one_number_def)
  from this accepted_formula_never_malformed[OF this, of "[''km'' \<mapsto> NaN]"] show ?thesis by auto
qed

text \<open>Accepted on the sample where every figure is 1, and of no value for a trip without tolls.\<close>

lemma accepted_formula_fails_later:
  "evaluateFormula '' km / tolls'' [''km'' \<mapsto> 1, ''tolls'' \<mapsto> 1] = Some (Inr (1 / 1))"
  "evaluateFormula '' km / tolls'' [''km'' \<mapsto> 1, ''tolls'' \<mapsto> 0] = Some (Inl NotFinite)"
proof -
  have n: "isName ''km''" "isName ''tolls''"
    by (simp_all add: isName_def startsWith_def isIdChar_def isIdStart_def charCode_def)
  have s: "spaced (printed 0 (Bin Div (Var ''km'') (Var ''tolls''))) = '' km / tolls''" by (simp add: spaced_def)
  have "isFinite (1 / 1)" using isn_divide[of 1 1 1 1] isn_Num[of 1 False] by (simp add: one_number_def isn_finite)
  then show "evaluateFormula '' km / tolls'' [''km'' \<mapsto> 1, ''tolls'' \<mapsto> 1] = Some (Inr (1 / 1))"
    using evaluate_printed[of "[''km'' \<mapsto> 1, ''tolls'' \<mapsto> 1]" "Bin Div (Var ''km'') (Var ''tolls'')"] n
    unfolding s by (simp add: MAX_LENGTH_def)
  show "evaluateFormula '' km / tolls'' [''km'' \<mapsto> 1, ''tolls'' \<mapsto> 0] = Some (Inl NotFinite)"
    using evaluate_printed[of "[''km'' \<mapsto> 1, ''tolls'' \<mapsto> 0]" "Bin Div (Var ''km'') (Var ''tolls'')"] n
    unfolding s by (simp add: MAX_LENGTH_def one_number_def zero_number_def)
qed

end
