(* ===== verification/PhTolls.thy ===== *)
theory PhTolls
  imports Main
begin

text \<open>
  The Class 3 toll matrix of the Luzon expressways (\<open>packages/shared/src/ph-tolls.ts\<close>), which a
  tenant loads as its own editable toll rates. Text outside ASCII is its UTF-8 bytes.
\<close>

definition PH_TOLLS_AS_OF :: string where
  "PH_TOLLS_AS_OF = ''2026-02-01''"

record ph_toll =
  pht_expressway :: string
  pht_entry :: string
  pht_exit :: string
  pht_feePhp :: int

definition feesFrom :: "string \<Rightarrow> string \<Rightarrow> (string \<times> int) list \<Rightarrow> ph_toll list" where
  "feesFrom expressway entry fees =
     map (\<lambda>(exit, feePhp). \<lparr>pht_expressway = expressway, pht_entry = entry, pht_exit = exit, pht_feePhp = feePhp\<rparr>) fees"

definition PH_CLASS3_TOLLS :: "ph_toll list" where
  "PH_CLASS3_TOLLS =
     feesFrom ''NLEX'' ''Balintawak''
       [(''Mindanao Ave.'', 254), (''Karuhatan'', 254), (''Valenzuela'', 254), (''Meycauayan'', 254),
        (''Marilao'', 254), (''Ciudad de Victoria'', 288), (''Bocaue'', 315), (''Tambubong'', 330),
        (''Balagtas'', 408), (''Tabang'', 471), (''Sta. Rita'', 493), (''Pulilan'', 605),
        (''San Simon'', 797), (''San Fernando'', 943), (''Mexico'', 1059), (''Angeles'', 1198),
        (''Dau'', 1232), (''Sta. Ines'', 1319), (''Mabalacat'', 1319)] @
     feesFrom ''SCTEX'' ''Balintawak (via NLEX)''
       [(''Clark South'', 1352), (''Clark North'', 1400), (''Dolores'', 1430),
        (''Bamban/New Clark City'', 1561), (''Porac'', 1555), (''Concepcion'', 1635),
        (''Floridablanca'', 1824), (''Hacienda Luisita'', 1912), (''Dinalupihan'', 2193),
        (''Tipo/Subic'', 2569)] @
     feesFrom ''TPLEX'' ''La Paz''
       [(''Victoria'', 91), (''Gerona'', 175), (''Paniqui'', 237), (''Moncada'', 396), (''Carmen'', 492),
        (''Urdaneta'', 648), (''Binalonan'', 704), (''Pozorrubio'', 810), (''Sison'', 871),
        (''Rosario/Baguio'', 933)] @
     feesFrom ''SLEX'' ''Magallanes''
       [(''Buendia'', 218), (''C-5'', 218), (''Amorsolo'', 218), (''Bicutan'', 218), (''Sucat'', 252),
        (''Alabang'', 356), (''Filinvest'', 373), (''Susana Heights'', 419), (''San Pedro'', 440),
        (''MCX'', 489), (''Southwoods'', 493), (''Carmona'', 513), (''Mamplasan'', 548),
        (''Sta. Rosa'', 580), (''ABI/Greenfield'', 624), (''Cabuyao'', 653), (''Silangan'', 672),
        (''Calamba'', 735)] @
     feesFrom ''SLEX'' ''Bicutan''
       [(''Calamba'', 587)] @
     feesFrom ''Skyway Stage 3'' ''Buendia''
       [(''Quirino'', 315), (''Nagtahan'', 315), (''Quezon Ave.'', 792), (''Balintawak'', 792)] @
     feesFrom ''Skyway Stage 3'' ''Balintawak''
       [(''E. Rodriguez'', 387), (''Quezon Ave.'', 387), (''Nagtahan'', 792), (''Quirino'', 792)] @
     feesFrom ''STAR'' ''Sto. Tomas''
       [(''Tanauan'', 40), (''Malvar'', 87), (''Calamba'', 102), (''Sto. Toribio'', 145), (''Lipa'', 179),
        (''Ibaan'', 270), (''Batangas'', 337)] @
     feesFrom ''CALAX'' ''Silang Interchange''
       [(''Silang East'', 52), (''Sta. Rosa/Tagaytay'', 136), (''Laguna Blvd.'', 153),
        (''Technopark'', 199), (''Greenfield'', 244)] @
     feesFrom ''CALAX'' ''Silang East''
       [(''Sta. Rosa/Tagaytay'', 83), (''Laguna Blvd.'', 100), (''Technopark'', 146), (''Greenfield'', 192)] @
     feesFrom ''CALAX'' ''Sta. Rosa/Tagaytay''
       [(''Laguna Blvd.'', 43), (''Technopark'', 89), (''Greenfield'', 134)] @
     feesFrom ''CALAX'' ''Laguna Blvd.''
       [(''Technopark'', 45), (''Greenfield'', 91)] @
     feesFrom ''CALAX'' ''Technopark''
       [(''Greenfield'', 45)] @
     feesFrom ''CAVITEX'' (''Para'' @ [CHR 0xC3, CHR 0xB1] @ ''aque'')
       [(''Bacoor/Zapote'', 117), (''Sucat Rd./Dr. A. Santos Ave.'', 114), (''Kawit'', 381)] @
     feesFrom ''CAVITEX'' ''Bacoor/Zapote''
       [(''Sucat Rd./Dr. A. Santos Ave.'', 114), (''Kawit'', 264)] @
     feesFrom ''CAVITEX'' ''Kawit''
       [(''Sucat Rd./Dr. A. Santos Ave.'', 378)] @
     feesFrom ''CAVITEX'' ''Sucat Rd./Dr. A. Santos Ave.''
       [(''C5 Rd. Ext./C.P. Garcia'', 114)] @
     feesFrom ''NAIAX'' ''Andrews Ave./Terminal 3''
       [(''NAIA Terminal 1'', 134), (''NAIA Terminal 2'', 134), (''Entertainment City'', 134),
        (''Macapagal Blvd.'', 134), (''CAVITEX'', 134)] @
     feesFrom ''NAIAX'' ''NAIA Terminal 1''
       [(''Entertainment City'', 104), (''Macapagal Blvd.'', 104), (''CAVITEX'', 104)] @
     feesFrom ''NAIAX'' ''NAIA Terminal 2''
       [(''Entertainment City'', 104), (''Macapagal Blvd.'', 104), (''CAVITEX'', 104)]"

text \<open>\<open>`${t.expressway}|${t.entry}|${t.exit}`\<close>\<close>

definition tollKey :: "string \<Rightarrow> string \<Rightarrow> string \<Rightarrow> string" where
  "tollKey expressway entry exit = expressway @ ''|'' @ entry @ ''|'' @ exit"

definition phTollKey :: "ph_toll \<Rightarrow> string" where
  "phTollKey t = tollKey (pht_expressway t) (pht_entry t) (pht_exit t)"

end
