(* ===== verification/Trucks.thy ===== *)
theory Trucks
  imports Formula PhTolls PaymentProtocol Pricing
begin

text \<open>
  The self-loading truck service (\<open>packages/shared/src/trucks.ts\<close>,
  \<open>apps/api/src/trucks/trucks.service.ts\<close>): the tenant's settings and toll rates, the price of a
  trip, and a request from its estimate over the confirmed kilometres, the negotiated price and the
  call to its payment. The road distance, which the service asks of a routing server before its
  transaction, is an argument. A label of a price line is its template and the numbers in it. The
  lemmas show that a price's lines add up to its total, that the locked cap covers the estimate and
  that a request's checkout never charges above it.
\<close>

section \<open>The price of a trip\<close>

record truck_conf =
  tcf_baseFeePhp :: number
  tcf_driverFeePhp :: number
  tcf_extras :: "truck_extra list"
  tcf_formula :: "string option"
  tcf_rangePct :: number
  tcf_region :: string

definition DEFAULT_TRUCK_FORMULA :: string where
  "DEFAULT_TRUCK_FORMULA = ''base + km * per_km + km * fuel_l_per_km * diesel + driver_fee + extras + tolls''"

definition DEFAULT_SETTINGS :: truck_conf where
  "DEFAULT_SETTINGS = \<lparr>tcf_baseFeePhp = js 0, tcf_driverFeePhp = js 0, tcf_extras = [], tcf_formula = None,
     tcf_rangePct = js 10, tcf_region = ''NCR''\<rparr>"

definition peso :: "number \<Rightarrow> number" where
  "peso n = math_round (n * js 100) / js 100"

definition extraAmount :: "number \<Rightarrow> truck_extra \<Rightarrow> number" where
  "extraAmount km x = (if xtr_per x = PerKm then km * xtr_amountPhp x else xtr_amountPhp x)"

definition extraVars :: "number \<Rightarrow> truck_extra list \<Rightarrow> (string \<rightharpoonup> number)" where
  "extraVars km extras =
     foldl (\<lambda>vars x. let name = formulaVarName (xtr_label x) in
              if name \<noteq> [] \<and> name \<notin> set FORMULA_BASE_VARS then vars(name \<mapsto> extraAmount km x) else vars)
       Map.empty extras"

definition formulaVars ::
  "truck_conf \<Rightarrow> number \<Rightarrow> number \<Rightarrow> number \<Rightarrow> number \<Rightarrow> number \<Rightarrow> (string \<rightharpoonup> number)" where
  "formulaVars conf km perKmPhp fuelLPerKm dieselPhp tollsPhp =
     (extraVars km (tcf_extras conf))
       (''km'' \<mapsto> km, ''base'' \<mapsto> tcf_baseFeePhp conf, ''per_km'' \<mapsto> perKmPhp, ''diesel'' \<mapsto> dieselPhp,
        ''fuel_l_per_km'' \<mapsto> fuelLPerKm, ''driver_fee'' \<mapsto> tcf_driverFeePhp conf, ''tolls'' \<mapsto> tollsPhp,
        ''weight_t'' \<mapsto> js 0,
        ''extras'' \<mapsto> foldl (\<lambda>extras x. extras + extraAmount km x) (js 0) (tcf_extras conf))"

text \<open>The settings form refuses a formula that does not evaluate with every figure at one.\<close>

definition acceptsFormula :: "truck_conf \<Rightarrow> bool" where
  "acceptsFormula conf \<longleftrightarrow>
     (case nonEmpty (tcf_formula conf) of
        None \<Rightarrow> True
      | Some f \<Rightarrow>
          (case evaluateFormula f (formulaVars conf (js 1) (js 1) (js 1) (js 1) (js 1)) of
             Some (Inr _) \<Rightarrow> True
           | _ \<Rightarrow> False))"

record toll_line =
  tll_label :: string
  tll_amountPhp :: number

record truck_price_input =
  tpi_km :: number
  tpi_conf :: truck_conf
  tpi_perKmPhp :: number
  tpi_fuelLPerKm :: number
  tpi_dieselPhp :: number
  tpi_tolls :: "toll_line list"

text \<open>The amounts of the breakdown before rounding, and its lines.\<close>

definition rawLines :: "truck_price_input \<Rightarrow> ((string \<times> number list) \<times> number) list" where
  "rawLines t =
     (let km = tpi_km t; conf = tpi_conf t; perKmPhp = tpi_perKmPhp t; fuelLPerKm = tpi_fuelLPerKm t;
          dieselPhp = tpi_dieselPhp t
      in [((''Base fee'', []), tcf_baseFeePhp conf),
          ((''Distance (# km x PHP #/km)'', [km, perKmPhp]), km * perKmPhp),
          ((''Fuel (# km x # L/km x PHP #/L)'', [km, fuelLPerKm, dieselPhp]), km * fuelLPerKm * dieselPhp),
          ((''Driver's fee'', []), tcf_driverFeePhp conf)] @
         map (\<lambda>x. (if xtr_per x = PerKm then (xtr_label x @ '' (# km x PHP #)'', [km, xtr_amountPhp x])
                   else (xtr_label x, []), extraAmount km x)) (tcf_extras conf) @
         map (\<lambda>t. ((''Toll: '' @ tll_label t, []), tll_amountPhp t)) (tpi_tolls t))"

definition truckLine :: "string \<times> number list \<Rightarrow> number \<Rightarrow> truck_line" where
  "truckLine label amount = \<lparr>tln_label = label, tln_amountPhp = peso amount\<rparr>"

definition lineSum :: "truck_line list \<Rightarrow> number" where
  "lineSum lines = foldl (\<lambda>acc l. acc + tln_amountPhp l) (js 0) lines"

definition formulaTotal :: "truck_price_input \<Rightarrow> string \<Rightarrow> formula_error + number" where
  "formulaTotal t formula =
     the (evaluateFormula formula (formulaVars (tpi_conf t) (tpi_km t) (tpi_perKmPhp t) (tpi_fuelLPerKm t) (tpi_dieselPhp t)
            (foldl (\<lambda>acc t. acc + tll_amountPhp t) (js 0) (tpi_tolls t))))"

definition priceTruckTrip :: "truck_price_input \<Rightarrow> formula_error + truck_price" where
  "priceTruckTrip t =
     (let lines = map (\<lambda>(label, amount). truckLine label amount) (rawLines t);
          sum = peso (lineSum lines);
          priced = (\<lambda>lines total. Inr \<lparr>tpr_km = tpi_km t, tpr_lines = lines, tpr_totalPhp = total,
                                      tpr_lowPhp = None, tpr_highPhp = None\<rparr>)
      in case nonEmpty (tcf_formula (tpi_conf t)) of
           None \<Rightarrow> priced lines sum
         | Some formula \<Rightarrow>
             if formula = DEFAULT_TRUCK_FORMULA then priced lines sum
             else
               (case formulaTotal t formula of
                  Inl e \<Rightarrow> Inl e
                | Inr v \<Rightarrow>
                    let totalPhp = peso (math_max (js 0) v) in
                    if jsEq totalPhp sum then priced lines totalPhp
                    else priced (lines @ [truckLine (''Formula adjustment'', []) (totalPhp - sum)]) totalPhp))"

section \<open>Settings and toll rates\<close>

definition readSettings :: "uuid \<Rightarrow> db \<Rightarrow> truck_conf" where
  "readSettings tenantId d =
     (case find (\<lambda>r. tks_tenantId r = tenantId) (truckSettings d) of
        Some row \<Rightarrow>
          \<lparr>tcf_baseFeePhp = num2 (tks_baseFeePhp row), tcf_driverFeePhp = num2 (tks_driverFeePhp row),
           tcf_extras = tks_extras row, tcf_formula = tks_formula row, tcf_rangePct = num2 (tks_rangePct row),
           tcf_region = tks_region row\<rparr>
      | None \<Rightarrow> DEFAULT_SETTINGS)"

definition saveSettings :: "ctx \<Rightarrow> truck_conf \<Rightarrow> (db, truck_conf) body" where
  "saveSettings c conf d =
     (let row = \<lparr>tks_tenantId = ctx_tenantId c, tks_baseFeePhp = col2 (tcf_baseFeePhp conf),
            tks_driverFeePhp = col2 (tcf_driverFeePhp conf), tks_extras = tcf_extras conf,
            tks_formula = nonEmpty (tcf_formula conf), tks_rangePct = col2 (tcf_rangePct conf),
            tks_region = tcf_region conf\<rparr>
      in returns conf
           (if list_ex (\<lambda>r. tks_tenantId r = ctx_tenantId c) (truckSettings d)
            then d\<lparr>truckSettings := updw (\<lambda>r. tks_tenantId r = ctx_tenantId c) (\<lambda>_. row) (truckSettings d)\<rparr>
            else d\<lparr>truckSettings := truckSettings d @ [row]\<rparr>))"

definition tollRowKey :: "toll_rate \<Rightarrow> string option" where
  "tollRowKey t =
     (case tol_expressway t of
        None \<Rightarrow> None
      | Some e \<Rightarrow>
          let orNull = (\<lambda>s. case s of None \<Rightarrow> ''null'' | Some x \<Rightarrow> x)
          in Some (tollKey e (orNull (tol_entryPoint t)) (orNull (tol_exitPoint t))))"

definition phTollRow :: "ctx \<Rightarrow> uuid \<Rightarrow> ph_toll \<Rightarrow> toll_rate" where
  "phTollRow c i t =
     \<lparr>tol_id = i, tol_tenantId = ctx_tenantId c,
      tol_name = pht_expressway t @ '': '' @ pht_entry t @ '' to '' @ pht_exit t,
      tol_feePhp = 100 * pht_feePhp t, tol_expressway = Some (pht_expressway t),
      tol_entryPoint = Some (pht_entry t), tol_exitPoint = Some (pht_exit t), tol_vehicleClass = 3,
      tol_asOf = Some PH_TOLLS_AS_OF\<rparr>"

definition loadPhTolls :: "ctx \<Rightarrow> (db, nat) body" where
  "loadPhTolls c d =
     (let have = map tollRowKey (filter (\<lambda>t. tol_tenantId t = ctx_tenantId c \<and> tol_expressway t \<noteq> None) (tollRates d));
          missing = filter (\<lambda>t. Some (phTollKey t) \<notin> set have) PH_CLASS3_TOLLS
      in returns (length missing)
           (d\<lparr>tollRates := tollRates d @ map (\<lambda>(k, t). phTollRow c (nextId d + k) t) (enumerate 0 missing),
              nextId := nextId d + length missing\<rparr>))"

definition updateToll :: "ctx \<Rightarrow> uuid \<Rightarrow> number \<Rightarrow> (db, uuid) body" where
  "updateToll c i feePhp d =
     (if list_ex (\<lambda>t. tol_id t = i \<and> tol_tenantId t = ctx_tenantId c) (tollRates d)
      then returns i (d\<lparr>tollRates := updw (\<lambda>t. tol_id t = i \<and> tol_tenantId t = ctx_tenantId c)
                          (tol_feePhp_update (\<lambda>_. col2 feePhp)) (tollRates d)\<rparr>)
      else fails (NotFound ''toll_not_found''))"

definition addToll :: "ctx \<Rightarrow> string \<Rightarrow> number \<Rightarrow> (db, uuid) body" where
  "addToll c name feePhp d =
     returns (nextId d)
       ((fresh d)\<lparr>tollRates := tollRates d @
          [\<lparr>tol_id = nextId d, tol_tenantId = ctx_tenantId c, tol_name = name, tol_feePhp = col2 feePhp,
            tol_expressway = None, tol_entryPoint = None, tol_exitPoint = None, tol_vehicleClass = 3, tol_asOf = None\<rparr>]\<rparr>)"

definition removeToll :: "ctx \<Rightarrow> uuid \<Rightarrow> (db, uuid) body" where
  "removeToll c i d =
     returns i (d\<lparr>tollRates := filter (\<lambda>t. \<not> (tol_id t = i \<and> tol_tenantId t = ctx_tenantId c)) (tollRates d)\<rparr>)"

section \<open>Requests\<close>

definition price :: "time \<Rightarrow> uuid \<Rightarrow> number \<Rightarrow> toll_line list \<Rightarrow> db \<Rightarrow> http_error + truck_price" where
  "price now tenantId km tolls d =
     (let conf = readSettings tenantId d in
      case resolveDieselAndParams now tenantId ''NCR'' d of
        Inl e \<Rightarrow> Inl e
      | Inr ds \<Rightarrow>
          (case priceTruckTrip \<lparr>tpi_km = km, tpi_conf = conf, tpi_perKmPhp = ds_transportPhpPerKm ds,
                  tpi_fuelLPerKm = ds_fuelLPerKm ds, tpi_dieselPhp = ds_pricePhp ds, tpi_tolls = tolls\<rparr> of
             Inl _ \<Rightarrow> Inl (Internal ''FormulaError'')
           | Inr p \<Rightarrow>
               let band = tcf_rangePct conf / js 100
               in Inr (p\<lparr>tpr_lowPhp := Some (peso (tpr_totalPhp p * (js 1 - band))),
                         tpr_highPhp := Some (peso (tpr_totalPhp p * (js 1 + band)))\<rparr>)))"

definition col1 :: "number \<Rightarrow> int" where
  "col1 x = half_away (decimal (val x) * 10)"

definition estimate :: "time \<Rightarrow> http_error + number \<Rightarrow> ctx \<Rightarrow> (db, truck_price) body" where
  "estimate now roadKm c d =
     (case roadKm of
        Inl e \<Rightarrow> fails e
      | Inr km \<Rightarrow> (case price now (ctx_tenantId c) km [] d of Inl e \<Rightarrow> fails e | Inr p \<Rightarrow> returns p d))"

record truck_create =
  tcr_pickup :: string
  tcr_dropoff :: string
  tcr_scheduledFor :: time
  tcr_notes :: "string option"

definition createRequest :: "time \<Rightarrow> http_error + number \<Rightarrow> ctx \<Rightarrow> truck_create \<Rightarrow> (db, uuid) body" where
  "createRequest now roadKm c body d =
     (case roadKm of
        Inl e \<Rightarrow> fails e
      | Inr km \<Rightarrow>
          (case price now (ctx_tenantId c) km [] d of
             Inl e \<Rightarrow> fails e
           | Inr p \<Rightarrow>
               let row = \<lparr>trk_id = nextId d, trk_tenantId = ctx_tenantId c, trk_requestedBy = ctx_userId c,
                     trk_pickup = tcr_pickup body, trk_dropoff = tcr_dropoff body,
                     trk_scheduledFor = tcr_scheduledFor body, trk_notes = tcr_notes body,
                     trk_estimatedKm = col1 km, trk_confirmedKm = None, trk_status = TEstimated, trk_price = p,
                     trk_agreedPricePhp = None,
                     trk_capPhp = Some (col2 (case tpr_highPhp p of Some h \<Rightarrow> h | None \<Rightarrow> tpr_totalPhp p)),
                     trk_callRequestedAt = None, trk_callConfirmedAt = None, trk_callConfirmedBy = None,
                     trk_createdAt = now\<rparr>
               in returns (nextId d)
                    (notifyStaff (ctx_tenantId c) ''truck_requested'' [(''truck_request_id'', JId (nextId d))]
                       ((fresh d)\<lparr>truckRequests := truckRequests d @ [row]\<rparr>))))"

definition listRequests :: "ctx \<Rightarrow> bool \<Rightarrow> db \<Rightarrow> truck_request list" where
  "listRequests c mine d =
     take 100 (orderByDesc trk_createdAt
       (filter (\<lambda>r. mine \<longrightarrow> trk_requestedBy r = ctx_userId c) (truckRequests d)))"

definition setRequest :: "uuid \<Rightarrow> (truck_request \<Rightarrow> truck_request) \<Rightarrow> db \<Rightarrow> db" where
  "setRequest i f d = d\<lparr>truckRequests := updw (\<lambda>r. trk_id r = i) f (truckRequests d)\<rparr>"

definition confirmKm :: "time \<Rightarrow> ctx \<Rightarrow> uuid \<Rightarrow> number \<Rightarrow> uuid list \<Rightarrow> (db, uuid) body" where
  "confirmKm now c i km tollRateIds d =
     (let tolls = map (\<lambda>t. \<lparr>tll_label = tol_name t, tll_amountPhp = num2 (tol_feePhp t)\<rparr>)
            (filter (\<lambda>t. tol_id t \<in> set tollRateIds) (tollRates d))
      in case find (\<lambda>r. trk_id r = i) (truckRequests d) of
           None \<Rightarrow> fails (NotFound ''truck_request_not_found'')
         | Some row \<Rightarrow>
             if trk_status row = TCancelled then fails (Conflict ''truck_request_cancelled'')
             else (case price now (ctx_tenantId c) km tolls d of
                     Inl e \<Rightarrow> fails e
                   | Inr p \<Rightarrow> returns i (setRequest i (\<lambda>r. r\<lparr>trk_confirmedKm := Some (col1 km),
                       trk_status := (if trk_status row = TEstimated then TKmConfirmed else trk_status row),
                       trk_price := p\<rparr>) d)))"

definition visibleRequest :: "ctx \<Rightarrow> uuid \<Rightarrow> db \<Rightarrow> truck_request option" where
  "visibleRequest c i d =
     find (\<lambda>r. trk_id r = i \<and> (ctx_role c = ''customer'' \<longrightarrow> trk_requestedBy r = ctx_userId c)) (truckRequests d)"

definition listMessages :: "ctx \<Rightarrow> uuid \<Rightarrow> (db, (negotiation_message \<times> bool) list) body" where
  "listMessages c i d =
     (case visibleRequest c i d of
        None \<Rightarrow> fails (NotFound ''truck_request_not_found'')
      | Some _ \<Rightarrow>
          returns
            (map (\<lambda>m. (m, msg_authorUserId m = ctx_userId c))
              (take 500 (orderByDesc (\<lambda>m. - msg_createdAt m)
                 (filter (\<lambda>m. msg_truckRequestId m = Some i) (negotiationMessages d))))) d)"

definition postMessage :: "time \<Rightarrow> ctx \<Rightarrow> uuid \<Rightarrow> string \<Rightarrow> number option \<Rightarrow> (db, uuid) body" where
  "postMessage now c i text offerPhp d =
     (case visibleRequest c i d of
        None \<Rightarrow> fails (NotFound ''truck_request_not_found'')
      | Some request \<Rightarrow>
          if trk_status request = TCancelled \<or> trk_status request = TPaid
          then fails (Conflict ''truck_request_closed'')
          else
            let payload = [(''truck_request_id'', JId i),
                  (''offer_php'', (case offerPhp of None \<Rightarrow> JNull | Some x \<Rightarrow> JNum x))];
                d1 = (fresh d)\<lparr>negotiationMessages := negotiationMessages d @
                  [\<lparr>msg_id = nextId d, msg_tenantId = ctx_tenantId c, msg_rentalId = None, msg_truckRequestId = Some i,
                    msg_authorUserId = ctx_userId c,
                    msg_authorRole = (if ctx_role c = ''customer'' then ''customer'' else ''staff''), msg_body = text,
                    msg_offerPhp = map_option col2 offerPhp, msg_createdAt = now\<rparr>]\<rparr>
            in returns (nextId d)
                 (if ctx_role c = ''customer'' then notifyStaff (ctx_tenantId c) ''customer_message'' payload d1
                  else d1\<lparr>notifications := notifications d1 @
                    [\<lparr>ntf_tenantId = ctx_tenantId c, ntf_userId = trk_requestedBy request,
                      ntf_notificationType = ''negotiation_reply'', ntf_payload = payload\<rparr>]\<rparr>))"

definition agree :: "ctx \<Rightarrow> uuid \<Rightarrow> number \<Rightarrow> (db, uuid) body" where
  "agree c i pricePhp d =
     (case visibleRequest c i d of
        None \<Rightarrow> fails (NotFound ''truck_request_not_found'')
      | Some request \<Rightarrow>
          if trk_status request = TCancelled \<or> trk_status request = TPaid
          then fails (Conflict ''truck_request_closed'')
          else returns i (setRequest i
                 (\<lambda>r. r\<lparr>trk_agreedPricePhp := Some (col2 pricePhp), trk_status := TAgreed\<rparr>) d))"

text \<open>An \<open>UPDATE ... WHERE id = $1 AND requested_by = $2 RETURNING\<close> of the caller's own request.\<close>

definition updateOwn :: "ctx \<Rightarrow> uuid \<Rightarrow> (truck_request \<Rightarrow> truck_request) \<Rightarrow> db \<Rightarrow> db option" where
  "updateOwn c i f d =
     (let mine = (\<lambda>r. trk_id r = i \<and> trk_requestedBy r = ctx_userId c) in
      if list_ex mine (truckRequests d) then Some (d\<lparr>truckRequests := updw mine f (truckRequests d)\<rparr>) else None)"

definition requestCall :: "time \<Rightarrow> ctx \<Rightarrow> uuid \<Rightarrow> (db, uuid) body" where
  "requestCall now c i d =
     (case updateOwn c i (trk_callRequestedAt_update (\<lambda>_. Some now)) d of
        None \<Rightarrow> fails (NotFound ''truck_request_not_found'')
      | Some d1 \<Rightarrow> returns i (notifyStaff (ctx_tenantId c) ''call_requested'' [(''truck_request_id'', JId i)] d1))"

definition confirmCall :: "time \<Rightarrow> ctx \<Rightarrow> uuid \<Rightarrow> (db, uuid) body" where
  "confirmCall now c i d =
     (if list_ex (\<lambda>r. trk_id r = i) (truckRequests d)
      then returns i (setRequest i
             (\<lambda>r. r\<lparr>trk_callConfirmedAt := Some now, trk_callConfirmedBy := Some (ctx_userId c)\<rparr>) d)
      else fails (NotFound ''truck_request_not_found''))"

definition approveOverCap :: "ctx \<Rightarrow> uuid \<Rightarrow> (db, uuid) body" where
  "approveOverCap c i d =
     (case find (\<lambda>r. trk_id r = i \<and> trk_requestedBy r = ctx_userId c) (truckRequests d) of
        None \<Rightarrow> fails (NotFound ''truck_request_not_found'')
      | Some row \<Rightarrow>
          if trk_status row \<noteq> TAgreed \<or> trk_agreedPricePhp row = None then fails (Conflict ''price_not_agreed'')
          else returns i (setRequest i (trk_capPhp_update (\<lambda>_. trk_agreedPricePhp row)) d))"

definition cancelOwn :: "ctx \<Rightarrow> uuid \<Rightarrow> (db, uuid) body" where
  "cancelOwn c i d =
     (case updateOwn c i (trk_status_update (\<lambda>_. TCancelled)) d of
        None \<Rightarrow> fails (NotFound ''truck_request_not_found'')
      | Some d1 \<Rightarrow> returns i d1)"

section \<open>The life of a request\<close>

text \<open>The committed operations on truck requests, by whom, those of the payments service included.\<close>

inductive truckStep :: "ctx \<Rightarrow> db \<Rightarrow> db \<Rightarrow> bool" for c where
  create: "committed (createRequest now roadKm c body d) j d' \<Longrightarrow> truckStep c d d'"
| confirmKm: "committed (confirmKm now c i km tolls d) j d' \<Longrightarrow> truckStep c d d'"
| postMessage: "committed (postMessage now c i text offer d) j d' \<Longrightarrow> truckStep c d d'"
| agree: "committed (agree c i p d) j d' \<Longrightarrow> truckStep c d d'"
| requestCall: "committed (requestCall now c i d) j d' \<Longrightarrow> truckStep c d d'"
| confirmCall: "committed (confirmCall now c i d) j d' \<Longrightarrow> truckStep c d d'"
| approveOverCap: "committed (approveOverCap c i d) j d' \<Longrightarrow> truckStep c d d'"
| cancelOwn: "committed (cancelOwn c i d) j d' \<Longrightarrow> truckStep c d d'"
| checkoutTruck: "committed (checkoutTruck env port now c i req origin d) r d' \<Longrightarrow> truckStep c d d'"
| settle: "truckStep c d (settleInvoice t k d)"

inductive_cases truckStepE: "truckStep c d d'"

text \<open>What may become of one request: who requested it is fixed, and its cap moves only by the requester's own hand, to the price agreed.\<close>

definition keepsCap :: "ctx \<Rightarrow> truck_request \<Rightarrow> truck_request \<Rightarrow> bool" where
  "keepsCap c r r' \<longleftrightarrow> trk_requestedBy r' = trk_requestedBy r \<and>
     (trk_capPhp r' = trk_capPhp r \<or>
      trk_requestedBy r = ctx_userId c \<and> trk_status r = TAgreed \<and> trk_capPhp r' = trk_agreedPricePhp r)"

definition soundRequest :: "truck_request \<Rightarrow> bool" where
  "soundRequest r \<longleftrightarrow> (trk_status r = TAgreed \<longrightarrow> trk_agreedPricePhp r \<noteq> None) \<and> trk_capPhp r \<noteq> None"

lemma settleInvoice_requests:
  "truckRequests (settleInvoice t k d) = truckRequests d \<or>
   (\<exists>j. truckRequests (settleInvoice t k d) = updw (\<lambda>r. trk_id r = j) (trk_status_update (\<lambda>_. TPaid)) (truckRequests d))"
  unfolding settleInvoice_def Let_def by (auto split: option.split)

lemma pay_requests:
  "committed (pay env port now c body origin label i d) r d' \<Longrightarrow> truckRequests d' = truckRequests d"
  using payD[of env port now c body origin label i d r d'] by auto

lemma truckInvoice_requests: "truckRequests (snd (truckInvoice now c request agreed d)) = truckRequests d"
  by (simp add: truckInvoice_def Let_def fresh_def split: option.split)

lemma checkoutTruck_requests:
  assumes "committed (checkoutTruck env port now c t body origin d) r d'"
  shows "truckRequests d' = truckRequests d"
proof -
  obtain request agreed i d1 where "truckInvoice now c request agreed d = (i, d1)"
    "committed (pay env port now c body origin ''Self-loading truck'' i d1) r d'"
    by (rule checkoutTruckD[OF assms])
  then show ?thesis using pay_requests truckInvoice_requests[of now c request agreed d] by simp
qed

lemma createRequestD:
  assumes "committed (createRequest now roadKm c body d) j d'"
  obtains km p r where "roadKm = Inr km" "price now (ctx_tenantId c) km [] d = Inr p" "truckRequests d' = truckRequests d @ [r]"
    "trk_id r = nextId d" "trk_price r = p" "trk_status r = TEstimated" "trk_agreedPricePhp r = None"
    "trk_capPhp r = Some (col2 (case tpr_highPhp p of Some h \<Rightarrow> h | None \<Rightarrow> tpr_totalPhp p))"
  using assms by (auto simp: createRequest_def Let_def split: sum.split_asm)

lemma updateOwnD:
  "updateOwn c i f d = Some d' \<Longrightarrow>
   truckRequests d' = updw (\<lambda>r. trk_id r = i \<and> trk_requestedBy r = ctx_userId c) f (truckRequests d)"
  by (auto simp: updateOwn_def Let_def split: if_split_asm)

text \<open>Every operation but a new request rewrites rows in place, and each rewritten row keeps its cap and stays sound.\<close>

definition goodUpdate :: "ctx \<Rightarrow> db \<Rightarrow> (truck_request \<Rightarrow> bool) \<Rightarrow> (truck_request \<Rightarrow> truck_request) \<Rightarrow> bool" where
  "goodUpdate c d p f \<longleftrightarrow>
     (\<forall>r \<in> set (truckRequests d). p r \<longrightarrow> trk_id (f r) = trk_id r \<and> keepsCap c r (f r) \<and> (soundRequest r \<longrightarrow> soundRequest (f r)))"

lemma keepsCap_refl [simp]: "keepsCap c r r"
  by (simp add: keepsCap_def)

lemma keepsCapI: "trk_requestedBy r' = trk_requestedBy r \<Longrightarrow> trk_capPhp r' = trk_capPhp r \<Longrightarrow> keepsCap c r r'"
  by (simp add: keepsCap_def)

lemma visibleRequestD: "visibleRequest c i d = Some r \<Longrightarrow> r \<in> set (truckRequests d) \<and> trk_id r = i"
  unfolding visibleRequest_def by (drule find_SomeD) blast

lemma truckStep_update:
  assumes "truckStep c d d'" "distinct (map trk_id (truckRequests d))"
  shows "(\<exists>r. truckRequests d' = truckRequests d @ [r] \<and> trk_id r = nextId d \<and> soundRequest r) \<or>
    (\<exists>p f. truckRequests d' = updw p f (truckRequests d) \<and> goodUpdate c d p f)"
proof -
  have same: "truckRequests d' = truckRequests d \<Longrightarrow> ?thesis"
    by (intro disjI2 exI[of _ "\<lambda>_. False"] exI[of _ id]) (simp add: updw_def goodUpdate_def)
  have upd: "truckRequests d' = updw p f (truckRequests d) \<Longrightarrow> goodUpdate c d p f \<Longrightarrow> ?thesis" for p f by blast
  show ?thesis using assms(1)
  proof cases
    case (create now roadKm body j)
    then show ?thesis by (elim createRequestD) (auto simp: soundRequest_def)
  next
    case (confirmKm now i km tolls j)
    then obtain row q where f: "find (\<lambda>r. trk_id r = i) (truckRequests d) = Some row"
      and d': "d' = setRequest i (\<lambda>r. r\<lparr>trk_confirmedKm := Some (col1 km),
        trk_status := (if trk_status row = TEstimated then TKmConfirmed else trk_status row), trk_price := q\<rparr>) d"
      by (auto simp: confirmKm_def Let_def split: option.split_asm if_split_asm sum.split_asm)
    show ?thesis
    proof (rule upd)
      show "truckRequests d' = updw (\<lambda>r. trk_id r = i) (\<lambda>r. r\<lparr>trk_confirmedKm := Some (col1 km),
        trk_status := (if trk_status row = TEstimated then TKmConfirmed else trk_status row), trk_price := q\<rparr>) (truckRequests d)"
        by (simp add: d' setRequest_def)
      have "r = row" if "r \<in> set (truckRequests d)" "trk_id r = i" for r
        using distinct_map_eq[OF assms(2)] find_SomeD[OF f] that by blast
      then show "goodUpdate c d (\<lambda>r. trk_id r = i) (\<lambda>r. r\<lparr>trk_confirmedKm := Some (col1 km),
        trk_status := (if trk_status row = TEstimated then TKmConfirmed else trk_status row), trk_price := q\<rparr>)"
        by (auto simp: goodUpdate_def keepsCap_def soundRequest_def)
    qed
  next
    case (postMessage now i msg offer j)
    then show ?thesis using same by (auto simp: postMessage_def Let_def fresh_def split: option.split_asm if_split_asm)
  next
    case (agree i p j)
    then have "truckRequests d' = updw (\<lambda>r. trk_id r = i) (\<lambda>r. r\<lparr>trk_agreedPricePhp := Some (col2 p), trk_status := TAgreed\<rparr>) (truckRequests d)"
      by (auto simp: agree_def setRequest_def split: option.split_asm if_split_asm)
    then show ?thesis by (rule upd) (simp add: goodUpdate_def keepsCap_def soundRequest_def)
  next
    case (requestCall now i j)
    then obtain d1 where "updateOwn c i (trk_callRequestedAt_update (\<lambda>_. Some now)) d = Some d1" "truckRequests d' = truckRequests d1"
      by (auto simp: requestCall_def split: option.split_asm)
    from this(2) updateOwnD[OF this(1)] show ?thesis
      by (intro upd) (simp, simp add: goodUpdate_def keepsCap_def soundRequest_def)
  next
    case (confirmCall now i j)
    then have "truckRequests d' = updw (\<lambda>r. trk_id r = i)
        (\<lambda>r. r\<lparr>trk_callConfirmedAt := Some now, trk_callConfirmedBy := Some (ctx_userId c)\<rparr>) (truckRequests d)"
      by (auto simp: confirmCall_def setRequest_def split: if_split_asm)
    then show ?thesis by (rule upd) (simp add: goodUpdate_def keepsCap_def soundRequest_def)
  next
    case (approveOverCap i j)
    then obtain row where f: "find (\<lambda>r. trk_id r = i \<and> trk_requestedBy r = ctx_userId c) (truckRequests d) = Some row"
      and row: "trk_status row = TAgreed" "trk_agreedPricePhp row \<noteq> None"
      and d': "truckRequests d' = updw (\<lambda>r. trk_id r = i) (trk_capPhp_update (\<lambda>_. trk_agreedPricePhp row)) (truckRequests d)"
      by (auto simp: approveOverCap_def setRequest_def split: option.split_asm if_split_asm)
    have "r = row" if "r \<in> set (truckRequests d)" "trk_id r = i" for r
      using distinct_map_eq[OF assms(2)] find_SomeD[OF f] that by blast
    then show ?thesis using row find_SomeD[OF f]
      by (intro upd[OF d']) (auto simp: goodUpdate_def keepsCap_def soundRequest_def)
  next
    case (cancelOwn i j)
    then have "updateOwn c i (trk_status_update (\<lambda>_. TCancelled)) d = Some d'"
      by (auto simp: cancelOwn_def split: option.split_asm)
    from updateOwnD[OF this] show ?thesis
      by (rule upd) (simp add: goodUpdate_def keepsCap_def soundRequest_def)
  next
    case (checkoutTruck env port now i req origin r)
    then show ?thesis using same checkoutTruck_requests by blast
  next
    case (settle t k)
    from settleInvoice_requests[of t k d] show ?thesis
    proof
      assume "truckRequests (settleInvoice t k d) = truckRequests d"
      with settle same show ?thesis by simp
    next
      assume "\<exists>j. truckRequests (settleInvoice t k d) = updw (\<lambda>r. trk_id r = j) (trk_status_update (\<lambda>_. TPaid)) (truckRequests d)"
      then obtain j where "truckRequests d' = updw (\<lambda>r. trk_id r = j) (trk_status_update (\<lambda>_. TPaid)) (truckRequests d)"
        unfolding settle by (elim exE)
      then show ?thesis by (rule upd) (simp add: goodUpdate_def keepsCap_def soundRequest_def)
    qed
  qed
qed

text \<open>
  C21. The locked cap is the customer's. Whatever operation commits, by whomever, a request stays its
  requester's and keeps its cap, unless the requester moves it to the price agreed (nobody else
  can, and only while a price is agreed); every request keeps a cap, and an agreed one its price.
\<close>

theorem cap_moves_by_requester_only:
  assumes "truckStep c d d'" "distinct (map trk_id (truckRequests d))" "list_all soundRequest (truckRequests d)"
    "r \<in> set (truckRequests d)"
  shows "list_all soundRequest (truckRequests d') \<and>
    (\<exists>r' \<in> set (truckRequests d'). trk_id r' = trk_id r \<and> trk_requestedBy r' = trk_requestedBy r \<and>
      (trk_capPhp r' = trk_capPhp r \<or>
       ctx_userId c = trk_requestedBy r \<and> trk_status r = TAgreed \<and> trk_capPhp r' = trk_agreedPricePhp r))"
  using truckStep_update[OF assms(1,2)]
proof (elim disjE exE conjE)
  fix n assume "truckRequests d' = truckRequests d @ [n]" "soundRequest n"
  then show ?thesis using assms(3,4) by auto
next
  fix p f assume u: "truckRequests d' = updw p f (truckRequests d)" and g: "goodUpdate c d p f"
  have "list_all soundRequest (truckRequests d')"
    using assms(3) g unfolding u by (auto simp: list_all_iff in_updw goodUpdate_def split: if_split)
  moreover have m: "(if p r then f r else r) \<in> set (truckRequests d')" unfolding u in_updw using assms(4) by blast
  have "trk_id (if p r then f r else r) = trk_id r \<and> keepsCap c r (if p r then f r else r)"
    using g assms(4) by (simp add: goodUpdate_def)
  with m have "\<exists>r' \<in> set (truckRequests d'). trk_id r' = trk_id r \<and> keepsCap c r r'" by (intro bexI)
  ultimately show ?thesis unfolding keepsCap_def by (metis (no_types, lifting))
qed

definition hauling :: truck_request where
  "hauling = \<lparr>trk_id = 30, trk_tenantId = 1, trk_requestedBy = 7, trk_pickup = ''Cainta'', trk_dropoff = ''Subic'',
     trk_scheduledFor = 90, trk_notes = None, trk_estimatedKm = 1400, trk_confirmedKm = None, trk_status = TAgreed,
     trk_price = \<lparr>tpr_km = js 140, tpr_lines = [], tpr_totalPhp = js 9000, tpr_lowPhp = None, tpr_highPhp = None\<rparr>,
     trk_agreedPricePhp = Some 900000, trk_capPhp = Some 800000, trk_callRequestedAt = None,
     trk_callConfirmedAt = Some 5, trk_callConfirmedBy = Some 8, trk_createdAt = 0\<rparr>"

definition hauling_db :: db where
  "hauling_db = empty_db\<lparr>truckRequests := [hauling],
     customers := [\<lparr>cus_id = 6, cus_tenantId = 1, cus_userId = Some 7, cus_companyName = ''Acme'', cus_tin = None, cus_secNumber = None,
       cus_billingAddress = None, cus_kycStatus = KycApproved, cus_reviewComment = None, cus_unlockedFields = [], cus_createdAt = 0\<rparr>]\<rparr>"

definition hauler :: ctx where
  "hauler = \<lparr>ctx_tenantId = 1, ctx_userId = 7, ctx_role = ''customer''\<rparr>"

theorem cap_moves_by_requester_only_witness:
  "\<exists>j d'. committed (approveOverCap hauler 30 hauling_db) j d' \<and> map trk_capPhp (truckRequests d') = [Some 900000] \<and>
     list_all soundRequest (truckRequests d')"
proof -
  obtain j d' where c: "committed (approveOverCap hauler 30 hauling_db) j d'" "map trk_capPhp (truckRequests d') = [Some 900000]"
    by (simp add: approveOverCap_def setRequest_def hauler_def hauling_def hauling_db_def)
  have "distinct (map trk_id (truckRequests hauling_db))" "list_all soundRequest (truckRequests hauling_db)" "hauling \<in> set (truckRequests hauling_db)"
    by (simp_all add: hauling_db_def hauling_def soundRequest_def)
  from cap_moves_by_requester_only[OF truckStep.approveOverCap[OF c(1)] this, THEN conjunct1] c show ?thesis by (intro exI conjI)
qed

text \<open>
  C20. A truck request is never charged above its cap. When its checkout commits, the request is the
  caller's own, its price agreed, a company of theirs verified and the call confirmed; the invoice is
  of this request and issued, either the one issued before, at the amount issued then, or a new one of
  exactly the agreed price, which is not above the cap; and one pending payment of exactly the
  invoice's amount is all that is written beside it.
\<close>

theorem truck_charge_within_cap:
  assumes "committed (checkoutTruck env port now c t body origin d) r d'" "amountsOk d"
    and "list_all (\<lambda>q. \<forall>x. trk_agreedPricePhp q = Some x \<or> trk_capPhp q = Some x \<longrightarrow> \<bar>x\<bar> \<le> 2 ^ 44) (truckRequests d)"
  shows "\<exists>request i p. request \<in> set (truckRequests d) \<and> trk_id request = t \<and> trk_requestedBy request = ctx_userId c \<and>
    trk_status request = TAgreed \<and> trk_callConfirmedAt request \<noteq> None \<and>
    (\<exists>company \<in> set (customers d). cus_userId company = Some (ctx_userId c) \<and> cus_kycStatus company = KycApproved) \<and>
    inv_truckRequestId i = Some t \<and> inv_status i = Issued \<and>
    (i \<in> set (invoices d) \<and> invoices d' = invoices d \<or>
     invoices d' = invoices d @ [i] \<and> trk_agreedPricePhp request = Some (inv_amount i) \<and>
     (\<forall>cap. trk_capPhp request = Some cap \<longrightarrow> inv_amount i \<le> cap)) \<and>
    payments d' = payments d @ [p] \<and> pay_invoiceId p = inv_id i \<and> pay_status p = PPending \<and> pay_amount p = inv_amount i"
proof -
  obtain request agreed i d1 where q: "truckPayable c t d = Inr (request, agreed)"
    and ti: "truckInvoice now c request agreed d = (i, d1)"
    and p: "committed (pay env port now c body origin ''Self-loading truck'' i d1) r d'"
    by (rule checkoutTruckD[OF assms(1)])
  note Q = truckPayableD[OF q] and I = truckInvoice_opens[OF ti]
  have company: "\<exists>company \<in> set (customers d). cus_userId company = Some (ctx_userId c) \<and> cus_kycStatus company = KycApproved"
    using q Q unfolding truckPayable_def by (auto simp: list_ex_iff split: option.split_asm if_split_asm)
  have "\<bar>agreed\<bar> \<le> 2 ^ 44" and cap: "\<And>cap. trk_capPhp request = Some cap \<Longrightarrow> \<bar>cap\<bar> \<le> 2 ^ 44"
    using assms(3) Q by (auto simp: list_all_iff)
  then have "agreed \<le> cap" if "trk_capPhp request = Some cap" for cap
    using Q that amt_less[OF amt_num2 amt_num2, of cap agreed] cap[OF that] by force
  moreover have "\<bar>inv_amount i\<bar> \<le> 2 ^ 44"
    using I(1,3) \<open>\<bar>agreed\<bar> \<le> 2 ^ 44\<close> assms(2) by (auto simp: opens_def amountsOk_def)
  moreover obtain m ref where d': "d' = insertPayment now c (inv_id i) m None (col2 (num2 (inv_amount i))) ref PPending d1"
    using payD[OF p] by blast
  define pay where "pay = last (payments d')"
  have d1: "payments d1 = payments d" "inv_status i = Issued"
    "i \<in> set (invoices d) \<and> invoices d1 = invoices d \<or> invoices d1 = invoices d @ [i] \<and> inv_amount i = agreed"
    using I(1,3) by (auto simp: opens_def)
  have "payments d' = payments d @ [pay]" "pay_invoiceId pay = inv_id i" "pay_status pay = PPending"
    "pay_amount pay = col2 (num2 (inv_amount i))" "invoices d' = invoices d1"
    using d1(1) by (simp_all add: pay_def d' insertPayment_def fresh_def)
  ultimately show ?thesis
    using Q I(2) company d1(2,3) col2_num2[of "inv_amount i"]
    by (intro exI[of _ request] exI[of _ i] exI[of _ pay]) auto
qed

theorem truck_charge_within_cap_witness:
  "\<exists>env port r d' p. committed (checkoutTruck env port 9 hauler 30 \<lparr>chk_method = None, chk_cash = True\<rparr> None
       (hauling_db\<lparr>truckRequests := [hauling\<lparr>trk_capPhp := Some 900000\<rparr>]\<rparr>)) r d' \<and>
     payments d' = [p] \<and> pay_amount p = 900000"
proof -
  let ?d = "hauling_db\<lparr>truckRequests := [hauling\<lparr>trk_capPhp := Some 900000\<rparr>]\<rparr>"
  have "\<not> num2 900000 < num2 900000" using amt_less[OF amt_num2 amt_num2, of 900000 900000] by simp
  then obtain env port r d' where x:
    "committed (checkoutTruck env port 9 hauler 30 \<lparr>chk_method = None, chk_cash = True\<rparr> None ?d) r d'"
    by (simp add: checkoutTruck_def truckPayable_def truckInvoice_def pay_def issueCash_def hauler_def hauling_def hauling_db_def
        empty_db_def Let_def split: prod.split)
  have a: "amountsOk ?d" by (simp add: amountsOk_def hauling_db_def empty_db_def)
  have b: "list_all (\<lambda>q. \<forall>x. trk_agreedPricePhp q = Some x \<or> trk_capPhp q = Some x \<longrightarrow> \<bar>x\<bar> \<le> 2 ^ 44) (truckRequests ?d)"
    by (simp add: hauling_def)
  from truck_charge_within_cap[OF x a b] have "\<exists>p. payments d' = [p] \<and> pay_amount p = 900000"
    by (elim exE conjE) (auto simp: hauling_def hauling_db_def empty_db_def)
  then obtain p where "payments d' = [p]" "pay_amount p = 900000" by (elim exE conjE)
  with x show ?thesis by (intro exI conjI)
qed

section \<open>What the operations do not check\<close>

text \<open>A paid request can be cancelled: the money stays, the truck does not come.\<close>

lemma paid_request_cancelled:
  "\<exists>j d'. committed (cancelOwn hauler 30 (hauling_db\<lparr>truckRequests := [hauling\<lparr>trk_status := TPaid\<rparr>]\<rparr>)) j d' \<and>
     map trk_status (truckRequests d') = [TCancelled]"
  by (simp add: cancelOwn_def updateOwn_def hauler_def hauling_def Let_def)

text \<open>A price agreed anew after a first checkout is not the one charged: the invoice issued then is reused as it is.\<close>

lemma renegotiated_price_not_charged:
  assumes "find (\<lambda>i. inv_truckRequestId i = Some (trk_id request) \<and> inv_status i = Issued) (invoices d) = Some i"
  shows "truckInvoice now c request agreed d = (i, d)"
  using assms by (simp add: truckInvoice_def)

text \<open>Loading the toll matrix again adds nothing.\<close>

lemma ph_tolls_load_once:
  assumes "committed (loadPhTolls c d) n d1"
  shows "committed (loadPhTolls c d1) m d2 \<longleftrightarrow> m = 0 \<and> d2 = d1"
proof -
  define got where "got = (\<lambda>d :: db. set (map tollRowKey (filter (\<lambda>t. tol_tenantId t = ctx_tenantId c \<and> tol_expressway t \<noteq> None) (tollRates d))))"
  define missing where "missing = filter (\<lambda>t. Some (phTollKey t) \<notin> got d) PH_CLASS3_TOLLS"
  have d1: "tollRates d1 = tollRates d @ map (\<lambda>(k, t). phTollRow c (nextId d + k) t) (enumerate 0 missing)"
    using assms by (auto simp: loadPhTolls_def Let_def missing_def got_def)
  have row: "tollRowKey (phTollRow c k t) = Some (phTollKey t)" "tol_tenantId (phTollRow c k t) = ctx_tenantId c"
    "tol_expressway (phTollRow c k t) \<noteq> None" for k t
    by (simp_all add: tollRowKey_def phTollRow_def phTollKey_def Let_def)
  have "Some (phTollKey t) \<in> got d1" if "t \<in> set PH_CLASS3_TOLLS" for t
  proof (cases "Some (phTollKey t) \<in> got d")
    case True
    then show ?thesis by (auto simp: got_def d1)
  next
    case False
    then have "t \<in> set missing" using that by (simp add: missing_def)
    then obtain k where "(k, t) \<in> set (enumerate 0 missing)" by (metis imageE list.set_map map_snd_enumerate prod.collapse)
    then have "phTollRow c (nextId d + k) t \<in> set (tollRates d1)" unfolding d1 by force
    then show ?thesis unfolding got_def using row[of "nextId d + k" t] by (force simp: image_iff)
  qed
  then have "filter (\<lambda>t. Some (phTollKey t) \<notin> got d1) PH_CLASS3_TOLLS = []" by (simp add: filter_empty_conv)
  then show ?thesis by (simp add: loadPhTolls_def Let_def got_def)
qed

end
