(* ===== verification/TruckPrices.thy ===== *)
theory TruckPrices
  imports Trucks
begin

text \<open>
  The price of a trip in double arithmetic: rounding to the centavo, the sum of the lines, the ends of
  the estimate's band. The lines shown add up to the total, and the cap a request locks, the band's
  high end, is never below the estimate.
\<close>

section \<open>The arithmetic of a price\<close>

lemma isn_peso:
  assumes v: "isn x v" and b: "\<bar>v\<bar> \<le> 2 ^ 50"
  shows "amt (peso x) \<lfloor>fl (v * 100) + 1 / 2\<rfloor>"
proof -
  have b1: "\<bar>v * 100\<bar> \<le> 2 ^ 57" using b by (simp add: abs_mult)
  have 1: "isn (x * js 100) (fl (v * 100))" by (rule isn_times[OF v isn_100]) (use b1 in simp)
  have b2: "\<bar>fl (v * 100)\<bar> \<le> 2 ^ 58" using fl_bound[OF b1] by simp
  have "\<bar>of_int \<lfloor>fl (v * 100) + 1 / 2\<rfloor> :: rat\<bar> \<le> 2 ^ 58 + 1"
    using b2 by (intro abs_leI; simp add: abs_le_iff; linarith)
  then have "\<bar>of_int \<lfloor>fl (v * 100) + 1 / 2\<rfloor> / 100 :: rat\<bar> \<le> 2 ^ 200" by simp
  from isn_divide[OF isn_math_round[OF 1] isn_100 _ this] show ?thesis by (simp add: peso_def amt_def dbl.cv_def)
qed

lemma fl_hundred: "\<bar>v\<bar> \<le> 2 ^ 44 \<Longrightarrow> \<bar>fl (v * 100) - v * 100\<bar> \<le> 1 / 4"
proof -
  assume "\<bar>v\<bar> \<le> 2 ^ 44"
  then have "\<bar>v * 100\<bar> \<le> 2 ^ 44 * 100" by (simp add: abs_mult)
  then have "\<bar>fl (v * 100) - v * 100\<bar> \<le> 2 ^ 44 * 100 / 2 ^ 53 + 1 / 2 ^ 200" by (rule dbl.rd_bound)
  also have "\<dots> \<le> 1 / 4" by simp
  finally show ?thesis .
qed

lemma peso_near:
  assumes "near x k e" "e \<le> 1 / 500" "\<bar>k\<bar> \<le> 2 ^ 44"
  shows "amt (peso x) k"
proof -
  obtain v where v: "isn x v" "\<bar>v - of_int k / 100\<bar> \<le> e" using assms(1) by (auto simp: near_def)
  have k: "\<bar>of_int k / 100 :: rat\<bar> \<le> 2 ^ 44 / 100" using dbl.of_int_abs_le[OF assms(3)] by simp
  have b: "\<bar>v\<bar> \<le> 2 ^ 44" using dbl.absD[OF v(2)] dbl.absD[OF k] assms(2) by (intro abs_leI) simp_all
  then have "\<bar>fl (v * 100) - v * 100\<bar> \<le> 1 / 4" by (rule fl_hundred)
  then have "of_int k \<le> fl (v * 100) + 1 / 2" "fl (v * 100) + 1 / 2 < of_int k + 1"
    using dbl.absD[OF v(2)] dbl.absD[of "fl (v * 100) - v * 100" "1 / 4"] assms(2) by simp_all
  then have "\<lfloor>fl (v * 100) + 1 / 2\<rfloor> = k" unfolding floor_eq_iff by blast
  with isn_peso[OF v(1)] b show ?thesis by simp
qed

text \<open>An amount rounded to the centavo: never below another amount the exact figure is not below, and never above one it is not above.\<close>

lemma peso_between:
  assumes "isn x v" "of_int a / 100 - 1 / 500 \<le> v" "v \<le> of_int b / 100 + 1 / 500" "\<bar>v\<bar> \<le> 2 ^ 44"
  shows "\<exists>k. amt (peso x) k \<and> a \<le> k \<and> k \<le> b"
proof -
  let ?k = "\<lfloor>fl (v * 100) + 1 / 2\<rfloor>"
  have "\<bar>fl (v * 100) - v * 100\<bar> \<le> 1 / 4" by (rule fl_hundred[OF assms(4)])
  then have "of_int a \<le> fl (v * 100) + 1 / 2" "fl (v * 100) + 1 / 2 < of_int b + 1"
    using assms(2,3) dbl.absD[of "fl (v * 100) - v * 100" "1 / 4"] by simp_all
  then have "a \<le> ?k \<and> ?k \<le> b" by (simp add: le_floor_iff floor_less_iff flip: floor_le_iff)
  moreover have "\<bar>v\<bar> \<le> 2 ^ 50" using assms(4) by simp
  ultimately show ?thesis using isn_peso[OF assms(1)] by blast
qed

lemma peso_of:
  assumes "isn x v" "0 \<le> v" "v \<le> 2 ^ 30"
  shows "\<exists>k. amt (peso x) k \<and> 0 \<le> k \<and> k \<le> 100 * \<lceil>v\<rceil>"
proof (rule peso_between[OF assms(1)])
  show "v \<le> of_int (100 * \<lceil>v\<rceil>) / 100 + 1 / 500" using le_of_int_ceiling[of v] by simp linarith
qed (use assms(2,3) in simp_all)

definition payableAmount :: "number \<Rightarrow> bool" where
  "payableAmount x \<longleftrightarrow> (\<exists>v. isn x v \<and> 0 \<le> v \<and> v \<le> 2 ^ 20)"

lemma lines_amounts:
  assumes "list_all payableAmount xs"
  shows "\<exists>ks. list_all2 amt (map peso xs) ks \<and> (\<forall>k \<in> set ks. 0 \<le> k \<and> k \<le> 104857600)"
  using assms
proof (induction xs)
  case (Cons x xs)
  then obtain v where v: "isn x v" "0 \<le> v" "v \<le> 2 ^ 20" by (auto simp: payableAmount_def)
  then have c: "\<lceil>v\<rceil> \<le> 1048576" by (simp add: ceiling_le_iff)
  obtain k where "amt (peso x) k" "0 \<le> k" "k \<le> 100 * \<lceil>v\<rceil>" using peso_of[OF v(1,2)] v(3) by auto
  moreover from this(3) c have "k \<le> 104857600" by linarith
  moreover obtain ks where "list_all2 amt (map peso xs) ks" "\<forall>k \<in> set ks. 0 \<le> k \<and> k \<le> 104857600" using Cons by auto
  ultimately show ?case by (intro exI[of _ "k # ks"]) simp
qed simp

lemma lineSum_map: "lineSum ls = foldl (+) (js 0) (map tln_amountPhp ls)"
  by (simp add: lineSum_def foldl_map)

lemma peso_lineSum:
  assumes "list_all2 amt (map tln_amountPhp ls) ks" "\<forall>k \<in> set ks. 0 \<le> k \<and> k \<le> 104857600" "length ls \<le> 512"
  shows "amt (peso (lineSum ls)) (sum_list ks)" "0 \<le> sum_list ks" "sum_list ks \<le> 2 ^ 36"
proof -
  have len: "length ks = length ls" using list_all2_lengthD[OF assms(1)] by simp
  have "sum_list ks \<le> int (length ks) * 104857600" using sum_le_mult[of ks id 104857600] assms(2) by simp
  then show b: "sum_list ks \<le> 2 ^ 36" using assms(3) len by simp
  show p: "0 \<le> sum_list ks" using assms(2) by (simp add: sum_list_nonneg)
  obtain v where "isn (lineSum ls) v" "\<bar>v - of_int (sum_list ks) / 100\<bar> \<le> 1 / 1000"
    unfolding lineSum_map by (rule amt_foldl[OF assms(1)]) (use assms len b in auto)
  then have "near (lineSum ls) (sum_list ks) (1 / 1000)" by (rule nearI)
  then show "amt (peso (lineSum ls)) (sum_list ks)" by (rule peso_near) (use p b in simp_all)
qed

text \<open>
  The breakdown adds up. Whenever a trip is priced, by the default sum or by the tenant's own
  formula, the amounts of the lines shown, the adjustment line included, are whole centavos whose
  exact sum is the total.
\<close>

theorem truck_lines_add_up:
  assumes "priceTruckTrip t = Inr p" "list_all payableAmount (map snd (rawLines t))" "length (rawLines t) \<le> 512"
    and "\<And>f v. nonEmpty (tcf_formula (tpi_conf t)) = Some f \<Longrightarrow> formulaTotal t f = Inr v \<Longrightarrow> \<exists>w. isn v w \<and> w \<le> 2 ^ 28"
  shows "\<exists>ks. list_all2 amt (map tln_amountPhp (tpr_lines p)) ks \<and> amt (tpr_totalPhp p) (sum_list ks) \<and> 0 \<le> sum_list ks"
proof -
  define ls where "ls = map (\<lambda>(label, amount). truckLine label amount) (rawLines t)"
  define s where "s = peso (lineSum ls)"
  have "map tln_amountPhp ls = map peso (map snd (rawLines t))" by (simp add: ls_def truckLine_def case_prod_beta)
  then obtain ks where ks: "list_all2 amt (map tln_amountPhp ls) ks" "\<forall>k \<in> set ks. 0 \<le> k \<and> k \<le> 104857600"
    using lines_amounts[OF assms(2)] by auto
  have "length ls \<le> 512" using assms(3) by (simp add: ls_def)
  note S = peso_lineSum[OF ks this, folded s_def]
  consider "tpr_lines p = ls" "tpr_totalPhp p = s"
    | f v where "nonEmpty (tcf_formula (tpi_conf t)) = Some f" "formulaTotal t f = Inr v" "tpr_totalPhp p = peso (math_max (js 0) v)"
      "tpr_lines p = ls \<and> jsEq (tpr_totalPhp p) s \<or> tpr_lines p = ls @ [truckLine (''Formula adjustment'', []) (tpr_totalPhp p - s)]"
    using assms(1) unfolding priceTruckTrip_def Let_def ls_def[symmetric] s_def[symmetric]
    by (auto split: option.split_asm if_split_asm sum.split_asm)
  then show ?thesis
  proof cases
    case 1
    then show ?thesis using ks(1) S by auto
  next
    case (2 f v)
    obtain w where w: "isn v w" "w \<le> 2 ^ 28" using assms(4)[OF 2(1,2)] by blast
    have "isn (js 0) 0" using js_isn[of 0] by simp
    from isn_math_max[OF this w(1)] have m: "isn (math_max (js 0) v) (max 0 w)" .
    obtain T where T: "amt (tpr_totalPhp p) T" "0 \<le> T" "T \<le> 100 * \<lceil>max 0 w\<rceil>"
      using peso_of[OF m] w(2) unfolding 2(3) by auto
    have "\<lceil>max 0 w\<rceil> \<le> 268435456" using w(2) by (simp add: ceiling_le_iff)
    then have "T \<le> 26843545600" using T(3) by linarith
    then have T2: "T \<le> 2 ^ 36" by simp
    show ?thesis using 2(4)
    proof (elim disjE conjE)
      assume "tpr_lines p = ls" "jsEq (tpr_totalPhp p) s"
      then have "T = sum_list ks"
        using amt_less_eq[OF T(1) S(1)] amt_less_eq[OF S(1) T(1)] T(2) T2 S(2,3) by (simp add: jsEq_def)
      then show ?thesis using \<open>tpr_lines p = ls\<close> ks(1) T(1,2) by auto
    next
      assume l: "tpr_lines p = ls @ [truckLine (''Formula adjustment'', []) (tpr_totalPhp p - s)]"
      have "near (tpr_totalPhp p) T (1 / 4000)" "near s (sum_list ks) (1 / 4000)" using T S T2 by (auto intro!: near_amt)
      then have "near (tpr_totalPhp p - s) (T - sum_list ks) (1 / 4000 + 1 / 4000 + 1 / 100000)"
        by (rule near_minus) (use T T2 S in auto)
      then have "amt (peso (tpr_totalPhp p - s)) (T - sum_list ks)" by (rule peso_near) (use T T2 S in auto)
      then have "list_all2 amt (map tln_amountPhp (tpr_lines p)) (ks @ [T - sum_list ks])"
        using ks(1) by (simp add: l truckLine_def list_all2_appendI)
      then show ?thesis using T(1,2) by (intro exI[of _ "ks @ [T - sum_list ks]"]) simp
    qed
  qed
qed

definition toll_trip :: truck_price_input where
  "toll_trip = \<lparr>tpi_km = js 0, tpi_conf = DEFAULT_SETTINGS, tpi_perKmPhp = js 0, tpi_fuelLPerKm = js 0, tpi_dieselPhp = js 0,
     tpi_tolls = [\<lparr>tll_label = ''SLEX'', tll_amountPhp = js 735\<rparr>]\<rparr>"

theorem truck_lines_add_up_witness:
  "\<exists>p ks. priceTruckTrip toll_trip = Inr p \<and> list_all2 amt (map tln_amountPhp (tpr_lines p)) ks \<and> amt (tpr_totalPhp p) (sum_list ks)"
proof -
  have z: "isn (js 0) 0" "isn (js 735) 735" using isn_int[of 0] isn_int[of 735] by simp_all
  have "isn (js 0 * js 0) 0" "isn (js 0 * js 0 * js 0) 0"
    using isn_times[OF z(1) z(1)] isn_times[OF isn_times[OF z(1) z(1)] z(1)] by simp_all
  then have "list_all payableAmount (map snd (rawLines toll_trip))"
    using z by (auto simp: rawLines_def toll_trip_def DEFAULT_SETTINGS_def payableAmount_def Let_def)
  moreover have "length (rawLines toll_trip) \<le> 512" by (simp add: rawLines_def toll_trip_def DEFAULT_SETTINGS_def Let_def)
  moreover have n: "nonEmpty (tcf_formula (tpi_conf toll_trip)) = None" by (simp add: toll_trip_def DEFAULT_SETTINGS_def nonEmpty_def)
  moreover obtain p where p: "priceTruckTrip toll_trip = Inr p" by (simp add: priceTruckTrip_def Let_def n)
  ultimately have "\<exists>ks. list_all2 amt (map tln_amountPhp (tpr_lines p)) ks \<and> amt (tpr_totalPhp p) (sum_list ks) \<and> 0 \<le> sum_list ks"
    by (intro truck_lines_add_up[of toll_trip p]) simp_all
  with p show ?thesis by blast
qed

section \<open>The band of the estimate\<close>

text \<open>The total times a factor of at most two either side of one, as a band's ends are.\<close>

lemma band_end:
  assumes "amt x T" "0 \<le> T" "T \<le> 2 ^ 36" "isn y s" "\<bar>s\<bar> \<le> 3"
  shows "\<exists>v. isn (x * y) v \<and> \<bar>v - dbl.cv T * s\<bar> \<le> 1 / 2 ^ 20 \<and> \<bar>v\<bar> \<le> 2 ^ 33"
    and "0 \<le> dbl.cv T" "dbl.cv T \<le> 687194768" "\<bar>dbl.cv T - of_int T / 100\<bar> \<le> 1 / 4000"
proof -
  have t: "of_int T \<le> (68719476736 :: rat)" using dbl.of_int_abs_le[of T 36] assms(2,3) by simp
  show n: "\<bar>dbl.cv T - of_int T / 100\<bar> \<le> 1 / 4000" by (rule dbl.cv_near_small) (use assms(2,3) in simp)
  then show c: "0 \<le> dbl.cv T" "dbl.cv T \<le> 687194768"
    using dbl.absD[of "dbl.cv T - of_int T / 100" "1 / 4000"] t assms(2) fl_nonneg[of "of_int T / 100"]
    by (simp_all add: dbl.cv_def)
  have b: "\<bar>dbl.cv T * s\<bar> \<le> 687194768 * 3"
    unfolding abs_mult by (rule mult_mono) (use c assms(5) in simp_all)
  have 1: "isn (x * y) (fl (dbl.cv T * s))"
    using assms(1,4) b by (intro isn_times) (auto simp: amt_def)
  have e: "\<bar>fl (dbl.cv T * s) - dbl.cv T * s\<bar> \<le> 687194768 * 3 / 2 ^ 53 + 1 / 2 ^ 200" by (rule dbl.rd_bound[OF b])
  moreover have "\<bar>fl (dbl.cv T * s)\<bar> \<le> 2 ^ 33" using dbl.absD[OF e] dbl.absD[OF b] by (intro abs_leI) simp_all
  ultimately show "\<exists>v. isn (x * y) v \<and> \<bar>v - dbl.cv T * s\<bar> \<le> 1 / 2 ^ 20 \<and> \<bar>v\<bar> \<le> 2 ^ 33"
    using 1 by (intro exI[of _ "fl (dbl.cv T * s)"]) simp
qed

lemma band_factor:
  assumes "amt r k" "0 \<le> k" "k \<le> 10000"
  shows "\<exists>u. isn (js 1 - r / js 100) u \<and> - (1 / 2 ^ 40) \<le> u \<and> u \<le> 1 + 1 / 2 ^ 40"
    and "\<exists>u. isn (js 1 + r / js 100) u \<and> 1 - 1 / 2 ^ 40 \<le> u \<and> u \<le> 3"
proof -
  have 1: "isn (js 1) 1" using js_isn[of 1] fl_of_int[of 1] by simp
  have r: "isn r (dbl.cv k)" using assms(1) by (simp add: amt_def)
  have c0: "0 \<le> dbl.cv k" using assms(2) by (simp add: dbl.cv_def fl_nonneg)
  have "dbl.cv 10000 = 100" using fl_of_int[of 100] by (simp add: dbl.cv_def)
  then have c1: "dbl.cv k \<le> 100" using dbl.cv_less_iff[of 10000 k] assms(2,3) by (simp add: not_less[symmetric])
  define b where "b = fl (dbl.cv k / 100)"
  have b: "isn (r / js 100) b" unfolding b_def by (rule isn_divide[OF r isn_100]) (use c0 c1 in simp_all)
  have b0: "0 \<le> b" unfolding b_def by (rule fl_nonneg) (use c0 in simp)
  have "\<bar>b - dbl.cv k / 100\<bar> \<le> 1 / 2 ^ 53 + 1 / 2 ^ 200" unfolding b_def by (rule dbl.rd_bound) (use c0 c1 in simp)
  then have b1: "b \<le> 1 + 1 / 2 ^ 50" using dbl.absD(2)[of "b - dbl.cv k / 100" "1 / 2 ^ 53 + 1 / 2 ^ 200"] c1 by simp
  have m: "\<bar>fl (1 - b) - (1 - b)\<bar> \<le> 2 / 2 ^ 53 + 1 / 2 ^ 200" and p: "\<bar>fl (1 + b) - (1 + b)\<bar> \<le> 3 / 2 ^ 53 + 1 / 2 ^ 200"
    by (rule dbl.rd_bound, use b0 b1 in \<open>simp add: abs_le_iff\<close>)+
  show "\<exists>u. isn (js 1 - r / js 100) u \<and> - (1 / 2 ^ 40) \<le> u \<and> u \<le> 1 + 1 / 2 ^ 40"
    using dbl.absD[OF m] b0 b1 by (intro exI[of _ "fl (1 - b)"] conjI isn_minus[OF 1 b]) (simp_all add: abs_le_iff)
  show "\<exists>u. isn (js 1 + r / js 100) u \<and> 1 - 1 / 2 ^ 40 \<le> u \<and> u \<le> 3"
    using dbl.absD[OF p] b0 b1 by (intro exI[of _ "fl (1 + b)"] conjI isn_plus[OF 1 b]) (simp_all add: abs_le_iff)
qed

lemma band_ends:
  assumes "amt x T" "0 \<le> T" "T \<le> 2 ^ 36" "amt r k" "0 \<le> k" "k \<le> 10000"
  shows "\<exists>L. amt (peso (x * (js 1 - r / js 100))) L \<and> 0 \<le> L \<and> L \<le> T"
    and "\<exists>H. amt (peso (x * (js 1 + r / js 100))) H \<and> T \<le> H \<and> H \<le> 2 ^ 40"
proof -
  obtain u where u: "isn (js 1 - r / js 100) u" "- (1 / 2 ^ 40) \<le> u" "u \<le> 1 + 1 / 2 ^ 40"
    using band_factor(1)[OF assms(4-6)] by blast
  have ua: "\<bar>u\<bar> \<le> 3" using u by (simp add: abs_le_iff)
  note B = band_end[OF assms(1-3) u(1) ua]
  obtain v where v: "isn (x * (js 1 - r / js 100)) v" "\<bar>v - dbl.cv T * u\<bar> \<le> 1 / 2 ^ 20" "\<bar>v\<bar> \<le> 2 ^ 33"
    using B(1) by blast
  have "dbl.cv T * u \<le> dbl.cv T * (1 + 1 / 2 ^ 40)" by (rule mult_left_mono[OF u(3) B(2)])
  moreover have "dbl.cv T * - (1 / 2 ^ 40) \<le> dbl.cv T * u" by (rule mult_left_mono[OF u(2) B(2)])
  ultimately have "of_int 0 / 100 - 1 / 500 \<le> v" "v \<le> of_int T / 100 + 1 / 500"
    using dbl.absD[OF v(2)] dbl.absD[OF B(4)] B(3) by (simp_all add: algebra_simps)
  from peso_between[OF v(1) this] v(3) show "\<exists>L. amt (peso (x * (js 1 - r / js 100))) L \<and> 0 \<le> L \<and> L \<le> T" by auto
next
  obtain u where u: "isn (js 1 + r / js 100) u" "1 - 1 / 2 ^ 40 \<le> u" "u \<le> 3"
    using band_factor(2)[OF assms(4-6)] by blast
  have ua: "\<bar>u\<bar> \<le> 3" using u by (simp add: abs_le_iff)
  note B = band_end[OF assms(1-3) u(1) ua]
  obtain v where v: "isn (x * (js 1 + r / js 100)) v" "\<bar>v - dbl.cv T * u\<bar> \<le> 1 / 2 ^ 20" "\<bar>v\<bar> \<le> 2 ^ 33"
    using B(1) by blast
  have "dbl.cv T * (1 - 1 / 2 ^ 40) \<le> dbl.cv T * u" by (rule mult_left_mono[OF u(2) B(2)])
  then have "of_int T / 100 - 1 / 500 \<le> v" using dbl.absD[OF v(2)] dbl.absD[OF B(4)] B(3) by (simp add: algebra_simps)
  moreover have "v \<le> of_int (2 ^ 40) / 100 + 1 / 500" using dbl.absD[OF v(3)] by simp
  ultimately show "\<exists>H. amt (peso (x * (js 1 + r / js 100))) H \<and> T \<le> H \<and> H \<le> 2 ^ 40"
    using peso_between[OF v(1)] v(3) by auto
qed

lemma priceD:
  assumes "price now t km tolls d = Inr p"
  shows "tpr_lowPhp p = Some (peso (tpr_totalPhp p * (js 1 - tcf_rangePct (readSettings t d) / js 100)))"
    "tpr_highPhp p = Some (peso (tpr_totalPhp p * (js 1 + tcf_rangePct (readSettings t d) / js 100)))"
  using assms by (auto simp: price_def Let_def split: sum.split_asm)

text \<open>
  C22. The estimate's band and the cap it locks. A new request carries no agreed price and is
  estimated; whenever the total of its estimate is a whole number of centavos up to \<open>2 ^ 36\<close>, its low end lies between nothing
  and the total, and the cap the request locks is at least the total.
\<close>

theorem cap_covers_estimate:
  assumes "committed (createRequest now roadKm c body d) j d'"
    and "amt (tcf_rangePct (readSettings (ctx_tenantId c) d)) pct" "0 \<le> pct" "pct \<le> 10000"
  shows "\<exists>r. truckRequests d' = truckRequests d @ [r] \<and> trk_status r = TEstimated \<and> trk_agreedPricePhp r = None \<and>
    (\<forall>T. amt (tpr_totalPhp (trk_price r)) T \<longrightarrow> 0 \<le> T \<longrightarrow> T \<le> 2 ^ 36 \<longrightarrow>
       (\<exists>low L cap. tpr_lowPhp (trk_price r) = Some low \<and> amt low L \<and> 0 \<le> L \<and> L \<le> T \<and> trk_capPhp r = Some cap \<and> T \<le> cap))"
proof -
  obtain km p r where r: "price now (ctx_tenantId c) km [] d = Inr p" "truckRequests d' = truckRequests d @ [r]"
    "trk_price r = p" "trk_status r = TEstimated" "trk_agreedPricePhp r = None"
    "trk_capPhp r = Some (col2 (case tpr_highPhp p of Some h \<Rightarrow> h | None \<Rightarrow> tpr_totalPhp p))"
    by (rule createRequestD[OF assms(1)])
  let ?x = "tpr_totalPhp p" and ?b = "tcf_rangePct (readSettings (ctx_tenantId c) d) / js 100"
  have lo: "tpr_lowPhp p = Some (peso (?x * (js 1 - ?b)))" and hi: "tpr_highPhp p = Some (peso (?x * (js 1 + ?b)))"
    using priceD[OF r(1)] by blast+
  have "\<exists>low L cap. tpr_lowPhp p = Some low \<and> amt low L \<and> 0 \<le> L \<and> L \<le> T \<and> trk_capPhp r = Some cap \<and> T \<le> cap"
    if T: "amt ?x T" "0 \<le> T" "T \<le> 2 ^ 36" for T
  proof -
    obtain L where L: "amt (peso (?x * (js 1 - ?b))) L" "0 \<le> L" "L \<le> T" using band_ends(1)[OF T assms(2-4)] by blast
    obtain H where H: "amt (peso (?x * (js 1 + ?b))) H" "T \<le> H" "H \<le> 2 ^ 40" using band_ends(2)[OF T assms(2-4)] by blast
    have "trk_capPhp r = Some H" using r(6) hi amt_col2[OF H(1)] H(2,3) T(2) by simp
    then show ?thesis using lo L H(2) by blast
  qed
  then show ?thesis using r(2-5) by blast
qed

definition priced_db :: db where
  "priced_db = empty_db\<lparr>pricingParameters := [\<lparr>pp_id = 3, pp_tenantId = 1, pp_region = ''NCR'', pp_operatorHourlyPhp = 0,
     pp_maintenanceHourlyPhp = 0, pp_bufferPct = 0, pp_fuelLPerHour = 0, pp_fuelLPerKm = 300, pp_transportPhpPerKm = 4500,
     pp_dieselOverridePhp = Some 600000, pp_dieselOverrideDate = Some 0, pp_effectiveFrom = 0, pp_effectiveTo = None\<rparr>]\<rparr>"

theorem cap_covers_estimate_witness:
  "\<exists>j d' r. committed (createRequest 0 (Inr (js 12)) hauler
       \<lparr>tcr_pickup = ''Cainta'', tcr_dropoff = ''Subic'', tcr_scheduledFor = 90, tcr_notes = None\<rparr> priced_db) j d' \<and>
     truckRequests d' = [r] \<and> trk_status r = TEstimated \<and> trk_agreedPricePhp r = None"
proof -
  have s: "readSettings 1 priced_db = DEFAULT_SETTINGS" by (simp add: readSettings_def priced_db_def empty_db_def)
  have "\<exists>ds. resolveDieselAndParams 0 1 ''NCR'' priced_db = Inr ds"
    by (simp add: resolveDieselAndParams_def effectiveParams_def priced_db_def empty_db_def Let_def STALENESS_WINDOW_DAYS_def DAY_MS_def)
  then obtain ds where ds: "resolveDieselAndParams 0 1 ''NCR'' priced_db = Inr ds" by (elim exE)
  have "nonEmpty (tcf_formula DEFAULT_SETTINGS) = None" by (simp add: DEFAULT_SETTINGS_def nonEmpty_def)
  then have "\<exists>p. price 0 1 (js 12) [] priced_db = Inr p"
    by (simp add: price_def s ds priceTruckTrip_def Let_def del: One_nat_def)
  then obtain p where p: "price 0 1 (js 12) [] priced_db = Inr p" by (elim exE)
  let ?body = "\<lparr>tcr_pickup = ''Cainta'', tcr_dropoff = ''Subic'', tcr_scheduledFor = 90, tcr_notes = None\<rparr>"
  have h: "ctx_tenantId hauler = 1" by (simp add: hauler_def)
  obtain j d' where x: "committed (createRequest 0 (Inr (js 12)) hauler ?body priced_db) j d'"
    by (simp add: createRequest_def h p Let_def del: One_nat_def)
  have "amt (tcf_rangePct (readSettings (ctx_tenantId hauler) priced_db)) 1000"
    using amt_num2[of 1000] unfolding h s by (simp add: DEFAULT_SETTINGS_def num2_def)
  then have "\<exists>r. truckRequests d' = truckRequests priced_db @ [r] \<and> trk_status r = TEstimated \<and> trk_agreedPricePhp r = None"
    by (rule cap_covers_estimate[OF x, THEN exE]) (simp, simp, blast)
  then obtain r where "truckRequests d' = truckRequests priced_db @ [r]" "trk_status r = TEstimated" "trk_agreedPricePhp r = None"
    by (elim exE conjE)
  moreover have "truckRequests priced_db = []" by (simp add: priced_db_def empty_db_def)
  ultimately show ?thesis using x by (intro exI conjI) simp_all
qed

end
