(* ===== verification/Quotes.thy ===== *)
theory Quotes
  imports Common Pricing
begin

text \<open>
  Quotes (\<open>apps/api/src/quotes/quotes.service.ts\<close>): drafting a priced quote for a booking, revising,
  approving, accepting and declining it. Pricing is \<open>priceQuote\<close> of the theory \<open>Pricing\<close>; what an
  accepted quote then governs is in \<open>DepositLedger\<close> (the deposit of its contract) and \<open>Payments\<close>
  (the rent charged at checkout). The column \<open>printable_url\<close> is \<open>/app/quotes/<id>/print\<close> and is kept
  as the id; the numbers in an audit reason are kept as data.
\<close>

section \<open>Validity\<close>

definition QUOTE_VALID_DAYS :: int where
  "QUOTE_VALID_DAYS = 7"

definition quoteExpiresAt :: "time \<Rightarrow> time" where
  "quoteExpiresAt createdAt = createdAt + QUOTE_VALID_DAYS * 86400000"

section \<open>Storing a priced quote\<close>

record quote_body =
  qb_customerId :: uuid
  qb_projectSiteId :: uuid
  qb_rentalId :: "uuid option"
  qb_request :: quote_request

fun discountType :: "discount \<Rightarrow> string" where
  "discountType (NoDiscount _) = ''none''"
| "discountType (Percent _) = ''percent''"
| "discountType (Fixed _) = ''fixed''"

fun discountValue :: "discount \<Rightarrow> number" where
  "discountValue (NoDiscount v) = v"
| "discountValue (Percent v) = v"
| "discountValue (Fixed v) = v"

definition quotationRow ::
  "time \<Rightarrow> ctx \<Rightarrow> uuid \<Rightarrow> uuid option \<Rightarrow> int \<Rightarrow> uuid option \<Rightarrow> discount \<Rightarrow> priced_quote \<Rightarrow> uuid \<Rightarrow> quotation" where
  "quotationRow now c customerId rentalId revision parentQuotationId disc priced i =
     \<lparr>quo_id = i, quo_tenantId = ctx_tenantId c, quo_customerId = customerId, quo_rentalId = rentalId,
      quo_revision = revision, quo_parentQuotationId = parentQuotationId, quo_status = QDraft,
      quo_dieselPriceSnapshot = Some (cold 4 (ds_pricePhp (pq_diesel priced))),
      quo_dieselPriceReadingId = ds_readingId (pq_diesel priced),
      quo_dieselPriceDate = Some (ds_observedDate (pq_diesel priced)),
      quo_dieselPriceSource = Some (ds_source (pq_diesel priced)),
      quo_priceStale = ds_stale (pq_diesel priced),
      quo_pricingParamsId = Some (ds_pricingParamsId (pq_diesel priced)),
      quo_discountType = discountType disc, quo_discountValue = col2 (discountValue disc),
      quo_mobilizationPhp = col2 (pq_mobilizationPhp priced),
      quo_demobilizationPhp = col2 (pq_demobilizationPhp priced),
      quo_subtotalPhp = Some (col2 (tot_subtotalPhp (pq_totals priced))),
      quo_totalPhp = Some (col2 (tot_totalPhp (pq_totals priced))),
      quo_printableUrl = None, quo_createdAt = now\<rparr>"

definition itemRow :: "ctx \<Rightarrow> uuid \<Rightarrow> uuid \<Rightarrow> priced_item \<Rightarrow> quotation_item" where
  "itemRow c quotationId i item =
     \<lparr>qi_id = i, qi_tenantId = ctx_tenantId c, qi_quotationId = quotationId, qi_custom = pi_custom item,
      qi_description = pi_description item, qi_equipmentTypeId = pi_equipmentTypeId item,
      qi_rateCardId = pi_rateCardId item, qi_quantity = pi_quantity item,
      qi_mobilizationKm = col2 (pi_mobilizationKm item), qi_demobilizationKm = col2 (pi_demobilizationKm item),
      qi_estimatedHours = col2 (pi_estimatedHours item), qi_pricingInputs = pi_pricingInputs item,
      qi_hourlyRatePhp = col2 (pi_hourlyRatePhp item), qi_operatingCostPhp = col2 (pi_operatingCostPhp item),
      qi_mobilizationCostPhp = col2 (pi_mobilizationCostPhp item),
      qi_demobilizationCostPhp = col2 (pi_demobilizationCostPhp item),
      qi_bufferPhp = col2 (pi_bufferPhp item), qi_subtotalPhp = col2 (pi_subtotalPhp item)\<rparr>"

fun addItems :: "ctx \<Rightarrow> uuid \<Rightarrow> priced_item list \<Rightarrow> db \<Rightarrow> db" where
  "addItems c quotationId [] d = d"
| "addItems c quotationId (item # rest) d =
     addItems c quotationId rest
       ((fresh d)\<lparr>quotationItems := quotationItems d @ [itemRow c quotationId (nextId d) item]\<rparr>)"

text \<open>The lines at a price staff agreed by hand; a custom line has no agreed price.\<close>

definition agreedPrices :: "item_input list \<Rightarrow> (uuid \<times> number) list" where
  "agreedPrices items =
     List.bind items (\<lambda>item. case item of
        EquipmentItem it \<Rightarrow>
          (case it_agreedSubtotalPhp it of Some a \<Rightarrow> [(it_equipmentTypeId it, a)] | None \<Rightarrow> [])
      | CustomItem _ _ _ \<Rightarrow> [])"

definition auditAgreedPrices :: "ctx \<Rightarrow> uuid \<Rightarrow> quote_body \<Rightarrow> db \<Rightarrow> db" where
  "auditAgreedPrices c quotationId body d =
     (let agreed = agreedPrices (req_items (qb_request body))
      in if agreed = [] then d
         else d\<lparr>auditLogs := auditLogs d @
           [\<lparr>aud_tenantId = ctx_tenantId c, aud_actorId = ctx_userId c, aud_action = ''UPDATE'',
             aud_entity = ''quotations'', aud_entityId = quotationId,
             aud_reason = Some (JList (JStr ''agreed price on'' #
               map (\<lambda>(i, a). JList [JId i, JNum a]) agreed))\<rparr>]\<rparr>)"

definition setQuote :: "uuid \<Rightarrow> (quotation \<Rightarrow> quotation) \<Rightarrow> db \<Rightarrow> db" where
  "setQuote i f d = d\<lparr>quotations := updw (\<lambda>q. quo_id q = i) f (quotations d)\<rparr>"

text \<open>The insert of the quote and its lines, the audit of agreed prices and the link to print it.\<close>

definition insertQuote ::
  "time \<Rightarrow> ctx \<Rightarrow> uuid option \<Rightarrow> int \<Rightarrow> uuid option \<Rightarrow> quote_body \<Rightarrow> priced_quote \<Rightarrow> db \<Rightarrow> db" where
  "insertQuote now c rentalId revision parentQuotationId body priced d =
     (let i = nextId d;
          row = quotationRow now c (qb_customerId body) rentalId revision parentQuotationId
            (req_discount (qb_request body)) priced i;
          d1 = addItems c i (pq_items priced) ((fresh d)\<lparr>quotations := quotations d @ [row]\<rparr>)
      in setQuote i (\<lambda>q. q\<lparr>quo_printableUrl := Some i\<rparr>) (auditAgreedPrices c i body d1))"

section \<open>Drafting and revising\<close>

definition preview :: "time \<Rightarrow> ctx \<Rightarrow> quote_body \<Rightarrow> (db, priced_quote) body" where
  "preview now c body d =
     (case priceQuote now (ctx_tenantId c) (qb_request body) ''NCR'' d of
        Inl e \<Rightarrow> fails e
      | Inr priced \<Rightarrow> returns priced d)"

text \<open>
  The revision a new quote of a booking becomes: its number, its parent, and the tables with the
  open quotes of the booking superseded. A quote without a booking starts at one.
\<close>

definition newRevision :: "quote_body \<Rightarrow> db \<Rightarrow> http_error + int \<times> uuid option \<times> db" where
  "newRevision body d =
     (case qb_rentalId body of
        None \<Rightarrow> Inr (1, None, d)
      | Some rentalId \<Rightarrow>
          (case find (\<lambda>r. ren_id r = rentalId) (rentals d) of
             None \<Rightarrow> Inl (NotFound ''booking_not_found'')
           | Some rental \<Rightarrow>
               if ren_customerId rental \<noteq> qb_customerId body then Inl (Conflict ''quote_customer_mismatch'')
               else case latestBy quo_createdAt (filter (\<lambda>q. quo_rentalId q = Some rentalId) (quotations d)) of
                      None \<Rightarrow> Inr (1, None, d)
                    | Some latest \<Rightarrow>
                        if quo_status latest = QAccepted then Inl (Conflict ''quote_already_accepted'')
                        else Inr (quo_revision latest + 1, Some (quo_id latest),
                          d\<lparr>quotations := updw (\<lambda>q. quo_rentalId q = Some rentalId \<and>
                              quo_status q \<in> {QDraft, QApproved, QRejected})
                              (quo_status_update (\<lambda>_. QSuperseded)) (quotations d)\<rparr>)))"

definition createQuote :: "time \<Rightarrow> ctx \<Rightarrow> quote_body \<Rightarrow> (db, uuid \<times> int \<times> priced_quote) body" where
  "createQuote now c body d =
     (case requireVerifiedCompany (qb_customerId body) d of
        Some e \<Rightarrow> fails e
      | None \<Rightarrow>
          (case newRevision body d of
             Inl e \<Rightarrow> fails e
           | Inr (revision, parentQuotationId, d1) \<Rightarrow>
               (case priceQuote now (ctx_tenantId c) (qb_request body) ''NCR'' d1 of
                  Inl e \<Rightarrow> fails e
                | Inr priced \<Rightarrow>
                    returns (nextId d1, revision, priced)
                      (insertQuote now c (qb_rentalId body) revision parentQuotationId body priced d1))))"

text \<open>The event follows the committed draft, in a transaction of its own.\<close>

definition emit :: "ctx \<Rightarrow> string \<Rightarrow> world \<Rightarrow> world" where
  "emit c name w = w\<lparr>events := events w @ [(ctx_tenantId c, name)]\<rparr>"

definition create :: "time \<Rightarrow> ctx \<Rightarrow> quote_body \<Rightarrow> world \<Rightarrow> (http_error + uuid \<times> int \<times> priced_quote) \<times> world" where
  "create now c body w =
     (case withTenantTx c (createQuote now c body) w of
        (Inl e, w1) \<Rightarrow> (Inl e, w1)
      | (Inr result, w1) \<Rightarrow> (Inr result, emit c ''quote_generated'' w1))"

definition revise :: "time \<Rightarrow> ctx \<Rightarrow> uuid \<Rightarrow> quote_body \<Rightarrow> (db, uuid \<times> int \<times> priced_quote) body" where
  "revise now c quotationId body d =
     (case find (\<lambda>q. quo_id q = quotationId) (quotations d) of
        None \<Rightarrow> fails (NotFound ''quote_not_found'')
      | Some parent \<Rightarrow>
          (case requireVerifiedCompany (qb_customerId body) d of
             Some e \<Rightarrow> fails e
           | None \<Rightarrow>
               (case priceQuote now (ctx_tenantId c) (qb_request body) ''NCR'' d of
                  Inl e \<Rightarrow> fails e
                | Inr priced \<Rightarrow>
                    returns (nextId d, quo_revision parent + 1, priced)
                      (setQuote (quo_id parent) (quo_status_update (\<lambda>_. QSuperseded))
                        (insertQuote now c (quo_rentalId parent) (quo_revision parent + 1) (Some (quo_id parent))
                          body priced d)))))"

section \<open>Approval and the customer's answer\<close>

definition approve :: "ctx \<Rightarrow> uuid \<Rightarrow> (db, uuid) body" where
  "approve c quotationId d =
     (case find (\<lambda>q. quo_id q = quotationId) (quotations d) of
        None \<Rightarrow> fails (NotFound ''quote_not_found'')
      | Some quotation \<Rightarrow>
          if quo_status quotation \<noteq> QDraft then fails (Conflict ''quote_not_draft'')
          else
            let d1 = audit c ''APPROVE'' ''quotations'' quotationId
                  (setQuote quotationId (quo_status_update (\<lambda>_. QApproved)) d)
            in returns quotationId
                 (case quo_rentalId quotation of
                    None \<Rightarrow> d1
                  | Some rentalId \<Rightarrow>
                      notifyBookingCustomer (ctx_tenantId c) rentalId ''quote_ready''
                        [(''quotation_id'', JId quotationId), (''revision'', JNum (js (of_int (quo_revision quotation)))),
                         (''total_php'', JNum (case quo_totalPhp quotation of Some a \<Rightarrow> num2 a | None \<Rightarrow> js 0))] d1))"

definition customerQuote :: "ctx \<Rightarrow> uuid \<Rightarrow> db \<Rightarrow> http_error + quotation" where
  "customerQuote c quotationId d =
     (case find (\<lambda>q. quo_id q = quotationId) (quotations d) of
        None \<Rightarrow> Inl (NotFound ''quote_not_found'')
      | Some quotation \<Rightarrow>
          if ctx_role c = ''customer'' \<and> ownsCustomer c (Some (quo_customerId quotation)) d
          then Inr quotation else Inl (NotFound ''quote_not_found''))"

text \<open>\<open>sum(estimated_hours * quantity * hourly_rate_php)\<close>, in ten-thousandths; NULL over no lines.\<close>

definition rentedHoursValue :: "uuid \<Rightarrow> db \<Rightarrow> number option" where
  "rentedHoursValue quotationId d =
     map_option (numd 4)
       (sqlSum (\<lambda>i. qi_estimatedHours i * qi_quantity i * qi_hourlyRatePhp i)
          (filter (\<lambda>i. qi_quotationId i = quotationId) (quotationItems d)))"

definition openContract :: "time \<Rightarrow> ctx \<Rightarrow> uuid \<Rightarrow> db \<Rightarrow> db" where
  "openContract now c quotationId d =
     (fresh d)\<lparr>rentalContracts := rentalContracts d @
        [\<lparr>con_id = nextId d, con_tenantId = ctx_tenantId c, con_quotationId = quotationId,
          con_depositRequired = col2 (depositForQuote (getBillingSettings (ctx_tenantId c) d)
            (rentedHoursValue quotationId d)),
          con_createdAt = now\<rparr>]\<rparr>"

definition accept :: "time \<Rightarrow> ctx \<Rightarrow> uuid \<Rightarrow> (db, uuid) body" where
  "accept now c quotationId d =
     (case customerQuote c quotationId d of
        Inl e \<Rightarrow> fails e
      | Inr quotation \<Rightarrow>
          if quo_status quotation \<noteq> QApproved then fails (Conflict ''quote_not_open'')
          else case quo_rentalId quotation of
                 None \<Rightarrow> fails (Conflict ''quote_not_linked_to_booking'')
               | Some rentalId \<Rightarrow>
                   if quoteExpiresAt (quo_createdAt quotation) < now then fails (Conflict ''quote_expired'')
                   else
                     let d1 = setQuote quotationId (quo_status_update (\<lambda>_. QAccepted)) d;
                         d2 = audit c ''APPROVE'' ''quotations'' quotationId (openContract now c quotationId d1)
                     in ([''quote_accepted''], Inr (quotationId,
                          notifyStaff (ctx_tenantId c) ''quote_accepted''
                            [(''rental_id'', JId rentalId),
                             (''total_php'', JNum (case quo_totalPhp quotation of Some a \<Rightarrow> num2 a | None \<Rightarrow> js 0))] d2)))"

definition decline :: "ctx \<Rightarrow> uuid \<Rightarrow> (db, uuid) body" where
  "decline c quotationId d =
     (case customerQuote c quotationId d of
        Inl e \<Rightarrow> fails e
      | Inr quotation \<Rightarrow>
          if quo_status quotation \<noteq> QApproved then fails (Conflict ''quote_not_open'')
          else
            let d1 = setQuote quotationId (quo_status_update (\<lambda>_. QRejected)) d
            in ([''quote_declined''], Inr (quotationId,
                 (case quo_rentalId quotation of
                    None \<Rightarrow> d1
                  | Some rentalId \<Rightarrow>
                      notifyStaff (ctx_tenantId c) ''quote_declined'' [(''rental_id'', JId rentalId)] d1))))"

section \<open>Reading a quote\<close>

record quote_line =
  ql_item :: quotation_item
  ql_typeName :: "string option"
  ql_rent :: number
  ql_rentParts :: jsonv

record quote_view =
  qv_quotation :: quotation
  qv_lines :: "quote_line list"
  qv_subtotal :: number
  qv_discount :: number
  qv_total :: number
  qv_customerName :: "string option"

definition quoteLine :: "db \<Rightarrow> quotation_item \<Rightarrow> quote_line" where
  "quoteLine d item =
     \<lparr>ql_item = item,
      ql_typeName = map_option ety_name
        (find (\<lambda>t. Some (ety_id t) = qi_equipmentTypeId item) (equipmentTypes d)),
      ql_rent = (case map_of (qi_pricingInputs item) ''rent_php'' of
          Some (JNum x) \<Rightarrow> x | _ \<Rightarrow> num2 (qi_operatingCostPhp item)),
      ql_rentParts = (case map_of (qi_pricingInputs item) ''rent_parts'' of Some v \<Rightarrow> v | None \<Rightarrow> JList [])\<rparr>"

definition getQuote :: "ctx \<Rightarrow> uuid \<Rightarrow> (db, quote_view) body" where
  "getQuote c quotationId d =
     (case find (\<lambda>q. quo_id q = quotationId) (quotations d) of
        None \<Rightarrow> fails (NotFound ''quote_not_found'')
      | Some quotation \<Rightarrow>
          if ctx_role c = ''customer'' \<and> \<not> ownsCustomer c (Some (quo_customerId quotation)) d
          then fails (NotFound ''quote_not_found'')
          else
            let subtotal = (case quo_subtotalPhp quotation of Some a \<Rightarrow> num2 a | None \<Rightarrow> js 0);
                total' = (case quo_totalPhp quotation of Some a \<Rightarrow> num2 a | None \<Rightarrow> js 0)
            in returns
              \<lparr>qv_quotation = quotation,
               qv_lines = map (quoteLine d) (filter (\<lambda>i. qi_quotationId i = quotationId) (quotationItems d)),
               qv_subtotal = subtotal, qv_discount = subtotal - total', qv_total = total',
               qv_customerName = map_option cus_companyName
                 (find (\<lambda>r. cus_id r = quo_customerId quotation) (customers d))\<rparr> d)"

section \<open>The quote a new booking gets by itself\<close>

text \<open>
  \<open>ORDER BY equipment_id IS NULL, array_position(preferred, rate_type), effective_from DESC LIMIT 1\<close>:
  the unit's own cards before the type's, then the preferred unit of hire, then the newest.
\<close>

definition preferredCard :: "string list \<Rightarrow> rate_card list \<Rightarrow> rate_card option" where
  "preferredCard preferred cards =
     (let unit = filter (\<lambda>r. rc_equipmentId r \<noteq> None) cards;
          pool = (if unit \<noteq> [] then unit else cards)
      in case find (\<lambda>t. list_ex (\<lambda>r. rc_rateType r = t) pool) preferred of
           Some t \<Rightarrow> latestBy rc_effectiveFrom (filter (\<lambda>r. rc_rateType r = t) pool)
         | None \<Rightarrow> latestBy rc_effectiveFrom pool)"

definition autoItem :: "time \<Rightarrow> uuid \<Rightarrow> number \<Rightarrow> equipment \<Rightarrow> equipment_assignment \<Rightarrow> db \<Rightarrow> item_input option" where
  "autoItem now tenantId dailyHrs unit line d =
     (case asg_end line of
        None \<Rightarrow> None
      | Some e \<Rightarrow>
          let days = math_max (js 1) (math_ceil (js (of_int (e - asg_start line)) / js 86400000));
              preferred = (if DAYS_PER_MONTH \<le> days then [''monthly'', ''daily'', ''hourly'']
                else [''daily'', ''hourly'', ''monthly''])
          in case preferredCard preferred
               (filter (\<lambda>r. rc_tenantId r = tenantId \<and>
                    (rc_equipmentId r = Some (eqp_id unit) \<or>
                     rc_equipmentTypeId r = eqp_equipmentTypeId unit \<and> rc_equipmentId r = None) \<and>
                    rc_effectiveFrom r \<le> now \<and>
                    (case rc_effectiveTo r of None \<Rightarrow> True | Some t \<Rightarrow> now < t)) (rateCards d)) of
               None \<Rightarrow> None
             | Some r \<Rightarrow> Some (EquipmentItem
                 \<lparr>it_equipmentTypeId = eqp_equipmentTypeId unit, it_quantity = 1, it_rateCardId = rc_id r,
                  it_estimatedHours = (case asg_bookedHours line of Some h \<Rightarrow> num2 h | None \<Rightarrow> days * dailyHrs),
                  it_days = None, it_mobilizationKm = js 0, it_demobilizationKm = js 0,
                  it_agreedSubtotalPhp = None\<rparr>))"

text \<open>The inner join of the booking's lines with their machines, in the order it returns them.\<close>

definition bookingLines :: "uuid \<Rightarrow> db \<Rightarrow> (equipment \<times> equipment_assignment) list" where
  "bookingLines rentalId d =
     List.bind (filter (\<lambda>a. asg_rentalId a = rentalId) (equipmentAssignments d))
       (\<lambda>a. map (\<lambda>u. (u, a)) (filter (\<lambda>u. eqp_id u = asg_equipmentId a) (equipments d)))"

definition autoBody :: "time \<Rightarrow> ctx \<Rightarrow> uuid \<Rightarrow> (db, quote_body option) body" where
  "autoBody now c rentalId d =
     (case find (\<lambda>r. ren_id r = rentalId) (rentals d) of
        None \<Rightarrow> returns None d
      | Some rental \<Rightarrow>
          let found = bookingLines rentalId d;
              dailyHrs = dailyHours (getBillingSettings (ctx_tenantId c) d);
              items = map (\<lambda>(u, a). autoItem now (ctx_tenantId c) dailyHrs u a d) found
          in if found = [] \<or> list_ex (\<lambda>i. i = None) items then returns None d
             else returns (Some
               \<lparr>qb_customerId = ren_customerId rental, qb_projectSiteId = ren_projectSiteId rental,
                qb_rentalId = Some rentalId,
                qb_request = \<lparr>req_items = map the items, req_discount = NoDiscount (js 0),
                  req_mobilizationPhp = None, req_demobilizationPhp = None\<rparr>\<rparr>) d)"

text \<open>Three transactions one after the other; only an unprocessable quote is left for staff.\<close>

definition autoQuoteBooking :: "time \<Rightarrow> ctx \<Rightarrow> uuid \<Rightarrow> world \<Rightarrow> (http_error + uuid option) \<times> world" where
  "autoQuoteBooking now c rentalId w =
     (case withTenantTx c (autoBody now c rentalId) w of
        (Inl e, w1) \<Rightarrow> (Inl e, w1)
      | (Inr None, w1) \<Rightarrow> (Inr None, w1)
      | (Inr (Some body), w1) \<Rightarrow>
          (case create now c body w1 of
             (Inl (Unprocessable m), w2) \<Rightarrow> (Inr None, w2)
           | (Inl e, w2) \<Rightarrow> (Inl e, w2)
           | (Inr (i, _, _), w2) \<Rightarrow>
               (case withTenantTx c (approve c i) w2 of
                  (Inl (Unprocessable m), w3) \<Rightarrow> (Inr None, w3)
                | (Inl e, w3) \<Rightarrow> (Inl e, w3)
                | (Inr _, w3) \<Rightarrow> (Inr (Some i), w3))))"

section \<open>What the operations write\<close>

lemma addItems_tables [simp]:
  "quotations (addItems c i ps d) = quotations d" "rentalContracts (addItems c i ps d) = rentalContracts d"
  "rentals (addItems c i ps d) = rentals d" "billingSettings (addItems c i ps d) = billingSettings d"
  "nextId (addItems c i ps d) = nextId d + length ps"
  by (induction ps arbitrary: d) (simp_all add: fresh_def)

lemma auditAgreedPrices_tables [simp]:
  "quotations (auditAgreedPrices c i b d) = quotations d" "rentalContracts (auditAgreedPrices c i b d) = rentalContracts d"
  "nextId (auditAgreedPrices c i b d) = nextId d"
  by (simp_all add: auditAgreedPrices_def Let_def)

lemma setQuote_tables [simp]:
  "quotations (setQuote i f d) = updw (\<lambda>q. quo_id q = i) f (quotations d)"
  "rentalContracts (setQuote i f d) = rentalContracts d" "nextId (setQuote i f d) = nextId d"
  "customers (setQuote i f d) = customers d" "quotationItems (setQuote i f d) = quotationItems d"
  "billingSettings (setQuote i f d) = billingSettings d" "rentals (setQuote i f d) = rentals d"
  by (simp_all add: setQuote_def)

text \<open>Primary keys: no two quotes share one, and the next one is unused.\<close>

definition wellNumbered :: "db \<Rightarrow> bool" where
  "wellNumbered d \<longleftrightarrow> distinct (map quo_id (quotations d)) \<and> (\<forall>q \<in> set (quotations d). quo_id q < nextId d)"

lemma insertQuote_tables:
  assumes "wellNumbered d"
  shows "\<exists>row. quotations (insertQuote now c rid n par body priced d) = quotations d @ [row] \<and>
      quo_id row = nextId d \<and> quo_rentalId row = rid \<and> quo_status row = QDraft \<and> quo_createdAt row = now \<and>
      quo_customerId row = qb_customerId body \<and> quo_revision row = n"
    and "rentalContracts (insertQuote now c rid n par body priced d) = rentalContracts d"
    and "nextId d < nextId (insertQuote now c rid n par body priced d)"
proof -
  have "updw (\<lambda>q. quo_id q = nextId d) (\<lambda>q. q\<lparr>quo_printableUrl := Some (nextId d)\<rparr>) (quotations d) = quotations d"
    by (rule updw_id) (use assms in \<open>auto simp: wellNumbered_def\<close>)
  then show "\<exists>row. quotations (insertQuote now c rid n par body priced d) = quotations d @ [row] \<and>
      quo_id row = nextId d \<and> quo_rentalId row = rid \<and> quo_status row = QDraft \<and> quo_createdAt row = now \<and>
      quo_customerId row = qb_customerId body \<and> quo_revision row = n"
    by (simp add: insertQuote_def Let_def quotationRow_def)
qed (simp_all add: insertQuote_def Let_def fresh_def)

lemma newRevisionD:
  assumes "newRevision body d = Inr (n, par, d1)"
  shows "\<exists>p. quotations d1 = updw p (quo_status_update (\<lambda>_. QSuperseded)) (quotations d) \<and>
      (\<forall>q \<in> set (quotations d). quo_rentalId q = qb_rentalId body \<and> quo_rentalId q \<noteq> None \<and>
         quo_status q \<in> {QDraft, QApproved, QRejected} \<longrightarrow> p q)"
    and "nextId d1 = nextId d" "rentalContracts d1 = rentalContracts d"
    and "\<And>rid. qb_rentalId body = Some rid \<Longrightarrow> (case latestQuotation rid d of None \<Rightarrow> True | Some q \<Rightarrow> quo_status q \<noteq> QAccepted)"
proof -
  have none: "updw (\<lambda>_. False) f xs = xs" for f :: "quotation \<Rightarrow> quotation" and xs by (rule updw_id) simp
  have "(d1 = d \<and> (\<forall>q \<in> set (quotations d). quo_rentalId q = qb_rentalId body \<longrightarrow> quo_rentalId q = None)) \<or>
    (\<exists>rid. qb_rentalId body = Some rid \<and> d1 = d\<lparr>quotations := updw (\<lambda>q. quo_rentalId q = Some rid \<and>
        quo_status q \<in> {QDraft, QApproved, QRejected}) (quo_status_update (\<lambda>_. QSuperseded)) (quotations d)\<rparr>)"
    using assms
    by (auto simp: newRevision_def filter_empty_conv split: option.split_asm if_split_asm)
  then show "\<exists>p. quotations d1 = updw p (quo_status_update (\<lambda>_. QSuperseded)) (quotations d) \<and>
      (\<forall>q \<in> set (quotations d). quo_rentalId q = qb_rentalId body \<and> quo_rentalId q \<noteq> None \<and>
         quo_status q \<in> {QDraft, QApproved, QRejected} \<longrightarrow> p q)" "nextId d1 = nextId d" "rentalContracts d1 = rentalContracts d"
    by (auto simp: none intro: exI[of _ "\<lambda>_. False"])
  show "(case latestQuotation rid d of None \<Rightarrow> True | Some q \<Rightarrow> quo_status q \<noteq> QAccepted)" if "qb_rentalId body = Some rid" for rid
    using assms that by (auto simp: newRevision_def latestQuotation_def split: option.split_asm if_split_asm option.split)
qed

section \<open>One live quote per booking\<close>

text \<open>Of the quotes of a booking every one but the newest is superseded; the status \<open>sent\<close> is never written.\<close>

definition onlyNewestOpen :: "db \<Rightarrow> bool" where
  "onlyNewestOpen d \<longleftrightarrow>
     (\<forall>q \<in> set (quotations d). quo_status q \<noteq> QSent \<and>
        (\<forall>q' \<in> set (quotations d).
           quo_rentalId q \<noteq> None \<and> quo_rentalId q' = quo_rentalId q \<and> quo_id q' \<noteq> quo_id q \<and>
           quo_createdAt q \<le> quo_createdAt q' \<longrightarrow> quo_status q = QSuperseded))"

definition liveQuotes :: "uuid \<Rightarrow> db \<Rightarrow> quotation list" where
  "liveQuotes rentalId d =
     filter (\<lambda>q. quo_rentalId q = Some rentalId \<and> quo_status q \<noteq> QSuperseded) (quotations d)"

definition newest :: "uuid \<Rightarrow> db \<Rightarrow> bool" where
  "newest i d \<longleftrightarrow>
     (\<forall>p \<in> set (quotations d). quo_id p = i \<longrightarrow>
        (\<forall>q \<in> set (quotations d). quo_rentalId p \<noteq> None \<and> quo_rentalId q = quo_rentalId p \<longrightarrow> quo_createdAt q \<le> quo_createdAt p))"

text \<open>
  The committed operations, by anyone, in any order. A draft is stamped later than every quote
  stored; staff revise the newest quote of a booking (revising an older one is shown below).
\<close>

inductive quoteStep :: "db \<Rightarrow> db \<Rightarrow> bool" where
  createQuote: "committed (createQuote now c body d) r d' \<Longrightarrow> list_all (\<lambda>q. quo_createdAt q < now) (quotations d) \<Longrightarrow> quoteStep d d'"
| revise: "committed (revise now c i body d) r d' \<Longrightarrow> list_all (\<lambda>q. quo_createdAt q < now) (quotations d) \<Longrightarrow> newest i d \<Longrightarrow> quoteStep d d'"
| approve: "committed (approve c i d) j d' \<Longrightarrow> quoteStep d d'"
| accept: "committed (accept now c i d) j d' \<Longrightarrow> quoteStep d d'"
| decline: "committed (decline c i d) j d' \<Longrightarrow> quoteStep d d'"

lemma onlyNewestOpenD:
  "onlyNewestOpen d \<Longrightarrow> q \<in> set (quotations d) \<Longrightarrow> q' \<in> set (quotations d) \<Longrightarrow> quo_rentalId q \<noteq> None \<Longrightarrow>
   quo_rentalId q' = quo_rentalId q \<Longrightarrow> quo_id q' \<noteq> quo_id q \<Longrightarrow> quo_createdAt q \<le> quo_createdAt q' \<Longrightarrow>
   quo_status q = QSuperseded"
  unfolding onlyNewestOpen_def by (drule bspec, assumption) (elim conjE, drule bspec, assumption, simp)

lemma newestD:
  "newest i d \<Longrightarrow> p \<in> set (quotations d) \<Longrightarrow> quo_id p = i \<Longrightarrow> q \<in> set (quotations d) \<Longrightarrow> quo_rentalId p \<noteq> None \<Longrightarrow>
   quo_rentalId q = quo_rentalId p \<Longrightarrow> quo_createdAt q \<le> quo_createdAt p"
  unfolding newest_def by (drule bspec, assumption) simp

lemma wellNumbered_eq:
  "wellNumbered d \<Longrightarrow> p \<in> set (quotations d) \<Longrightarrow> q \<in> set (quotations d) \<Longrightarrow> quo_id p = quo_id q \<Longrightarrow> p = q"
  by (rule distinct_map_eq[of quo_id]) (simp_all add: wellNumbered_def)

lemma onlyNewestOpen_sent: "onlyNewestOpen d \<Longrightarrow> q \<in> set (quotations d) \<Longrightarrow> quo_status q \<noteq> QSent"
  unfolding onlyNewestOpen_def by (drule bspec, assumption) (elim conjE, assumption)

definition sameKey :: "quotation \<Rightarrow> quotation \<Rightarrow> bool" where
  "sameKey q q' \<longleftrightarrow> quo_id q' = quo_id q \<and> quo_rentalId q' = quo_rentalId q \<and> quo_createdAt q' = quo_createdAt q"

text \<open>An update that never lets a superseded quote out again keeps the order.\<close>

lemma update_keeps:
  assumes "quotations d' = updw p f (quotations d)" "nextId d \<le> nextId d'"
    and "\<And>q. sameKey q (f q)" "\<And>q. quo_status q \<noteq> QSent \<Longrightarrow> quo_status (f q) \<noteq> QSent" "\<And>q. q \<in> set (quotations d) \<Longrightarrow> p q \<Longrightarrow> quo_status q = QSuperseded \<Longrightarrow> quo_status (f q) = QSuperseded"
    and "wellNumbered d" "onlyNewestOpen d"
  shows "wellNumbered d' \<and> onlyNewestOpen d'"
proof -
  have k: "quo_id (f q) = quo_id q" "quo_rentalId (f q) = quo_rentalId q" "quo_createdAt (f q) = quo_createdAt q" for q
    using assms(3)[of q] by (simp_all add: sameKey_def)
  have "map quo_id (quotations d') = map quo_id (quotations d)" unfolding assms(1) by (rule map_updw) (rule k)
  moreover have "quo_id q < nextId d'" if "q \<in> set (quotations d)" for q
    using assms(2,6) that by (auto simp: wellNumbered_def intro: less_le_trans)
  then have "\<forall>q \<in> set (quotations d'). quo_id q < nextId d'"
    unfolding assms(1) by (auto simp: in_updw k split: if_splits)
  moreover have "onlyNewestOpen d'"
    unfolding onlyNewestOpen_def assms(1)
  proof (intro ballI conjI impI)
    show "quo_status q \<noteq> QSent" if "q \<in> set (updw p f (quotations d))" for q
      using that assms(4) onlyNewestOpen_sent[OF assms(7)] by (auto simp: in_updw split: if_splits)
    fix q q' assume "q \<in> set (updw p f (quotations d))" "q' \<in> set (updw p f (quotations d))"
      and c: "quo_rentalId q \<noteq> None \<and> quo_rentalId q' = quo_rentalId q \<and> quo_id q' \<noteq> quo_id q \<and> quo_createdAt q \<le> quo_createdAt q'"
    then obtain r r' where r: "r \<in> set (quotations d)" "q = (if p r then f r else r)"
      and r': "r' \<in> set (quotations d)" "q' = (if p r' then f r' else r')" by (auto simp: in_updw)
    have "quo_status r = QSuperseded"
      by (rule onlyNewestOpenD[OF assms(7) r(1) r'(1)]) (use c r(2) r'(2) in \<open>simp_all add: k split: if_split_asm\<close>)
    with r assms(5)[OF r(1)] show "quo_status q = QSuperseded" by auto
  qed
  ultimately show ?thesis using assms(6) by (simp add: wellNumbered_def)
qed

text \<open>So does a new quote, when all others of its booking are superseded.\<close>

lemma insert_keeps:
  assumes "quotations d' = quotations d @ [row]" "quo_id row = nextId d \<and> quo_status row \<noteq> QSent" "nextId d < nextId d'"
    and "\<And>q. q \<in> set (quotations d) \<Longrightarrow> quo_createdAt q < quo_createdAt row"
    and "\<And>q. q \<in> set (quotations d) \<Longrightarrow> quo_rentalId q \<noteq> None \<Longrightarrow> quo_rentalId q = quo_rentalId row \<Longrightarrow> quo_status q = QSuperseded"
    and "wellNumbered d" "onlyNewestOpen d"
  shows "wellNumbered d' \<and> onlyNewestOpen d'"
proof
  show "wellNumbered d'" using assms(2,3,6) unfolding wellNumbered_def assms(1) by fastforce
  show "onlyNewestOpen d'"
    unfolding onlyNewestOpen_def assms(1)
  proof (intro ballI conjI impI)
    show "quo_status q \<noteq> QSent" if "q \<in> set (quotations d @ [row])" for q
      using that assms(2) onlyNewestOpen_sent[OF assms(7)] by auto
    fix q q' assume q: "q \<in> set (quotations d @ [row])" "q' \<in> set (quotations d @ [row])"
      and c: "quo_rentalId q \<noteq> None \<and> quo_rentalId q' = quo_rentalId q \<and> quo_id q' \<noteq> quo_id q \<and> quo_createdAt q \<le> quo_createdAt q'"
    have "q \<noteq> row" using q(2) c assms(4) by force
    then have in_q: "q \<in> set (quotations d)" using q(1) by auto
    show "quo_status q = QSuperseded"
    proof (cases "q' = row")
      case True
      from c have "quo_rentalId q \<noteq> None" "quo_rentalId q = quo_rentalId q'" by simp_all
      then show ?thesis unfolding True by (rule assms(5)[OF in_q])
    next
      case False then have "q' \<in> set (quotations d)" using q(2) by auto
      from onlyNewestOpenD[OF assms(7) in_q this] show ?thesis using c by simp
    qed
  qed
qed

lemma create_keeps:
  assumes "committed (createQuote now c body d) r d'" "list_all (\<lambda>q. quo_createdAt q < now) (quotations d)"
    "wellNumbered d" "onlyNewestOpen d"
  shows "wellNumbered d' \<and> onlyNewestOpen d'"
proof -
  obtain n par d1 priced where nr: "newRevision body d = Inr (n, par, d1)"
    and d': "d' = insertQuote now c (qb_rentalId body) n par body priced d1"
    using assms(1) by (auto simp: createQuote_def split: option.split_asm sum.split_asm prod.split_asm)
  obtain p where p: "quotations d1 = updw p (quo_status_update (\<lambda>_. QSuperseded)) (quotations d)"
    "\<And>q. q \<in> set (quotations d) \<Longrightarrow> quo_rentalId q = qb_rentalId body \<Longrightarrow> quo_rentalId q \<noteq> None \<Longrightarrow>
       quo_status q \<in> {QDraft, QApproved, QRejected} \<Longrightarrow> p q"
    using newRevisionD(1)[OF nr] by blast
  have d1: "wellNumbered d1 \<and> onlyNewestOpen d1"
    by (rule update_keeps[OF p(1)]) (use assms(3,4) newRevisionD(2)[OF nr] in \<open>simp_all add: sameKey_def\<close>)
  obtain row where row: "quotations d' = quotations d1 @ [row]" "quo_id row = nextId d1"
      "quo_rentalId row = qb_rentalId body" "quo_status row = QDraft" "quo_createdAt row = now"
    using insertQuote_tables(1)[of d1 now c "qb_rentalId body" n par body priced] d1 unfolding d' by blast
  show ?thesis
  proof (rule insert_keeps[OF row(1)])
    show "nextId d1 < nextId d'" unfolding d' using insertQuote_tables(3)[of d1] d1 by blast
    show "quo_createdAt q < quo_createdAt row" if "q \<in> set (quotations d1)" for q
      using that assms(2) row(5) unfolding p(1) by (auto simp: in_updw list_all_iff split: if_split_asm)
    show "quo_status q = QSuperseded"
      if q: "q \<in> set (quotations d1)" "quo_rentalId q \<noteq> None" "quo_rentalId q = quo_rentalId row" for q
    proof -
      obtain u where u: "u \<in> set (quotations d)" "q = (if p u then u\<lparr>quo_status := QSuperseded\<rparr> else u)"
        using q(1) unfolding p(1) by (auto simp: in_updw)
      then have k: "quo_rentalId u = quo_rentalId q" by (simp split: if_split)
      show ?thesis
      proof (cases "p u")
        case True then show ?thesis using u by simp
      next
        case False
        then have qu: "q = u" using u by simp
        have "quo_status u \<notin> {QDraft, QApproved, QRejected}" using p(2)[OF u(1)] False q(2,3) row(3) k by auto
        moreover have "quo_status u \<noteq> QSent" by (rule onlyNewestOpen_sent[OF assms(4) u(1)])
        moreover have "quo_status u \<noteq> QAccepted"
        proof
          assume a: "quo_status u = QAccepted"
          obtain rid where rid: "qb_rentalId body = Some rid" using q(2,3) row(3) by (cases "qb_rentalId body") auto
          have u_in: "u \<in> set (filter (\<lambda>q. quo_rentalId q = Some rid) (quotations d))" using u(1) k q(3) row(3) rid by simp
          then obtain l where l: "latestQuotation rid d = Some l"
            unfolding latestQuotation_def by (metis latestBy_None empty_iff empty_set option.exhaust)
          then have ls: "l \<in> set (quotations d)" "quo_rentalId l = Some rid" "quo_createdAt u \<le> quo_createdAt l"
            using latestBy_SomeD[OF l[unfolded latestQuotation_def]] u_in by auto
          have "quo_status l \<noteq> QAccepted" using newRevisionD(4)[OF nr rid] l by simp
          then have ne: "quo_id l \<noteq> quo_id u"
            using a wellNumbered_eq[OF assms(3) ls(1) u(1)] by auto
          have "quo_status u = QSuperseded"
            by (rule onlyNewestOpenD[OF assms(4) u(1) ls(1) _ _ ne ls(3)]) (use ls(2) u_in in auto)
          with a show False by simp
        qed
        ultimately show ?thesis using qu by (cases "quo_status u") simp_all
      qed
    qed
  qed (use row d1 in simp_all)
qed

lemma revise_keeps:
  assumes "committed (revise now c i body d) r d'" "list_all (\<lambda>q. quo_createdAt q < now) (quotations d)" "newest i d"
    "wellNumbered d" "onlyNewestOpen d"
  shows "wellNumbered d' \<and> onlyNewestOpen d'"
proof -
  let ?s = "quo_status_update (\<lambda>_. QSuperseded)"
  obtain parent priced where f: "find (\<lambda>q. quo_id q = i) (quotations d) = Some parent"
    and d': "d' = setQuote (quo_id parent) ?s
      (insertQuote now c (quo_rentalId parent) (quo_revision parent + 1) (Some (quo_id parent)) body priced d)"
    using assms(1) by (auto simp: revise_def split: option.split_asm sum.split_asm)
  let ?d = "insertQuote now c (quo_rentalId parent) (quo_revision parent + 1) (Some (quo_id parent)) body priced d"
  have par: "parent \<in> set (quotations d)" "quo_id parent = i" using find_SomeD[OF f] by auto
  obtain row where row: "quotations ?d = quotations d @ [row]" "quo_id row = nextId d"
      "quo_rentalId row = quo_rentalId parent" "quo_status row = QDraft" "quo_createdAt row = now"
    using insertQuote_tables(1)[OF assms(4), of now c "quo_rentalId parent" "quo_revision parent + 1" "Some (quo_id parent)" body priced]
    by blast
  define m where "m = d\<lparr>quotations := updw (\<lambda>q. quo_id q = i) ?s (quotations d)\<rparr>"
  have m: "wellNumbered m \<and> onlyNewestOpen m"
    by (rule update_keeps[of m "\<lambda>q. quo_id q = i" ?s d]) (use assms(4,5) in \<open>simp_all add: m_def sameKey_def\<close>)
  have "nextId d \<noteq> i" using par assms(4) by (auto simp: wellNumbered_def)
  then have "quotations d' = quotations m @ [row]" unfolding d' setQuote_tables row(1) by (simp add: m_def par(2) row(2))
  then show ?thesis
  proof (rule insert_keeps)
    have "nextId d' = nextId ?d" "nextId m = nextId d" unfolding d' m_def by simp_all
    then show "nextId m < nextId d'" using insertQuote_tables(3)[OF assms(4)] by simp
    show "quo_id row = nextId m \<and> quo_status row \<noteq> QSent" using row by (simp add: m_def)
    show "quo_createdAt q < quo_createdAt row" if "q \<in> set (quotations m)" for q
      using that assms(2) row(5) by (auto simp: m_def in_updw list_all_iff split: if_split_asm)
    show "quo_status q = QSuperseded"
      if q: "q \<in> set (quotations m)" "quo_rentalId q \<noteq> None" "quo_rentalId q = quo_rentalId row" for q
    proof (cases "quo_id q = i")
      case True
      have "q \<in> set (updw (\<lambda>q. quo_id q = i) ?s (quotations d))" using q(1) by (simp add: m_def)
      from updw_hit[OF this True] show ?thesis by auto
    next
      case False
      have "q \<in> set (updw (\<lambda>q. quo_id q = i) ?s (quotations d))" using q(1) by (simp add: m_def)
      from updw_miss[OF this False] have o: "q \<in> set (quotations d)" by simp
      have e: "quo_rentalId q = quo_rentalId parent" using q(3) unfolding row(3) .
      have "quo_createdAt q \<le> quo_createdAt parent"
        by (rule newestD[OF assms(3) par o q(2)[unfolded e] e])
      moreover have "quo_id parent \<noteq> quo_id q" using False par(2) by simp
      ultimately show ?thesis by (intro onlyNewestOpenD[OF assms(5) o par(1) q(2) e[symmetric]])
    qed
  qed (use m in simp_all)
qed

text \<open>The three answers move one quote from an open status.\<close>

lemma answer_keeps:
  assumes "find (\<lambda>q. quo_id q = i) (quotations d) = Some q0" "quo_status q0 \<noteq> QSuperseded" "s \<noteq> QSent"
    "quotations d' = updw (\<lambda>q. quo_id q = i) (quo_status_update (\<lambda>_. s)) (quotations d)" "nextId d \<le> nextId d'"
    "wellNumbered d" "onlyNewestOpen d"
  shows "wellNumbered d' \<and> onlyNewestOpen d'"
proof (rule update_keeps[OF assms(4,5)])
  fix q assume q: "q \<in> set (quotations d)" "quo_id q = i" "quo_status q = QSuperseded"
  have "q0 = q" using wellNumbered_eq[OF assms(6), of q0 q] find_SomeD[OF assms(1)] q by simp
  with q assms(2) show "quo_status (quo_status_update (\<lambda>_. s) q) = QSuperseded" by simp
qed (use assms in \<open>simp_all add: sameKey_def\<close>)

lemma quoteApprovedD:
  assumes "committed (approve c i d) j d'"
  obtains q where "find (\<lambda>q. quo_id q = i) (quotations d) = Some q" "quo_status q = QDraft"
    "sameLedger (setQuote i (quo_status_update (\<lambda>_. QApproved)) d) d'" "nextId d' = nextId d"
proof -
  obtain q where q: "find (\<lambda>q. quo_id q = i) (quotations d) = Some q" "quo_status q = QDraft"
    using assms by (auto simp: approve_def split: option.split_asm if_split_asm)
  let ?d = "audit c ''APPROVE'' ''quotations'' i (setQuote i (quo_status_update (\<lambda>_. QApproved)) d)"
  have "d' = ?d \<or> (\<exists>t k m p. d' = notifyBookingCustomer t k m p ?d)"
    using assms q by (auto simp: approve_def Let_def split: option.split_asm)
  then have "sameLedger ?d d' \<and> nextId d' = nextId ?d" by auto
  moreover have "nextId ?d = nextId d" by (simp add: audit_def)
  ultimately show ?thesis using that[OF q] sameLedger_trans[OF sameLedger_audit] by metis
qed

lemma customerQuoteD:
  "customerQuote c i d = Inr q \<Longrightarrow> find (\<lambda>q. quo_id q = i) (quotations d) = Some q \<and>
     ctx_role c = ''customer'' \<and> ownsCustomer c (Some (quo_customerId q)) d"
  by (auto simp: customerQuote_def split: option.split_asm if_split_asm)

lemma acceptD:
  assumes "committed (accept now c i d) j d'"
  obtains q rid where "customerQuote c i d = Inr q" "quo_status q = QApproved" "quo_rentalId q = Some rid"
    "now \<le> quoteExpiresAt (quo_createdAt q)"
    "sameLedger (openContract now c i (setQuote i (quo_status_update (\<lambda>_. QAccepted)) d)) d'"
    "nextId d' = Suc (nextId d)" "j = i"
proof -
  let ?d = "openContract now c i (setQuote i (quo_status_update (\<lambda>_. QAccepted)) d)"
  obtain q where q: "customerQuote c i d = Inr q" "quo_status q = QApproved"
    using assms by (auto simp: accept_def split: sum.split_asm if_split_asm)
  moreover obtain rid where rid: "quo_rentalId q = Some rid" "now \<le> quoteExpiresAt (quo_createdAt q)"
    using assms q by (auto simp: accept_def split: option.split_asm if_split_asm)
  moreover have n: "nextId ?d = Suc (nextId d)" by (simp add: openContract_def fresh_def)
  moreover have "d' = notifyStaff (ctx_tenantId c) ''quote_accepted'' [(''rental_id'', JId rid),
      (''total_php'', JNum (case quo_totalPhp q of Some a \<Rightarrow> num2 a | None \<Rightarrow> js 0))] (audit c ''APPROVE'' ''quotations'' i ?d)" "j = i"
    using assms q rid by (auto simp: accept_def Let_def)
  moreover from this have "sameLedger ?d d'" "nextId d' = nextId ?d"
    using sameLedger_trans[OF sameLedger_audit sameLedger_notify(2)] by (simp_all add: audit_def)
  ultimately show ?thesis using that by simp
qed

lemma declineD:
  assumes "committed (decline c i d) j d'"
  obtains q where "customerQuote c i d = Inr q" "quo_status q = QApproved"
    "sameLedger (setQuote i (quo_status_update (\<lambda>_. QRejected)) d) d'" "nextId d' = nextId d"
proof -
  obtain q where q: "customerQuote c i d = Inr q" "quo_status q = QApproved"
    using assms by (auto simp: decline_def split: sum.split_asm if_split_asm)
  let ?d = "setQuote i (quo_status_update (\<lambda>_. QRejected)) d"
  have "d' = ?d \<or> (\<exists>t k p. d' = notifyStaff t k p ?d)"
    using assms q by (auto simp: decline_def Let_def split: option.split_asm)
  then have "sameLedger ?d d'" "nextId d' = nextId d" by auto
  with that[OF q] show ?thesis by blast
qed

lemma quoteStep_keeps:
  assumes "quoteStep d d'" "wellNumbered d" "onlyNewestOpen d"
  shows "wellNumbered d' \<and> onlyNewestOpen d'"
  using assms(1)
proof cases
  case (createQuote now c body r) then show ?thesis using create_keeps assms(2,3) by blast
next
  case (revise now c i body r) then show ?thesis using revise_keeps assms(2,3) by blast
next
  case (approve c i j)
  then show ?thesis
    by (elim quoteApprovedD) (rule answer_keeps[where s = QApproved, OF _ _ _ _ _ assms(2,3)], assumption, auto simp: sameLedger_def)
next
  case (accept now c i j)
  then show ?thesis
    by (elim acceptD) (rule answer_keeps[where s = QAccepted, OF _ _ _ _ _ assms(2,3)],
      erule customerQuoteD[THEN conjunct1], auto simp: sameLedger_def openContract_def fresh_def)
next
  case (decline c i j)
  then show ?thesis
    by (elim declineD) (rule answer_keeps[where s = QRejected, OF _ _ _ _ _ assms(2,3)],
      erule customerQuoteD[THEN conjunct1], auto simp: sameLedger_def)
qed

lemma quoteSteps_keep:
  "quoteStep\<^sup>*\<^sup>* d d' \<Longrightarrow> wellNumbered d \<Longrightarrow> onlyNewestOpen d \<Longrightarrow> wellNumbered d' \<and> onlyNewestOpen d'"
  by (induction rule: rtranclp_induct) (blast dest: quoteStep_keeps)+

lemma latestBy_unique:
  "x \<in> set xs \<Longrightarrow> (\<And>y. y \<in> set xs \<Longrightarrow> y \<noteq> x \<Longrightarrow> k y < k x) \<Longrightarrow> latestBy k xs = Some x"
  by (metis latestBy_None latestBy_SomeD empty_iff empty_set leD option.exhaust)

text \<open>The live quote of a booking is its newest quote.\<close>

lemma live_is_latest:
  assumes "wellNumbered d" "onlyNewestOpen d" "q \<in> set (quotations d)" "quo_rentalId q = Some rid" "quo_status q \<noteq> QSuperseded"
  shows "latestQuotation rid d = Some q"
  unfolding latestQuotation_def
proof (rule latestBy_unique)
  fix y assume y: "y \<in> set (filter (\<lambda>q. quo_rentalId q = Some rid) (quotations d))" "y \<noteq> q"
  then have "quo_id y \<noteq> quo_id q" using wellNumbered_eq[OF assms(1) _ assms(3)] by auto
  then show "quo_createdAt y < quo_createdAt q"
    using onlyNewestOpenD[OF assms(2,3), of y] y assms(4,5) by fastforce
qed (use assms in simp)

lemma at_most_one: "distinct xs \<Longrightarrow> set xs \<subseteq> {x} \<Longrightarrow> length xs \<le> 1"
  using card_mono[of "{x}" "set xs"] by (simp add: distinct_card)

text \<open>
  C23. One live quote per booking. However quotes are drafted, approved, accepted, declined and, when
  they are the newest of their booking, revised: at most one quote of a booking is not superseded,
  and it is the newest one, the one the deposit ledger and checkout read.
\<close>

theorem one_live_quote:
  assumes "quoteStep\<^sup>*\<^sup>* d d'" "wellNumbered d" "onlyNewestOpen d"
  shows "length (liveQuotes rid d') \<le> 1 \<and>
    (\<forall>q \<in> set (liveQuotes rid d'). latestQuotation rid d' = Some q)"
proof -
  have s: "wellNumbered d'" "onlyNewestOpen d'" using quoteSteps_keep[OF assms] by auto
  have l: "latestQuotation rid d' = Some q" if "q \<in> set (liveQuotes rid d')" for q
    using live_is_latest[OF s, of q rid] that by (simp add: liveQuotes_def)
  have "distinct (liveQuotes rid d')" using s(1) by (simp add: liveQuotes_def wellNumbered_def distinct_map)
  then have "length (liveQuotes rid d') \<le> 1"
    by (rule at_most_one[of _ "the (latestQuotation rid d')"]) (use l in force)
  with l show ?thesis by blast
qed

section \<open>What acceptance opens\<close>


section \<open>The deposit of the contract\<close>

lemma isn_num2: "\<bar>k\<bar> \<le> 2 ^ 60 \<Longrightarrow> isn (num2 k) (dbl.cv k)"
proof -
  assume "\<bar>k\<bar> \<le> 2 ^ 60"
  then have "\<bar>of_int k / 100 :: rat\<bar> \<le> 2 ^ 200" using dbl.of_int_abs_le[of k 60] by simp
  then show ?thesis unfolding num2_def dbl.cv_def by (rule js_isn)
qed

lemma diff_mult_split: "v * w - A * Q = (v - A) * w + A * (w - Q :: rat)"
  by (simp add: algebra_simps)

text \<open>
  A share of an amount in ten-thousandths, computed in doubles and rounded to the centavo, is off
  the exact share by half a centavo and the rounding of the doubles.
\<close>

lemma share_near:
  assumes "0 \<le> s" "s \<le> 2 ^ 44" "0 \<le> p" "p \<le> 10000"
  shows "\<exists>k. amt (cents (numd 4 s * num2 p / js 100)) k \<and> \<bar>of_int k - of_int (s * p) / 1000000\<bar> \<le> (51 / 100 :: rat)"
proof -
  define S P where "S = (of_int s :: rat)" and "P = (of_int p :: rat)"
  have S: "0 \<le> S" "S \<le> 17592186044416" and P: "0 \<le> P" "P \<le> 10000"
    using assms of_int_le_iff[of s "2 ^ 44"] of_int_le_iff[of p 10000] by (simp_all add: S_def P_def)
  define v where "v = fl (S / 10 ^ 4)"
  have "\<bar>S / 10 ^ 4\<bar> \<le> 1759218605" using S by simp
  from dbl.rd_bound[OF this] have v: "\<bar>v - S / 10 ^ 4\<bar> \<le> 1 / 4000000" by (simp add: v_def)
  have iv: "isn (numd 4 s) v" unfolding numd_def v_def S_def by (rule js_isn) (use S in \<open>simp add: S_def\<close>)
  define w where "w = fl (P / 100)"
  have "\<bar>P / 100\<bar> \<le> 100" using P by simp
  from dbl.rd_bound[OF this] have w: "\<bar>w - P / 100\<bar> \<le> 1 / 2 ^ 46" by (simp add: w_def)
  have iw: "isn (num2 p) w" unfolding num2_def w_def P_def by (rule js_isn) (use P in \<open>simp add: P_def\<close>)
  have vb: "0 \<le> v + 1 / 4000000" "v \<le> 1759218606" and wb: "0 \<le> w + 1 / 2 ^ 46" "w \<le> 101"
    using dbl.absD[OF v] dbl.absD[OF w] S P by simp_all
  define T where "T = S * P"
  have T: "S / 10 ^ 4 * (P / 100) = T / 1000000" by (simp add: T_def)
  have vw: "\<bar>v * w - T / 1000000\<bar> \<le> 1 / 1000"
  proof -
    have e: "v * w - S / 10 ^ 4 * (P / 100) = (v - S / 10 ^ 4) * w + S / 10 ^ 4 * (w - P / 100)"
      by (rule diff_mult_split)
    have "\<bar>w\<bar> \<le> 101" using wb by (intro abs_leI) simp_all
    with v have "\<bar>v - S / 10 ^ 4\<bar> * \<bar>w\<bar> \<le> 1 / 4000000 * 101" by (intro mult_mono) simp_all
    moreover have "\<bar>S / 10 ^ 4\<bar> * \<bar>w - P / 100\<bar> \<le> 1759218605 * (1 / 2 ^ 46)" using w S by (intro mult_mono) simp_all
    ultimately show ?thesis unfolding T[symmetric] e using abs_triangle_ineq[of "(v - S / 10 ^ 4) * w" "S / 10 ^ 4 * (w - P / 100)"]
      by (simp add: abs_mult)
  qed
  have TB: "0 \<le> T" "T \<le> 17592186044416 * 10000" unfolding T_def using S P by (simp, intro mult_mono) simp_all
  have vwb: "\<bar>v * w\<bar> \<le> 175921860445" using dbl.absD[OF vw] TB by (intro abs_leI) simp_all
  define x where "x = fl (v * w)"
  have x: "\<bar>x - v * w\<bar> \<le> 1 / 10000" using dbl.rd_bound[OF vwb] by (simp add: x_def)
  have xb: "\<bar>x / 100\<bar> \<le> 1759218606" using dbl.absD[OF x] dbl.absD[OF vwb] by (intro abs_leI) simp_all
  define y where "y = fl (x / 100)"
  have y: "\<bar>y - x / 100\<bar> \<le> 1 / 1000000" using dbl.rd_bound[OF xb] by (simp add: y_def)
  have iy: "isn (numd 4 s * num2 p / js 100) y"
    unfolding y_def x_def
    by (rule isn_divide[OF isn_times[OF iv iw] isn_100]) (use vwb xb in \<open>simp_all add: x_def\<close>)
  have yb: "\<bar>y\<bar> \<le> 1759218607" using dbl.absD[OF y] dbl.absD[OF xb] by (intro abs_leI) simp_all
  define z where "z = fl (y + 1 / 2 ^ 52)"
  have "\<bar>y + 1 / 2 ^ 52\<bar> \<le> 1759218608" using dbl.absD[OF yb] by (intro abs_leI) simp_all
  from dbl.rd_bound[OF this] have z: "\<bar>z - (y + 1 / 2 ^ 52)\<bar> \<le> 1 / 1000000" by (simp add: z_def)
  have "\<bar>z * 100\<bar> \<le> 175921861000" using dbl.absD[OF z] dbl.absD[OF yb] by (intro abs_leI) simp_all
  from dbl.rd_bound[OF this] have u: "\<bar>fl (z * 100) - z * 100\<bar> \<le> 1 / 10000" by simp
  define k where "k = \<lfloor>fl (z * 100) + 1 / 2\<rfloor>"
  have k: "of_int k \<le> fl (z * 100) + 1 / 2" "fl (z * 100) + 1 / 2 < of_int k + 1"
    unfolding k_def using floor_correct[of "fl (z * 100) + 1 / 2"] by simp_all
  have "amt (cents (numd 4 s * num2 p / js 100)) k"
    using isn_cents[OF iy] yb by (simp add: amt_def dbl.roundv_def k_def z_def)
  moreover have "\<bar>of_int k - T / 1000000\<bar> \<le> 51 / 100"
    by (rule abs_leI)
      (use k dbl.absD[OF u] dbl.absD[OF z] dbl.absD[OF y] dbl.absD[OF x] dbl.absD[OF vw] in \<open>simp_all add: field_simps\<close>)
  ultimately show ?thesis by (auto simp: T_def S_def P_def)
qed

lemma isn_zero_falsy: "isn x 0 \<Longrightarrow> falsy x"
  by (auto simp: isn_def split: if_split_asm)

lemma isn_not_falsy: "isn x v \<Longrightarrow> v \<noteq> 0 \<Longrightarrow> \<not> falsy x"
  by (auto simp: isn_def)

lemma isn_js0: "isn (js 0) 0"
  using js_isn[of 0] by (simp add: fl_def)

text \<open>A positive decimal of at most four places is a positive double.\<close>

lemma numd_positive:
  assumes "0 < k" "k \<le> 2 ^ 44" "p \<le> 4"
  shows "\<not> falsy (numd p k) \<and> \<not> numd p k \<le> js 0"
proof -
  have K: "1 \<le> (of_int k :: rat)" "of_int k \<le> (17592186044416 :: rat)" using assms(1,2) of_int_le_iff[of k "2 ^ 44"] by simp_all
  have t: "1 \<le> (10 :: rat) ^ p" "(10 :: rat) ^ p \<le> 10 ^ 4" using assms(3) by (simp_all add: power_increasing del: power_numeral)
  have l: "1 / 10 ^ 4 \<le> of_int k / (10 :: rat) ^ p" using K t by (intro frac_le) simp_all
  have "of_int k / 10 ^ p \<le> (17592186044416 :: rat) / 1" by (rule frac_le) (use K t in simp_all)
  moreover have "0 \<le> of_int k / (10 :: rat) ^ p" using K by simp
  ultimately have b: "\<bar>of_int k / 10 ^ p :: rat\<bar> \<le> 17592186044416" by simp
  define x where "x = of_int k / (10 :: rat) ^ p"
  have e: "\<bar>fl x - x\<bar> \<le> x / 2 ^ 53 + 1 / 2 ^ 200" by (rule dbl.rd_bound) (use K in \<open>simp add: x_def\<close>)
  have "0 < fl x" using dbl.absD[OF e] l[folded x_def] by simp
  then have "0 < fl (of_int k / 10 ^ p)" by (simp add: x_def)
  moreover have "isn (numd p k) (fl (of_int k / 10 ^ p))" unfolding numd_def by (rule js_isn) (use b in simp)
  ultimately show ?thesis using isn_not_falsy isn_less_eq[OF _ isn_js0] by force
qed

text \<open>
  The deposit. With hours, quantities and hourly rates quoted, the deposit the contract stores is
  the tenant's percentage of their product, off by half a centavo at most and a hundredth of one;
  with no percentage set, or nothing rented by the hour, it is the tenant's minimum.
\<close>

theorem contract_deposit_share:
  assumes "find (\<lambda>r. bs_tenantId r = ctx_tenantId c) (billingSettings d) = Some st"
    and "0 \<le> bs_depositPct st" "bs_depositPct st \<le> 10000" "0 \<le> bs_minDepositPhp st" "bs_minDepositPhp st \<le> 2 ^ 44"
    and "s = (\<Sum>x\<leftarrow>filter (\<lambda>x. qi_quotationId x = i) (quotationItems d). qi_estimatedHours x * qi_quantity x * qi_hourlyRatePhp x)"
    and "0 \<le> s" "s \<le> 2 ^ 44"
  shows "\<exists>con. rentalContracts (openContract now c i d) = rentalContracts d @ [con] \<and>
    (if s = 0 \<or> bs_depositPct st = 0 then con_depositRequired con = bs_minDepositPhp st
     else \<bar>1000000 * con_depositRequired con - s * bs_depositPct st\<bar> \<le> 510000)"
proof -
  let ?v = "numd 4 s" and ?D = "depositForQuote (getBillingSettings (ctx_tenantId c) d) (rentedHoursValue i d)"
  have con: "\<exists>con. rentalContracts (openContract now c i d) = rentalContracts d @ [con] \<and> con_depositRequired con = col2 ?D"
    by (simp add: openContract_def)
  have g: "minDepositPhp (getBillingSettings (ctx_tenantId c) d) = num2 (bs_minDepositPhp st)"
    "depositPct (getBillingSettings (ctx_tenantId c) d) = num2 (bs_depositPct st)"
    using assms(1) by (simp_all add: getBillingSettings_def)
  have m: "col2 (num2 (bs_minDepositPhp st)) = bs_minDepositPhp st"
    by (rule amt_col2[OF amt_num2]) (use assms(4,5) in simp_all)
  have rv: "rentedHoursValue i d = None \<and> s = 0 \<or> rentedHoursValue i d = Some ?v"
    using assms(6) by (auto simp: rentedHoursValue_def sqlSum_def)
  show ?thesis
  proof (cases "s = 0 \<or> bs_depositPct st = 0")
    case True
    have "isn (numd 4 0) 0" "isn (num2 0) 0" using isn_js0 by (simp_all add: numd_def num2_def)
    then have "falsy (numd 4 0)" "num2 0 \<le> js 0" using isn_zero_falsy isn_less_eq[OF _ isn_js0] by auto
    then have "?D = num2 (bs_minDepositPhp st)" using rv True by (auto simp: depositForQuote_def g)
    with con m True show ?thesis by auto
  next
    case False
    then have "?D = cents (?v * num2 (bs_depositPct st) / js 100)"
      using rv numd_positive[of s 4] numd_positive[of "bs_depositPct st" 2] assms(2,3,7,8)
      by (auto simp: depositForQuote_def g num2_def numd_def)
    moreover obtain k where k: "amt (cents (?v * num2 (bs_depositPct st) / js 100)) k"
      "\<bar>of_int k - of_int (s * bs_depositPct st) / 1000000\<bar> \<le> (51 / 100 :: rat)"
      using share_near[OF assms(7,8,2,3)] by blast
    have "\<bar>of_int (1000000 * k - s * bs_depositPct st) :: rat\<bar> \<le> of_int 510000"
      using dbl.absD[OF k(2)] by (intro abs_leI) (simp_all add: field_simps)
    then have kb: "\<bar>1000000 * k - s * bs_depositPct st\<bar> \<le> 510000" by (simp only: of_int_abs[symmetric] of_int_le_iff)
    have "s * bs_depositPct st \<le> 2 ^ 44 * 10000" "0 \<le> s * bs_depositPct st" using assms(2,3,7,8) by (intro mult_mono, simp_all)
    with kb have "\<bar>k\<bar> \<le> 2 ^ 44" by simp
    with k(1) have "col2 (cents (?v * num2 (bs_depositPct st) / js 100)) = k" by (rule amt_col2)
    ultimately show ?thesis using con kb False by auto
  qed
qed

section \<open>Witnesses\<close>

definition demo_quote :: "uuid \<Rightarrow> time \<Rightarrow> quotation_status \<Rightarrow> quotation" where
  "demo_quote i t s =
     \<lparr>quo_id = i, quo_tenantId = 1, quo_customerId = 6, quo_rentalId = Some 9, quo_revision = 1,
      quo_parentQuotationId = None, quo_status = s, quo_dieselPriceSnapshot = None, quo_dieselPriceReadingId = None,
      quo_dieselPriceDate = None, quo_dieselPriceSource = None, quo_priceStale = False, quo_pricingParamsId = None,
      quo_discountType = ''none'', quo_discountValue = 0, quo_mobilizationPhp = 0, quo_demobilizationPhp = 0,
      quo_subtotalPhp = Some 12000000, quo_totalPhp = Some 12000000, quo_printableUrl = None, quo_createdAt = t\<rparr>"

definition demo_settings :: billing_settings where
  "demo_settings = \<lparr>bs_tenantId = 1, bs_dailyHours = 800, bs_minDepositPhp = 500000, bs_lowBalancePct = 2000,
     bs_depositPct = 2000, bs_mobilizationPhp = 0, bs_demobilizationPhp = 0, bs_minHours = 0\<rparr>"

definition demo_hours :: quotation_item where
  "demo_hours = \<lparr>qi_id = 30, qi_tenantId = 1, qi_quotationId = 21, qi_custom = False, qi_description = None,
     qi_equipmentTypeId = Some 3, qi_rateCardId = Some 4, qi_quantity = 1, qi_mobilizationKm = 0, qi_demobilizationKm = 0,
     qi_estimatedHours = 8000, qi_pricingInputs = [], qi_hourlyRatePhp = 150000, qi_operatingCostPhp = 12000000,
     qi_mobilizationCostPhp = 0, qi_demobilizationCostPhp = 0, qi_bufferPhp = 0, qi_subtotalPhp = 12000000\<rparr>"

definition quoted_db :: "quotation_status \<Rightarrow> db" where
  "quoted_db s = empty_db\<lparr>
     customers := [\<lparr>cus_id = 6, cus_tenantId = 1, cus_userId = Some 7, cus_companyName = ''Acme'', cus_tin = None,
       cus_secNumber = None, cus_billingAddress = None, cus_kycStatus = KycApproved, cus_reviewComment = None,
       cus_unlockedFields = [], cus_createdAt = 0\<rparr>],
     billingSettings := [demo_settings], quotationItems := [demo_hours],
     quotations := [demo_quote 20 0 QSuperseded, demo_quote 21 5 s]\<rparr>"

definition demo_customer_ctx :: ctx where
  "demo_customer_ctx = \<lparr>ctx_tenantId = 1, ctx_userId = 7, ctx_role = ''customer''\<rparr>"

lemma quoted_db_sound: "s \<noteq> QSent \<Longrightarrow> wellNumbered (quoted_db s)" "s \<noteq> QSent \<Longrightarrow> onlyNewestOpen (quoted_db s)"
  by (simp_all add: quoted_db_def empty_db_def demo_quote_def wellNumbered_def onlyNewestOpen_def)

theorem one_live_quote_witness:
  "\<exists>j d'. committed (approve demo_ctx 21 (quoted_db QDraft)) j d' \<and>
     map quo_status (quotations d') = [QSuperseded, QApproved] \<and> length (liveQuotes 9 d') \<le> 1"
proof -
  obtain j d' where d': "committed (approve demo_ctx 21 (quoted_db QDraft)) j d'"
      "map quo_status (quotations d') = [QSuperseded, QApproved]"
    by (simp add: approve_def quoted_db_def empty_db_def demo_quote_def setQuote_def audit_def Let_def notifyBookingCustomer_def)
  have "quoteStep\<^sup>*\<^sup>* (quoted_db QDraft) d'" by (rule r_into_rtranclp) (rule quoteStep.approve[OF d'(1)])
  from one_live_quote[OF this quoted_db_sound, of 9] have "length (liveQuotes 9 d') \<le> 1" by simp
  with d' show ?thesis by (intro exI conjI)
qed


theorem contract_deposit_share_witness:
  "\<exists>con. rentalContracts (openContract 100 demo_customer_ctx 21 (quoted_db QAccepted)) = [con] \<and>
     \<bar>1000000 * con_depositRequired con - 2400000000000\<bar> \<le> 510000"
proof -
  have f: "find (\<lambda>r. bs_tenantId r = ctx_tenantId demo_customer_ctx) (billingSettings (quoted_db QAccepted)) = Some demo_settings"
    by (simp add: quoted_db_def empty_db_def demo_settings_def demo_customer_ctx_def)
  have s: "1200000000 = (\<Sum>x\<leftarrow>filter (\<lambda>x. qi_quotationId x = 21) (quotationItems (quoted_db QAccepted)).
      qi_estimatedHours x * qi_quantity x * qi_hourlyRatePhp x)"
    by (simp add: quoted_db_def empty_db_def demo_hours_def)
  have b: "0 \<le> bs_depositPct demo_settings" "bs_depositPct demo_settings \<le> 10000" "0 \<le> bs_minDepositPhp demo_settings"
    "bs_minDepositPhp demo_settings \<le> 2 ^ 44" "rentalContracts (quoted_db QAccepted) = []" "bs_depositPct demo_settings = 2000"
    by (simp_all add: demo_settings_def quoted_db_def empty_db_def)
  show ?thesis using contract_deposit_share[OF f b(1-4) s, of 100] b(5,6) by simp
qed

section \<open>What revising does not check\<close>

text \<open>
  \<open>revise\<close> looks neither at the status nor at the age of the quote it replaces, nor whether the body
  names the booking's company. Revising an accepted quote therefore leaves a booking whose signed
  contract no longer counts, revising an old revision leaves two open quotes, and a revision can be
  addressed to another company of the tenant.
\<close>

lemma revise_unchecked:
  assumes "find (\<lambda>q. quo_id q = i) (quotations d) = Some parent" "wellNumbered d"
    "requireVerifiedCompany (qb_customerId body) d = None"
    "priceQuote now (ctx_tenantId c) (qb_request body) ''NCR'' d = Inr priced"
  shows "\<exists>r d' row. committed (revise now c i body d) r d' \<and>
    quotations d' = updw (\<lambda>q. quo_id q = i) (quo_status_update (\<lambda>_. QSuperseded)) (quotations d) @ [row] \<and>
    quo_id row = nextId d \<and> quo_status row = QDraft \<and> quo_rentalId row = quo_rentalId parent \<and>
    quo_customerId row = qb_customerId body \<and> quo_createdAt row = now \<and> rentalContracts d' = rentalContracts d"
proof -
  let ?d = "insertQuote now c (quo_rentalId parent) (quo_revision parent + 1) (Some (quo_id parent)) body priced d"
  obtain row where row: "quotations ?d = quotations d @ [row]" "quo_id row = nextId d" "quo_rentalId row = quo_rentalId parent"
      "quo_status row = QDraft" "quo_createdAt row = now" "quo_customerId row = qb_customerId body"
    using insertQuote_tables(1)[OF assms(2)] by blast
  have p: "quo_id parent = i" "i < nextId d" using find_SomeD[OF assms(1)] assms(2) by (auto simp: wellNumbered_def)
  have "committed (revise now c i body d) (nextId d, quo_revision parent + 1, priced)
      (setQuote (quo_id parent) (quo_status_update (\<lambda>_. QSuperseded)) ?d)"
    by (simp add: revise_def assms)
  moreover have "quotations (setQuote (quo_id parent) (quo_status_update (\<lambda>_. QSuperseded)) ?d) =
      updw (\<lambda>q. quo_id q = i) (quo_status_update (\<lambda>_. QSuperseded)) (quotations d) @ [row]"
    unfolding setQuote_tables row(1) using p by (simp add: row(2))
  moreover have "rentalContracts (setQuote (quo_id parent) (quo_status_update (\<lambda>_. QSuperseded)) ?d) = rentalContracts d"
    unfolding setQuote_tables by (rule insertQuote_tables(2)[OF assms(2)])
  ultimately show ?thesis using row by blast
qed

lemma revised_contract_lost:
  assumes "find (\<lambda>q. quo_id q = i) (quotations d) = Some parent" "wellNumbered d" "quo_status parent = QAccepted"
    "quo_rentalId parent = Some rid" "requireVerifiedCompany (qb_customerId body) d = None"
    "priceQuote now (ctx_tenantId c) (qb_request body) ''NCR'' d = Inr priced"
    "list_all (\<lambda>q. quo_createdAt q < now) (quotations d)" "list_all (\<lambda>k. con_quotationId k < nextId d) (rentalContracts d)"
  shows "\<exists>r d'. committed (revise now c i body d) r d' \<and>
    led_depositRequired (resolveDepositLedger rid t d') = minDepositPhp (getBillingSettings t d')"
proof -
  obtain r d' row where d': "committed (revise now c i body d) r d'"
      "quotations d' = updw (\<lambda>q. quo_id q = i) (quo_status_update (\<lambda>_. QSuperseded)) (quotations d) @ [row]"
      "quo_id row = nextId d" "quo_rentalId row = Some rid" "quo_createdAt row = now" "rentalContracts d' = rentalContracts d"
    using revise_unchecked[OF assms(1,2,5,6)] assms(4) by metis
  have "latestQuotation rid d' = Some row"
    unfolding latestQuotation_def
    by (rule latestBy_unique) (use d' assms(7) in \<open>auto simp: in_updw list_all_iff split: if_split_asm\<close>)
  moreover have "latestContract (quo_id row) d' = None"
    using assms(8) by (auto simp: latestContract_def d'(3,6) filter_empty_conv list_all_iff)
  ultimately show ?thesis using d'(1) by (intro exI[of _ r] exI[of _ d']) (simp add: resolveDepositLedger_def Let_def)
qed

end
