(* ===== verification/Availability.thy ===== *)
theory Availability
  imports Common
begin

text \<open>
  The one availability check of the fleet (\<open>apps/api/src/common/equipment-availability.ts\<close>): holds
  and maintenance windows that overlap a wanted window, the tenant calendar in Manila time, the busy
  operator; the per-day view of the booking pickers, the nearest free window and the alternatives.
  Instants are milliseconds since the epoch, so the Manila wall clock is integer arithmetic. The
  locale \<open>exclusive_schedule\<close> is the contract the schedulers rely on: adding a hold the check lets
  through keeps holds of different rentals on one unit apart.
\<close>

section \<open>Windows and holds\<close>

record window =
  w_start :: time
  w_end :: time

definition MAX_ALTERNATIVES :: nat where
  "MAX_ALTERNATIVES = 5"

definition live :: "equipment_assignment \<Rightarrow> bool" where
  "live a \<longleftrightarrow> asg_status a = AScheduled \<or> asg_status a = AActive"

definition overlaps :: "equipment_assignment \<Rightarrow> window \<Rightarrow> bool" where
  "overlaps a w \<longleftrightarrow>
     asg_start a < w_end w \<and> (case asg_end a of None \<Rightarrow> True | Some e \<Rightarrow> w_start w < e)"

definition overlappingAssignments :: "uuid \<Rightarrow> window \<Rightarrow> db \<Rightarrow> equipment_assignment list" where
  "overlappingAssignments equipmentId w d =
     filter (\<lambda>a. asg_equipmentId a = equipmentId \<and> live a \<and> overlaps a w) (equipmentAssignments d)"

definition overlappingMaintenance :: "uuid \<Rightarrow> window \<Rightarrow> db \<Rightarrow> maintenance_window list" where
  "overlappingMaintenance equipmentId w d =
     filter (\<lambda>m. mw_equipmentId m = equipmentId \<and> mw_startsAt m < w_end w \<and> w_start w < mw_endsAt m)
       (maintenanceWindows d)"

section \<open>The calendar\<close>

datatype blocker = BAssignment | BMaintenance | BClosed | BHoliday | BOperator

definition MANILA_OFFSET_MS :: int where
  "MANILA_OFFSET_MS = 8 * 3600000"

definition MAX_DAYS :: int where
  "MAX_DAYS = 3660"

text \<open>The Manila date of an instant, its minute of the day, and its day of the week (0 = Sunday).\<close>

definition manilaDay :: "time \<Rightarrow> date" where
  "manilaDay t = (t + MANILA_OFFSET_MS) div DAY_MS"

definition manilaMinute :: "time \<Rightarrow> int" where
  "manilaMinute t = (t + MANILA_OFFSET_MS) mod DAY_MS div 60000"

definition manilaDow :: "time \<Rightarrow> int" where
  "manilaDow t = (manilaDay t + 4) mod 7"

definition manilaMidnight :: "date \<Rightarrow> time" where
  "manilaMidnight day = day * DAY_MS - MANILA_OFFSET_MS"

definition instantBlocker :: "calendar \<Rightarrow> time \<Rightarrow> blocker option" where
  "instantBlocker cal t =
     (if manilaDay t \<in> set (cal_blackouts cal) then Some BHoliday
      else if manilaDow t \<notin> set (cal_openDays cal) \<or> manilaMinute t < cal_openTime cal \<or>
              cal_closeTime cal < manilaMinute t
      then Some BClosed
      else None)"

definition calendarBlocker :: "calendar option \<Rightarrow> window \<Rightarrow> blocker option" where
  "calendarBlocker cal w =
     (case cal of
        None \<Rightarrow> None
      | Some c \<Rightarrow>
          (case instantBlocker c (w_start w) of
             Some b \<Rightarrow> Some b
           | None \<Rightarrow> instantBlocker c (w_end w)))"

definition readCalendar :: "uuid \<Rightarrow> db \<Rightarrow> calendar option" where
  "readCalendar tenantId d = find (\<lambda>c. cal_tenantId c = tenantId) (tenantCalendars d)"

section \<open>The check\<close>

definition operatorBusy :: "uuid option \<Rightarrow> uuid option \<Rightarrow> window \<Rightarrow> db \<Rightarrow> bool" where
  "operatorBusy op excl w d \<longleftrightarrow>
     (case op of
        None \<Rightarrow> False
      | Some u \<Rightarrow>
          list_ex (\<lambda>a. asg_operatorUserId a = Some u \<and> live a \<and> overlaps a w \<and>
             (case excl of None \<Rightarrow> True | Some r \<Rightarrow> asg_rentalId a \<noteq> r)) (equipmentAssignments d))"

definition availabilityBlockers ::
  "uuid \<Rightarrow> window \<Rightarrow> uuid option \<Rightarrow> uuid option \<Rightarrow> calendar option \<Rightarrow> db \<Rightarrow> blocker list" where
  "availabilityBlockers equipmentId w op excl cal d =
     (let holds = filter (\<lambda>a. Some (asg_rentalId a) \<noteq> excl) (overlappingAssignments equipmentId w d)
      in (if holds \<noteq> [] then [BAssignment] else [])
         @ (if overlappingMaintenance equipmentId w d \<noteq> [] then [BMaintenance] else [])
         @ (case calendarBlocker cal w of None \<Rightarrow> [] | Some b \<Rightarrow> [b])
         @ (if operatorBusy op excl w d then [BOperator] else []))"

section \<open>Views over it\<close>

record day_view =
  dv_date :: date
  dv_available :: bool
  dv_reason :: "blocker option"

definition touches :: "time \<Rightarrow> time option \<Rightarrow> time \<Rightarrow> bool" where
  "touches s e dayStart \<longleftrightarrow>
     s < dayStart + DAY_MS \<and> (case e of None \<Rightarrow> True | Some x \<Rightarrow> dayStart < x)"

definition dayReason ::
  "calendar option \<Rightarrow> equipment_assignment list \<Rightarrow> maintenance_window list \<Rightarrow> time \<Rightarrow> blocker option" where
  "dayReason cal holds windows dayStart =
     (if (case cal of None \<Rightarrow> False | Some c \<Rightarrow> manilaDay dayStart \<in> set (cal_blackouts c)) then Some BHoliday
      else if (case cal of None \<Rightarrow> False | Some c \<Rightarrow> manilaDow dayStart \<notin> set (cal_openDays c)) then Some BClosed
      else if list_ex (\<lambda>h. touches (asg_start h) (asg_end h) dayStart) holds then Some BAssignment
      else if list_ex (\<lambda>m. touches (mw_startsAt m) (Some (mw_endsAt m)) dayStart) windows then Some BMaintenance
      else None)"

definition dayAvailability :: "uuid \<Rightarrow> uuid \<Rightarrow> date \<Rightarrow> date \<Rightarrow> db \<Rightarrow> day_view list" where
  "dayAvailability tenantId equipmentId from_day to_day d =
     (let cal = readCalendar tenantId d;
          rangeStart = manilaMidnight from_day;
          days = min MAX_DAYS ((manilaMidnight to_day - rangeStart) div DAY_MS + 1);
          range = \<lparr>w_start = rangeStart, w_end = rangeStart + days * DAY_MS\<rparr>;
          holds = overlappingAssignments equipmentId range d;
          windows = overlappingMaintenance equipmentId range d
      in map (\<lambda>i. let dayStart = rangeStart + i * DAY_MS;
                      reason = dayReason cal holds windows dayStart
                  in \<lparr>dv_date = manilaDay dayStart, dv_available = (reason = None), dv_reason = reason\<rparr>)
           [0..days - 1])"

definition nearestFreeWindow :: "time \<Rightarrow> uuid \<Rightarrow> uuid \<Rightarrow> window \<Rightarrow> uuid \<Rightarrow> db \<Rightarrow> window option" where
  "nearestFreeWindow now tenantId equipmentId w excl d =
     (let start = w_start w;
          length = w_end w - start;
          cal = readCalendar tenantId d;
          candidates = map (\<lambda>shift. \<lparr>w_start = start + shift * DAY_MS, w_end = start + shift * DAY_MS + length\<rparr>)
            (concat (map (\<lambda>k. [k, - k]) [1..60]))
      in find (\<lambda>c. \<not> w_start c < now \<and> availabilityBlockers equipmentId c None (Some excl) cal d = []) candidates)"

definition findAvailableAlternatives :: "uuid \<Rightarrow> uuid \<Rightarrow> window \<Rightarrow> uuid list \<Rightarrow> db \<Rightarrow> uuid list" where
  "findAvailableAlternatives tenantId equipmentTypeId w excludeIds d =
     (let cal = readCalendar tenantId d in
      take MAX_ALTERNATIVES
        (map eqp_id
           (filter (\<lambda>u. eqp_equipmentTypeId u = equipmentTypeId \<and>
                (eqp_availabilityStatus u = Available \<or> eqp_availabilityStatus u = Deployed) \<and>
                eqp_retiredAt u = None \<and> eqp_id u \<notin> set excludeIds \<and>
                availabilityBlockers (eqp_id u) w None None cal d = []) (equipments d))))"

section \<open>The interface of an exclusive schedule\<close>

locale exclusive_schedule =
  fixes clash :: "'h \<Rightarrow> 'h \<Rightarrow> bool" and free :: "'h \<Rightarrow> 'h list \<Rightarrow> bool"
  assumes clash_sym: "clash a b \<Longrightarrow> clash b a"
    and free_law: "free a hs \<Longrightarrow> h \<in> set hs \<Longrightarrow> \<not> clash a h"
begin

definition apart :: "'h list \<Rightarrow> bool" where
  "apart hs \<longleftrightarrow> (\<forall>a \<in> set hs. \<forall>b \<in> set hs. \<not> clash a b)"

lemma apart_append:
  assumes "apart hs" "\<forall>n \<in> set ns. free n hs" "apart ns"
  shows "apart (hs @ ns)"
  using assms free_law clash_sym unfolding apart_def by (auto; blast)

lemma apart_subset: "apart hs \<Longrightarrow> set ks \<subseteq> set hs \<Longrightarrow> apart ks"
  by (auto simp: apart_def)

lemma apart_image:
  assumes "apart hs" "\<And>a b. clash (f a) (f b) \<Longrightarrow> clash a b"
  shows "apart (map f hs)"
  using assms by (auto simp: apart_def)

end

text \<open>Two live holds of different rentals that overlap on one unit; a free hold clashes with none.\<close>

definition holdsOverlap :: "equipment_assignment \<Rightarrow> equipment_assignment \<Rightarrow> bool" where
  "holdsOverlap a b \<longleftrightarrow>
     (case asg_end b of None \<Rightarrow> True | Some e \<Rightarrow> asg_start a < e) \<and>
     (case asg_end a of None \<Rightarrow> True | Some e \<Rightarrow> asg_start b < e)"

definition clash :: "equipment_assignment \<Rightarrow> equipment_assignment \<Rightarrow> bool" where
  "clash a b \<longleftrightarrow> live a \<and> live b \<and> asg_equipmentId a = asg_equipmentId b \<and> asg_rentalId a \<noteq> asg_rentalId b \<and>
     holdsOverlap a b"

definition holdFree :: "equipment_assignment \<Rightarrow> equipment_assignment list \<Rightarrow> bool" where
  "holdFree a hs \<longleftrightarrow>
     (case asg_end a of
        None \<Rightarrow> False
      | Some e \<Rightarrow> \<not> list_ex (\<lambda>h. asg_equipmentId h = asg_equipmentId a \<and> live h \<and>
          overlaps h \<lparr>w_start = asg_start a, w_end = e\<rparr> \<and> asg_rentalId h \<noteq> asg_rentalId a) hs)"

interpretation sched: exclusive_schedule clash holdFree
proof unfold_locales
  fix a b assume "clash a b"
  then show "clash b a" by (auto simp: clash_def holdsOverlap_def)
next
  fix a hs h assume "holdFree a hs" "h \<in> set hs"
  then show "\<not> clash a h"
    by (auto simp: holdFree_def clash_def holdsOverlap_def overlaps_def list_ex_iff split: option.splits)
qed

definition noDoubleBooking :: "db \<Rightarrow> bool" where
  "noDoubleBooking d \<longleftrightarrow> sched.apart (equipmentAssignments d)"

lemma blockers_free:
  assumes "availabilityBlockers u w op excl cal d = []" "asg_equipmentId a = u" "asg_start a = w_start w"
    and "asg_end a = Some (w_end w)" "excl = None \<or> excl = Some (asg_rentalId a)"
  shows "holdFree a (equipmentAssignments d)"
  using assms by (auto simp: availabilityBlockers_def Let_def holdFree_def overlappingAssignments_def
      overlaps_def list_ex_iff filter_empty_conv split: if_splits option.splits)

section \<open>Properties\<close>

text \<open>
  What an empty answer of the availability check means. No live hold of another rental on the
  unit and no maintenance window overlaps the wanted window; pickup and return each fall, in Manila
  time, on an open day that is not a blackout and within business hours; and the operator, if one is
  named, has no other live hold that overlaps it.
\<close>

theorem bookable_means_free:
  assumes "availabilityBlockers u w op excl cal d = []"
  shows "(\<forall>a \<in> set (equipmentAssignments d). asg_equipmentId a = u \<and> live a \<and> Some (asg_rentalId a) \<noteq> excl \<longrightarrow>
      w_end w \<le> asg_start a \<or> (\<exists>e. asg_end a = Some e \<and> e \<le> w_start w)) \<and>
    (\<forall>m \<in> set (maintenanceWindows d). mw_equipmentId m = u \<longrightarrow> w_end w \<le> mw_startsAt m \<or> mw_endsAt m \<le> w_start w) \<and>
    (\<forall>c t. cal = Some c \<and> t \<in> {w_start w, w_end w} \<longrightarrow>
      manilaDay t \<notin> set (cal_blackouts c) \<and> manilaDow t \<in> set (cal_openDays c) \<and>
      cal_openTime c \<le> manilaMinute t \<and> manilaMinute t \<le> cal_closeTime c) \<and>
    (\<forall>a \<in> set (equipmentAssignments d). op \<noteq> None \<and> asg_operatorUserId a = op \<and> live a \<and>
      Some (asg_rentalId a) \<noteq> excl \<longrightarrow> w_end w \<le> asg_start a \<or> (\<exists>e. asg_end a = Some e \<and> e \<le> w_start w))"
proof -
  have h: "filter (\<lambda>a. Some (asg_rentalId a) \<noteq> excl) (overlappingAssignments u w d) = []"
    and m: "overlappingMaintenance u w d = []" and k: "calendarBlocker cal w = None" and o: "\<not> operatorBusy op excl w d"
    using assms by (auto simp: availabilityBlockers_def Let_def split: if_splits option.splits)
  have ov: "w_end w \<le> asg_start a \<or> (\<exists>e. asg_end a = Some e \<and> e \<le> w_start w)" if "\<not> overlaps a w" for a
    using that by (auto simp: overlaps_def split: option.splits)
  show ?thesis
  proof (intro conjI ballI allI impI)
    fix a assume a: "a \<in> set (equipmentAssignments d)" "asg_equipmentId a = u \<and> live a \<and> Some (asg_rentalId a) \<noteq> excl"
    then have "\<not> overlaps a w" using h by (auto simp: overlappingAssignments_def filter_empty_conv)
    then show "w_end w \<le> asg_start a \<or> (\<exists>e. asg_end a = Some e \<and> e \<le> w_start w)" by (rule ov)
  next
    fix x assume "x \<in> set (maintenanceWindows d)" "mw_equipmentId x = u"
    then show "w_end w \<le> mw_startsAt x \<or> mw_endsAt x \<le> w_start w"
      using m by (force simp: overlappingMaintenance_def filter_empty_conv)
  next
    fix a assume a: "a \<in> set (equipmentAssignments d)"
      "op \<noteq> None \<and> asg_operatorUserId a = op \<and> live a \<and> Some (asg_rentalId a) \<noteq> excl"
    then have "\<not> overlaps a w" using o by (auto simp: operatorBusy_def list_ex_iff split: option.splits)
    then show "w_end w \<le> asg_start a \<or> (\<exists>e. asg_end a = Some e \<and> e \<le> w_start w)" by (rule ov)
  qed (use k in \<open>auto simp: calendarBlocker_def instantBlocker_def split: if_splits option.splits\<close>)
qed

definition demo_calendar :: calendar where
  "demo_calendar = \<lparr>cal_tenantId = 1, cal_openTime = 420, cal_closeTime = 1080, cal_openDays = [1, 2, 3, 4, 5, 6],
     cal_blackouts = [20080]\<rparr>"

definition demo_hold :: equipment_assignment where
  "demo_hold = \<lparr>asg_id = 50, asg_tenantId = 1, asg_equipmentId = 9, asg_rentalId = 5,
     asg_start = 20000 * 86400000, asg_end = Some (20010 * 86400000), asg_status = AScheduled,
     asg_operatorUserId = None, asg_bookedHours = Some 8000\<rparr>"

definition fleet_db :: db where
  "fleet_db = empty_db\<lparr>equipmentAssignments := [demo_hold], tenantCalendars := [demo_calendar]\<rparr>"

theorem bookable_means_free_witness:
  "availabilityBlockers 9 \<lparr>w_start = 20010 * 86400000, w_end = 20012 * 86400000\<rparr> None None (Some demo_calendar) fleet_db = [] \<and>
   list_all (\<lambda>a. \<exists>e. asg_end a = Some e \<and> e \<le> 20010 * 86400000) (equipmentAssignments fleet_db)"
proof -
  let ?w = "\<lparr>w_start = 20010 * 86400000, w_end = 20012 * 86400000\<rparr> :: window"
  have b: "availabilityBlockers 9 ?w None None (Some demo_calendar) fleet_db = []"
    by (simp add: availabilityBlockers_def Let_def overlappingAssignments_def overlappingMaintenance_def
        calendarBlocker_def instantBlocker_def operatorBusy_def overlaps_def fleet_db_def empty_db_def demo_hold_def
        demo_calendar_def manilaDay_def manilaDow_def manilaMinute_def MANILA_OFFSET_MS_def DAY_MS_def)
  have "asg_equipmentId a = 9 \<and> live a \<and> asg_start a < 20012 * 86400000" if "a \<in> set (equipmentAssignments fleet_db)" for a
    using that by (simp add: fleet_db_def demo_hold_def live_def)
  then show ?thesis using b bookable_means_free[OF b] by (fastforce simp: not_less[symmetric] list_all_iff)
qed

end
