(* ===== verification/Bookings.thy ===== *)
theory Bookings
  imports Availability DepositLedger
begin

text \<open>
  The booking service (\<open>apps/api/src/bookings/bookings.service.ts\<close>, with \<open>bookingDays\<close> and
  \<open>minBookingHours\<close> of \<open>packages/shared/src/bookings.ts\<close>). A booking is a rental and one equipment
  assignment per item. Every operation that changes state is a transaction body here; the automatic
  quote that follows a committed booking belongs to the quotes service. The step relation
  \<open>bookStep\<close> gathers them, and the invariant \<open>schedOk\<close> (no unit is held twice) holds of every
  state they reach.
\<close>

section \<open>Booking hours\<close>

definition bookingDays :: "time \<Rightarrow> time \<Rightarrow> number" where
  "bookingDays start finish = math_max (js 1) (math_ceil (js (of_int (finish - start)) / js 86400000))"

definition minBookingHours :: "number \<Rightarrow> number \<Rightarrow> number \<Rightarrow> number" where
  "minBookingHours days dailyHrs minHrs = math_max minHrs (days * dailyHrs)"

section \<open>Requests\<close>

record booking_item =
  bi_equipmentId :: uuid
  bi_start :: time
  bi_end :: time
  bi_hours :: "number option"

record booking_request =
  br_customerId :: "uuid option"
  br_projectSiteId :: uuid
  br_siteContact :: "string option"
  br_siteNotes :: "string option"
  br_items :: "booking_item list"

text \<open>What the wire schema guarantees: at least one item, each ending after it starts.\<close>

definition validItems :: "booking_item list \<Rightarrow> bool" where
  "validItems items \<longleftrightarrow> items \<noteq> [] \<and> (\<forall>i \<in> set items. bi_start i < bi_end i)"

definition itemWindow :: "booking_item \<Rightarrow> window" where
  "itemWindow i = \<lparr>w_start = bi_start i, w_end = bi_end i\<rparr>"

fun blockerReason :: "blocker \<Rightarrow> string" where
  "blockerReason BAssignment = ''dates_taken''"
| "blockerReason BMaintenance = ''maintenance_window''"
| "blockerReason BClosed = ''outside_business_hours''"
| "blockerReason BHoliday = ''holiday''"
| "blockerReason BOperator = ''operator_busy''"

definition unavailable :: "string \<Rightarrow> http_error" where
  "unavailable reason = Conflict (''equipment_unavailable: '' @ reason)"

section \<open>Create\<close>

definition chooseCustomer :: "ctx \<Rightarrow> uuid option \<Rightarrow> db \<Rightarrow> string list \<times> (http_error + uuid)" where
  "chooseCustomer c wanted d =
     (if ctx_role c = ''customer'' then
        let own = ownCustomers c d in
        if own = [] then ([], Inl (Forbidden ''customer_profile_not_found''))
        else (case wanted of
                Some i \<Rightarrow>
                  if \<not> list_ex (\<lambda>r. cus_id r = i) own
                  then ([''booking_customer_scope_denied''], Inl (Forbidden ''customer_scope_denied''))
                  else ([], Inr i)
              | None \<Rightarrow>
                  if 1 < length own then ([], Inl (Conflict ''company_required''))
                  else ([], Inr (cus_id (hd own))))
      else (case wanted of
              None \<Rightarrow> ([], Inl (NotFound ''customer_id_required''))
            | Some i \<Rightarrow> ([], Inr i)))"

fun bookedHours :: "settings \<Rightarrow> booking_item list \<Rightarrow> http_error + number list" where
  "bookedHours st [] = Inr []"
| "bookedHours st (i # is) =
     (let least = minBookingHours (bookingDays (bi_start i) (bi_end i)) (dailyHours st) (minHours st) in
      if (case bi_hours i of None \<Rightarrow> False | Some h \<Rightarrow> h < least) then Inl (Unprocessable ''hours_below_minimum'')
      else (case bookedHours st is of
              Inl e \<Rightarrow> Inl e
            | Inr hs \<Rightarrow> Inr ((case bi_hours i of None \<Rightarrow> least | Some h \<Rightarrow> h) # hs)))"

fun checkItems :: "uuid \<Rightarrow> booking_item list \<Rightarrow> db \<Rightarrow> http_error option" where
  "checkItems tenantId [] d = None"
| "checkItems tenantId (i # is) d =
     (case find (\<lambda>u. eqp_id u = bi_equipmentId i) (equipments d) of
        None \<Rightarrow> Some (NotFound ''equipment_not_found'')
      | Some unit \<Rightarrow>
          if eqp_availabilityStatus unit = InMaintenance \<or> eqp_retiredAt unit \<noteq> None
          then Some (unavailable ''not_in_service'')
          else (case availabilityBlockers (bi_equipmentId i) (itemWindow i) None None (readCalendar tenantId d) d of
                  b # _ \<Rightarrow> Some (unavailable (blockerReason b))
                | [] \<Rightarrow> checkItems tenantId is d))"

fun insertHolds :: "ctx \<Rightarrow> uuid \<Rightarrow> (booking_item \<times> number) list \<Rightarrow> db \<Rightarrow> db" where
  "insertHolds c rentalId [] d = d"
| "insertHolds c rentalId ((i, h) # rest) d =
     insertHolds c rentalId rest
       ((fresh d)\<lparr>equipmentAssignments := equipmentAssignments d @
          [\<lparr>asg_id = nextId d, asg_tenantId = ctx_tenantId c, asg_equipmentId = bi_equipmentId i,
            asg_rentalId = rentalId, asg_start = bi_start i, asg_end = Some (bi_end i),
            asg_status = AScheduled, asg_operatorUserId = None, asg_bookedHours = Some (col2 h)\<rparr>]\<rparr>)"

definition siteBookable :: "uuid \<Rightarrow> uuid \<Rightarrow> db \<Rightarrow> bool" where
  "siteBookable siteId customerId d \<longleftrightarrow>
     (case find (\<lambda>s. site_id s = siteId) (projectSites d) of
        None \<Rightarrow> False
      | Some site \<Rightarrow> (case site_customerId site of None \<Rightarrow> True | Some i \<Rightarrow> i = customerId))"

definition create :: "time \<Rightarrow> ctx \<Rightarrow> booking_request \<Rightarrow> (db, uuid) body" where
  "create now c body d =
     (case chooseCustomer c (br_customerId body) d of
        (es, Inl e) \<Rightarrow> (es, Inl e)
      | (es, Inr customerId) \<Rightarrow>
          if \<not> siteBookable (br_projectSiteId body) customerId d then fails (NotFound ''project_site_not_found'')
          else (case requireVerifiedCompany customerId d of
            Some e \<Rightarrow> fails e
          | None \<Rightarrow>
              (case bookedHours (getBillingSettings (ctx_tenantId c) d) (br_items body) of
                 Inl e \<Rightarrow> fails e
               | Inr hours \<Rightarrow>
                   (case checkItems (ctx_tenantId c) (br_items body) d of
                      Some e \<Rightarrow> fails e
                    | None \<Rightarrow>
                        let rentalId = nextId d;
                            d1 = (fresh d)\<lparr>rentals := rentals d @
                              [\<lparr>ren_id = rentalId, ren_tenantId = ctx_tenantId c, ren_customerId = customerId,
                                ren_projectSiteId = br_projectSiteId body, ren_status = RPending,
                                ren_siteContact = nonEmpty (br_siteContact body),
                                ren_siteNotes = nonEmpty (br_siteNotes body),
                                ren_startDate = Min (set (map bi_start (br_items body))),
                                ren_endDate = Some (Max (set (map bi_end (br_items body)))),
                                ren_callRequestedAt = None, ren_callConfirmedAt = None,
                                ren_callConfirmedBy = None, ren_createdAt = now\<rparr>]\<rparr>;
                            d2 = audit c ''CREATE'' ''rentals'' rentalId
                              (insertHolds c rentalId (zip (br_items body) hours) d1);
                            payload = [(''rental_id'', JId rentalId),
                              (''item_count'', JNum (js (of_nat (length (br_items body)))))];
                            d3 = (if ctx_role c = ''customer''
                              then notifyStaff (ctx_tenantId c) ''booking_requested'' payload d2 else d2)
                        in ([''booking_created''], Inr (rentalId, d3))))))"

section \<open>The other operations\<close>

definition visibleRental :: "ctx \<Rightarrow> uuid \<Rightarrow> db \<Rightarrow> http_error + rental" where
  "visibleRental c i d =
     (case find (\<lambda>r. ren_id r = i) (rentals d) of
        None \<Rightarrow> Inl (NotFound ''booking_not_found'')
      | Some rental \<Rightarrow>
          if ctx_role c = ''customer'' \<and> \<not> ownsCustomer c (Some (ren_customerId rental)) d
          then Inl (NotFound ''booking_not_found'')
          else Inr rental)"

definition setRental :: "uuid \<Rightarrow> (rental \<Rightarrow> rental) \<Rightarrow> db \<Rightarrow> db" where
  "setRental i f d = d\<lparr>rentals := updw (\<lambda>r. ren_id r = i) f (rentals d)\<rparr>"

definition setHolds :: "(equipment_assignment \<Rightarrow> bool) \<Rightarrow> (equipment_assignment \<Rightarrow> equipment_assignment) \<Rightarrow> db \<Rightarrow> db" where
  "setHolds p f d = d\<lparr>equipmentAssignments := updw p f (equipmentAssignments d)\<rparr>"

definition setUnits :: "uuid set \<Rightarrow> equipment_status \<Rightarrow> db \<Rightarrow> db" where
  "setUnits ids st d = d\<lparr>equipments := updw (\<lambda>u. eqp_id u \<in> ids) (eqp_availabilityStatus_update (\<lambda>_. st)) (equipments d)\<rparr>"

definition cancelRental :: "ctx \<Rightarrow> uuid \<Rightarrow> db \<Rightarrow> db" where
  "cancelRental c i d =
     audit c ''UPDATE'' ''rentals'' i
       (setHolds (\<lambda>a. asg_rentalId a = i) (asg_status_update (\<lambda>_. ACancelled))
         (setRental i (ren_status_update (\<lambda>_. RCancelled)) d))"

definition cancel :: "ctx \<Rightarrow> uuid \<Rightarrow> (db, uuid) body" where
  "cancel c i d =
     (case visibleRental c i d of
        Inl e \<Rightarrow> fails e
      | Inr rental \<Rightarrow>
          if ren_status rental = RCancelled then fails (Conflict ''already_cancelled'')
          else if ctx_role c = ''customer'' \<and> ren_status rental \<noteq> RPending then fails (Conflict ''cancel_needs_request'')
          else
            let d1 = cancelRental c i d;
                d2 = (if ctx_role c \<noteq> ''customer''
                  then notifyBookingCustomer (ctx_tenantId c) i ''booking_cancelled'' [] d1 else d1)
            in ([''booking_cancelled''], Inr (i, d2)))"

definition requestCall :: "time \<Rightarrow> ctx \<Rightarrow> uuid \<Rightarrow> (db, time) body" where
  "requestCall now c i d =
     (case visibleRental c i d of
        Inl e \<Rightarrow> fails e
      | Inr _ \<Rightarrow>
          returns now
            (notifyStaff (ctx_tenantId c) ''call_requested'' [(''rental_id'', JId i)]
              (setRental i (\<lambda>r. r\<lparr>ren_callRequestedAt := Some now\<rparr>) d)))"

definition confirmCall :: "time \<Rightarrow> ctx \<Rightarrow> uuid \<Rightarrow> (db, time) body" where
  "confirmCall now c i d =
     (case visibleRental c i d of
        Inl e \<Rightarrow> fails e
      | Inr _ \<Rightarrow>
          returns now
            (notifyBookingCustomer (ctx_tenantId c) i ''call_confirmed'' []
              (setRental i (\<lambda>r. r\<lparr>ren_callConfirmedAt := Some now, ren_callConfirmedBy := Some (ctx_userId c)\<rparr>) d)))"

definition postMessage :: "time \<Rightarrow> ctx \<Rightarrow> uuid \<Rightarrow> string \<Rightarrow> number option \<Rightarrow> (db, uuid) body" where
  "postMessage now c i text offerPhp d =
     (case visibleRental c i d of
        Inl e \<Rightarrow> fails e
      | Inr rental \<Rightarrow>
          if ren_status rental = RCancelled then fails (Conflict ''booking_cancelled'')
          else
            let authorRole = (if ctx_role c = ''customer'' then ''customer'' else ''staff'');
                offer = (''offer_php'', (case offerPhp of None \<Rightarrow> JNull | Some x \<Rightarrow> JNum x));
                m = nextId d;
                d1 = (fresh d)\<lparr>negotiationMessages := negotiationMessages d @
                  [\<lparr>msg_id = m, msg_tenantId = ctx_tenantId c, msg_rentalId = Some i, msg_truckRequestId = None,
                    msg_authorUserId = ctx_userId c, msg_authorRole = authorRole, msg_body = text,
                    msg_offerPhp = map_option col2 offerPhp, msg_createdAt = now\<rparr>]\<rparr>;
                d2 = (if authorRole = ''staff''
                  then notifyBookingCustomer (ctx_tenantId c) i ''negotiation_reply'' [offer] d1
                  else notifyStaff (ctx_tenantId c) ''customer_message'' [(''rental_id'', JId i), offer] d1)
            in ([''negotiation_message_posted''], Inr (m, d2)))"

definition deliver :: "ctx \<Rightarrow> uuid \<Rightarrow> (db, uuid) body" where
  "deliver c i d =
     (case visibleRental c i d of
        Inl e \<Rightarrow> fails e
      | Inr rental \<Rightarrow>
          let holds = filter (\<lambda>a. asg_rentalId a = i \<and> asg_status a = AScheduled) (equipmentAssignments d);
              units = filter (\<lambda>u. eqp_id u \<in> set (map asg_equipmentId holds)) (equipments d)
          in
          if ren_status rental \<noteq> RConfirmed then fails (Conflict ''booking_not_ready'')
          else if holds = [] then fails (Conflict ''nothing_to_deliver'')
          else if list_ex (\<lambda>u. eqp_availabilityStatus u \<noteq> Available) units then fails (Conflict ''equipment_unavailable'')
          else
            let d1 = setHolds (\<lambda>a. asg_id a \<in> set (map asg_id holds)) (asg_status_update (\<lambda>_. AActive)) d;
                d2 = setUnits (set (map eqp_id units)) Deployed d1;
                d3 = audit c ''UPDATE'' ''rentals'' i (setRental i (ren_status_update (\<lambda>_. RActive)) d2);
                d4 = notifyBookingCustomer (ctx_tenantId c) i ''equipment_delivered''
                       [(''item_count'', JNum (js (of_nat (length holds))))] d3
            in ([''booking_delivered''], Inr (i, d4)))"

definition markReturned :: "time \<Rightarrow> ctx \<Rightarrow> uuid \<Rightarrow> (db, uuid) body" where
  "markReturned now c i d =
     (case visibleRental c i d of
        Inl e \<Rightarrow> fails e
      | Inr rental \<Rightarrow>
          if ren_status rental \<noteq> RActive then fails (Conflict ''booking_not_on_site'')
          else
            let holds = filter (\<lambda>a. asg_rentalId a = i \<and> asg_status a = AActive) (equipmentAssignments d);
                d1 = (if holds \<noteq> [] then
                    setUnits (set (map asg_equipmentId holds)) Available
                      (setHolds (\<lambda>a. asg_id a \<in> set (map asg_id holds))
                        (\<lambda>a. a\<lparr>asg_status := ACompleted, asg_end := Some now\<rparr>) d)
                  else d);
                d2 = audit c ''UPDATE'' ''rentals'' i
                       (setRental i (\<lambda>r. r\<lparr>ren_status := RCompleted, ren_endDate := Some now\<rparr>) d1);
                d3 = notifyBookingCustomer (ctx_tenantId c) i ''equipment_returned''
                       [(''item_count'', JNum (js (of_nat (length holds))))] d2
            in ([''booking_returned''], Inr (i, d3)))"

section \<open>Change requests\<close>

fun kindName :: "change_kind \<Rightarrow> string" where
  "kindName Extend = ''extend''"
| "kindName CancelReq = ''cancel''"

definition requestChange ::
  "ctx \<Rightarrow> uuid \<Rightarrow> change_kind \<Rightarrow> time option \<Rightarrow> string option \<Rightarrow> (db, uuid) body" where
  "requestChange c i kind requestedEnd reason d =
     (case visibleRental c i d of
        Inl e \<Rightarrow> fails e
      | Inr rental \<Rightarrow>
          if ren_status rental = RCancelled \<or> ren_status rental = RCompleted then fails (Conflict ''booking_closed'')
          else if kind = CancelReq \<and> ren_status rental = RActive then fails (Conflict ''already_on_site'')
          else if kind = Extend \<and>
                  (case (requestedEnd, ren_endDate rental) of (Some t, Some e) \<Rightarrow> t \<le> e | _ \<Rightarrow> False)
          then fails (Conflict ''extend_must_be_later'')
          else if list_ex (\<lambda>q. chg_rentalId q = i \<and> chg_status q = CPending) (bookingChangeRequests d)
          then fails (Conflict ''change_request_open'')
          else
            let q = nextId d;
                d1 = (fresh d)\<lparr>bookingChangeRequests := bookingChangeRequests d @
                  [\<lparr>chg_id = q, chg_tenantId = ctx_tenantId c, chg_rentalId = i, chg_kind = kind,
                    chg_requestedEnd = requestedEnd, chg_reason = nonEmpty reason, chg_status = CPending,
                    chg_requestedBy = ctx_userId c, chg_resolvedBy = None, chg_resolvedAt = None\<rparr>]\<rparr>
            in ([''booking_change_requested''],
                Inr (q, notifyStaff (ctx_tenantId c) ''change_request_submitted''
                     [(''rental_id'', JId i), (''kind'', JStr (kindName kind))] d1)))"

fun extendHolds :: "uuid \<Rightarrow> time \<Rightarrow> equipment_assignment list \<Rightarrow> db \<Rightarrow> http_error + db" where
  "extendHolds i newEnd [] d = Inr d"
| "extendHolds i newEnd (a # as) d =
     (let from_time = (case asg_end a of None \<Rightarrow> asg_start a | Some e \<Rightarrow> e) in
      if newEnd \<le> from_time then extendHolds i newEnd as d
      else if filter (\<lambda>b. asg_rentalId b \<noteq> i)
                (overlappingAssignments (asg_equipmentId a) \<lparr>w_start = from_time, w_end = newEnd\<rparr> d) \<noteq> []
      then Inl (unavailable ''dates_taken'')
      else extendHolds i newEnd as (setHolds (\<lambda>b. asg_id b = asg_id a) (\<lambda>b. b\<lparr>asg_end := Some newEnd\<rparr>) d))"

definition extendRental :: "uuid \<Rightarrow> time \<Rightarrow> db \<Rightarrow> http_error + db" where
  "extendRental i newEnd d =
     (case extendHolds i newEnd
             (filter (\<lambda>a. asg_rentalId a = i \<and> asg_status a \<noteq> ACancelled) (equipmentAssignments d)) d of
        Inl e \<Rightarrow> Inl e
      | Inr d1 \<Rightarrow> Inr (setRental i (\<lambda>r. r\<lparr>ren_endDate := Some newEnd\<rparr>) d1))"

definition applyChange :: "ctx \<Rightarrow> uuid \<Rightarrow> change_request \<Rightarrow> db \<Rightarrow> string list \<times> (http_error + db)" where
  "applyChange c i request d =
     (if chg_kind request = CancelReq then ([''booking_cancelled''], Inr (cancelRental c i d))
      else (case chg_requestedEnd request of
              None \<Rightarrow> ([], Inr d)
            | Some t \<Rightarrow> ([], extendRental i t d)))"

definition resolveChange :: "time \<Rightarrow> ctx \<Rightarrow> uuid \<Rightarrow> uuid \<Rightarrow> bool \<Rightarrow> (db, uuid) body" where
  "resolveChange now c i requestId approved d =
     (case find (\<lambda>q. chg_id q = requestId \<and> chg_rentalId q = i) (bookingChangeRequests d) of
        None \<Rightarrow> fails (NotFound ''change_request_not_found'')
      | Some request \<Rightarrow>
          if chg_status request \<noteq> CPending then fails (Conflict ''change_request_resolved'')
          else
            (case (if approved then applyChange c i request d else ([], Inr d)) of
               (es, Inl e) \<Rightarrow> (es, Inl e)
             | (es, Inr d1) \<Rightarrow>
                 let d2 = d1\<lparr>bookingChangeRequests := updw (\<lambda>q. chg_id q = requestId)
                       (\<lambda>q. q\<lparr>chg_status := (if approved then CApproved else CRejected),
                          chg_resolvedBy := Some (ctx_userId c), chg_resolvedAt := Some now\<rparr>)
                       (bookingChangeRequests d1)\<rparr>;
                     d3 = audit c (if approved then ''APPROVE'' else ''REJECT'') ''booking_change_requests'' requestId d2;
                     d4 = notifyBookingCustomer (ctx_tenantId c) i ''change_request_resolved''
                            [(''kind'', JStr (kindName (chg_kind request))),
                             (''decision'', JStr (if approved then ''approved'' else ''rejected''))] d3
                 in (es, Inr (requestId, d4))))"

section \<open>Reads\<close>

definition listBookings :: "ctx \<Rightarrow> nat \<Rightarrow> nat \<Rightarrow> (db, rental list \<times> nat) body" where
  "listBookings c limit offset d =
     (let own = map cus_id (ownCustomers c d) in
      if ctx_role c = ''customer'' \<and> own = [] then returns ([], 0) d
      else
        let rows = filter (\<lambda>r. ctx_role c = ''customer'' \<longrightarrow> ren_customerId r \<in> set own) (rentals d)
        in returns (take limit (drop offset (orderByDesc ren_createdAt rows)), length rows) d)"

definition listMessages :: "ctx \<Rightarrow> uuid \<Rightarrow> (db, (negotiation_message \<times> bool) list) body" where
  "listMessages c i d =
     (case visibleRental c i d of
        Inl e \<Rightarrow> fails e
      | Inr _ \<Rightarrow>
          returns
            (map (\<lambda>m. (m, msg_authorUserId m = ctx_userId c))
              (take 500 (orderByDesc (\<lambda>m. - msg_createdAt m)
                 (filter (\<lambda>m. msg_rentalId m = Some i) (negotiationMessages d))))) d)"

definition rescheduleSuggestion :: "time \<Rightarrow> ctx \<Rightarrow> uuid \<Rightarrow> (db, (uuid \<times> window option \<times> uuid list) list) body" where
  "rescheduleSuggestion now c i d =
     (case visibleRental c i d of
        Inl e \<Rightarrow> fails e
      | Inr _ \<Rightarrow>
          returns
            (map (\<lambda>a. let w = \<lparr>w_start = asg_start a,
                          w_end = (case asg_end a of None \<Rightarrow> asg_start a | Some e \<Rightarrow> e)\<rparr>
                      in (asg_equipmentId a, nearestFreeWindow now (ctx_tenantId c) (asg_equipmentId a) w i d,
                          (case find (\<lambda>u. eqp_id u = asg_equipmentId a) (equipments d) of
                             None \<Rightarrow> []
                           | Some u \<Rightarrow> findAvailableAlternatives (ctx_tenantId c) (eqp_equipmentTypeId u) w
                               [asg_equipmentId a] d)))
              (filter (\<lambda>a. asg_rentalId a = i \<and> live a) (equipmentAssignments d))) d)"

section \<open>The schedule invariant\<close>

definition holdWf :: "equipment_assignment \<Rightarrow> bool" where
  "holdWf a \<longleftrightarrow> live a \<longrightarrow> (case asg_end a of None \<Rightarrow> True | Some e \<Rightarrow> asg_start a < e)"

definition holdsOk :: "equipment_assignment list \<Rightarrow> uuid \<Rightarrow> bool" where
  "holdsOk hs n \<longleftrightarrow> distinct (map asg_id hs) \<and> (\<forall>a \<in> set hs. asg_id a < n) \<and> (\<forall>a \<in> set hs. holdWf a)"

definition schedOk :: "db \<Rightarrow> bool" where
  "schedOk d \<longleftrightarrow> noDoubleBooking d \<and> holdsOk (equipmentAssignments d) (nextId d)"

text \<open>A step that only notifies, audits or touches other tables.\<close>

definition sameHolds :: "db \<Rightarrow> db \<Rightarrow> bool" where
  "sameHolds d d' \<longleftrightarrow> equipmentAssignments d' = equipmentAssignments d \<and> nextId d \<le> nextId d'"

lemma schedOk_same: "schedOk d \<Longrightarrow> sameHolds d d' \<Longrightarrow> schedOk d'"
  by (fastforce simp: schedOk_def sameHolds_def noDoubleBooking_def holdsOk_def)

lemma notify_holds [simp]:
  "equipmentAssignments (notifyBookingCustomer t r k p d) = equipmentAssignments d"
  "equipmentAssignments (notifyStaff t k p d) = equipmentAssignments d"
  "rentals (notifyBookingCustomer t r k p d) = rentals d" "rentals (notifyStaff t k p d) = rentals d"
  "equipments (notifyBookingCustomer t r k p d) = equipments d" "equipments (notifyStaff t k p d) = equipments d"
  using sameLedger_notify[of d] by (simp_all add: sameLedger_def)

lemma op_simps [simp]:
  "equipmentAssignments (audit c a e i d) = equipmentAssignments d" "nextId (audit c a e i d) = nextId d"
  "rentals (audit c a e i d) = rentals d" "equipments (audit c a e i d) = equipments d"
  "equipmentAssignments (setRental i f d) = equipmentAssignments d" "nextId (setRental i f d) = nextId d"
  "equipments (setRental i f d) = equipments d" "rentals (setRental i f d) = updw (\<lambda>r. ren_id r = i) f (rentals d)"
  "equipmentAssignments (setUnits s st d) = equipmentAssignments d" "nextId (setUnits s st d) = nextId d"
  "rentals (setUnits s st d) = rentals d"
  "equipmentAssignments (setHolds p g d) = updw p g (equipmentAssignments d)" "nextId (setHolds p g d) = nextId d"
  "rentals (setHolds p g d) = rentals d" "equipments (setHolds p g d) = equipments d"
  "equipmentAssignments (fresh d) = equipmentAssignments d" "nextId (fresh d) = Suc (nextId d)" "rentals (fresh d) = rentals d"
  by (simp_all add: audit_def setRental_def setUnits_def setHolds_def fresh_def)

text \<open>A hold may lose its liveness, or stay where it is.\<close>

definition demotes :: "(equipment_assignment \<Rightarrow> equipment_assignment) \<Rightarrow> equipment_assignment \<Rightarrow> bool" where
  "demotes f a \<longleftrightarrow> asg_id (f a) = asg_id a \<and>
     (live (f a) \<longrightarrow> live a \<and> asg_equipmentId (f a) = asg_equipmentId a \<and> asg_rentalId (f a) = asg_rentalId a \<and>
        asg_start (f a) = asg_start a \<and> asg_end (f a) = asg_end a)"

lemma demotes_clash: "demotes f a \<Longrightarrow> demotes g b \<Longrightarrow> clash (f a) (g b) \<Longrightarrow> clash a b"
  by (auto simp: demotes_def clash_def holdsOverlap_def split: option.splits)

lemma demotes_id: "demotes (\<lambda>a. a) a"
  by (simp add: demotes_def)

lemma schedOk_updw:
  assumes ok: "schedOk d" and e: "equipmentAssignments d' = updw p f (equipmentAssignments d)" "nextId d \<le> nextId d'"
    and dem: "\<And>a. a \<in> set (equipmentAssignments d) \<Longrightarrow> p a \<Longrightarrow> demotes f a"
  shows "schedOk d'"
proof -
  define g where "g = (\<lambda>a. if p a then f a else a)"
  have u: "equipmentAssignments d' = map g (equipmentAssignments d)" by (simp add: e updw_def g_def)
  have g: "demotes g a" if "a \<in> set (equipmentAssignments d)" for a
    using dem[OF that] by (auto simp: demotes_def g_def)
  have ap: "noDoubleBooking d'"
    unfolding noDoubleBooking_def sched.apart_def u set_map
  proof (intro ballI notI, elim imageE)
    fix x y a b assume *: "clash x y" "x = g a" "y = g b" "a \<in> set (equipmentAssignments d)" "b \<in> set (equipmentAssignments d)"
    then have "clash a b" using demotes_clash[OF g[OF *(4)] g[OF *(5)]] by simp
    then show False using ok * by (auto simp: schedOk_def noDoubleBooking_def sched.apart_def)
  qed
  have ids: "map asg_id (equipmentAssignments d') = map asg_id (equipmentAssignments d)"
    unfolding u using g by (simp add: demotes_def)
  have wf: "holdWf (g a)" if "a \<in> set (equipmentAssignments d)" for a
    using ok that g[OF that] by (auto simp: schedOk_def holdsOk_def holdWf_def demotes_def split: option.splits)
  have lt: "\<forall>x \<in> set (equipmentAssignments d'). asg_id x < nextId d'"
  proof
    fix x assume "x \<in> set (equipmentAssignments d')"
    then obtain a where a: "a \<in> set (equipmentAssignments d)" "x = g a" unfolding u by auto
    then have "asg_id x = asg_id a" "asg_id a < nextId d" using g[OF a(1)] ok by (auto simp: demotes_def schedOk_def holdsOk_def)
    then show "asg_id x < nextId d'" using e(2) by simp
  qed
  show ?thesis using ok ap wf lt unfolding schedOk_def holdsOk_def ids unfolding u by simp
qed

lemma live_status [simp]:
  "live (asg_status_update (\<lambda>_. s) a) \<longleftrightarrow> s = AScheduled \<or> s = AActive"
  by (simp add: live_def)

text \<open>Inserting the holds of a booking.\<close>

definition holdFor :: "uuid \<Rightarrow> booking_item list \<Rightarrow> equipment_assignment \<Rightarrow> bool" where
  "holdFor rid items a \<longleftrightarrow> asg_rentalId a = rid \<and> asg_status a = AScheduled \<and>
     (\<exists>i \<in> set items. asg_equipmentId a = bi_equipmentId i \<and> asg_start a = bi_start i \<and> asg_end a = Some (bi_end i))"

lemma insertHolds_append:
  "\<exists>ns. equipmentAssignments (insertHolds c rid xs d) = equipmentAssignments d @ ns \<and>
     map asg_id ns = [nextId d ..< nextId d + length xs] \<and>
     nextId (insertHolds c rid xs d) = nextId d + length xs \<and>
     (\<forall>a \<in> set ns. holdFor rid (map fst xs) a) \<and> rentals (insertHolds c rid xs d) = rentals d"
proof (induction xs arbitrary: d)
  case (Cons x xs)
  obtain i h where x: "x = (i, h)" by (cases x)
  let ?n = "\<lparr>asg_id = nextId d, asg_tenantId = ctx_tenantId c, asg_equipmentId = bi_equipmentId i,
            asg_rentalId = rid, asg_start = bi_start i, asg_end = Some (bi_end i),
            asg_status = AScheduled, asg_operatorUserId = None, asg_bookedHours = Some (col2 h)\<rparr>"
  let ?d = "(fresh d)\<lparr>equipmentAssignments := equipmentAssignments d @ [?n]\<rparr>"
  obtain ns where ns: "equipmentAssignments (insertHolds c rid xs ?d) = equipmentAssignments ?d @ ns"
    "map asg_id ns = [nextId ?d ..< nextId ?d + length xs]" "nextId (insertHolds c rid xs ?d) = nextId ?d + length xs"
    "\<forall>a \<in> set ns. holdFor rid (map fst xs) a" "rentals (insertHolds c rid xs ?d) = rentals ?d"
    using Cons.IH[of ?d] by blast
  have "map asg_id (?n # ns) = [nextId d ..< nextId d + length (x # xs)]"
    unfolding list.map ns(2) by (subst upt_conv_Cons[of "nextId d"]) (simp_all add: fresh_def)
  moreover have "\<forall>a \<in> set (?n # ns). holdFor rid (map fst (x # xs)) a"
    using ns(4) by (auto simp: holdFor_def x)
  ultimately show ?case using ns by (intro exI[of _ "?n # ns"]) (simp add: x fresh_def)
qed simp

lemma checkItems_free:
  "checkItems t items d = None \<Longrightarrow> i \<in> set items \<Longrightarrow>
   availabilityBlockers (bi_equipmentId i) (itemWindow i) None None (readCalendar t d) d = []"
  by (induction items) (auto split: option.splits if_splits list.splits)

lemma bookedHours_length: "bookedHours st items = Inr hs \<Longrightarrow> length hs = length items"
  by (induction items arbitrary: hs) (auto simp: Let_def split: if_splits sum.splits)

lemma schedOk_insert:
  assumes ok: "schedOk d" and free: "checkItems t items d = None" and v: "validItems items"
    and e: "equipmentAssignments d' = equipmentAssignments d @ ns" "nextId d < n"
    and ns: "map asg_id ns = [n ..< m]" "m \<le> nextId d'" "\<forall>a \<in> set ns. holdFor rid items a" "n \<le> m"
  shows "schedOk d'"
proof -
  have fr: "holdFree a (equipmentAssignments d)" and wf: "holdWf a" if a: "a \<in> set ns" for a
  proof -
    obtain i where i: "i \<in> set items" "asg_equipmentId a = bi_equipmentId i" "asg_start a = bi_start i" "asg_end a = Some (bi_end i)"
      using ns(3) a by (auto simp: holdFor_def)
    show "holdFree a (equipmentAssignments d)"
      by (rule blockers_free[OF checkItems_free[OF free i(1)] i(2)]) (simp_all add: itemWindow_def i)
    show "holdWf a" using v i by (auto simp: holdWf_def validItems_def)
  qed
  have "sched.apart ns" using ns(3) by (auto simp: sched.apart_def clash_def holdFor_def)
  then have ap: "noDoubleBooking d'"
    using ok fr unfolding noDoubleBooking_def e(1) schedOk_def by (intro sched.apart_append) auto
  have set_ids: "asg_id ` set ns = {n ..< m}" using ns(1) by (metis atLeastLessThan_upt list.set_map)
  have old: "\<forall>a \<in> set (equipmentAssignments d). asg_id a < nextId d" using ok by (auto simp: schedOk_def holdsOk_def)
  have "distinct (map asg_id (equipmentAssignments d @ ns))"
    using ok set_ids old e(2) ns(1) by (auto simp: schedOk_def holdsOk_def)
  moreover have "\<forall>a \<in> set (equipmentAssignments d @ ns). asg_id a < nextId d'"
  proof
    fix a assume "a \<in> set (equipmentAssignments d @ ns)"
    then have "asg_id a < nextId d \<or> asg_id a \<in> {n ..< m}" using old set_ids by auto
    then show "asg_id a < nextId d'" using e(2) ns(2,4) by auto
  qed
  moreover have "\<forall>a \<in> set (equipmentAssignments d @ ns). holdWf a" using ok wf by (auto simp: schedOk_def holdsOk_def)
  ultimately show ?thesis using ap unfolding schedOk_def holdsOk_def e(1) by blast
qed

text \<open>Extending one hold into days nobody else holds.\<close>

lemma extend_no_clash:
  assumes "\<not> clash a b" "holdWf a" "holdWf b" "(case asg_end a of None \<Rightarrow> asg_start a | Some e \<Rightarrow> e) < t"
    and "\<not> (asg_equipmentId b = asg_equipmentId a \<and> live b \<and>
       overlaps b \<lparr>w_start = (case asg_end a of None \<Rightarrow> asg_start a | Some e \<Rightarrow> e), w_end = t\<rparr> \<and> asg_rentalId b \<noteq> asg_rentalId a)"
  shows "\<not> clash (a\<lparr>asg_end := Some t\<rparr>) b"
  using assms by (auto simp: clash_def holdsOverlap_def overlaps_def holdWf_def live_def split: option.splits)

lemma extend_wf: "holdWf a \<Longrightarrow> (case asg_end a of None \<Rightarrow> asg_start a | Some e \<Rightarrow> e) < t \<Longrightarrow> holdWf (a\<lparr>asg_end := Some t\<rparr>)"
  by (auto simp: holdWf_def live_def split: option.splits)

lemma schedOk_extend:
  assumes ok: "schedOk d" and a: "a \<in> set (equipmentAssignments d)"
    and t: "(case asg_end a of None \<Rightarrow> asg_start a | Some e \<Rightarrow> e) < t"
    and free: "filter (\<lambda>b. asg_rentalId b \<noteq> asg_rentalId a) (overlappingAssignments (asg_equipmentId a)
       \<lparr>w_start = (case asg_end a of None \<Rightarrow> asg_start a | Some e \<Rightarrow> e), w_end = t\<rparr> d) = []"
    and d': "d' = setHolds (\<lambda>b. asg_id b = asg_id a) (\<lambda>b. b\<lparr>asg_end := Some t\<rparr>) d"
  shows "schedOk d'"
proof -
  let ?H = "set (equipmentAssignments d)" and ?a = "a\<lparr>asg_end := Some t\<rparr>"
  have D: "distinct (map asg_id (equipmentAssignments d))" and wf: "\<forall>b \<in> ?H. holdWf b"
    and ap: "\<forall>x \<in> ?H. \<forall>y \<in> ?H. \<not> clash x y"
    using ok by (auto simp: schedOk_def holdsOk_def noDoubleBooking_def sched.apart_def)
  have H': "x = ?a \<or> x \<in> ?H" if "x \<in> set (equipmentAssignments d')" for x
  proof -
    obtain r where r: "r \<in> ?H" "x = (if asg_id r = asg_id a then r\<lparr>asg_end := Some t\<rparr> else r)"
      using \<open>x \<in> set (equipmentAssignments d')\<close> unfolding d' op_simps in_updw by blast
    then show ?thesis using distinct_map_eq[OF D r(1) a] by (cases "asg_id r = asg_id a") simp_all
  qed
  have no: "\<not> clash ?a b" if "b \<in> ?H" for b
    using extend_no_clash[of a b t] ap a wf that t free by (auto simp: overlappingAssignments_def filter_empty_conv)
  have "\<not> clash ?a ?a" by (simp add: clash_def)
  then have "noDoubleBooking d'"
    unfolding noDoubleBooking_def sched.apart_def
  proof (intro ballI)
    fix x y assume "x \<in> set (equipmentAssignments d')" "y \<in> set (equipmentAssignments d')"
    then have "x = ?a \<or> x \<in> ?H" "y = ?a \<or> y \<in> ?H" using H' by simp_all
    then show "\<not> clash x y"
      using \<open>\<not> clash ?a ?a\<close> no ap sched.clash_sym[of x y] by (elim disjE) auto
  qed
  moreover have "\<forall>x \<in> set (equipmentAssignments d'). holdWf x"
  proof
    fix x assume "x \<in> set (equipmentAssignments d')"
    then have "x = ?a \<or> x \<in> ?H" by (rule H')
    then show "holdWf x" using wf extend_wf[OF bspec[OF wf a] t] by (elim disjE) simp_all
  qed
  moreover have ids: "map asg_id (equipmentAssignments d') = map asg_id (equipmentAssignments d)"
    by (simp add: d' map_updw)
  moreover have "\<forall>x \<in> set (equipmentAssignments d'). asg_id x < nextId d'"
  proof -
    have "asg_id ` set (equipmentAssignments d') = asg_id ` ?H" using ids by (metis list.set_map)
    then have "asg_id x < nextId d" if "x \<in> set (equipmentAssignments d')" for x
      using imageI[OF that, of asg_id] ok by (auto simp: schedOk_def holdsOk_def)
    then show ?thesis by (simp add: d')
  qed
  ultimately show ?thesis using D unfolding schedOk_def holdsOk_def by simp
qed

lemma schedOk_extendHolds:
  assumes "extendHolds i t as d = Inr d'" "schedOk d" "set as \<subseteq> set (equipmentAssignments d)"
    and "\<forall>a \<in> set as. asg_rentalId a = i" "distinct (map asg_id as)"
  shows "schedOk d' \<and> rentals d' = rentals d \<and> equipments d' = equipments d"
  using assms
proof (induction as arbitrary: d)
  case (Cons a as)
  let ?f = "case asg_end a of None \<Rightarrow> asg_start a | Some e \<Rightarrow> e"
  show ?case
  proof (cases "t \<le> ?f")
    case True
    then show ?thesis using Cons by simp
  next
    case False
    let ?d = "setHolds (\<lambda>b. asg_id b = asg_id a) (\<lambda>b. b\<lparr>asg_end := Some t\<rparr>) d"
    have fr: "filter (\<lambda>b. asg_rentalId b \<noteq> asg_rentalId a)
        (overlappingAssignments (asg_equipmentId a) \<lparr>w_start = ?f, w_end = t\<rparr> d) = []"
      and ext: "extendHolds i t as ?d = Inr d'"
      using Cons.prems(1,4) False by (auto simp: Let_def split: if_splits)
    have ok: "schedOk ?d"
      using schedOk_extend[OF Cons.prems(2) _ _ fr refl] Cons.prems(3) False by simp
    have "set as \<subseteq> set (equipmentAssignments ?d)"
    proof
      fix b assume b: "b \<in> set as"
      then have "asg_id b \<in> asg_id ` set as" by (rule imageI)
      then have "asg_id b \<noteq> asg_id a" using Cons.prems(5) by auto
      moreover have "b \<in> set (equipmentAssignments d)" using b Cons.prems(3) by auto
      ultimately show "b \<in> set (equipmentAssignments ?d)" unfolding op_simps in_updw by (intro bexI[of _ b]) simp_all
    qed
    then show ?thesis using Cons.IH[OF ext ok] Cons.prems(4,5) by simp
  qed
qed simp

section \<open>The step relation\<close>

text \<open>The committed operations of the service, over requests the wire schema accepts.\<close>

inductive bookStep :: "db \<Rightarrow> db \<Rightarrow> bool" where
  create: "validItems (br_items b) \<Longrightarrow> committed (create now c b d) i d' \<Longrightarrow> bookStep d d'"
| cancel: "committed (cancel c i d) j d' \<Longrightarrow> bookStep d d'"
| requestCall: "committed (requestCall now c i d) t d' \<Longrightarrow> bookStep d d'"
| confirmCall: "committed (confirmCall now c i d) t d' \<Longrightarrow> bookStep d d'"
| postMessage: "committed (postMessage now c i text offer d) j d' \<Longrightarrow> bookStep d d'"
| deliver: "committed (deliver c i d) j d' \<Longrightarrow> bookStep d d'"
| markReturned: "committed (markReturned now c i d) j d' \<Longrightarrow> bookStep d d'"
| requestChange: "committed (requestChange c i k t reason d) j d' \<Longrightarrow> bookStep d d'"
| resolveChange: "committed (resolveChange now c i q ok d) j d' \<Longrightarrow> bookStep d d'"

inductive_cases bookStepE: "bookStep d d'"

lemma schedOk_cancelRental: "schedOk d \<Longrightarrow> schedOk (cancelRental c i d)"
  by (rule schedOk_updw[of d _ "\<lambda>a. asg_rentalId a = i" "asg_status_update (\<lambda>_. ACancelled)"])
     (simp_all add: cancelRental_def demotes_def)

lemma createD:
  assumes "committed (create now c b d) i d'"
  obtains hours d1 where "checkItems (ctx_tenantId c) (br_items b) d = None" "i = nextId d"
    "length hours = length (br_items b)" "equipmentAssignments d1 = equipmentAssignments d" "nextId d1 = Suc (nextId d)"
    "\<exists>r. rentals d1 = rentals d @ [r] \<and> ren_id r = i \<and> ren_status r = RPending \<and> ren_startDate r = Min (set (map bi_start (br_items b)))"
    "equipmentAssignments d' = equipmentAssignments (insertHolds c i (zip (br_items b) hours) d1)"
    "nextId d' = nextId (insertHolds c i (zip (br_items b) hours) d1)"
    "rentals d' = rentals (insertHolds c i (zip (br_items b) hours) d1)"
proof -
  obtain es cust where c1: "chooseCustomer c (br_customerId b) d = (es, Inr cust)"
    using assms by (auto simp: create_def split: prod.splits sum.splits)
  have c2: "siteBookable (br_projectSiteId b) cust d" "requireVerifiedCompany cust d = None"
    using assms c1 by (auto simp: create_def split: if_splits option.splits)
  obtain hours where h: "bookedHours (getBillingSettings (ctx_tenantId c) d) (br_items b) = Inr hours"
    using assms c1 c2 by (auto simp: create_def split: sum.splits)
  have ch: "checkItems (ctx_tenantId c) (br_items b) d = None"
    using assms c1 c2 h by (auto simp: create_def split: option.splits)
  let ?d1 = "(fresh d)\<lparr>rentals := rentals d @
                              [\<lparr>ren_id = nextId d, ren_tenantId = ctx_tenantId c, ren_customerId = cust,
                                ren_projectSiteId = br_projectSiteId b, ren_status = RPending,
                                ren_siteContact = nonEmpty (br_siteContact b),
                                ren_siteNotes = nonEmpty (br_siteNotes b),
                                ren_startDate = Min (set (map bi_start (br_items b))),
                                ren_endDate = Some (Max (set (map bi_end (br_items b)))),
                                ren_callRequestedAt = None, ren_callConfirmedAt = None,
                                ren_callConfirmedBy = None, ren_createdAt = now\<rparr>]\<rparr>"
  let ?d2 = "audit c ''CREATE'' ''rentals'' (nextId d) (insertHolds c (nextId d) (zip (br_items b) hours) ?d1)"
  have e: "i = nextId d \<and> (\<exists>k p. d' = (if ctx_role c = ''customer'' then notifyStaff (ctx_tenantId c) k p ?d2 else ?d2))"
    using assms by (auto simp: create_def c1 c2 h ch Let_def)
  then have t: "equipmentAssignments d' = equipmentAssignments ?d2" "nextId d' = nextId ?d2" "rentals d' = rentals ?d2"
    by auto
  show ?thesis
    by (rule that[of hours ?d1, OF ch]; (simp add: e t bookedHours_length[OF h] fresh_def)?)
qed

lemma schedOk_create:
  assumes "schedOk d" "validItems (br_items b)" "committed (create now c b d) i d'"
  shows "schedOk d'"
proof -
  obtain hours d1 where h: "checkItems (ctx_tenantId c) (br_items b) d = None" "length hours = length (br_items b)"
    and d1: "equipmentAssignments d1 = equipmentAssignments d" "nextId d1 = Suc (nextId d)"
    and d': "equipmentAssignments d' = equipmentAssignments (insertHolds c i (zip (br_items b) hours) d1)"
      "nextId d' = nextId (insertHolds c i (zip (br_items b) hours) d1)"
    by (rule createD[OF assms(3)]) blast
  have f: "map fst (zip (br_items b) hours) = br_items b" using h(2) by simp
  obtain ns where ns: "equipmentAssignments d' = equipmentAssignments d @ ns"
    "map asg_id ns = [Suc (nextId d) ..< nextId d']" "\<forall>a \<in> set ns. holdFor i (br_items b) a" "Suc (nextId d) \<le> nextId d'"
    using insertHolds_append[of c i "zip (br_items b) hours" d1] unfolding d1 f d'[symmetric] by auto
  show ?thesis by (rule schedOk_insert[OF assms(1) h(1) assms(2) ns(1) _ ns(2) _ ns(3,4)]) simp_all
qed

lemma visibleRentalD:
  "visibleRental c i d = Inr r \<Longrightarrow> find (\<lambda>r. ren_id r = i) (rentals d) = Some r \<and> r \<in> set (rentals d) \<and> ren_id r = i \<and>
     (ctx_role c = ''customer'' \<longrightarrow> ownsCustomer c (Some (ren_customerId r)) d)"
  by (auto simp: visibleRental_def split: option.splits if_splits dest: find_SomeD)

lemma schedOk_deliver:
  assumes "schedOk d" "committed (deliver c i d) j d'"
  shows "schedOk d'"
proof -
  let ?h = "filter (\<lambda>a. asg_rentalId a = i \<and> asg_status a = AScheduled) (equipmentAssignments d)"
  have e: "equipmentAssignments d' = updw (\<lambda>a. asg_id a \<in> set (map asg_id ?h)) (asg_status_update (\<lambda>_. AActive)) (equipmentAssignments d)"
    "nextId d' = nextId d"
    using assms(2) by (auto simp: deliver_def Let_def split: sum.splits if_splits)
  have D: "distinct (map asg_id (equipmentAssignments d))" using assms(1) by (simp add: schedOk_def holdsOk_def)
  show ?thesis
  proof (rule schedOk_updw[OF assms(1) e(1)])
    fix a assume a: "a \<in> set (equipmentAssignments d)" "asg_id a \<in> set (map asg_id ?h)"
    then obtain b where "b \<in> set ?h" "asg_id a = asg_id b" by auto
    then have "asg_status a = AScheduled" using distinct_map_eq[OF D a(1), of b] by auto
    then show "demotes (asg_status_update (\<lambda>_. AActive)) a" by (simp add: demotes_def live_def)
  qed (simp add: e(2))
qed

lemma schedOk_markReturned:
  assumes "schedOk d" "committed (markReturned now c i d) j d'"
  shows "schedOk d'"
proof -
  let ?h = "filter (\<lambda>a. asg_rentalId a = i \<and> asg_status a = AActive) (equipmentAssignments d)"
  have e: "equipmentAssignments d' = (if ?h = [] then equipmentAssignments d else
      updw (\<lambda>a. asg_id a \<in> set (map asg_id ?h)) (\<lambda>a. a\<lparr>asg_status := ACompleted, asg_end := Some now\<rparr>) (equipmentAssignments d))"
    "nextId d' = nextId d"
    using assms(2) by (auto simp: markReturned_def Let_def split: sum.splits if_splits)
  show ?thesis
  proof (cases "?h = []")
    case True
    then show ?thesis using schedOk_same[OF assms(1)] e by (simp add: sameHolds_def)
  next
    case False
    then have "equipmentAssignments d' = updw (\<lambda>a. asg_id a \<in> set (map asg_id ?h))
        (\<lambda>a. a\<lparr>asg_status := ACompleted, asg_end := Some now\<rparr>) (equipmentAssignments d)"
      using e(1) by (simp only: if_False)
    then show ?thesis by (rule schedOk_updw[OF assms(1)]) (simp_all add: demotes_def live_def e(2))
  qed
qed

lemma schedOk_resolveChange:
  assumes ok: "schedOk d" and r: "committed (resolveChange now c i q approved d) j d'"
  shows "schedOk d'"
proof -
  obtain request where f: "find (\<lambda>x. chg_id x = q \<and> chg_rentalId x = i) (bookingChangeRequests d) = Some request"
    "chg_status request = CPending"
    using r by (auto simp: resolveChange_def split: option.splits if_splits)
  obtain es d1 where a: "(if approved then applyChange c i request d else ([], Inr d)) = (es, Inr d1)"
    using r f by (auto simp: resolveChange_def Let_def split: prod.splits sum.splits)
  have same: "equipmentAssignments d' = equipmentAssignments d1 \<and> nextId d' = nextId d1"
    using r f a by (auto simp: resolveChange_def Let_def)
  have "schedOk d1"
  proof (cases "approved \<and> chg_kind request \<noteq> CancelReq \<and> chg_requestedEnd request \<noteq> None")
    case True
    then obtain t where t: "extendRental i t d = Inr d1" using a by (auto simp: applyChange_def)
    let ?as = "filter (\<lambda>a. asg_rentalId a = i \<and> asg_status a \<noteq> ACancelled) (equipmentAssignments d)"
    obtain d2 where d2: "extendHolds i t ?as d = Inr d2" "d1 = setRental i (\<lambda>r. r\<lparr>ren_endDate := Some t\<rparr>) d2"
      using t by (auto simp: extendRental_def split: sum.splits)
    have D: "distinct (map asg_id ?as)" using ok unfolding schedOk_def holdsOk_def by (intro distinct_map_filter) blast
    have "set ?as \<subseteq> set (equipmentAssignments d)" "\<forall>a \<in> set ?as. asg_rentalId a = i" by simp_all
    from schedOk_extendHolds[OF d2(1) ok this D] have "schedOk d2" by (rule conjunct1)
    then show ?thesis by (rule schedOk_same) (simp add: sameHolds_def d2(2))
  next
    case False
    then have "d1 = d \<or> d1 = cancelRental c i d"
      using a by (cases approved; cases "chg_kind request"; cases "chg_requestedEnd request") (simp_all add: applyChange_def)
    then show ?thesis using ok schedOk_cancelRental[OF ok, of c i] by (elim disjE) simp_all
  qed
  then show ?thesis by (rule schedOk_same) (simp add: sameHolds_def same)
qed

lemma schedOk_step:
  assumes "bookStep d d'" "schedOk d"
  shows "schedOk d'"
  using assms(1)
proof cases
  case (create b now c i)
  then show ?thesis using schedOk_create assms(2) by blast
next
  case (cancel c i j)
  then have "equipmentAssignments d' = equipmentAssignments (cancelRental c i d) \<and> nextId d' = nextId (cancelRental c i d)"
    by (auto simp: cancel_def Let_def split: sum.splits if_splits)
  then show ?thesis
    by (intro schedOk_same[OF schedOk_cancelRental[OF assms(2)], of c i d']) (simp add: sameHolds_def)
next
  case (requestCall now c i t)
  then show ?thesis by (intro schedOk_same[OF assms(2)]) (auto simp: requestCall_def sameHolds_def split: sum.splits)
next
  case (confirmCall now c i t)
  then show ?thesis by (intro schedOk_same[OF assms(2)]) (auto simp: confirmCall_def sameHolds_def split: sum.splits)
next
  case (postMessage now c i msg offer j)
  then show ?thesis
    by (intro schedOk_same[OF assms(2)]) (auto simp: postMessage_def sameHolds_def Let_def split: sum.splits if_splits)
next
  case (deliver c i j)
  then show ?thesis using schedOk_deliver assms(2) by blast
next
  case (markReturned now c i j)
  then show ?thesis using schedOk_markReturned assms(2) by blast
next
  case (requestChange c i k t reason j)
  then show ?thesis
    by (intro schedOk_same[OF assms(2)]) (auto simp: requestChange_def sameHolds_def Let_def split: sum.splits if_splits)
next
  case (resolveChange now c i q ok j)
  then show ?thesis using schedOk_resolveChange assms(2) by blast
qed

text \<open>
  C11. No unit is ever booked twice. From any state in which no two live holds of different bookings
  overlap on a machine, and after any sequence of committed operations of the service (bookings,
  cancellations, calls, messages, deliveries, returns, change requests and their resolutions,
  extensions included), still no two do.
\<close>

theorem never_double_booked:
  assumes "schedOk d" "bookStep\<^sup>*\<^sup>* d d'"
  shows "\<forall>a \<in> set (equipmentAssignments d'). \<forall>b \<in> set (equipmentAssignments d'). \<not> clash a b"
proof -
  have "schedOk d'" using assms(2,1) by (induction rule: rtranclp_induct) (auto intro: schedOk_step)
  then show ?thesis by (simp add: schedOk_def noDoubleBooking_def sched.apart_def)
qed

definition yard_unit :: equipment where
  "yard_unit = \<lparr>eqp_id = 9, eqp_tenantId = 1, eqp_equipmentTypeId = 8, eqp_model = ''PC200'', eqp_serialNo = ''A1'',
     eqp_availabilityStatus = Available, eqp_runtimeHours = 0, eqp_modelNumber = None,
     eqp_yearOfManufacture = None, eqp_weightCapacityTons = None, eqp_engineType = None, eqp_fuelType = None,
     eqp_notes = None, eqp_photoUri = None, eqp_categoryNote = None, eqp_retiredAt = None, eqp_createdAt = 0\<rparr>"

definition demo_customer :: customer where
  "demo_customer = \<lparr>cus_id = 6, cus_tenantId = 1, cus_userId = Some 4, cus_companyName = ''Almara'', cus_tin = None, cus_secNumber = None,
       cus_billingAddress = None, cus_kycStatus = KycApproved, cus_reviewComment = None, cus_unlockedFields = [], cus_createdAt = 0\<rparr>"

definition yard_site :: project_site where
  "yard_site = \<lparr>site_id = 12, site_tenantId = 1, site_addressId = 1, site_customerId = None,
     site_latitude = 0, site_longitude = 0, site_createdAt = 0\<rparr>"

definition demo_rental :: rental where
  "demo_rental = \<lparr>ren_id = 5, ren_tenantId = 1, ren_customerId = 6, ren_projectSiteId = 12, ren_status = RActive,
     ren_siteContact = None, ren_siteNotes = None, ren_startDate = 0, ren_endDate = Some (20010 * 86400000),
     ren_callRequestedAt = None, ren_callConfirmedAt = None, ren_callConfirmedBy = None, ren_createdAt = 0\<rparr>"

definition booking_db :: db where
  "booking_db = empty_db\<lparr>customers := [demo_customer], projectSites := [yard_site], equipments := [yard_unit],
     rentals := [demo_rental], equipmentAssignments := [demo_hold\<lparr>asg_status := AActive\<rparr>]\<rparr>"

definition item_at :: "time \<Rightarrow> time \<Rightarrow> booking_item" where
  "item_at s e = \<lparr>bi_equipmentId = 9, bi_start = s, bi_end = e, bi_hours = None\<rparr>"

definition request_of :: "booking_item list \<Rightarrow> booking_request" where
  "request_of items = \<lparr>br_customerId = Some 6, br_projectSiteId = 12, br_siteContact = None, br_siteNotes = None,
     br_items = items\<rparr>"

lemmas booking_eval =
  booking_db_def empty_db_def demo_customer_def yard_site_def yard_unit_def demo_rental_def demo_hold_def
  demo_ctx_def item_at_def request_of_def

lemmas create_eval =
  create_def chooseCustomer_def siteBookable_def requireVerifiedCompany_def availabilityBlockers_def
  overlappingAssignments_def overlappingMaintenance_def calendarBlocker_def operatorBusy_def readCalendar_def
  itemWindow_def overlaps_def Let_def

lemma booking_db_create:
  "\<exists>j d'. committed (create 0 demo_ctx (request_of [item_at (20010 * 86400000) (20012 * 86400000)]) booking_db) j d'"
  by (simp add: create_eval booking_eval)

lemma booking_db_ok: "schedOk booking_db"
  by (simp add: schedOk_def noDoubleBooking_def sched.apart_def clash_def holdsOk_def holdWf_def booking_eval)

theorem never_double_booked_witness:
  "\<exists>j d'. committed (create 0 demo_ctx (request_of [item_at (20010 * 86400000) (20012 * 86400000)]) booking_db) j d' \<and>
     list_all (\<lambda>a. list_all (\<lambda>b. \<not> clash a b) (equipmentAssignments d')) (equipmentAssignments d')"
proof -
  let ?q = "request_of [item_at (20010 * 86400000) (20012 * 86400000)]"
  obtain j d' where c: "committed (create 0 demo_ctx ?q booking_db) j d'" using booking_db_create by blast
  have v: "validItems (br_items ?q)" by (simp add: validItems_def request_of_def item_at_def)
  have "bookStep\<^sup>*\<^sup>* booking_db d'" using bookStep.create[OF v c] by (rule r_into_rtranclp)
  from never_double_booked[OF booking_db_ok this] c show ?thesis by (auto simp: list_all_iff)
qed

text \<open>
  The availability check compares an item with the holds in the database only. A request that lists
  one machine twice for the same days commits, and the two live holds it leaves overlap.
\<close>

lemma one_request_books_twice:
  "\<exists>j d' a b. committed (create 0 demo_ctx
       (request_of [item_at (20010 * 86400000) (20012 * 86400000), item_at (20010 * 86400000) (20012 * 86400000)])
       booking_db) j d' \<and>
     a \<in> set (equipmentAssignments d') \<and> b \<in> set (equipmentAssignments d') \<and> asg_id a \<noteq> asg_id b \<and>
     live a \<and> live b \<and> asg_equipmentId a = asg_equipmentId b \<and> holdsOverlap a b"
proof -
  let ?q = "request_of [item_at (20010 * 86400000) (20012 * 86400000), item_at (20010 * 86400000) (20012 * 86400000)]"
  have "\<exists>j d'. committed (create 0 demo_ctx ?q booking_db) j d' \<and> length (equipmentAssignments d') = 3"
    by (simp add: create_eval booking_eval)
  then obtain j d' where c: "committed (create 0 demo_ctx ?q booking_db) j d'" and l: "length (equipmentAssignments d') = 3"
    by blast
  obtain hours d1 where h: "length hours = length (br_items ?q)"
    and d1: "equipmentAssignments d1 = equipmentAssignments booking_db"
    and d': "equipmentAssignments d' = equipmentAssignments (insertHolds demo_ctx j (zip (br_items ?q) hours) d1)"
    by (rule createD[OF c]) blast
  obtain ns where ns: "equipmentAssignments d' = equipmentAssignments booking_db @ ns"
    "map asg_id ns = [nextId d1 ..< nextId d1 + length (zip (br_items ?q) hours)]"
    "\<forall>a \<in> set ns. holdFor j (map fst (zip (br_items ?q) hours)) a"
    using insertHolds_append[of demo_ctx j "zip (br_items ?q) hours" d1] unfolding d1 d'[symmetric] by blast
  have f: "map fst (zip (br_items ?q) hours) = br_items ?q" using h by simp
  have "length ns = 2" using l ns(1) by (simp add: booking_db_def)
  then obtain a b where ab: "ns = [a, b]" by (metis One_nat_def Suc_1 length_0_conv length_Suc_conv)
  have "distinct (map asg_id ns)" unfolding ns(2) by simp
  then have "asg_id a \<noteq> asg_id b" unfolding ab by simp
  moreover have "live x \<and> asg_equipmentId x = 9 \<and> asg_start x = 20010 * 86400000 \<and> asg_end x = Some (20012 * 86400000)"
    if "x \<in> {a, b}" for x
    using ns(3) that unfolding f ab by (auto simp: holdFor_def live_def request_of_def item_at_def)
  then have "live a \<and> live b \<and> asg_equipmentId a = asg_equipmentId b \<and> holdsOverlap a b"
    by (simp add: holdsOverlap_def)
  ultimately show ?thesis using c ns(1) ab by (intro exI[of _ j] exI[of _ d'] exI[of _ a] exI[of _ b]) simp
qed

section \<open>The life of a booking\<close>

definition statusOf :: "uuid \<Rightarrow> db \<Rightarrow> rental_status option" where
  "statusOf i d = map_option ren_status (find (\<lambda>r. ren_id r = i) (rentals d))"

fun follows :: "rental_status \<Rightarrow> rental_status \<Rightarrow> bool" where
  "follows s t = (s = t \<or> t = RCancelled \<or> s = RConfirmed \<and> t = RActive \<or> s = RActive \<and> t = RCompleted)"

lemma statusOf_updw:
  assumes "rentals d' = updw (\<lambda>r. ren_id r = i) f (rentals d)" "\<And>r. ren_id (f r) = ren_id r"
    and "statusOf j d = Some s" "\<And>r. find (\<lambda>r. ren_id r = i) (rentals d) = Some r \<Longrightarrow> follows (ren_status r) (ren_status (f r))"
  shows "\<exists>t. statusOf j d' = Some t \<and> follows s t"
proof -
  have "find (\<lambda>r. ren_id r = j) (rentals d') =
      map_option (\<lambda>r. if ren_id r = i then f r else r) (find (\<lambda>r. ren_id r = j) (rentals d))"
    unfolding assms(1) by (rule find_updw) (simp add: assms(2))
  moreover obtain r where r: "find (\<lambda>r. ren_id r = j) (rentals d) = Some r" "ren_status r = s"
    using assms(3) by (auto simp: statusOf_def)
  moreover have "ren_id r = j" using find_SomeD[OF r(1)] by simp
  ultimately show ?thesis using assms(4)[of r] by (cases "j = i") (simp_all add: statusOf_def)
qed

lemma statusOf_same: "rentals d' = rentals d @ rs \<Longrightarrow> statusOf j d = Some s \<Longrightarrow> \<exists>t. statusOf j d' = Some t \<and> follows s t"
  by (auto simp: statusOf_def find_append)

lemma cancelRental_rentals: "rentals (cancelRental c i d) = updw (\<lambda>r. ren_id r = i) (ren_status_update (\<lambda>_. RCancelled)) (rentals d)"
  by (simp add: cancelRental_def)

lemma extendHolds_rentals: "extendHolds i t as d = Inr d' \<Longrightarrow> rentals d' = rentals d"
  by (induction i t as d rule: extendHolds.induct) (auto simp: Let_def split: if_splits)

lemma resolveChange_rentals:
  assumes "committed (resolveChange now c i q approved d) j d'"
  shows "\<exists>f. rentals d' = updw (\<lambda>r. ren_id r = i) f (rentals d) \<and> (\<forall>r. ren_id (f r) = ren_id r) \<and>
    ((\<forall>r. ren_status (f r) = ren_status r) \<or> (\<forall>r. ren_status (f r) = RCancelled))"
proof -
  obtain request where f: "find (\<lambda>x. chg_id x = q \<and> chg_rentalId x = i) (bookingChangeRequests d) = Some request"
    "chg_status request = CPending"
    using assms by (auto simp: resolveChange_def split: option.splits if_splits)
  obtain es d1 where a: "(if approved then applyChange c i request d else ([], Inr d)) = (es, Inr d1)"
    using assms f by (auto simp: resolveChange_def Let_def split: prod.splits sum.splits)
  have same: "rentals d' = rentals d1" using assms f a by (auto simp: resolveChange_def Let_def)
  consider "d1 = d" | "d1 = cancelRental c i d" | t where "extendRental i t d = Inr d1"
    using a by (cases approved; cases "chg_kind request"; cases "chg_requestedEnd request") (auto simp: applyChange_def)
  then show ?thesis
  proof cases
    case 1
    have "rentals d = updw (\<lambda>r. ren_id r = i) (\<lambda>r. r) (rentals d)" by (simp add: updw_def)
    then show ?thesis using same 1 by (intro exI[of _ "\<lambda>r. r"]) simp
  next
    case 2
    then show ?thesis using same cancelRental_rentals[of c i d]
      by (intro exI[of _ "ren_status_update (\<lambda>_. RCancelled)"]) simp
  next
    case (3 t)
    then obtain d2 where "extendHolds i t (filter (\<lambda>a. asg_rentalId a = i \<and> asg_status a \<noteq> ACancelled) (equipmentAssignments d)) d = Inr d2"
      "d1 = setRental i (\<lambda>r. r\<lparr>ren_endDate := Some t\<rparr>) d2"
      by (auto simp: extendRental_def split: sum.splits)
    then have "rentals d1 = updw (\<lambda>r. ren_id r = i) (\<lambda>r. r\<lparr>ren_endDate := Some t\<rparr>) (rentals d)"
      using extendHolds_rentals by simp
    then show ?thesis using same by (intro exI[of _ "\<lambda>r. r\<lparr>ren_endDate := Some t\<rparr>"]) simp
  qed
qed

lemma step_statuses:
  assumes "bookStep d d'" "statusOf j d = Some s"
  shows "\<exists>t. statusOf j d' = Some t \<and> follows s t"
  using assms(1)
proof cases
  case (create b now c i)
  obtain hours d1 r where "rentals d1 = rentals d @ [r]" "rentals d' = rentals (insertHolds c i (zip (br_items b) hours) d1)"
    by (rule createD[OF create(2)]) blast
  moreover have "rentals (insertHolds c i (zip (br_items b) hours) d1) = rentals d1"
    using insertHolds_append[of c i "zip (br_items b) hours" d1] by blast
  ultimately show ?thesis using statusOf_same assms(2) by simp
next
  case (cancel c i j')
  then have "rentals d' = rentals (cancelRental c i d)"
    by (auto simp: cancel_def Let_def split: sum.splits if_splits)
  then show ?thesis
    by (intro statusOf_updw[OF trans[OF _ cancelRental_rentals[of c i d]] _ assms(2)]) simp_all
next
  case (requestCall now c i t)
  then have "rentals d' = updw (\<lambda>r. ren_id r = i) (\<lambda>r. r\<lparr>ren_callRequestedAt := Some now\<rparr>) (rentals d)"
    by (auto simp: requestCall_def split: sum.splits)
  then show ?thesis by (rule statusOf_updw[OF _ _ assms(2)]) simp_all
next
  case (confirmCall now c i t)
  then have "rentals d' = updw (\<lambda>r. ren_id r = i)
      (\<lambda>r. r\<lparr>ren_callConfirmedAt := Some now, ren_callConfirmedBy := Some (ctx_userId c)\<rparr>) (rentals d)"
    by (auto simp: confirmCall_def split: sum.splits)
  then show ?thesis by (rule statusOf_updw[OF _ _ assms(2)]) simp_all
next
  case (postMessage now c i msg offer j')
  then have "rentals d' = rentals d"
    by (auto simp: postMessage_def Let_def split: sum.splits if_splits)
  then show ?thesis using assms(2) by (auto simp: statusOf_def)
next
  case (deliver c i j')
  obtain r where r: "visibleRental c i d = Inr r" "ren_status r = RConfirmed"
    using deliver by (auto simp: deliver_def Let_def split: sum.splits if_splits)
  have "rentals d' = updw (\<lambda>r. ren_id r = i) (ren_status_update (\<lambda>_. RActive)) (rentals d)"
    using deliver by (auto simp: deliver_def Let_def split: sum.splits if_splits)
  then show ?thesis
    by (rule statusOf_updw[OF _ _ assms(2)]) (use visibleRentalD[OF r(1)] r(2) in simp_all)
next
  case (markReturned now c i j')
  obtain r where r: "visibleRental c i d = Inr r" "ren_status r = RActive"
    using markReturned by (auto simp: markReturned_def Let_def split: sum.splits if_splits)
  have "rentals d' = updw (\<lambda>r. ren_id r = i) (\<lambda>r. r\<lparr>ren_status := RCompleted, ren_endDate := Some now\<rparr>) (rentals d)"
    using markReturned r by (auto simp: markReturned_def Let_def)
  then show ?thesis
    by (rule statusOf_updw[OF _ _ assms(2)]) (use visibleRentalD[OF r(1)] r(2) in simp_all)
next
  case (requestChange c i k t reason j')
  then have "rentals d' = rentals d"
    by (auto simp: requestChange_def Let_def split: sum.splits if_splits)
  then show ?thesis using assms(2) by (auto simp: statusOf_def)
next
  case (resolveChange now c i q ok j')
  obtain f where f: "rentals d' = updw (\<lambda>r. ren_id r = i) f (rentals d)" "\<And>r. ren_id (f r) = ren_id r"
    "(\<forall>r. ren_status (f r) = ren_status r) \<or> (\<forall>r. ren_status (f r) = RCancelled)"
    using resolveChange_rentals[OF resolveChange] by blast
  show ?thesis by (rule statusOf_updw[OF f(1,2) assms(2)]) (use f(3) in auto)
qed

text \<open>
  A booking only moves along its life: whatever operation commits, an existing booking keeps its
  status, is cancelled, goes from confirmed to active (a delivery) or from active to completed (a
  return). In particular no operation of this service confirms a booking (a payment does), and a
  cancelled or completed one never becomes active again.
\<close>

theorem booking_lifecycle:
  assumes "bookStep d d'" "statusOf i d = Some s"
  shows "\<exists>t. statusOf i d' = Some t \<and> follows s t \<and> (t = RConfirmed \<longrightarrow> s = RConfirmed) \<and>
    (s = RCancelled \<longrightarrow> t = RCancelled) \<and> (s = RCompleted \<longrightarrow> t \<noteq> RActive)"
  using step_statuses[OF assms] by auto

lemma booking_db_return: "\<exists>j d'. committed (markReturned 7 demo_ctx 5 booking_db) j d'"
  by (simp add: markReturned_def visibleRental_def Let_def booking_eval)

theorem booking_lifecycle_witness:
  "\<exists>j d' t. committed (markReturned 7 demo_ctx 5 booking_db) j d' \<and> statusOf 5 d' = Some t \<and> follows RActive t"
proof -
  obtain j d' where c: "committed (markReturned 7 demo_ctx 5 booking_db) j d'" using booking_db_return by blast
  have "statusOf 5 booking_db = Some RActive" by (simp add: statusOf_def booking_eval)
  from booking_lifecycle[OF bookStep.markReturned[OF c] this] c show ?thesis by blast
qed

text \<open>
  Cancelling a booking whose machines are on site frees their holds but leaves the machines marked
  deployed, and the return that would make them available again is refused from then on.
\<close>

lemma cancel_strands_units:
  "\<exists>j d'. committed (cancel demo_ctx 5 (booking_db\<lparr>equipments := [yard_unit\<lparr>eqp_availabilityStatus := Deployed\<rparr>]\<rparr>)) j d' \<and>
     equipments d' = [yard_unit\<lparr>eqp_availabilityStatus := Deployed\<rparr>] \<and>
     (\<forall>a \<in> set (equipmentAssignments d'). asg_status a = ACancelled) \<and>
     failed (markReturned 7 demo_ctx 5 d') (Conflict ''booking_not_on_site'')"
  by (simp add: cancel_def visibleRental_def cancelRental_def markReturned_def Let_def setRental_def setHolds_def
      notifyBookingCustomer_def audit_def booking_eval)

text \<open>
  A customer acts only on their own company's bookings, and cancels one only before it is paid:
  whenever an operation on an existing booking commits for a customer, the booking belongs to one of
  the caller's companies; a cancellation found it pending, and leaves none of its holds live.
\<close>

theorem customer_acts_on_own_bookings:
  assumes "ctx_role c = ''customer''"
    and "committed (cancel c i d) j d' \<or> committed (requestCall now c i d) t d' \<or> committed (postMessage now c i msg offer d) j d' \<or>
      committed (requestChange c i k e reason d) j d'"
  shows "\<exists>r \<in> set (rentals d). ren_id r = i \<and>
      (\<exists>company \<in> set (customers d). cus_id company = ren_customerId r \<and> cus_userId company = Some (ctx_userId c)) \<and>
      (committed (cancel c i d) j d' \<longrightarrow> ren_status r = RPending \<and>
         (\<forall>a \<in> set (equipmentAssignments d'). asg_rentalId a = i \<longrightarrow> \<not> live a))"
proof -
  obtain r where r: "visibleRental c i d = Inr r"
    using assms(2) by (auto simp: cancel_def requestCall_def postMessage_def requestChange_def split: sum.splits)
  note v = visibleRentalD[OF r]
  have own: "\<exists>company \<in> set (customers d). cus_id company = ren_customerId r \<and> cus_userId company = Some (ctx_userId c)"
    using v assms(1) by (simp add: ownsCustomer_iff)
  have "ren_status r = RPending \<and> (\<forall>a \<in> set (equipmentAssignments d'). asg_rentalId a = i \<longrightarrow> \<not> live a)"
    if x: "committed (cancel c i d) j d'"
  proof -
    have s: "ren_status r = RPending" "equipmentAssignments d' = equipmentAssignments (cancelRental c i d)"
      using x r assms(1) by (auto simp: cancel_def Let_def split: if_splits)
    have "\<not> live a" if a: "a \<in> set (equipmentAssignments d')" "asg_rentalId a = i" for a
    proof -
      have "a \<in> set (updw (\<lambda>a. asg_rentalId a = i) (asg_status_update (\<lambda>_. ACancelled)) (equipmentAssignments d))"
        using a(1) unfolding s(2) by (simp add: cancelRental_def)
      then have "\<exists>b \<in> set (equipmentAssignments d). asg_rentalId b = i \<and> a = asg_status_update (\<lambda>_. ACancelled) b"
        by (rule updw_hit[where g = asg_rentalId]) (use a(2) in simp_all)
      then show ?thesis by (elim bexE conjE) simp
    qed
    with s(1) show ?thesis by blast
  qed
  with v own show ?thesis by blast
qed

theorem customer_acts_on_own_bookings_witness:
  "\<exists>j d'. committed (cancel \<lparr>ctx_tenantId = 1, ctx_userId = 4, ctx_role = ''customer''\<rparr> 5
       (booking_db\<lparr>rentals := [demo_rental\<lparr>ren_status := RPending\<rparr>]\<rparr>)) j d' \<and>
     filter (\<lambda>a. asg_rentalId a = 5 \<and> live a) (equipmentAssignments d') = []"
proof -
  let ?c = "\<lparr>ctx_tenantId = 1, ctx_userId = 4, ctx_role = ''customer''\<rparr>"
  let ?d = "booking_db\<lparr>rentals := [demo_rental\<lparr>ren_status := RPending\<rparr>]\<rparr>"
  have "\<exists>j d'. committed (cancel ?c 5 ?d) j d'"
    by (simp add: cancel_def visibleRental_def ownsCustomer_def ownCustomers_def Let_def booking_eval)
  then obtain j d' where c: "committed (cancel ?c 5 ?d) j d'" by blast
  have "ctx_role ?c = ''customer''" by simp
  from customer_acts_on_own_bookings[OF this disjI1[OF c]] c show ?thesis
    by (auto simp: filter_empty_conv intro!: exI)
qed

end
