(* ===== verification/Fleet.thy ===== *)
theory Fleet
  imports Common Pricing Availability
begin

text \<open>
  The fleet (\<open>apps/api/src/fleet/fleet.service.ts\<close>): the machines and their retirement, maintenance
  schedules, logs and windows, the business calendar, the hour-meter correction, and the utilization
  and financial reports. The event names are those of \<open>EventsService.emit\<close>.
\<close>

section \<open>Equipment\<close>

record equipment_specs =
  spc_modelNumber :: "string option"
  spc_yearOfManufacture :: "int option"
  spc_weightCapacityTons :: "number option"
  spc_engineType :: "string option"
  spc_fuelType :: "string option"
  spc_notes :: "string option"
  spc_categoryNote :: "string option"

record equipment_create =
  ecr_equipmentTypeId :: uuid
  ecr_model :: string
  ecr_serialNo :: string
  ecr_availabilityStatus :: equipment_status
  ecr_specs :: equipment_specs

record equipment_update =
  eup_model :: "string option"
  eup_availabilityStatus :: "equipment_status option"
  eup_specs :: equipment_specs

text \<open>A column is written only when the body has the field.\<close>

definition given :: "'a option \<Rightarrow> 'b \<Rightarrow> ('a \<Rightarrow> 'b) \<Rightarrow> 'b" where
  "given x old f = (case x of None \<Rightarrow> old | Some v \<Rightarrow> f v)"

definition specFieldPatch :: "equipment_specs \<Rightarrow> equipment \<Rightarrow> equipment" where
  "specFieldPatch body row = row\<lparr>
     eqp_modelNumber := given (spc_modelNumber body) (eqp_modelNumber row) Some,
     eqp_yearOfManufacture := given (spc_yearOfManufacture body) (eqp_yearOfManufacture row) Some,
     eqp_weightCapacityTons := given (spc_weightCapacityTons body) (eqp_weightCapacityTons row) (\<lambda>v. Some (col2 v)),
     eqp_engineType := given (spc_engineType body) (eqp_engineType row) Some,
     eqp_fuelType := given (spc_fuelType body) (eqp_fuelType row) Some,
     eqp_notes := given (spc_notes body) (eqp_notes row) Some,
     eqp_categoryNote := given (spc_categoryNote body) (eqp_categoryNote row) Some\<rparr>"

record storage_env =
  se_supabaseUrl :: "string option"
  se_equipmentBucket :: "string option"

definition withoutSlash :: "string \<Rightarrow> string" where
  "withoutSlash s = (if s \<noteq> [] \<and> last s = CHR ''/'' then butlast s else s)"

definition publicPhotoUrl :: "storage_env \<Rightarrow> string option \<Rightarrow> string option" where
  "publicPhotoUrl env key =
     (case nonEmpty key of
        None \<Rightarrow> None
      | Some k \<Rightarrow>
          (case nonEmpty (map_option withoutSlash (se_supabaseUrl env)) of
             None \<Rightarrow> None
           | Some base \<Rightarrow> Some (base @ ''/storage/v1/object/public/'' @
               (case se_equipmentBucket env of None \<Rightarrow> ''equipment-photos'' | Some b \<Rightarrow> b) @ ''/'' @ k)))"

record equipment_view =
  eqv_row :: equipment
  eqv_runtimeHours :: number
  eqv_weightCapacityTons :: "number option"
  eqv_photoUrl :: "string option"

definition toEquipmentResponse :: "storage_env \<Rightarrow> equipment \<Rightarrow> equipment_view" where
  "toEquipmentResponse env row =
     \<lparr>eqv_row = row, eqv_runtimeHours = num2 (eqp_runtimeHours row),
      eqv_weightCapacityTons = map_option num2 (eqp_weightCapacityTons row),
      eqv_photoUrl = publicPhotoUrl env (eqp_photoUri row)\<rparr>"

definition listEquipment ::
  "storage_env \<Rightarrow> equipment_status option \<Rightarrow> nat \<Rightarrow> nat \<Rightarrow> (db, equipment_view list \<times> nat) body" where
  "listEquipment env status limit offset d =
     (let rows = filter (\<lambda>r. eqp_retiredAt r = None \<and>
            (case status of None \<Rightarrow> True | Some s \<Rightarrow> eqp_availabilityStatus r = s)) (equipments d)
      in returns (map (toEquipmentResponse env) (take limit (drop offset (orderByDesc eqp_createdAt rows))),
           length rows) d)"

definition setEquipment :: "uuid \<Rightarrow> (equipment \<Rightarrow> equipment) \<Rightarrow> db \<Rightarrow> db" where
  "setEquipment i f d = d\<lparr>equipments := updw (\<lambda>r. eqp_id r = i) f (equipments d)\<rparr>"

definition createEquipment :: "time \<Rightarrow> ctx \<Rightarrow> equipment_create \<Rightarrow> (db, equipment) body" where
  "createEquipment now c body d =
     (if list_ex (\<lambda>r. eqp_tenantId r = ctx_tenantId c \<and> eqp_serialNo r = ecr_serialNo body) (equipments d)
      then fails (Conflict ''serial_no_taken'')
      else
        let created = specFieldPatch (ecr_specs body)
              \<lparr>eqp_id = nextId d, eqp_tenantId = ctx_tenantId c, eqp_equipmentTypeId = ecr_equipmentTypeId body,
               eqp_model = ecr_model body, eqp_serialNo = ecr_serialNo body,
               eqp_availabilityStatus = ecr_availabilityStatus body, eqp_runtimeHours = 0,
               eqp_modelNumber = None, eqp_yearOfManufacture = None, eqp_weightCapacityTons = None,
               eqp_engineType = None, eqp_fuelType = None, eqp_notes = None, eqp_photoUri = None,
               eqp_categoryNote = None, eqp_retiredAt = None, eqp_createdAt = now\<rparr>
        in ([''equipment_registered''], Inr (created,
             audit c ''CREATE'' ''equipment'' (eqp_id created)
               ((fresh d)\<lparr>equipments := equipments d @ [created]\<rparr>))))"

section \<open>Maintenance due\<close>

definition currentSchedule :: "uuid \<Rightarrow> db \<Rightarrow> maintenance_schedule option" where
  "currentSchedule equipmentId d =
     latestBy msc_createdAt (filter (\<lambda>s. msc_equipmentId s = equipmentId) (maintenanceSchedules d))"

definition crossed :: "number \<Rightarrow> maintenance_schedule \<Rightarrow> bool" where
  "crossed runtime s \<longleftrightarrow> (case msc_nextDue s of None \<Rightarrow> False | Some k \<Rightarrow> num2 k \<le> runtime)"

definition isMaintenanceDue :: "uuid \<Rightarrow> int \<Rightarrow> db \<Rightarrow> bool" where
  "isMaintenanceDue equipmentId runtimeHours d \<longleftrightarrow>
     list_ex (crossed (num2 runtimeHours)) (filter (\<lambda>s. msc_equipmentId s = equipmentId) (maintenanceSchedules d))"

section \<open>Changing and retiring a machine\<close>

definition updateEquipment :: "ctx \<Rightarrow> uuid \<Rightarrow> equipment_update \<Rightarrow> (db, uuid) body" where
  "updateEquipment c equipmentId body d =
     (case find (\<lambda>r. eqp_id r = equipmentId) (equipments d) of
        None \<Rightarrow> fails (NotFound ''equipment_not_found'')
      | Some existing \<Rightarrow>
          if eqp_retiredAt existing \<noteq> None then fails (Conflict ''equipment_retired'')
          else if eup_availabilityStatus body = Some Deployed \<and> eqp_availabilityStatus existing = Deployed
          then fails (Conflict ''equipment_already_deployed'')
          else if eup_availabilityStatus body = Some Deployed \<and> isMaintenanceDue equipmentId (eqp_runtimeHours existing) d
          then fails (Conflict ''equipment_maintenance_due'')
          else returns equipmentId
            (audit c ''UPDATE'' ''equipment'' equipmentId
              (setEquipment equipmentId (\<lambda>r. specFieldPatch (eup_specs body)
                 (r\<lparr>eqp_model := given (eup_model body) (eqp_model r) id,
                    eqp_availabilityStatus := given (eup_availabilityStatus body) (eqp_availabilityStatus r) id\<rparr>)) d)))"

definition retire :: "time \<Rightarrow> ctx \<Rightarrow> uuid \<Rightarrow> (db, uuid) body" where
  "retire now c equipmentId d =
     (case find (\<lambda>r. eqp_id r = equipmentId) (equipments d) of
        None \<Rightarrow> fails (NotFound ''equipment_not_found'')
      | Some existing \<Rightarrow>
          if eqp_retiredAt existing \<noteq> None then fails (Conflict ''equipment_already_retired'')
          else if eqp_availabilityStatus existing = Deployed then fails (Conflict ''equipment_deployed'')
          else returns equipmentId
            (audit c ''DELETE'' ''equipment'' equipmentId
              (setEquipment equipmentId (eqp_retiredAt_update (\<lambda>_. Some now)) d)))"

definition setPhoto :: "uuid \<Rightarrow> string \<Rightarrow> (db, uuid) body" where
  "setPhoto equipmentId key d =
     (if list_ex (\<lambda>r. eqp_id r = equipmentId \<and> eqp_retiredAt r = None) (equipments d)
      then returns equipmentId
        (d\<lparr>equipments := updw (\<lambda>r. eqp_id r = equipmentId \<and> eqp_retiredAt r = None)
            (eqp_photoUri_update (\<lambda>_. Some key)) (equipments d)\<rparr>)
      else fails (NotFound ''equipment_not_found''))"

text \<open>The meter is corrected by hand; the reason goes to the audit row with the old and the new reading.\<close>

definition correctRuntime :: "ctx \<Rightarrow> uuid \<Rightarrow> number \<Rightarrow> string \<Rightarrow> (db, uuid) body" where
  "correctRuntime c equipmentId runtimeHours reason d =
     (case find (\<lambda>r. eqp_id r = equipmentId) (equipments d) of
        None \<Rightarrow> fails (NotFound ''equipment_not_found'')
      | Some existing \<Rightarrow>
          if eqp_retiredAt existing \<noteq> None then fails (Conflict ''equipment_retired'')
          else
            let d1 = setEquipment equipmentId (eqp_runtimeHours_update (\<lambda>_. col2 (round2HalfUp runtimeHours))) d
            in returns equipmentId
              (d1\<lparr>auditLogs := auditLogs d1 @
                 [\<lparr>aud_tenantId = ctx_tenantId c, aud_actorId = ctx_userId c, aud_action = ''UPDATE'',
                   aud_entity = ''equipment_runtime'', aud_entityId = equipmentId,
                   aud_reason = Some (JList [JNum (num2 (eqp_runtimeHours existing)), JNum runtimeHours, JStr reason])\<rparr>]\<rparr>))"

section \<open>Maintenance\<close>

record schedule_view =
  scv_row :: maintenance_schedule
  scv_hoursInterval :: number
  scv_nextDue :: "number option"
  scv_hoursSinceService :: "number option"

record maintenance_view =
  mtv_schedule :: "maintenance_schedule option"
  mtv_runtimeHours :: number
  mtv_schedules :: "schedule_view list"
  mtv_logs :: "maintenance_log list"
  mtv_windows :: "maintenance_window list"

definition scheduleView :: "number \<Rightarrow> maintenance_schedule \<Rightarrow> schedule_view" where
  "scheduleView runtime s =
     \<lparr>scv_row = s, scv_hoursInterval = num2 (msc_hoursInterval s), scv_nextDue = map_option num2 (msc_nextDue s),
      scv_hoursSinceService = map_option (\<lambda>k. round2HalfUp (runtime - (num2 k - num2 (msc_hoursInterval s))))
        (msc_nextDue s)\<rparr>"

definition maintenanceDetail :: "uuid \<Rightarrow> (db, maintenance_view) body" where
  "maintenanceDetail equipmentId d =
     (case find (\<lambda>r. eqp_id r = equipmentId) (equipments d) of
        None \<Rightarrow> fails (NotFound ''equipment_not_found'')
      | Some row \<Rightarrow>
          let runtime = num2 (eqp_runtimeHours row)
          in returns
            \<lparr>mtv_schedule = currentSchedule equipmentId d, mtv_runtimeHours = runtime,
             mtv_schedules = map (scheduleView runtime) (orderByDesc (\<lambda>s. - msc_createdAt s)
               (filter (\<lambda>s. msc_equipmentId s = equipmentId) (maintenanceSchedules d))),
             mtv_logs = orderByDesc mlg_performedAt (filter (\<lambda>l. mlg_equipmentId l = equipmentId) (maintenanceLogs d)),
             mtv_windows = orderByDesc (\<lambda>w. - mw_startsAt w)
               (filter (\<lambda>w. mw_equipmentId w = equipmentId) (maintenanceWindows d))\<rparr> d)"

definition recordMaintenanceLog ::
  "ctx \<Rightarrow> uuid \<Rightarrow> time \<Rightarrow> string option \<Rightarrow> uuid option \<Rightarrow> (db, uuid) body" where
  "recordMaintenanceLog c equipmentId performedAt notes scheduleId d =
     (case find (\<lambda>r. eqp_id r = equipmentId) (equipments d) of
        None \<Rightarrow> fails (NotFound ''equipment_not_found'')
      | Some row \<Rightarrow>
          let schedule = (case scheduleId of
                Some i \<Rightarrow> find (\<lambda>s. msc_id s = i \<and> msc_equipmentId s = equipmentId) (maintenanceSchedules d)
              | None \<Rightarrow> currentSchedule equipmentId d)
          in if scheduleId \<noteq> None \<and> schedule = None then fails (NotFound ''maintenance_schedule_not_found'')
             else
               let d1 = (fresh d)\<lparr>maintenanceLogs := maintenanceLogs d @
                     [\<lparr>mlg_id = nextId d, mlg_tenantId = ctx_tenantId c, mlg_equipmentId = equipmentId,
                       mlg_scheduleId = map_option msc_id schedule, mlg_performedAt = performedAt, mlg_notes = notes\<rparr>]\<rparr>;
                   d2 = (case schedule of
                     None \<Rightarrow> d1
                   | Some s \<Rightarrow> d1\<lparr>maintenanceSchedules := updw (\<lambda>x. msc_id x = msc_id s)
                       (msc_nextDue_update (\<lambda>_. Some (col2 (round2HalfUp
                          (num2 (eqp_runtimeHours row) + num2 (msc_hoursInterval s))))))
                       (maintenanceSchedules d1)\<rparr>)
               in ([''maintenance_log_recorded''], Inr (nextId d, audit c ''CREATE'' ''maintenance_logs'' (nextId d) d2)))"

definition createSchedule :: "time \<Rightarrow> ctx \<Rightarrow> uuid \<Rightarrow> string \<Rightarrow> number \<Rightarrow> (db, uuid) body" where
  "createSchedule now c equipmentId task hoursInterval d =
     (case find (\<lambda>r. eqp_id r = equipmentId) (equipments d) of
        None \<Rightarrow> fails (NotFound ''equipment_not_found'')
      | Some row \<Rightarrow> returns (nextId d)
          (audit c ''CREATE'' ''maintenance_schedules'' (nextId d)
            ((fresh d)\<lparr>maintenanceSchedules := maintenanceSchedules d @
               [\<lparr>msc_id = nextId d, msc_tenantId = ctx_tenantId c, msc_equipmentId = equipmentId,
                 msc_task = Some task, msc_hoursInterval = col2 hoursInterval,
                 msc_nextDue = Some (col2 (round2HalfUp (num2 (eqp_runtimeHours row) + hoursInterval))),
                 msc_createdAt = now\<rparr>]\<rparr>)))"

definition createMaintenanceWindow :: "ctx \<Rightarrow> uuid \<Rightarrow> time \<Rightarrow> time \<Rightarrow> string option \<Rightarrow> (db, uuid) body" where
  "createMaintenanceWindow c equipmentId startsAt endsAt notes d =
     (if list_ex (\<lambda>r. eqp_id r = equipmentId) (equipments d)
      then returns (nextId d)
        (audit c ''CREATE'' ''maintenance_windows'' (nextId d)
          ((fresh d)\<lparr>maintenanceWindows := maintenanceWindows d @
             [\<lparr>mw_id = nextId d, mw_tenantId = ctx_tenantId c, mw_equipmentId = equipmentId,
               mw_startsAt = startsAt, mw_endsAt = endsAt, mw_notes = nonEmpty notes\<rparr>]\<rparr>))
      else fails (NotFound ''equipment_not_found''))"

definition deleteMaintenanceWindow :: "ctx \<Rightarrow> uuid \<Rightarrow> uuid \<Rightarrow> (db, uuid) body" where
  "deleteMaintenanceWindow c equipmentId windowId d =
     (if list_ex (\<lambda>w. mw_id w = windowId \<and> mw_equipmentId w = equipmentId) (maintenanceWindows d)
      then returns windowId
        (audit c ''DELETE'' ''maintenance_windows'' windowId
          (d\<lparr>maintenanceWindows := filter (\<lambda>w. \<not> (mw_id w = windowId \<and> mw_equipmentId w = equipmentId))
              (maintenanceWindows d)\<rparr>))
      else fails (NotFound ''maintenance_window_not_found''))"

section \<open>Availability and calendar\<close>

definition equipmentAvailability ::
  "ctx \<Rightarrow> uuid \<Rightarrow> date \<Rightarrow> date \<Rightarrow> (db, day_view list \<times> number \<times> number) body" where
  "equipmentAvailability c equipmentId from_day to_day d =
     (if list_ex (\<lambda>r. eqp_id r = equipmentId) (equipments d)
      then let st = getBillingSettings (ctx_tenantId c) d
           in returns (dayAvailability (ctx_tenantId c) equipmentId from_day to_day d, dailyHours st, minHours st) d
      else fails (NotFound ''equipment_not_found''))"

definition saveCalendar :: "ctx \<Rightarrow> calendar \<Rightarrow> (db, unit) body" where
  "saveCalendar c body d =
     (let t = ctx_tenantId c;
          row = body\<lparr>cal_tenantId := t\<rparr>;
          d1 = (if list_ex (\<lambda>r. cal_tenantId r = t) (tenantCalendars d)
                then d\<lparr>tenantCalendars := updw (\<lambda>r. cal_tenantId r = t) (\<lambda>_. row) (tenantCalendars d)\<rparr>
                else d\<lparr>tenantCalendars := tenantCalendars d @ [row]\<rparr>)
      in returns () (audit c ''UPDATE'' ''tenant_calendar'' t d1))"

section \<open>Reports\<close>

definition BUSINESS_HOURS_PER_DAY :: int where
  "BUSINESS_HOURS_PER_DAY = 8"

definition DEFAULT_REPORT_WINDOW_DAYS :: int where
  "DEFAULT_REPORT_WINDOW_DAYS = 30"

definition daysBetweenInclusive :: "date \<Rightarrow> date \<Rightarrow> int" where
  "daysBetweenInclusive from_day to_day = max 1 (to_day - from_day + 1)"

definition reportPeriod :: "time \<Rightarrow> date option \<Rightarrow> date option \<Rightarrow> date \<times> date" where
  "reportPeriod now from_day to_day =
     (let t = (case to_day of None \<Rightarrow> now div DAY_MS | Some x \<Rightarrow> x)
      in (case from_day of None \<Rightarrow> t - DEFAULT_REPORT_WINDOW_DAYS | Some x \<Rightarrow> x, t))"

record utilization =
  utl_equipmentId :: uuid
  utl_runtimeHours :: number
  utl_utilizationPct :: number
  utl_maintenanceDue :: bool

definition activeHours :: "uuid \<Rightarrow> date \<Rightarrow> date \<Rightarrow> db \<Rightarrow> number" where
  "activeHours equipmentId from_day to_day d =
     foldl (\<lambda>s l. s + num2 (eli_hoursActive l)) (js 0)
       (List.bind (filter (\<lambda>e. edtr_equipmentId e = equipmentId \<and> edtr_status e = Reconciled \<and>
            from_day \<le> edtr_reportDate e \<and> edtr_reportDate e \<le> to_day) (edtrs d))
          (\<lambda>e. filter (\<lambda>l. eli_edtrId l = edtr_id e) (edtrLineItems d)))"

definition utilizationReport :: "time \<Rightarrow> date option \<Rightarrow> date option \<Rightarrow> (db, (date \<times> date) \<times> utilization list) body" where
  "utilizationReport now from_day to_day d =
     (let (f, t) = reportPeriod now from_day to_day;
          totalPossibleHours = js (of_int (daysBetweenInclusive f t * BUSINESS_HOURS_PER_DAY))
      in returns ((f, t), map (\<lambda>row.
           \<lparr>utl_equipmentId = eqp_id row, utl_runtimeHours = round2HalfUp (num2 (eqp_runtimeHours row)),
            utl_utilizationPct = (if js 0 < totalPossibleHours
              then round2HalfUp (activeHours (eqp_id row) f t d / totalPossibleHours * js 100) else js 0),
            utl_maintenanceDue = isMaintenanceDue (eqp_id row) (eqp_runtimeHours row) d\<rparr>) (equipments d)) d)"

record financial =
  fin_byType :: "invoice_type \<Rightarrow> number option"
  fin_total :: number
  fin_paid :: number
  fin_depositDeducted :: number

definition orZero :: "number option \<Rightarrow> number" where
  "orZero x = (case x of None \<Rightarrow> js 0 | Some v \<Rightarrow> v)"

fun invoiced :: "invoice list \<Rightarrow> (invoice_type \<Rightarrow> number option) \<Rightarrow> number \<Rightarrow> (invoice_type \<Rightarrow> number option) \<times> number" where
  "invoiced [] byType invoicedTotal = (byType, invoicedTotal)"
| "invoiced (i # rest) byType invoicedTotal =
     (let amount = num2 (inv_amount i); ty = inv_invoiceType i
      in invoiced rest (byType(ty \<mapsto> round2HalfUp (orZero (byType ty) + amount))) (round2HalfUp (invoicedTotal + amount)))"

definition periodInvoices :: "date \<Rightarrow> date \<Rightarrow> db \<Rightarrow> invoice list" where
  "periodInvoices f t d =
     filter (\<lambda>i. f * DAY_MS \<le> inv_createdAt i \<and> inv_createdAt i \<le> t * DAY_MS + 86399999) (invoices d)"

definition financialReport :: "time \<Rightarrow> date option \<Rightarrow> date option \<Rightarrow> (db, (date \<times> date) \<times> financial) body" where
  "financialReport now from_day to_day d =
     (let (f, t) = reportPeriod now from_day to_day;
          invoiceRows = periodInvoices f t d;
          paymentRows = filter (\<lambda>p. pay_invoiceId p \<in> set (map inv_id invoiceRows)) (payments d);
          (byType, invoicedTotal) = invoiced invoiceRows (\<lambda>_. None) (js 0);
          paidTotal = round2HalfUp (foldl (\<lambda>s p. s + num2 (pay_amount p)) (js 0)
            (filter (\<lambda>p. pay_status p = PPaid) paymentRows))
      in returns ((f, t), \<lparr>fin_byType = byType, fin_total = invoicedTotal, fin_paid = paidTotal,
           fin_depositDeducted = orZero (byType DepositDeduction)\<rparr>) d)"

section \<open>Retired machines\<close>

text \<open>The committed operations that may touch the fleet or its maintenance.\<close>

inductive fleetStep :: "db \<Rightarrow> db \<Rightarrow> bool" where
  createEquipment: "committed (createEquipment now c body d) r d' \<Longrightarrow> fleetStep d d'"
| updateEquipment: "committed (updateEquipment c i upd d) j d' \<Longrightarrow> fleetStep d d'"
| retire: "committed (retire now c i d) j d' \<Longrightarrow> fleetStep d d'"
| setPhoto: "committed (setPhoto i key d) j d' \<Longrightarrow> fleetStep d d'"
| correctRuntime: "committed (correctRuntime c i h reason d) j d' \<Longrightarrow> fleetStep d d'"
| recordMaintenanceLog: "committed (recordMaintenanceLog c i t notes sid d) j d' \<Longrightarrow> fleetStep d d'"
| createSchedule: "committed (createSchedule now c i task h d) j d' \<Longrightarrow> fleetStep d d'"
| createMaintenanceWindow: "committed (createMaintenanceWindow c i s e notes d) j d' \<Longrightarrow> fleetStep d d'"
| deleteMaintenanceWindow: "committed (deleteMaintenanceWindow c i w d) j d' \<Longrightarrow> fleetStep d d'"
| saveCalendar: "committed (saveCalendar c cal d) u d' \<Longrightarrow> fleetStep d d'"

text \<open>What a step does to the rows of the fleet: rewrite units in service, retire one at rest, or add one.\<close>

definition liveUpdate :: "equipment list \<Rightarrow> equipment list \<Rightarrow> bool" where
  "liveUpdate rows rows' \<longleftrightarrow>
     (\<exists>p f. rows' = updw p f rows \<and> (\<forall>r \<in> set rows. p r \<longrightarrow> eqp_retiredAt r = None \<and>
        (eqp_retiredAt (f r) = None \<or>
         eqp_availabilityStatus r \<noteq> Deployed \<and> (\<exists>t. f r = r\<lparr>eqp_retiredAt := Some t\<rparr>))))"

lemma liveUpdate_refl: "liveUpdate rows rows"
  unfolding liveUpdate_def by (rule exI[of _ "\<lambda>_. False"], rule exI[of _ id]) (simp add: updw_def)

lemma liveUpdateI:
  assumes "\<And>r. r \<in> set rows \<Longrightarrow> p r \<Longrightarrow> eqp_retiredAt r = None"
    and "\<And>r. r \<in> set rows \<Longrightarrow> p r \<Longrightarrow> eqp_retiredAt (f r) = None \<or>
      eqp_availabilityStatus r \<noteq> Deployed \<and> (\<exists>t. f r = r\<lparr>eqp_retiredAt := Some t\<rparr>)"
  shows "liveUpdate rows (updw p f rows)"
  unfolding liveUpdate_def using assms by blast

lemma specFieldPatch_keeps [simp]:
  "eqp_retiredAt (specFieldPatch s r) = eqp_retiredAt r" "eqp_id (specFieldPatch s r) = eqp_id r"
  by (simp_all add: specFieldPatch_def)

lemma found_unit:
  assumes "find (\<lambda>r. eqp_id r = i) (equipments d) = Some e" "distinct (map eqp_id (equipments d))"
    "r \<in> set (equipments d)" "eqp_id r = i"
  shows "r = e"
  using distinct_map_eq[OF assms(2,3), of e] find_SomeD[OF assms(1)] assms(4) by simp

lemma fleetStep_rows:
  assumes "fleetStep d d'" "distinct (map eqp_id (equipments d))"
  shows "liveUpdate (equipments d) (equipments d') \<or>
    (\<exists>r. equipments d' = equipments d @ [r] \<and> eqp_retiredAt r = None)"
  using assms(1)
proof cases
  case (createEquipment now c body r)
  then show ?thesis by (auto simp: createEquipment_def Let_def audit_def fresh_def split: if_split_asm)
next
  case (updateEquipment c i upd j)
  then obtain e where e: "find (\<lambda>r. eqp_id r = i) (equipments d) = Some e" "eqp_retiredAt e = None"
    and d': "equipments d' = updw (\<lambda>r. eqp_id r = i) (\<lambda>r. specFieldPatch (eup_specs upd)
      (r\<lparr>eqp_model := given (eup_model upd) (eqp_model r) id,
         eqp_availabilityStatus := given (eup_availabilityStatus upd) (eqp_availabilityStatus r) id\<rparr>)) (equipments d)"
    by (auto simp: updateEquipment_def setEquipment_def audit_def split: option.split_asm if_split_asm)
  show ?thesis unfolding d' by (intro disjI1 liveUpdateI) (use found_unit[OF e(1) assms(2)] e(2) in auto)
next
  case (retire now c i j)
  then obtain e where e: "find (\<lambda>r. eqp_id r = i) (equipments d) = Some e" "eqp_retiredAt e = None"
      "eqp_availabilityStatus e \<noteq> Deployed"
    and d': "equipments d' = updw (\<lambda>r. eqp_id r = i) (eqp_retiredAt_update (\<lambda>_. Some now)) (equipments d)"
    by (auto simp: retire_def setEquipment_def audit_def split: option.split_asm if_split_asm)
  show ?thesis
    unfolding d'
  proof (rule disjI1, rule liveUpdateI)
    fix r assume r: "r \<in> set (equipments d)" "eqp_id r = i"
    from found_unit[OF e(1) assms(2) r] e(2,3)
    show "eqp_retiredAt r = None" "eqp_retiredAt (eqp_retiredAt_update (\<lambda>_. Some now) r) = None \<or>
        eqp_availabilityStatus r \<noteq> Deployed \<and>
        (\<exists>t. eqp_retiredAt_update (\<lambda>_. Some now) r = r\<lparr>eqp_retiredAt := Some t\<rparr>)" by blast+
  qed
next
  case (setPhoto i key j)
  then have d': "equipments d' = updw (\<lambda>r. eqp_id r = i \<and> eqp_retiredAt r = None) (eqp_photoUri_update (\<lambda>_. Some key)) (equipments d)"
    by (auto simp: setPhoto_def split: if_split_asm)
  show ?thesis unfolding d' by (intro disjI1 liveUpdateI) auto
next
  case (correctRuntime c i h reason j)
  then obtain e where e: "find (\<lambda>r. eqp_id r = i) (equipments d) = Some e" "eqp_retiredAt e = None"
    and d': "equipments d' = updw (\<lambda>r. eqp_id r = i) (eqp_runtimeHours_update (\<lambda>_. col2 (round2HalfUp h))) (equipments d)"
    by (auto simp: correctRuntime_def setEquipment_def Let_def split: option.split_asm if_split_asm)
  show ?thesis unfolding d' by (intro disjI1 liveUpdateI) (use found_unit[OF e(1) assms(2)] e(2) in auto)
next
  case (recordMaintenanceLog c i t nt sid j)
  then have "equipments d' = equipments d"
    by (auto simp: recordMaintenanceLog_def Let_def audit_def fresh_def split: option.split_asm if_split_asm)
  then show ?thesis using liveUpdate_refl by simp
next
  case (createSchedule now c i task h j)
  then have "equipments d' = equipments d"
    by (auto simp: createSchedule_def audit_def fresh_def split: option.split_asm)
  then show ?thesis using liveUpdate_refl by simp
next
  case (createMaintenanceWindow c i s e nt j)
  then have "equipments d' = equipments d"
    by (auto simp: createMaintenanceWindow_def audit_def fresh_def split: if_split_asm)
  then show ?thesis using liveUpdate_refl by simp
next
  case (deleteMaintenanceWindow c i w j)
  then have "equipments d' = equipments d"
    by (auto simp: deleteMaintenanceWindow_def audit_def split: if_split_asm)
  then show ?thesis using liveUpdate_refl by simp
next
  case (saveCalendar c cal u)
  then have "equipments d' = equipments d" by (auto simp: saveCalendar_def Let_def audit_def split: if_split_asm)
  then show ?thesis using liveUpdate_refl by simp
qed

text \<open>
  C25. Retirement is final, and only of a machine at rest. Whatever fleet operation commits, a retired
  machine's row is afterwards exactly what it was; and a machine is retired only from a row that
  was not deployed, which is otherwise left as it was.
\<close>

theorem retired_units_frozen:
  assumes "fleetStep d d'" "distinct (map eqp_id (equipments d))"
  shows "(\<forall>r \<in> set (equipments d). eqp_retiredAt r \<noteq> None \<longrightarrow> r \<in> set (equipments d')) \<and>
    (\<forall>r' \<in> set (equipments d'). eqp_retiredAt r' \<noteq> None \<longrightarrow> r' \<in> set (equipments d) \<or>
      (\<exists>r \<in> set (equipments d). \<exists>t. eqp_retiredAt r = None \<and> eqp_availabilityStatus r \<noteq> Deployed \<and>
         r' = r\<lparr>eqp_retiredAt := Some t\<rparr>))"
  using fleetStep_rows[OF assms]
proof (elim disjE exE conjE)
  assume "liveUpdate (equipments d) (equipments d')"
  then obtain p f where d': "equipments d' = updw p f (equipments d)"
    and l: "\<And>r. r \<in> set (equipments d) \<Longrightarrow> p r \<Longrightarrow> eqp_retiredAt r = None \<and>
        (eqp_retiredAt (f r) = None \<or> eqp_availabilityStatus r \<noteq> Deployed \<and> (\<exists>t. f r = r\<lparr>eqp_retiredAt := Some t\<rparr>))"
    unfolding liveUpdate_def by blast
  show ?thesis
  proof (intro conjI ballI impI)
    fix r assume "r \<in> set (equipments d)" "eqp_retiredAt r \<noteq> None"
    then show "r \<in> set (equipments d')" using l unfolding d' in_updw by force
  next
    fix r' assume "r' \<in> set (equipments d')" and r': "eqp_retiredAt r' \<noteq> None"
    then obtain r where r: "r \<in> set (equipments d)" "r' = (if p r then f r else r)" unfolding d' in_updw by blast
    show "r' \<in> set (equipments d) \<or> (\<exists>r \<in> set (equipments d). \<exists>t. eqp_retiredAt r = None \<and>
        eqp_availabilityStatus r \<noteq> Deployed \<and> r' = r\<lparr>eqp_retiredAt := Some t\<rparr>)"
    proof (cases "p r")
      case True
      with r(2) r' have "f r = r'" "eqp_retiredAt (f r) \<noteq> None" by simp_all
      with l[OF r(1) True] r(1) show ?thesis by blast
    next
      case False
      then show ?thesis using r by simp
    qed
  qed
next
  fix r assume d': "equipments d' = equipments d @ [r]" and "eqp_retiredAt r = None"
  then show ?thesis by auto
qed

section \<open>Maintenance and reports\<close>

lemma isMaintenanceDue_iff:
  assumes "\<bar>h\<bar> \<le> 2 ^ 44" "\<And>s k. s \<in> set (maintenanceSchedules d) \<Longrightarrow> msc_nextDue s = Some k \<Longrightarrow> \<bar>k\<bar> \<le> 2 ^ 44"
  shows "isMaintenanceDue i h d \<longleftrightarrow>
    (\<exists>s \<in> set (maintenanceSchedules d). msc_equipmentId s = i \<and> (\<exists>k. msc_nextDue s = Some k \<and> k \<le> h))"
proof -
  have "num2 k \<le> num2 h \<longleftrightarrow> k \<le> h" if "\<bar>k\<bar> \<le> 2 ^ 44" for k
    by (rule amt_less_eq[OF amt_num2 amt_num2]) (use that assms(1) in simp_all)
  then have "crossed (num2 h) s \<longleftrightarrow> (\<exists>k. msc_nextDue s = Some k \<and> k \<le> h)" if "s \<in> set (maintenanceSchedules d)" for s
    using assms(2)[OF that] by (auto simp: crossed_def split: option.split)
  then show ?thesis by (auto simp: isMaintenanceDue_def list_ex_iff)
qed

text \<open>
  Servicing lets a machine work again. A machine in service whose only crossed task is logged can
  be deployed at once: the log moves that task's next due point one interval past the meter, exactly,
  and the deployment the due task refused now commits.
\<close>

theorem serviced_unit_deploys:
  assumes "committed (recordMaintenanceLog c i t notes (Some k) d) j d'"
    and "find (\<lambda>r. eqp_id r = i) (equipments d) = Some row" "eqp_retiredAt row = None" "eqp_availabilityStatus row \<noteq> Deployed"
    and "\<bar>eqp_runtimeHours row\<bar> \<le> 2 ^ 42"
    and "list_all (\<lambda>s. 0 < msc_hoursInterval s \<and> msc_hoursInterval s \<le> 2 ^ 42 \<and>
      (case msc_nextDue s of None \<Rightarrow> True | Some n \<Rightarrow> \<bar>n\<bar> \<le> 2 ^ 44 \<and>
         (msc_equipmentId s = i \<and> n \<le> eqp_runtimeHours row \<longrightarrow> msc_id s = k))) (maintenanceSchedules d)"
    and "distinct (map msc_id (maintenanceSchedules d))"
    and "eup_availabilityStatus upd = Some Deployed"
  shows "(\<exists>s \<in> set (maintenanceSchedules d'). msc_id s = k \<and> msc_equipmentId s = i \<and>
      msc_nextDue s = Some (eqp_runtimeHours row + msc_hoursInterval s)) \<and>
    (\<exists>d''. committed (updateEquipment c i upd d') i d'')"
proof -
  obtain s where s: "find (\<lambda>s. msc_id s = k \<and> msc_equipmentId s = i) (maintenanceSchedules d) = Some s"
    using assms(1,2) by (auto simp: recordMaintenanceLog_def Let_def split: option.split_asm if_split_asm)
  define n where "n = col2 (round2HalfUp (num2 (eqp_runtimeHours row) + num2 (msc_hoursInterval s)))"
  have sk: "s \<in> set (maintenanceSchedules d)" "msc_id s = k" "msc_equipmentId s = i" using find_SomeD[OF s] by auto
  have iv: "0 < msc_hoursInterval s" "msc_hoursInterval s \<le> 2 ^ 42" using assms(6) sk(1) by (auto simp: list_all_iff)
  have n: "n = eqp_runtimeHours row + msc_hoursInterval s"
    unfolding n_def round2_cents by (rule amt_col2[OF amt_add[OF amt_num2 amt_num2]]) (use assms(5) iv in simp_all)
  have m: "maintenanceSchedules d' = updw (\<lambda>x. msc_id x = k) (msc_nextDue_update (\<lambda>_. Some n)) (maintenanceSchedules d)"
    and e: "equipments d' = equipments d"
    using assms(1,2) s sk(2) by (auto simp: recordMaintenanceLog_def Let_def audit_def fresh_def n_def)
  have dist: "x = s" if "x \<in> set (maintenanceSchedules d)" "msc_id x = k" for x
    using distinct_map_eq[OF assms(7) that(1) sk(1)] that(2) sk(2) by simp
  have due: "\<not> isMaintenanceDue i (eqp_runtimeHours row) d'"
  proof -
    have b: "\<bar>q\<bar> \<le> 2 ^ 44" if "x \<in> set (maintenanceSchedules d')" "msc_nextDue x = Some q" for x q
      using that assms(5,6) iv n unfolding m by (auto simp: in_updw list_all_iff split: if_split_asm)
    have r: "\<bar>eqp_runtimeHours row\<bar> \<le> 2 ^ 44" using assms(5) by simp
    have no: "\<not> q \<le> eqp_runtimeHours row"
      if x: "x \<in> set (maintenanceSchedules d')" "msc_nextDue x = Some q" "msc_equipmentId x = i" for x q
    proof (cases "msc_id x = k")
      case True
      have "\<exists>u \<in> set (maintenanceSchedules d). msc_id u = k \<and> x = u\<lparr>msc_nextDue := Some n\<rparr>"
        using updw_hit[of x msc_id k _ "maintenanceSchedules d"] x(1) True unfolding m by simp
      then show ?thesis using x(2) iv(1) n by auto
    next
      case False
      have "x \<in> set (maintenanceSchedules d)"
        using updw_miss[of x msc_id k _ "maintenanceSchedules d"] x(1) False unfolding m by simp
      then show ?thesis using assms(6) x(2,3) False by (auto simp: list_all_iff)
    qed
    have "isMaintenanceDue i (eqp_runtimeHours row) d' \<longleftrightarrow>
        (\<exists>x \<in> set (maintenanceSchedules d'). msc_equipmentId x = i \<and> (\<exists>q. msc_nextDue x = Some q \<and> q \<le> eqp_runtimeHours row))"
      by (rule isMaintenanceDue_iff[OF r]) (erule b, assumption)
    with no show ?thesis by blast
  qed
  have "\<exists>d''. committed (updateEquipment c i upd d') i d''"
    by (simp add: updateEquipment_def e assms(2,3,4) due)
  moreover have "s\<lparr>msc_nextDue := Some n\<rparr> \<in> set (maintenanceSchedules d')"
    unfolding m in_updw using sk(1,2) by (intro bexI[of _ s]) simp_all
  ultimately show ?thesis using sk(2,3) n by (intro conjI bexI[of _ "s\<lparr>msc_nextDue := Some n\<rparr>"]) simp_all
qed

section \<open>The financial report\<close>

lemma orZero_simps [simp]: "orZero (Some x) = x" "orZero None = js 0"
  by (simp_all add: orZero_def)

lemma amt_js0: "amt (js 0) 0"
  using js_isn[of 0] by (simp add: amt_def dbl.cv_def fl_def)

definition ofType :: "invoice_type \<Rightarrow> invoice list \<Rightarrow> int" where
  "ofType ty is = (\<Sum>i\<leftarrow>filter (\<lambda>i. inv_invoiceType i = ty) is. inv_amount i)"

lemma ofType_Cons: "ofType ty (i # is) = (if inv_invoiceType i = ty then inv_amount i else 0) + ofType ty is"
  by (simp add: ofType_def)

lemma invoiced_exact:
  assumes "invoiced is b s = (b', s')" "\<And>ty. amt (orZero (b ty)) (n ty)" "amt s k"
    and "\<And>ty. \<bar>n ty\<bar> + (\<Sum>i\<leftarrow>is. \<bar>inv_amount i\<bar>) \<le> 2 ^ 44" "\<bar>k\<bar> + (\<Sum>i\<leftarrow>is. \<bar>inv_amount i\<bar>) \<le> 2 ^ 44"
  shows "(\<forall>ty. amt (orZero (b' ty)) (n ty + ofType ty is)) \<and> amt s' (k + (\<Sum>i\<leftarrow>is. inv_amount i))"
  using assms
proof (induction "is" arbitrary: b s n k)
  case Nil
  then show ?case by (simp add: ofType_def)
next
  case (Cons i "is")
  define a ty where "a = inv_amount i" and "ty = inv_invoiceType i"
  let ?b = "b(ty \<mapsto> round2HalfUp (orZero (b ty) + num2 a))" and ?s = "round2HalfUp (s + num2 a)"
  have z: "0 \<le> (\<Sum>i\<leftarrow>is. \<bar>inv_amount i\<bar>)" by (rule sum_list_nonneg) auto
  have nb: "\<bar>n t\<bar> \<le> 2 ^ 44" for t using Cons.prems(4)[of t] z by simp
  have a44: "\<bar>a\<bar> \<le> 2 ^ 44" "\<bar>k\<bar> \<le> 2 ^ 44" using Cons.prems(5) z by (simp_all add: a_def)
  have num: "amt (num2 a) a" by (rule amt_num2) (use a44 in simp)
  have rec: "invoiced is ?b ?s = (b', s')" using Cons.prems(1) by (simp add: a_def ty_def Let_def)
  have "(\<forall>t. amt (orZero (b' t)) ((n(ty := n ty + a)) t + ofType t is)) \<and> amt s' ((k + a) + (\<Sum>i\<leftarrow>is. inv_amount i))"
  proof (rule Cons.IH[OF rec])
    show "amt (orZero (?b t)) ((n(ty := n ty + a)) t)" for t
      using Cons.prems(2)[of t] amt_add[OF Cons.prems(2)[of ty] num nb a44(1)] by (simp add: round2_cents)
    show "amt ?s (k + a)" unfolding round2_cents by (rule amt_add[OF Cons.prems(3) num]) (use a44 in simp_all)
    show "\<bar>(n(ty := n ty + a)) t\<bar> + (\<Sum>i\<leftarrow>is. \<bar>inv_amount i\<bar>) \<le> 2 ^ 44" for t
      using Cons.prems(4)[of t] by (auto simp: a_def)
    show "\<bar>k + a\<bar> + (\<Sum>i\<leftarrow>is. \<bar>inv_amount i\<bar>) \<le> 2 ^ 44" using Cons.prems(5) by (simp add: a_def)
  qed
  moreover have "(n(ty := n ty + a)) t + ofType t is = n t + ofType t (i # is)" for t
    by (simp add: ofType_Cons a_def ty_def)
  ultimately show ?case by (simp add: a_def ac_simps del: fun_upd_apply)
qed

text \<open>
  The financial report adds up to the centavo. The total invoiced and every type's share are the
  exact sums of the invoices of the period, the deposit line is the deductions' share, and the paid
  figure is the exact sum of the paid payments on those invoices.
\<close>

theorem financial_report_exact:
  assumes "committed (financialReport now f t d) ((f', t'), r) d'"
    and "(\<Sum>i\<leftarrow>periodInvoices f' t' d. \<bar>inv_amount i\<bar>) \<le> 2 ^ 44"
    and "ps = filter (\<lambda>p. pay_status p = PPaid \<and> pay_invoiceId p \<in> inv_id ` set (periodInvoices f' t' d)) (payments d)"
    and "\<And>p. p \<in> set ps \<Longrightarrow> 0 \<le> pay_amount p" "(\<Sum>p\<leftarrow>ps. pay_amount p) \<le> 2 ^ 36" "length ps \<le> 4096"
  shows "amt (fin_total r) (\<Sum>i\<leftarrow>periodInvoices f' t' d. inv_amount i) \<and>
    (\<forall>ty. amt (orZero (fin_byType r ty)) (ofType ty (periodInvoices f' t' d))) \<and>
    amt (fin_depositDeducted r) (ofType DepositDeduction (periodInvoices f' t' d)) \<and>
    amt (fin_paid r) (\<Sum>p\<leftarrow>ps. pay_amount p)"
proof -
  let ?is = "periodInvoices f' t' d"
  obtain b' s' where inv: "invoiced ?is (\<lambda>_. None) (js 0) = (b', s')" by force
  have r: "fin_byType r = b'" "fin_total r = s'" "fin_depositDeducted r = orZero (b' DepositDeduction)"
    "fin_paid r = round2HalfUp (foldl (\<lambda>s p. s + num2 (pay_amount p)) (js 0) ps)"
    using assms(1,3) inv by (auto simp: financialReport_def Let_def conj_commute split: prod.split_asm)
  have "(\<forall>ty. amt (orZero (b' ty)) (0 + ofType ty ?is)) \<and> amt s' (0 + (\<Sum>i\<leftarrow>?is. inv_amount i))"
    by (rule invoiced_exact[OF inv]) (use assms(2) amt_js0 in simp_all)
  moreover have nn: "0 \<le> (\<Sum>p\<leftarrow>ps. pay_amount p)" by (rule sum_list_nonneg) (use assms(4) in auto)
  have "amt (fin_paid r) (\<Sum>p\<leftarrow>ps. pay_amount p)"
    unfolding r(4) round2_cents
    by (rule near_cents[OF near_sum[OF assms(4,5,6)]]) (use assms(5) nn in simp_all)
  ultimately show ?thesis unfolding r by simp
qed

section \<open>Witnesses\<close>

definition noSpecs :: equipment_specs where
  "noSpecs = \<lparr>spc_modelNumber = None, spc_yearOfManufacture = None, spc_weightCapacityTons = None,
     spc_engineType = None, spc_fuelType = None, spc_notes = None, spc_categoryNote = None\<rparr>"

definition demo_unit :: "uuid \<Rightarrow> time option \<Rightarrow> equipment" where
  "demo_unit i gone = \<lparr>eqp_id = i, eqp_tenantId = 1, eqp_equipmentTypeId = 8, eqp_model = ''PC200'', eqp_serialNo = ''A1'',
     eqp_availabilityStatus = Available, eqp_runtimeHours = 25500, eqp_modelNumber = None,
     eqp_yearOfManufacture = None, eqp_weightCapacityTons = None, eqp_engineType = None, eqp_fuelType = None,
     eqp_notes = None, eqp_photoUri = None, eqp_categoryNote = None, eqp_retiredAt = gone, eqp_createdAt = 0\<rparr>"

definition engine_oil :: maintenance_schedule where
  "engine_oil = \<lparr>msc_id = 40, msc_tenantId = 1, msc_equipmentId = 9, msc_task = Some ''Engine oil'',
     msc_hoursInterval = 25000, msc_nextDue = Some 25000, msc_createdAt = 0\<rparr>"

definition depot_db :: db where
  "depot_db = empty_db\<lparr>equipments := [demo_unit 8 (Some 3), demo_unit 9 None], maintenanceSchedules := [engine_oil]\<rparr>"

lemmas depot_eval = depot_db_def demo_unit_def engine_oil_def empty_db_def

theorem retired_units_frozen_witness:
  "\<exists>j d'. committed (retire 50 demo_ctx 9 depot_db) j d' \<and> demo_unit 8 (Some 3) \<in> set (equipments d')"
proof -
  obtain j d' where d': "committed (retire 50 demo_ctx 9 depot_db) j d'"
    by (simp add: retire_def depot_eval setEquipment_def audit_def)
  have u: "demo_unit 8 (Some 3) \<in> set (equipments depot_db)" "eqp_retiredAt (demo_unit 8 (Some 3)) \<noteq> None"
    "distinct (map eqp_id (equipments depot_db))" by (simp_all add: depot_eval)
  have "fleetStep depot_db d'" using d' by (rule fleetStep.retire)
  from retired_units_frozen[OF this u(3)] u(1,2) d' show ?thesis by blast
qed

theorem serviced_unit_deploys_witness:
  "\<exists>j d' d''. committed (recordMaintenanceLog demo_ctx 9 50 None (Some 40) depot_db) j d' \<and>
     committed (updateEquipment demo_ctx 9 \<lparr>eup_model = None, eup_availabilityStatus = Some Deployed, eup_specs = noSpecs\<rparr> d') 9 d''"
proof -
  obtain j d' where d': "committed (recordMaintenanceLog demo_ctx 9 50 None (Some 40) depot_db) j d'"
    by (simp add: recordMaintenanceLog_def depot_eval Let_def)
  have u: "find (\<lambda>r. eqp_id r = 9) (equipments depot_db) = Some (demo_unit 9 None)" "eqp_retiredAt (demo_unit 9 None) = None"
    "eqp_availabilityStatus (demo_unit 9 None) \<noteq> Deployed" "\<bar>eqp_runtimeHours (demo_unit 9 None)\<bar> \<le> 2 ^ 42"
    "list_all (\<lambda>s. 0 < msc_hoursInterval s \<and> msc_hoursInterval s \<le> 2 ^ 42 \<and>
      (case msc_nextDue s of None \<Rightarrow> True | Some n \<Rightarrow> \<bar>n\<bar> \<le> 2 ^ 44 \<and>
         (msc_equipmentId s = 9 \<and> n \<le> eqp_runtimeHours (demo_unit 9 None) \<longrightarrow> msc_id s = 40))) (maintenanceSchedules depot_db)"
    "distinct (map msc_id (maintenanceSchedules depot_db))" by (simp_all add: depot_eval)
  let ?u = "\<lparr>eup_model = None, eup_availabilityStatus = Some Deployed, eup_specs = noSpecs\<rparr> :: equipment_update"
  have "eup_availabilityStatus ?u = Some Deployed" by simp
  from serviced_unit_deploys[OF d' u this] d' show ?thesis by blast
qed

definition demo_invoice :: "uuid \<Rightarrow> invoice_type \<Rightarrow> int \<Rightarrow> invoice" where
  "demo_invoice i ty a = \<lparr>inv_id = i, inv_tenantId = 1, inv_rentalId = None, inv_truckRequestId = None,
     inv_invoiceType = ty, inv_amount = a, inv_status = Issued, inv_dueDate = 0, inv_createdAt = 5\<rparr>"

definition billed_db :: db where
  "billed_db = empty_db\<lparr>invoices := [demo_invoice 1 Booking 1234567, demo_invoice 2 DepositDeduction 10]\<rparr>"

theorem financial_report_exact_witness:
  "\<exists>r. committed (financialReport 0 (Some 0) (Some 1) billed_db) ((0, 1), r) billed_db \<and>
     amt (fin_total r) 1234577 \<and> amt (fin_depositDeducted r) 10 \<and> amt (fin_paid r) 0"
proof -
  have "\<exists>r. committed (financialReport 0 (Some 0) (Some 1) billed_db) ((0, 1), r) billed_db"
    by (simp add: financialReport_def reportPeriod_def Let_def split: prod.split)
  then obtain r where r: "committed (financialReport 0 (Some 0) (Some 1) billed_db) ((0, 1), r) billed_db" by blast
  have p: "periodInvoices 0 1 billed_db = [demo_invoice 1 Booking 1234567, demo_invoice 2 DepositDeduction 10]"
    by (simp add: periodInvoices_def billed_db_def demo_invoice_def empty_db_def DAY_MS_def)
  have ps: "[] = filter (\<lambda>p. pay_status p = PPaid \<and> pay_invoiceId p \<in> inv_id ` set (periodInvoices 0 1 billed_db)) (payments billed_db)"
    by (simp add: billed_db_def empty_db_def)
  have "(\<Sum>i\<leftarrow>periodInvoices 0 1 billed_db. \<bar>inv_amount i\<bar>) \<le> 2 ^ 44" by (simp add: p demo_invoice_def)
  from financial_report_exact[OF r this ps] r show ?thesis
    by (intro exI[of _ r]) (simp add: p demo_invoice_def ofType_def)
qed

text \<open>
  The comment of \<open>update\<close> says a maintenance-flagged unit cannot be deployed; only crossed task schedules
  are looked at, so a unit whose status is \<open>maintenance\<close> is deployed without a word.
\<close>

lemma flagged_unit_deploys:
  assumes "find (\<lambda>r. eqp_id r = i) (equipments d) = Some row" "eqp_availabilityStatus row = InMaintenance"
    "eqp_retiredAt row = None" "maintenanceSchedules d = []" "eup_availabilityStatus upd = Some Deployed"
  shows "\<exists>d'. committed (updateEquipment c i upd d) i d' \<and>
    (\<exists>r \<in> set (equipments d'). eqp_id r = i \<and> eqp_availabilityStatus r = Deployed)"
proof -
  have st: "eqp_availabilityStatus (specFieldPatch s r) = eqp_availabilityStatus r" for s r by (simp add: specFieldPatch_def)
  have "\<exists>d'. committed (updateEquipment c i upd d) i d' \<and>
      equipments d' = updw (\<lambda>r. eqp_id r = i) (\<lambda>r. specFieldPatch (eup_specs upd)
        (r\<lparr>eqp_model := given (eup_model upd) (eqp_model r) id,
           eqp_availabilityStatus := given (eup_availabilityStatus upd) (eqp_availabilityStatus r) id\<rparr>)) (equipments d)"
    using assms by (simp add: updateEquipment_def isMaintenanceDue_def setEquipment_def audit_def)
  then obtain d' where d': "committed (updateEquipment c i upd d) i d'"
    "equipments d' = updw (\<lambda>r. eqp_id r = i) (\<lambda>r. specFieldPatch (eup_specs upd)
        (r\<lparr>eqp_model := given (eup_model upd) (eqp_model r) id,
           eqp_availabilityStatus := given (eup_availabilityStatus upd) (eqp_availabilityStatus r) id\<rparr>)) (equipments d)"
    by blast
  let ?r = "specFieldPatch (eup_specs upd) (row\<lparr>eqp_model := given (eup_model upd) (eqp_model row) id,
      eqp_availabilityStatus := given (eup_availabilityStatus upd) (eqp_availabilityStatus row) id\<rparr>)"
  have "?r \<in> set (equipments d')" unfolding d'(2) in_updw using find_SomeD[OF assms(1)] by (intro bexI[of _ row]) simp_all
  moreover have "eqp_id ?r = i \<and> eqp_availabilityStatus ?r = Deployed"
    using find_SomeD[OF assms(1)] assms(5) by (simp add: st given_def)
  ultimately show ?thesis using d'(1) by blast
qed

end
