(* ===== verification/Sites.thy ===== *)
theory Sites
  imports Bookings Fleet
begin

text \<open>
  Project sites and deployments (\<open>apps/api/src/sites/sites.service.ts\<close>): a machine is sent to the
  site of a rental at once and brought back, beside the booking path of the theory \<open>Bookings\<close>; both
  go through \<open>availabilityBlockers\<close>. The weather reads are in \<open>SiteWeather\<close>.
\<close>

section \<open>Sites\<close>

record site_create =
  scr_line1 :: string
  scr_line2 :: "string option"
  scr_city :: string
  scr_province :: string
  scr_postalCode :: "string option"
  scr_country :: string
  scr_latitude :: number
  scr_longitude :: number

definition createSite :: "time \<Rightarrow> ctx \<Rightarrow> site_create \<Rightarrow> (db, uuid) body" where
  "createSite now c body d =
     (let address = \<lparr>adr_id = nextId d, adr_tenantId = ctx_tenantId c, adr_line1 = scr_line1 body,
            adr_line2 = scr_line2 body, adr_barangay = None, adr_city = scr_city body,
            adr_province = scr_province body, adr_postalCode = scr_postalCode body, adr_country = scr_country body\<rparr>;
          d1 = (fresh d)\<lparr>addresses := addresses d @ [address]\<rparr>;
          site = \<lparr>site_id = nextId d1, site_tenantId = ctx_tenantId c, site_addressId = adr_id address,
            site_customerId = None, site_latitude = cold 6 (scr_latitude body),
            site_longitude = cold 6 (scr_longitude body), site_createdAt = now\<rparr>;
          d2 = (fresh d1)\<lparr>projectSites := projectSites d1 @ [site]\<rparr>
      in ([''project_site_created''], Inr (site_id site, audit c ''CREATE'' ''project_sites'' (site_id site) d2)))"

definition updateSite :: "ctx \<Rightarrow> uuid \<Rightarrow> number option \<Rightarrow> number option \<Rightarrow> (db, uuid) body" where
  "updateSite c i latitude longitude d =
     (if list_ex (\<lambda>s. site_id s = i) (projectSites d)
      then returns i (audit c ''UPDATE'' ''project_sites'' i
        (d\<lparr>projectSites := updw (\<lambda>s. site_id s = i)
           (\<lambda>s. s\<lparr>site_latitude := given latitude (site_latitude s) (cold 6),
                  site_longitude := given longitude (site_longitude s) (cold 6)\<rparr>) (projectSites d)\<rparr>))
      else fails (NotFound ''project_site_not_found''))"

section \<open>Deployments\<close>

record deployment_request =
  dep_equipmentId :: uuid
  dep_rentalId :: uuid
  dep_operatorUserId :: "uuid option"
  dep_window :: window

definition isMember :: "ctx \<Rightarrow> uuid option \<Rightarrow> db \<Rightarrow> bool" where
  "isMember c op d \<longleftrightarrow>
     (case op of
        None \<Rightarrow> True
      | Some u \<Rightarrow> list_ex (\<lambda>r. usr_id r = u \<and> usr_tenantId r = ctx_tenantId c) (users d))"

definition deploymentRow :: "ctx \<Rightarrow> deployment_request \<Rightarrow> uuid \<Rightarrow> equipment_assignment" where
  "deploymentRow c body i =
     \<lparr>asg_id = i, asg_tenantId = ctx_tenantId c, asg_equipmentId = dep_equipmentId body,
      asg_rentalId = dep_rentalId body, asg_start = w_start (dep_window body),
      asg_end = Some (w_end (dep_window body)), asg_status = AScheduled,
      asg_operatorUserId = dep_operatorUserId body, asg_bookedHours = None\<rparr>"

definition createDeployment :: "ctx \<Rightarrow> uuid \<Rightarrow> deployment_request \<Rightarrow> (db, uuid) body" where
  "createDeployment c siteId body d =
     (if \<not> list_ex (\<lambda>s. site_id s = siteId) (projectSites d) then fails (NotFound ''project_site_not_found'')
      else if (case find (\<lambda>r. ren_id r = dep_rentalId body) (rentals d) of
          None \<Rightarrow> True | Some rental \<Rightarrow> ren_projectSiteId rental \<noteq> siteId)
      then fails (NotFound ''rental_not_found'')
      else (case find (\<lambda>r. eqp_id r = dep_equipmentId body) (equipments d) of
          None \<Rightarrow> fails (NotFound ''equipment_not_found'')
        | Some equipmentRow \<Rightarrow>
            if eqp_availabilityStatus equipmentRow \<noteq> Available then fails (Conflict ''equipment_unavailable'')
            else if \<not> isMember c (dep_operatorUserId body) d then fails (NotFound ''operator_not_found'')
            else
              let blockers = availabilityBlockers (dep_equipmentId body) (dep_window body) (dep_operatorUserId body) None
                    (readCalendar (ctx_tenantId c) d) d
              in if BOperator \<in> set blockers then fails (Conflict ''operator_unavailable'')
                 else if blockers \<noteq> [] then fails (Conflict ''equipment_unavailable'')
                 else
                   let assignment = deploymentRow c body (nextId d);
                       d1 = (fresh d)\<lparr>equipmentAssignments := equipmentAssignments d @ [assignment]\<rparr>;
                       d2 = setEquipment (dep_equipmentId body) (eqp_availabilityStatus_update (\<lambda>_. Deployed)) d1
                   in ([''equipment_deployed''], Inr (asg_id assignment,
                        audit c ''CREATE'' ''equipment_assignments'' (asg_id assignment) d2))))"

text \<open>What a refused deployment offers instead.\<close>

definition deploymentAlternatives :: "ctx \<Rightarrow> deployment_request \<Rightarrow> equipment \<Rightarrow> db \<Rightarrow> uuid list" where
  "deploymentAlternatives c body equipmentRow d =
     findAvailableAlternatives (ctx_tenantId c) (eqp_equipmentTypeId equipmentRow) (dep_window body) [dep_equipmentId body] d"

definition returnDeployment :: "time \<Rightarrow> ctx \<Rightarrow> uuid \<Rightarrow> uuid \<Rightarrow> (db, uuid) body" where
  "returnDeployment now c siteId assignmentId d =
     (case find (\<lambda>a. asg_id a = assignmentId) (equipmentAssignments d) of
        None \<Rightarrow> fails (NotFound ''deployment_not_found'')
      | Some assignment \<Rightarrow>
          if (case find (\<lambda>r. ren_id r = asg_rentalId assignment) (rentals d) of
              None \<Rightarrow> True | Some rental \<Rightarrow> ren_projectSiteId rental \<noteq> siteId)
          then fails (NotFound ''deployment_not_found'')
          else if asg_status assignment = ACompleted \<or> asg_status assignment = ACancelled
          then fails (Conflict ''already_returned'')
          else
            let d1 = setHolds (\<lambda>a. asg_id a = assignmentId) (\<lambda>a. a\<lparr>asg_end := Some now, asg_status := ACompleted\<rparr>) d;
                d2 = setEquipment (asg_equipmentId assignment) (eqp_availabilityStatus_update (\<lambda>_. Available)) d1
            in ([''equipment_returned''], Inr (assignmentId, audit c ''UPDATE'' ''equipment_assignments'' assignmentId d2)))"

section \<open>The schedule across both paths\<close>

lemma setEquipment_simps [simp]:
  "equipmentAssignments (setEquipment i f d) = equipmentAssignments d" "nextId (setEquipment i f d) = nextId d"
  "equipments (setEquipment i f d) = updw (\<lambda>r. eqp_id r = i) f (equipments d)" "rentals (setEquipment i f d) = rentals d"
  by (simp_all add: setEquipment_def)

lemma createDeploymentD:
  assumes "committed (createDeployment c s body d) j d'"
  obtains unit rental where
    "find (\<lambda>r. eqp_id r = dep_equipmentId body) (equipments d) = Some unit" "eqp_availabilityStatus unit = Available"
    "find (\<lambda>r. ren_id r = dep_rentalId body) (rentals d) = Some rental" "ren_projectSiteId rental = s"
    "isMember c (dep_operatorUserId body) d"
    "availabilityBlockers (dep_equipmentId body) (dep_window body) (dep_operatorUserId body) None (readCalendar (ctx_tenantId c) d) d = []"
    "equipmentAssignments d' = equipmentAssignments d @ [deploymentRow c body (nextId d)]" "nextId d' = Suc (nextId d)" "j = nextId d"
    "equipments d' = updw (\<lambda>r. eqp_id r = dep_equipmentId body) (eqp_availabilityStatus_update (\<lambda>_. Deployed)) (equipments d)"
  using assms
  by (auto simp: createDeployment_def Let_def deploymentRow_def fresh_def split: if_split_asm option.split_asm)

lemma schedOk_append:
  assumes "schedOk d" "holdFree a (equipmentAssignments d)" "holdWf a" "asg_id a = nextId d"
    and "equipmentAssignments d' = equipmentAssignments d @ [a]" "nextId d < nextId d'"
  shows "schedOk d'"
proof -
  have "\<not> clash a a" by (simp add: clash_def)
  moreover have "\<not> clash a h \<and> \<not> clash h a" if "h \<in> set (equipmentAssignments d)" for h
    using sched.free_law[OF assms(2) that] sched.clash_sym by blast
  ultimately have "noDoubleBooking d'"
    using assms(1) by (auto simp: schedOk_def noDoubleBooking_def sched.apart_def assms(5))
  moreover have "holdsOk (equipmentAssignments d') (nextId d')"
    using assms(1,3,4,6) by (fastforce simp: schedOk_def holdsOk_def assms(5))
  ultimately show ?thesis by (simp add: schedOk_def)
qed

lemma schedOk_deployment:
  assumes "committed (createDeployment c s body d) j d'" "schedOk d" "w_start (dep_window body) < w_end (dep_window body)"
  shows "schedOk d'"
proof -
  have b: "availabilityBlockers (dep_equipmentId body) (dep_window body) (dep_operatorUserId body) None (readCalendar (ctx_tenantId c) d) d = []"
    and e: "equipmentAssignments d' = equipmentAssignments d @ [deploymentRow c body (nextId d)]" "nextId d' = Suc (nextId d)"
    using createDeploymentD[OF assms(1)] by metis+
  have "holdFree (deploymentRow c body (nextId d)) (equipmentAssignments d)"
    by (rule blockers_free[OF b]) (simp_all add: deploymentRow_def)
  then show ?thesis
    by (rule schedOk_append[OF assms(2) _ _ _ e(1)]) (use assms(3) e(2) in \<open>simp_all add: deploymentRow_def holdWf_def\<close>)
qed

lemma schedOk_return:
  assumes "committed (returnDeployment now c s i d) j d'" "schedOk d"
  shows "schedOk d'"
proof -
  have e: "equipmentAssignments d' = updw (\<lambda>a. asg_id a = i) (\<lambda>a. a\<lparr>asg_end := Some now, asg_status := ACompleted\<rparr>) (equipmentAssignments d)"
    "nextId d' = nextId d"
    using assms(1) by (auto simp: returnDeployment_def Let_def split: option.split_asm if_split_asm)
  show ?thesis by (rule schedOk_updw[OF assms(2) e(1)]) (simp_all add: e(2) demotes_def live_def)
qed

text \<open>The committed steps of bookings and of deployments, interleaved in any order.\<close>

inductive yardStep :: "db \<Rightarrow> db \<Rightarrow> bool" where
  book: "bookStep d d' \<Longrightarrow> yardStep d d'"
| deploy: "committed (createDeployment c s body d) j d' \<Longrightarrow> w_start (dep_window body) < w_end (dep_window body) \<Longrightarrow> yardStep d d'"
| bringBack: "committed (returnDeployment now c s i d) j d' \<Longrightarrow> yardStep d d'"

text \<open>
  C26. The two ways a machine leaves the yard never collide. Over any interleaving of booking operations,
  deployments and returns, no two live holds of different rentals overlap on a machine.
\<close>

theorem yard_never_double_booked:
  assumes "yardStep\<^sup>*\<^sup>* d d'" "schedOk d"
  shows "\<forall>a \<in> set (equipmentAssignments d'). \<forall>b \<in> set (equipmentAssignments d'). \<not> clash a b"
proof -
  have step: "schedOk z" if "yardStep y z" "schedOk y" for y z
    using that(1)
  proof cases
    case book then show ?thesis using schedOk_step that(2) by blast
  next
    case (deploy c s body j) then show ?thesis using schedOk_deployment that(2) by blast
  next
    case (bringBack now c s i j) then show ?thesis using schedOk_return that(2) by blast
  qed
  have "schedOk d'" using assms by (induction rule: rtranclp_induct) (auto intro: step)
  then show ?thesis by (simp add: schedOk_def noDoubleBooking_def sched.apart_def)
qed

text \<open>
  A deployment. A machine is deployed only when it is available, to the site of the rental named, for
  a window free of holds and maintenance, with an operator of the tenant, if any, who is free; it is
  then marked deployed and held for that rental.
\<close>

theorem deployment_takes_free_unit:
  assumes "committed (createDeployment c s body d) j d'"
  shows "\<exists>unit \<in> set (equipments d). \<exists>rental \<in> set (rentals d).
    eqp_id unit = dep_equipmentId body \<and> eqp_availabilityStatus unit = Available \<and>
    ren_id rental = dep_rentalId body \<and> ren_projectSiteId rental = s \<and>
    overlappingAssignments (dep_equipmentId body) (dep_window body) d = [] \<and>
    overlappingMaintenance (dep_equipmentId body) (dep_window body) d = [] \<and>
    \<not> operatorBusy (dep_operatorUserId body) None (dep_window body) d \<and> isMember c (dep_operatorUserId body) d \<and>
    unit\<lparr>eqp_availabilityStatus := Deployed\<rparr> \<in> set (equipments d') \<and>
    deploymentRow c body j \<in> set (equipmentAssignments d')"
proof -
  obtain unit rental where u: "find (\<lambda>r. eqp_id r = dep_equipmentId body) (equipments d) = Some unit" "eqp_availabilityStatus unit = Available"
    and r: "find (\<lambda>r. ren_id r = dep_rentalId body) (rentals d) = Some rental" "ren_projectSiteId rental = s"
    and m: "isMember c (dep_operatorUserId body) d"
    and b: "availabilityBlockers (dep_equipmentId body) (dep_window body) (dep_operatorUserId body) None (readCalendar (ctx_tenantId c) d) d = []"
    and w: "equipmentAssignments d' = equipmentAssignments d @ [deploymentRow c body (nextId d)]" "j = nextId d"
      "equipments d' = updw (\<lambda>r. eqp_id r = dep_equipmentId body) (eqp_availabilityStatus_update (\<lambda>_. Deployed)) (equipments d)"
    by (rule createDeploymentD[OF assms])
  have "overlappingAssignments (dep_equipmentId body) (dep_window body) d = []"
    "overlappingMaintenance (dep_equipmentId body) (dep_window body) d = []"
    "\<not> operatorBusy (dep_operatorUserId body) None (dep_window body) d"
    using b by (auto simp: availabilityBlockers_def Let_def split: if_split_asm option.split_asm)
  moreover have "unit\<lparr>eqp_availabilityStatus := Deployed\<rparr> \<in> set (equipments d')"
    unfolding w(3) in_updw using find_SomeD[OF u(1)] by auto
  ultimately show ?thesis
    using find_SomeD[OF u(1)] find_SomeD[OF r(1)] u(2) r(2) m w(1,2)
    by (intro bexI[of _ unit] bexI[of _ rental] conjI) simp_all
qed

section \<open>Witnesses and what the guards leave out\<close>

definition demo_deployment :: deployment_request where
  "demo_deployment = \<lparr>dep_equipmentId = 9, dep_rentalId = 5, dep_operatorUserId = None,
     dep_window = \<lparr>w_start = 20020 * 86400000, w_end = 20022 * 86400000\<rparr>\<rparr>"

lemmas deploy_eval =
  createDeployment_def demo_deployment_def isMember_def availabilityBlockers_def overlappingAssignments_def
  overlappingMaintenance_def calendarBlocker_def operatorBusy_def readCalendar_def overlaps_def Let_def

lemma demo_deployment_commits: "\<exists>j d'. committed (createDeployment demo_ctx 12 demo_deployment booking_db) j d'"
  by (simp add: deploy_eval booking_eval)

theorem yard_never_double_booked_witness:
  "\<exists>j d'. committed (createDeployment demo_ctx 12 demo_deployment booking_db) j d' \<and>
     list_all (\<lambda>a. list_all (\<lambda>b. \<not> clash a b) (equipmentAssignments d')) (equipmentAssignments d')"
proof -
  obtain j d' where c: "committed (createDeployment demo_ctx 12 demo_deployment booking_db) j d'"
    using demo_deployment_commits by blast
  have "w_start (dep_window demo_deployment) < w_end (dep_window demo_deployment)" by (simp add: demo_deployment_def)
  from yardStep.deploy[OF c this] have "yardStep\<^sup>*\<^sup>* booking_db d'" by (rule r_into_rtranclp)
  from yard_never_double_booked[OF this booking_db_ok] c show ?thesis by (auto simp: list_all_iff)
qed

theorem deployment_takes_free_unit_witness:
  "\<exists>j d'. committed (createDeployment demo_ctx 12 demo_deployment booking_db) j d' \<and>
     deploymentRow demo_ctx demo_deployment j \<in> set (equipmentAssignments d')"
proof -
  obtain j d' where c: "committed (createDeployment demo_ctx 12 demo_deployment booking_db) j d'"
    using demo_deployment_commits by blast
  from deployment_takes_free_unit[OF c] c show ?thesis by blast
qed

text \<open>The booking path refuses a retired unit; the deployment path does not look at \<open>retired_at\<close>.\<close>

lemma retired_unit_deploys:
  "\<exists>j d'. committed (createDeployment demo_ctx 12 demo_deployment
     (booking_db\<lparr>equipments := [yard_unit\<lparr>eqp_retiredAt := Some 1\<rparr>]\<rparr>)) j d'"
  by (simp add: deploy_eval booking_eval)

text \<open>
  A return marks the machine available whatever else holds it: returning the next, not yet started,
  assignment of a machine frees the machine while its current one still has it on another site.
\<close>

lemma return_frees_machine_in_use:
  assumes "find (\<lambda>a. asg_id a = i) (equipmentAssignments d) = Some a" "asg_status a = AScheduled"
    "find (\<lambda>r. ren_id r = asg_rentalId a) (rentals d) = Some rental" "ren_projectSiteId rental = s"
    "b \<in> set (equipmentAssignments d)" "asg_id b \<noteq> i" "asg_status b = AActive" "asg_equipmentId b = asg_equipmentId a"
    "unit \<in> set (equipments d)" "eqp_id unit = asg_equipmentId a"
  shows "\<exists>d'. committed (returnDeployment now c s i d) i d' \<and> b \<in> set (equipmentAssignments d') \<and>
    unit\<lparr>eqp_availabilityStatus := Available\<rparr> \<in> set (equipments d')"
proof -
  have "\<exists>d'. committed (returnDeployment now c s i d) i d' \<and>
      equipmentAssignments d' = updw (\<lambda>a. asg_id a = i) (\<lambda>a. a\<lparr>asg_end := Some now, asg_status := ACompleted\<rparr>) (equipmentAssignments d) \<and>
      equipments d' = updw (\<lambda>r. eqp_id r = asg_equipmentId a) (eqp_availabilityStatus_update (\<lambda>_. Available)) (equipments d)"
    using assms(1-4) by (simp add: returnDeployment_def Let_def)
  then obtain d' where d': "committed (returnDeployment now c s i d) i d'"
      "equipmentAssignments d' = updw (\<lambda>a. asg_id a = i) (\<lambda>a. a\<lparr>asg_end := Some now, asg_status := ACompleted\<rparr>) (equipmentAssignments d)"
      "equipments d' = updw (\<lambda>r. eqp_id r = asg_equipmentId a) (eqp_availabilityStatus_update (\<lambda>_. Available)) (equipments d)"
    by (elim exE conjE)
  have "b \<in> set (equipmentAssignments d')" unfolding d'(2) in_updw using assms(5,6) by (intro bexI[of _ b]) simp_all
  moreover have "unit\<lparr>eqp_availabilityStatus := Available\<rparr> \<in> set (equipments d')"
    unfolding d'(3) in_updw using assms(9,10) by (intro bexI[of _ unit]) simp_all
  ultimately show ?thesis using d'(1) by blast
qed

end
