(* ===== verification/SiteWeather.thy ===== *)
theory SiteWeather
  imports Common
begin

text \<open>
  Site weather: how bad a reading is (\<open>packages/shared/src/weather.ts\<close>), the poller that stores
  readings and logs incidents (\<open>jobs/src/weather-poll.ts\<close>), the advisories the API serves
  (\<open>apps/api/src/sites/sites.service.ts\<close>), and the check of a timekeeper's weather report against the
  readings (\<open>packages/shared/src/weather-attestation.ts\<close>). The reading of a site comes from the
  weather port, an argument here.
\<close>

section \<open>Severity\<close>

record weather_thresholds =
  thr_windKphWatch :: number
  thr_windKphWarning :: number
  thr_precipMmWatch :: number
  thr_precipMmWarning :: number

definition DEFAULT_WEATHER_THRESHOLDS :: weather_thresholds where
  "DEFAULT_WEATHER_THRESHOLDS = \<lparr>thr_windKphWatch = js 40, thr_windKphWarning = js 60,
     thr_precipMmWatch = js 15, thr_precipMmWarning = js 30\<rparr>"

definition WEATHER_POLL_CADENCE_MINUTES :: int where
  "WEATHER_POLL_CADENCE_MINUTES = 30"

definition WEATHER_STALE_AFTER_MINUTES :: int where
  "WEATHER_STALE_AFTER_MINUTES = WEATHER_POLL_CADENCE_MINUTES * 2"

definition OPEN_METEO_FREE_DAILY_CALL_CAP :: int where
  "OPEN_METEO_FREE_DAILY_CALL_CAP = 10000"

definition MAX_POLLED_SITES_PER_CYCLE :: int where
  "MAX_POLLED_SITES_PER_CYCLE = OPEN_METEO_FREE_DAILY_CALL_CAP div (24 * 60 div WEATHER_POLL_CADENCE_MINUTES)"

definition evaluateSeverity :: "observation \<Rightarrow> weather_thresholds \<Rightarrow> weather_severity" where
  "evaluateSeverity observed thresholds =
     (if thr_windKphWarning thresholds \<le> obs_windKph observed \<or> thr_precipMmWarning thresholds \<le> obs_precipMm observed
      then SevWarning
      else if thr_windKphWatch thresholds \<le> obs_windKph observed \<or> thr_precipMmWatch thresholds \<le> obs_precipMm observed
      then SevWatch
      else SevNone)"

fun severityMessage :: "weather_severity \<Rightarrow> string" where
  "severityMessage SevWarning = ''Severe conditions: consider suspending site operations.''"
| "severityMessage SevWatch = ''Elevated wind/rain: monitor conditions closely.''"
| "severityMessage SevNone = ''No weather advisory in effect.''"

fun severityRank :: "weather_severity \<Rightarrow> nat" where
  "severityRank SevNone = 0"
| "severityRank SevWatch = 1"
| "severityRank SevWarning = 2"

section \<open>The poller\<close>

definition latestAlert :: "uuid \<Rightarrow> db \<Rightarrow> weather_alert option" where
  "latestAlert siteId d = latestBy wal_effectiveAt (filter (\<lambda>r. wal_projectSiteId r = siteId) (weatherAlerts d))"

text \<open>
  Sites with an active rental, each once. The job connects as a role of its own, so it sees the rows
  of every tenant.
\<close>

definition activeSites :: "db \<Rightarrow> project_site list" where
  "activeSites d =
     filter (\<lambda>s. list_ex (\<lambda>r. ren_projectSiteId r = site_id s \<and> ren_status r = RActive) (rentals d)) (projectSites d)"

definition pollSite :: "time \<Rightarrow> observation option \<Rightarrow> project_site \<Rightarrow> world \<Rightarrow> world" where
  "pollSite now reading site w =
     (case reading of
        None \<Rightarrow> w\<lparr>events := events w @ [(site_tenantId site, ''external_dependency_degraded'')]\<rparr>
      | Some conditions \<Rightarrow>
          let d = data w;
              severity = evaluateSeverity conditions DEFAULT_WEATHER_THRESHOLDS;
              previousRank = (case latestAlert (site_id site) d of None \<Rightarrow> 0 | Some p \<Rightarrow> severityRank (wal_severity p));
              isEscalation = (previousRank < severityRank severity);
              alert = \<lparr>wal_id = nextId d, wal_tenantId = site_tenantId site, wal_projectSiteId = site_id site,
                wal_severity = severity, wal_observed = Some conditions, wal_isStale = False,
                wal_effectiveAt = now, wal_status = (if severity = SevNone then AlertCleared else AlertActive)\<rparr>
          in w\<lparr>data := (fresh d)\<lparr>weatherAlerts := weatherAlerts d @ [alert]\<rparr>,
               events := events w @ (if isEscalation \<and> severity \<noteq> SevNone
                 then [(site_tenantId site, ''weather_liability_incident'')] else [])\<rparr>)"

fun pollSites :: "(project_site \<Rightarrow> time \<times> observation option) \<Rightarrow> project_site list \<Rightarrow> world \<Rightarrow> world" where
  "pollSites port [] w = w"
| "pollSites port (site # rest) w = pollSites port rest (pollSite (fst (port site)) (snd (port site)) site w)"

definition runWeatherPoll ::
  "bool \<Rightarrow> int option \<Rightarrow> (project_site \<Rightarrow> time \<times> observation option) \<Rightarrow> world \<Rightarrow> world" where
  "runWeatherPoll enabled maxSites port w =
     (if \<not> enabled then w
      else
        let sites = activeSites (data w);
            ceil = (case maxSites of None \<Rightarrow> MAX_POLLED_SITES_PER_CYCLE | Some n \<Rightarrow> n)
        in if ceil < int (length sites)
           then w\<lparr>events := events w @
             map (\<lambda>t. (t, ''external_dependency_degraded'')) (remdups (map site_tenantId sites))\<rparr>
           else pollSites port sites w)"

section \<open>What the API serves\<close>

record advisory =
  adv_siteId :: uuid
  adv_observed :: observation
  adv_severity :: weather_severity
  adv_message :: string
  adv_isStale :: bool
  adv_polledAt :: "time option"

definition EMPTY_OBSERVATION :: observation where
  "EMPTY_OBSERVATION = \<lparr>obs_tempC = js 0, obs_windKph = js 0, obs_precipMm = js 0, obs_code = js 0\<rparr>"

definition toWeatherAdvisoryResponse :: "time \<Rightarrow> uuid \<Rightarrow> weather_alert option \<Rightarrow> advisory" where
  "toWeatherAdvisoryResponse now siteId latest =
     (case latest of
        None \<Rightarrow> \<lparr>adv_siteId = siteId, adv_observed = EMPTY_OBSERVATION, adv_severity = SevNone,
          adv_message = severityMessage SevNone, adv_isStale = True, adv_polledAt = None\<rparr>
      | Some a \<Rightarrow>
          \<lparr>adv_siteId = siteId,
           adv_observed = (case wal_observed a of None \<Rightarrow> EMPTY_OBSERVATION | Some ob \<Rightarrow> ob),
           adv_severity = wal_severity a, adv_message = severityMessage (wal_severity a),
           adv_isStale = (wal_isStale a \<or> WEATHER_STALE_AFTER_MINUTES * 60000 < now - wal_effectiveAt a),
           adv_polledAt = Some (wal_effectiveAt a)\<rparr>)"

definition siteWeather :: "time \<Rightarrow> uuid \<Rightarrow> (db, advisory) body" where
  "siteWeather now siteId d =
     (if list_ex (\<lambda>s. site_id s = siteId) (projectSites d)
      then returns (toWeatherAdvisoryResponse now siteId (latestAlert siteId d)) d
      else fails (NotFound ''project_site_not_found''))"

definition ACTIVE_ADVISORY_SCAN_LIMIT :: nat where
  "ACTIVE_ADVISORY_SCAN_LIMIT = 1000"

text \<open>The first row met of each site, in order.\<close>

fun firstBySite :: "weather_alert list \<Rightarrow> weather_alert list" where
  "firstBySite [] = []"
| "firstBySite (r # rs) = r # filter (\<lambda>x. wal_projectSiteId x \<noteq> wal_projectSiteId r) (firstBySite rs)"

definition advisories :: "time \<Rightarrow> (db, advisory list) body" where
  "advisories now d =
     (let rows = take ACTIVE_ADVISORY_SCAN_LIMIT
            (orderByDesc wal_effectiveAt (filter (\<lambda>r. wal_status r = AlertActive) (weatherAlerts d)))
      in returns (map (\<lambda>r. toWeatherAdvisoryResponse now (wal_projectSiteId r) (Some r)) (firstBySite rows)) d)"

section \<open>The timekeeper's report\<close>

datatype weather_code = WxC | WxO | WxLR | WxHR | WxW | WxT
datatype idle_reason = WeatherIdle | Breakdown | NoOperator | ClientHold | OtherIdle

definition WEATHER_CODES :: "weather_code list" where
  "WEATHER_CODES = [WxC, WxO, WxLR, WxHR, WxW, WxT]"

definition IDLE_REASONS :: "idle_reason list" where
  "IDLE_REASONS = [WeatherIdle, Breakdown, NoOperator, ClientHold, OtherIdle]"

type_synonym minutes = "int \<times> int"

definition DEFAULT_AM_WINDOW :: minutes where
  "DEFAULT_AM_WINDOW = (7 * 60, 12 * 60)"

definition DEFAULT_PM_WINDOW :: minutes where
  "DEFAULT_PM_WINDOW = (13 * 60, 17 * 60)"

record timed_reading =
  tmr_minute :: int
  tmr_observed :: observation

record half_day_view =
  hdv_readingCount :: nat
  hdv_maxWindKph :: number
  hdv_totalPrecipMm :: number
  hdv_worstSeverity :: weather_severity

definition tenth :: "number \<Rightarrow> number" where
  "tenth x = math_round (x * js 10) / js 10"

definition worst :: "weather_thresholds \<Rightarrow> timed_reading list \<Rightarrow> weather_severity" where
  "worst thresholds rs =
     foldl (\<lambda>sofar r. let s = evaluateSeverity (tmr_observed r) thresholds
        in if severityRank sofar < severityRank s then s else sofar) SevNone rs"

definition summarizeReadings :: "timed_reading list \<Rightarrow> minutes \<Rightarrow> weather_thresholds \<Rightarrow> half_day_view" where
  "summarizeReadings readings window thresholds =
     (let inside = filter (\<lambda>r. fst window \<le> tmr_minute r \<and> tmr_minute r \<le> snd window) readings
      in \<lparr>hdv_readingCount = length inside,
          hdv_maxWindKph = foldl math_max (js 0) (map (\<lambda>r. obs_windKph (tmr_observed r)) inside),
          hdv_totalPrecipMm = tenth (foldl (\<lambda>sum r. sum + obs_precipMm (tmr_observed r)) (js 0) inside),
          hdv_worstSeverity = worst thresholds inside\<rparr>)"

record reported_day =
  rpd_weatherAm :: "weather_code option"
  rpd_weatherPm :: "weather_code option"
  rpd_idleHours :: "number option"
  rpd_idleReason :: "idle_reason option"
  rpd_hoursActive :: number
  rpd_amWindow :: "minutes option"
  rpd_pmWindow :: "minutes option"

datatype half = AM | PM | WholeDay
datatype discrepancy = D1 half_day_view | D2 half "weather_code" half_day_view

definition orDefault :: "'a option \<Rightarrow> 'a \<Rightarrow> 'a" where
  "orDefault x y = (case x of None \<Rightarrow> y | Some v \<Rightarrow> v)"

definition wholeDay :: "half_day_view \<Rightarrow> half_day_view \<Rightarrow> half_day_view" where
  "wholeDay am pm =
     \<lparr>hdv_readingCount = hdv_readingCount am + hdv_readingCount pm,
      hdv_maxWindKph = math_max (hdv_maxWindKph am) (hdv_maxWindKph pm),
      hdv_totalPrecipMm = tenth (hdv_totalPrecipMm am + hdv_totalPrecipMm pm),
      hdv_worstSeverity = (if severityRank (hdv_worstSeverity pm) \<le> severityRank (hdv_worstSeverity am)
        then hdv_worstSeverity am else hdv_worstSeverity pm)\<rparr>"

definition unverifiedStoppage :: "reported_day \<Rightarrow> half_day_view \<Rightarrow> half_day_view \<Rightarrow> weather_thresholds \<Rightarrow> discrepancy list" where
  "unverifiedStoppage day am pm thresholds =
     (let whole = wholeDay am pm
      in if rpd_idleReason day = Some WeatherIdle \<and> js 0 < orDefault (rpd_idleHours day) (js 0) \<and>
            0 < hdv_readingCount am + hdv_readingCount pm \<and>
            hdv_worstSeverity whole = SevNone \<and> hdv_totalPrecipMm whole < thr_precipMmWatch thresholds
         then [D1 whole] else [])"

definition workedFullDay :: "reported_day \<Rightarrow> bool" where
  "workedFullDay day \<longleftrightarrow> js 0 < rpd_hoursActive day \<and>
     \<not> (case rpd_idleHours day of None \<Rightarrow> False | Some h \<Rightarrow> js 0 < h)"

definition unreportedHazard :: "half \<Rightarrow> half_day_view \<Rightarrow> weather_code option \<Rightarrow> discrepancy list" where
  "unreportedHazard half view reported =
     (case reported of
        Some code \<Rightarrow> if hdv_worstSeverity view = SevWarning \<and> (code = WxC \<or> code = WxO) then [D2 half code view] else []
      | None \<Rightarrow> [])"

definition compareReportedWeather :: "reported_day \<Rightarrow> timed_reading list \<Rightarrow> weather_thresholds \<Rightarrow> discrepancy list" where
  "compareReportedWeather day readings thresholds =
     (let am = summarizeReadings readings (orDefault (rpd_amWindow day) DEFAULT_AM_WINDOW) thresholds;
          pm = summarizeReadings readings (orDefault (rpd_pmWindow day) DEFAULT_PM_WINDOW) thresholds
      in unverifiedStoppage day am pm thresholds @
         (if workedFullDay day
          then unreportedHazard AM am (rpd_weatherAm day) @ unreportedHazard PM pm (rpd_weatherPm day) else []))"

section \<open>Tick boxes\<close>

text \<open>
  The matches of \<open>/:(un)?selected:/g\<close> from left to right; a match is consumed whole, and anything
  else is skipped one character at a time.
\<close>

definition TICKED :: string where "TICKED = '':selected:''"
definition UNTICKED :: string where "UNTICKED = '':unselected:''"

definition beginsWith :: "string \<Rightarrow> string \<Rightarrow> bool" where
  "beginsWith p s \<longleftrightarrow> take (length p) s = p"

function selectionMarks :: "string \<Rightarrow> bool list" where
  "selectionMarks s =
     (if s = [] then []
      else if beginsWith TICKED s then True # selectionMarks (drop (length TICKED) s)
      else if beginsWith UNTICKED s then False # selectionMarks (drop (length UNTICKED) s)
      else selectionMarks (tl s))"
  by pat_completeness auto
termination
  by (relation "measure length") (auto simp: TICKED_def UNTICKED_def)

declare selectionMarks.simps [simp del]

definition readTickGroup :: "string \<Rightarrow> 'a list \<Rightarrow> number \<Rightarrow> number \<Rightarrow> 'a option" where
  "readTickGroup content options confidence gate =
     (if confidence < gate then None
      else
        let marks = selectionMarks content
        in if length marks \<noteq> length options then None
           else case filter (\<lambda>i. marks ! i) [0..<length marks] of
                  [i] \<Rightarrow> Some (options ! i)
                | _ \<Rightarrow> None)"

section \<open>Properties\<close>

lemma foldl_worst:
  "foldl (\<lambda>sofar r. let s = evaluateSeverity (tmr_observed r) th
      in if severityRank sofar < severityRank s then s else sofar) z rs = SevWarning \<longleftrightarrow>
     z = SevWarning \<or> (\<exists>r \<in> set rs. evaluateSeverity (tmr_observed r) th = SevWarning)"
  "foldl (\<lambda>sofar r. let s = evaluateSeverity (tmr_observed r) th
      in if severityRank sofar < severityRank s then s else sofar) z rs = SevNone \<longleftrightarrow>
     z = SevNone \<and> (\<forall>r \<in> set rs. evaluateSeverity (tmr_observed r) th = SevNone)"
proof (induction rs arbitrary: z)
  case (Cons r rs)
  {
    case 1
    show ?case using Cons.IH(1) by (cases z; cases "evaluateSeverity (tmr_observed r) th") (simp_all add: Let_def)
  next
    case 2
    show ?case using Cons.IH(2) by (cases z; cases "evaluateSeverity (tmr_observed r) th") (simp_all add: Let_def)
  }
qed simp_all

definition insideOf :: "timed_reading list \<Rightarrow> minutes \<Rightarrow> timed_reading list" where
  "insideOf readings window = filter (\<lambda>r. fst window \<le> tmr_minute r \<and> tmr_minute r \<le> snd window) readings"

lemma summarize_simps:
  "hdv_readingCount (summarizeReadings rs w th) = length (insideOf rs w)"
  "hdv_worstSeverity (summarizeReadings rs w th) = SevWarning \<longleftrightarrow>
     (\<exists>r \<in> set (insideOf rs w). evaluateSeverity (tmr_observed r) th = SevWarning)"
  "hdv_worstSeverity (summarizeReadings rs w th) = SevNone \<longleftrightarrow>
     list_all (\<lambda>r. evaluateSeverity (tmr_observed r) th = SevNone) (insideOf rs w)"
  by (simp_all add: summarizeReadings_def insideOf_def Let_def worst_def foldl_worst[unfolded Let_def] list_all_iff)

lemma wholeDay_none:
  "hdv_worstSeverity (wholeDay am pm) = SevNone \<longleftrightarrow> hdv_worstSeverity am = SevNone \<and> hdv_worstSeverity pm = SevNone"
  by (cases "hdv_worstSeverity am"; cases "hdv_worstSeverity pm") (simp_all add: wholeDay_def)

text \<open>
  When a weather report is questioned. A day is flagged as an unverified stoppage exactly when it
  puts idle hours down to weather, there are readings in its halves, none of them reaches a watch,
  and the rain measured is below the watch amount; a half is flagged as an unreported hazard exactly
  when the machine worked the full day, the sheet calls that half clear or cloudy, and some reading
  inside it reaches a warning. A day without readings is never flagged.
\<close>

theorem weather_flags_exact:
  fixes day :: reported_day
  defines "amw \<equiv> orDefault (rpd_amWindow day) DEFAULT_AM_WINDOW"
    and "pmw \<equiv> orDefault (rpd_pmWindow day) DEFAULT_PM_WINDOW"
  shows "((\<exists>v. D1 v \<in> set (compareReportedWeather day rs th)) \<longleftrightarrow>
      rpd_idleReason day = Some WeatherIdle \<and> js 0 < orDefault (rpd_idleHours day) (js 0) \<and>
      insideOf rs amw @ insideOf rs pmw \<noteq> [] \<and>
      list_all (\<lambda>r. evaluateSeverity (tmr_observed r) th = SevNone) (insideOf rs amw @ insideOf rs pmw) \<and>
      hdv_totalPrecipMm (wholeDay (summarizeReadings rs amw th) (summarizeReadings rs pmw th)) < thr_precipMmWatch th) \<and>
    ((\<exists>v. D2 h code v \<in> set (compareReportedWeather day rs th)) \<longleftrightarrow>
      workedFullDay day \<and> code \<in> {WxC, WxO} \<and>
      (h = AM \<and> rpd_weatherAm day = Some code \<and> (\<exists>r \<in> set (insideOf rs amw). evaluateSeverity (tmr_observed r) th = SevWarning) \<or>
       h = PM \<and> rpd_weatherPm day = Some code \<and> (\<exists>r \<in> set (insideOf rs pmw). evaluateSeverity (tmr_observed r) th = SevWarning)))"
proof -
  let ?am = "summarizeReadings rs amw th" and ?pm = "summarizeReadings rs pmw th"
  have f: "compareReportedWeather day rs th = unverifiedStoppage day ?am ?pm th @
      (if workedFullDay day then unreportedHazard AM ?am (rpd_weatherAm day) @ unreportedHazard PM ?pm (rpd_weatherPm day) else [])"
    by (simp add: compareReportedWeather_def amw_def pmw_def Let_def)
  have n1: "D1 v \<notin> set (unreportedHazard hh view rep)" for v hh view rep
    by (simp add: unreportedHazard_def split: option.split)
  have n2: "D2 hh c v \<notin> set (unverifiedStoppage day am pm th)" for hh c v am pm
    by (simp add: unverifiedStoppage_def Let_def)
  have d1: "(\<exists>v. D1 v \<in> set (compareReportedWeather day rs th)) \<longleftrightarrow> unverifiedStoppage day ?am ?pm th \<noteq> []"
    using n1 by (auto simp: f unverifiedStoppage_def Let_def split: if_split_asm)
  have h: "(\<exists>v. D2 h code v \<in> set (unreportedHazard hh view rep)) \<longleftrightarrow>
      h = hh \<and> rep = Some code \<and> code \<in> {WxC, WxO} \<and> hdv_worstSeverity view = SevWarning" for hh view rep
    by (cases rep) (auto simp: unreportedHazard_def)
  have "(\<exists>v. D2 h code v \<in> set (compareReportedWeather day rs th)) \<longleftrightarrow> workedFullDay day \<and>
      ((\<exists>v. D2 h code v \<in> set (unreportedHazard AM ?am (rpd_weatherAm day))) \<or>
       (\<exists>v. D2 h code v \<in> set (unreportedHazard PM ?pm (rpd_weatherPm day))))"
    using n2 by (auto simp: f)
  then show ?thesis
    unfolding d1 h by (auto simp: unverifiedStoppage_def Let_def wholeDay_none summarize_simps)
qed

section \<open>Reading the boxes back\<close>

text \<open>A printed group: some text without a colon before each box, and the box.\<close>

definition printGroup :: "(string \<times> bool) list \<Rightarrow> string" where
  "printGroup cells = concat (map (\<lambda>(text, ticked). text @ (if ticked then TICKED else UNTICKED)) cells)"

lemma selectionMarks_Nil [simp]: "selectionMarks [] = []"
  by (simp add: selectionMarks.simps)

lemma selectionMarks_mark:
  "selectionMarks (TICKED @ s) = True # selectionMarks s" "selectionMarks (UNTICKED @ s) = False # selectionMarks s"
  by (subst selectionMarks.simps, simp add: beginsWith_def TICKED_def UNTICKED_def)+

lemma selectionMarks_text: "CHR '':'' \<notin> set t \<Longrightarrow> selectionMarks (t @ s) = selectionMarks s"
proof (induction t)
  case (Cons c t)
  then have "\<not> beginsWith TICKED (c # t @ s)" "\<not> beginsWith UNTICKED (c # t @ s)"
    by (auto simp: beginsWith_def TICKED_def UNTICKED_def)
  with Cons show ?case by (subst selectionMarks.simps) simp
qed simp

lemma selectionMarks_print:
  "list_all (\<lambda>(t, b). CHR '':'' \<notin> set t) cells \<Longrightarrow> CHR '':'' \<notin> set after \<Longrightarrow>
   selectionMarks (printGroup cells @ after) = map snd cells"
proof (induction cells)
  case Nil
  then show ?case using selectionMarks_text[of after "[]"] by (simp add: printGroup_def)
next
  case (Cons x cells)
  obtain t b where x: "x = (t, b)" by force
  have "printGroup (x # cells) @ after = t @ (if b then TICKED else UNTICKED) @ printGroup cells @ after"
    by (simp add: printGroup_def x)
  with Cons show ?case by (cases b) (simp_all add: x selectionMarks_text selectionMarks_mark)
qed

lemma only_index:
  "(case filter p [0..<n] of [i] \<Rightarrow> Some (f i) | _ \<Rightarrow> None) = Some x \<longleftrightarrow> (\<exists>i < n. f i = x \<and> (\<forall>j < n. p j \<longleftrightarrow> j = i))"
proof
  assume "(case filter p [0..<n] of [i] \<Rightarrow> Some (f i) | _ \<Rightarrow> None) = Some x"
  then obtain i where i: "filter p [0..<n] = [i]" "f i = x" by (auto split: list.split_asm)
  have "{j. j < n \<and> p j} = {i}" using arg_cong[OF i(1), of set] by auto
  then show "\<exists>i < n. f i = x \<and> (\<forall>j < n. p j \<longleftrightarrow> j = i)" using i(2) by blast
next
  assume "\<exists>i < n. f i = x \<and> (\<forall>j < n. p j \<longleftrightarrow> j = i)"
  then obtain i where i: "i < n" "f i = x" "\<forall>j < n. p j \<longleftrightarrow> j = i" by blast
  have s: "set (filter p [0..<n]) = {i}" using i by auto
  have "length (filter p [0..<n]) = card (set (filter p [0..<n]))" by (simp only: distinct_card distinct_filter distinct_upt)
  also have "\<dots> = 1" unfolding s by simp
  finally obtain k where k: "filter p [0..<n] = [k]" by (metis One_nat_def length_0_conv length_Suc_conv)
  then have "k = i" using s unfolding k by simp
  then show "(case filter p [0..<n] of [i] \<Rightarrow> Some (f i) | _ \<Rightarrow> None) = Some x" using k i(2) by simp
qed

text \<open>
  Tick boxes read back. A printed group of boxes, whatever text stands around them, reads as an
  option exactly when the scan is confident enough and precisely that option's box is ticked.
\<close>

theorem tick_group_roundtrip:
  assumes "list_all (\<lambda>(t, b). CHR '':'' \<notin> set t) cells" "CHR '':'' \<notin> set after" "length cells = length options"
  shows "readTickGroup (printGroup cells @ after) options confidence gate = Some x \<longleftrightarrow>
    \<not> confidence < gate \<and>
    (\<exists>i < length options. options ! i = x \<and> (\<forall>j < length options. snd (cells ! j) \<longleftrightarrow> j = i))"
proof -
  have m: "selectionMarks (printGroup cells @ after) = map snd cells" by (rule selectionMarks_print[OF assms(1,2)])
  have e: "filter (\<lambda>i. map snd cells ! i) [0..<length cells] = filter (\<lambda>i. snd (cells ! i)) [0..<length cells]"
    by (rule filter_cong) auto
  show ?thesis by (simp add: readTickGroup_def m Let_def e only_index assms(3))
qed

theorem tick_group_roundtrip_witness:
  "readTickGroup (printGroup [('' C '', False), ('' O '', False), ('' LR '', True), ('' HR '', False), ('' W '', False), ('' T '', False)] @ '' '')
     WEATHER_CODES (js 1) (js 0) = Some WxLR"
proof -
  let ?cells = "[('' C '', False), ('' O '', False), ('' LR '', True), ('' HR '', False), ('' W '', False), ('' T '', False)]"
  have a: "list_all (\<lambda>(t, b). CHR '':'' \<notin> set t) ?cells" "CHR '':'' \<notin> set '' ''" by simp_all
  have l: "length ?cells = length WEATHER_CODES" by (simp add: WEATHER_CODES_def)
  have c: "\<not> js 1 < js 0" using isn_less[OF js_isn[of 1] js_isn[of 0]] fl_of_int[of 1] by (simp add: fl_def)
  have "\<exists>i < length WEATHER_CODES. WEATHER_CODES ! i = WxLR \<and> (\<forall>j < length WEATHER_CODES. snd (?cells ! j) \<longleftrightarrow> j = i)"
    by (intro exI[of _ 2]) (auto simp: WEATHER_CODES_def less_Suc_eq nth_Cons')
  with c show ?thesis unfolding tick_group_roundtrip[OF a l] by blast
qed

section \<open>What a poll leaves to read\<close>

lemma latestBy_snoc:
  "list_all (\<lambda>x. k x < k y) xs \<Longrightarrow> latestBy k (xs @ [y]) = Some y"
  by (induction xs) simp_all

text \<open>The severity a site had before a poll, \<open>SevNone\<close> where it was never polled.\<close>

definition servedSeverity :: "uuid \<Rightarrow> db \<Rightarrow> weather_severity" where
  "servedSeverity i d = (case latestAlert i d of None \<Rightarrow> SevNone | Some a \<Rightarrow> wal_severity a)"

text \<open>
  A poll is what is then served. After a poll that got a reading, the site's weather is that
  reading at the severity of the default thresholds, stale exactly once it is over an hour old, and
  an incident is logged exactly when the severity is above the one served before. A poll whose
  dependency failed leaves every row as it was.
\<close>

theorem poll_then_read:
  assumes known: "site \<in> set (projectSites (data w))"
    and later: "filter (\<lambda>a. wal_projectSiteId a = site_id site \<and> now \<le> wal_effectiveAt a) (weatherAlerts (data w)) = []"
  shows "siteWeather t (site_id site) (data (pollSite now (Some obs) site w)) =
      returns \<lparr>adv_siteId = site_id site, adv_observed = obs,
        adv_severity = evaluateSeverity obs DEFAULT_WEATHER_THRESHOLDS,
        adv_message = severityMessage (evaluateSeverity obs DEFAULT_WEATHER_THRESHOLDS),
        adv_isStale = (60 * 60000 < t - now), adv_polledAt = Some now\<rparr> (data (pollSite now (Some obs) site w)) \<and>
    events (pollSite now (Some obs) site w) = events w @
      (if severityRank (servedSeverity (site_id site) (data w)) < severityRank (evaluateSeverity obs DEFAULT_WEATHER_THRESHOLDS)
       then [(site_tenantId site, ''weather_liability_incident'')] else []) \<and>
    data (pollSite now None site w) = data w"
proof -
  let ?sev = "evaluateSeverity obs DEFAULT_WEATHER_THRESHOLDS"
  let ?a = "\<lparr>wal_id = nextId (data w), wal_tenantId = site_tenantId site, wal_projectSiteId = site_id site,
    wal_severity = ?sev, wal_observed = Some obs, wal_isStale = False,
    wal_effectiveAt = now, wal_status = (if ?sev = SevNone then AlertCleared else AlertActive)\<rparr>"
  let ?d = "(fresh (data w))\<lparr>weatherAlerts := weatherAlerts (data w) @ [?a]\<rparr>"
  have d: "data (pollSite now (Some obs) site w) = ?d" by (simp add: pollSite_def Let_def)
  have "list_all (\<lambda>x. wal_effectiveAt x < wal_effectiveAt ?a)
      (filter (\<lambda>r. wal_projectSiteId r = site_id site) (weatherAlerts (data w)))"
    using later by (fastforce simp: filter_empty_conv list_all_iff)
  from latestBy_snoc[OF this] have l: "latestAlert (site_id site) ?d = Some ?a"
    by (simp add: latestAlert_def)
  have ex: "list_ex (\<lambda>s. site_id s = site_id site) (projectSites (fresh (data w)))"
    using known by (auto simp: list_ex_iff fresh_def)
  have r: "(case latestAlert (site_id site) (data w) of None \<Rightarrow> 0 | Some p \<Rightarrow> severityRank (wal_severity p)) =
      severityRank (servedSeverity (site_id site) (data w))"
    by (simp add: servedSeverity_def split: option.split)
  have e: "events (pollSite now (Some obs) site w) = events w @
      (if severityRank (servedSeverity (site_id site) (data w)) < severityRank ?sev
       then [(site_tenantId site, ''weather_liability_incident'')] else [])"
    by (cases ?sev) (simp_all add: pollSite_def Let_def r)
  show ?thesis
    unfolding e d
    by (simp add: siteWeather_def l toWeatherAdvisoryResponse_def pollSite_def
        WEATHER_STALE_AFTER_MINUTES_def WEATHER_POLL_CADENCE_MINUTES_def ex)
qed

definition demo_site :: project_site where
  "demo_site = \<lparr>site_id = 4, site_tenantId = 1, site_addressId = 3, site_customerId = None,
     site_latitude = 14500000, site_longitude = 121000000, site_createdAt = 0\<rparr>"

definition demo_alert :: "uuid \<Rightarrow> time \<Rightarrow> weather_severity \<Rightarrow> weather_alert" where
  "demo_alert i t s = \<lparr>wal_id = i, wal_tenantId = 1, wal_projectSiteId = 4, wal_severity = s, wal_observed = None,
     wal_isStale = False, wal_effectiveAt = t, wal_status = (if s = SevNone then AlertCleared else AlertActive)\<rparr>"

definition demo_sky :: "weather_alert list \<Rightarrow> db" where
  "demo_sky as = empty_db\<lparr>projectSites := [demo_site], weatherAlerts := as\<rparr>"

theorem poll_then_read_witness:
  "events (pollSite 1800000 (Some (EMPTY_OBSERVATION\<lparr>obs_windKph := js 75\<rparr>)) demo_site
     \<lparr>data = demo_sky [demo_alert 7 0 SevWatch], events = []\<rparr>) = [(1, ''weather_liability_incident'')]"
proof -
  let ?w = "\<lparr>data = demo_sky [demo_alert 7 0 SevWatch], events = []\<rparr>"
  let ?o = "EMPTY_OBSERVATION\<lparr>obs_windKph := js 75\<rparr>"
  have k: "demo_site \<in> set (projectSites (data ?w))" by (simp add: demo_sky_def)
  have l: "filter (\<lambda>a. wal_projectSiteId a = site_id demo_site \<and> 1800000 \<le> wal_effectiveAt a) (weatherAlerts (data ?w)) = []"
    by (simp add: demo_sky_def demo_alert_def)
  have "js 60 \<le> js 75" using isn_less_eq[OF js_isn[of 60] js_isn[of 75]] fl_of_int[of 60] fl_of_int[of 75] by (simp add: fl_def)
  then have s: "evaluateSeverity ?o DEFAULT_WEATHER_THRESHOLDS = SevWarning"
    by (simp add: evaluateSeverity_def DEFAULT_WEATHER_THRESHOLDS_def EMPTY_OBSERVATION_def)
  have p: "servedSeverity (site_id demo_site) (demo_sky [demo_alert 7 0 SevWatch]) = SevWatch"
    by (simp add: servedSeverity_def latestAlert_def demo_sky_def demo_alert_def demo_site_def)
  have t: "site_tenantId demo_site = 1" by (simp add: demo_site_def)
  show ?thesis using poll_then_read[OF k l, of 0 ?o] by (simp add: s p t)
qed

text \<open>
  The list of advisories keeps a warning that is over: it reads the newest \<open>active\<close> row of a site,
  and a row stays \<open>active\<close> for ever, so a site whose weather has cleared is still listed with its
  last warning.
\<close>

lemma cleared_site_still_listed:
  "\<exists>d. (\<exists>a. siteWeather 1 4 d = returns a d \<and> adv_severity a = SevNone) \<and>
    (\<exists>as. advisories 1 d = returns as d \<and> map (\<lambda>a. (adv_siteId a, adv_severity a)) as = [(4, SevWarning)])"
  by (rule exI[of _ "demo_sky [demo_alert 7 0 SevWarning, demo_alert 8 1 SevNone]"])
    (simp add: siteWeather_def advisories_def demo_sky_def demo_alert_def demo_site_def latestAlert_def
      toWeatherAdvisoryResponse_def orderByDesc_def ACTIVE_ADVISORY_SCAN_LIMIT_def Let_def returns_def)

end
