(* ===== verification/Companies.thy ===== *)
theory Companies
  imports Common Centavo Formula
begin

text \<open>
  The companies of a customer login and their verification
  (\<open>apps/api/src/customers/customers.service.ts\<close>, \<open>packages/shared/src/customers.ts\<close> and
  \<open>packages/shared/src/kyc.ts\<close>): registration numbers, what a scanned paper suggests, the documents
  on file, the reviewer's note and decision, the customer's own sites and their forecast. What the
  extraction service read, the clock and \<open>Date.parse\<close> are arguments.
\<close>

section \<open>Registration numbers\<close>

definition isLetter :: "char \<Rightarrow> bool" where
  "isLetter c \<longleftrightarrow> 65 \<le> charCode c \<and> charCode c \<le> 90 \<or> 97 \<le> charCode c \<and> charCode c \<le> 122"

definition digitsOnly :: "nat \<Rightarrow> nat \<Rightarrow> string \<Rightarrow> bool" where
  "digitsOnly least most s \<longleftrightarrow> least \<le> length s \<and> length s \<le> most \<and> list_all isDigit s"

text \<open>Groups of so many digits with a dash between them.\<close>

fun groupsMatch :: "nat list \<Rightarrow> string \<Rightarrow> bool" where
  "groupsMatch [] s \<longleftrightarrow> s = []"
| "groupsMatch [n] s \<longleftrightarrow> digitsOnly n n s"
| "groupsMatch (n # m # ns) s \<longleftrightarrow> list_all isDigit (take n s) \<and>
     (case drop n s of [] \<Rightarrow> False | c # rest \<Rightarrow> c = CHR ''-'' \<and> groupsMatch (m # ns) rest)"

definition TIN_REGEX :: "string \<Rightarrow> bool" where
  "TIN_REGEX s \<longleftrightarrow> groupsMatch [3, 3, 3] s \<or> groupsMatch [3, 3, 3, 3] s"

definition SEC_REGEX :: "string \<Rightarrow> bool" where
  "SEC_REGEX s \<longleftrightarrow>
     (let prefix = takeWhile isLetter s; r = dropWhile isLetter s
      in 1 \<le> length prefix \<and> length prefix \<le> 3 \<and>
         (digitsOnly 7 12 r \<or>
          digitsOnly 3 3 (take 3 r) \<and> take 1 (drop 3 r) = ''-'' \<and> digitsOnly 4 9 (drop 4 r))) \<or>
     (let r = dropWhile isDigit s
      in digitsOnly 10 13 (takeWhile isDigit s) \<and>
         (r = [] \<or> take 1 r = ''-'' \<and> digitsOnly 2 2 (drop 1 r)))"

definition withoutBN :: "string \<Rightarrow> string" where
  "withoutBN s =
     (case s of
        b # n # r \<Rightarrow>
          if b \<in> set ''Bb'' \<and> n \<in> set ''Nn''
          then (case r of c # q \<Rightarrow> if c = CHR ''-'' then q else r | [] \<Rightarrow> [])
          else s
      | _ \<Rightarrow> s)"

definition DTI_REGEX :: "string \<Rightarrow> bool" where
  "DTI_REGEX s \<longleftrightarrow> digitsOnly 6 10 (withoutBN s)"

definition PHILSYS_PCN_REGEX :: "string \<Rightarrow> bool" where
  "PHILSYS_PCN_REGEX s \<longleftrightarrow> groupsMatch [4, 4, 4, 4] s"

definition trim :: "string \<Rightarrow> string" where
  "trim s = rev (dropWhile isSpace (rev (dropWhile isSpace s)))"

fun joinGroups :: "nat list \<Rightarrow> string \<Rightarrow> string" where
  "joinGroups [] s = []"
| "joinGroups [n] s = take n s"
| "joinGroups (n # m # ns) s = take n s @ CHR ''-'' # joinGroups (m # ns) (drop n s)"

definition regroupDigits :: "string \<Rightarrow> nat list list \<Rightarrow> string" where
  "regroupDigits v groupings =
     (let digits = filter isDigit v
      in case find (\<lambda>g. sum_list g = length digits) groupings of
           None \<Rightarrow> trim v
         | Some groups \<Rightarrow> joinGroups groups digits)"

definition normalizeTin :: "string \<Rightarrow> string" where
  "normalizeTin v = regroupDigits v [[3, 3, 3], [3, 3, 3, 3]]"

definition normalizePcn :: "string \<Rightarrow> string" where
  "normalizePcn v = regroupDigits v [[4, 4, 4, 4]]"

datatype match_band = Mismatch | ConfirmManually | Strong

definition matchBand :: "number \<Rightarrow> match_band" where
  "matchBand score =
     (if score < js (85 / 100) then Mismatch else if score < js (90 / 100) then ConfirmManually else Strong)"

section \<open>Papers\<close>

definition PRIMARY_REGISTRATION_TYPES :: "string list" where
  "PRIMARY_REGISTRATION_TYPES = [''bir_cor'', ''sec_certificate'']"

definition COMPANY_DOCUMENT_TYPES :: "string list" where
  "COMPANY_DOCUMENT_TYPES = ''government_id'' # PRIMARY_REGISTRATION_TYPES @ [''dti_certificate'']"

definition REGISTRY_DOCUMENT_TYPES :: "string list" where
  "REGISTRY_DOCUMENT_TYPES = [''sec_certificate'', ''bir_cor'', ''dti_certificate'']"

definition isPrimaryRegistration :: "string \<Rightarrow> bool" where
  "isPrimaryRegistration documentType \<longleftrightarrow>
     documentType \<in> set PRIMARY_REGISTRATION_TYPES \<or> documentType = ''company_registration''"

definition hasRequiredCompanyDocuments :: "kyc_document list \<Rightarrow> bool" where
  "hasRequiredCompanyDocuments documents \<longleftrightarrow>
     list_ex (\<lambda>r. kyd_documentType r = ''government_id'') documents \<and>
     list_ex (\<lambda>r. isPrimaryRegistration (kyd_documentType r)) documents"

section \<open>Reading a paper\<close>

datatype read_field =
    CompanyName | Tin | SecNumber | DtiNumber | RegisteredAddress | RegistrationDate
  | FirstName | MiddleName | LastName | IdNumber | BirthDate | Sex | AddressField

definition READ_FIELDS :: "(read_field \<times> string) list" where
  "READ_FIELDS =
     [(CompanyName, ''company_name''), (Tin, ''tin''), (SecNumber, ''sec_number''), (DtiNumber, ''dti_number''),
      (RegisteredAddress, ''registered_address''), (RegistrationDate, ''registration_date''),
      (FirstName, ''first_name''), (MiddleName, ''middle_name''), (LastName, ''last_name''),
      (IdNumber, ''id_number''), (BirthDate, ''birth_date''), (Sex, ''sex''), (AddressField, ''address'')]"

definition SCAN_FIELDS :: "string \<Rightarrow> read_field list option" where
  "SCAN_FIELDS documentType = map_of
     [(''government_id'', [FirstName, MiddleName, LastName, IdNumber, BirthDate, Sex, AddressField]),
      (''sec_certificate'', [CompanyName, SecNumber, RegisteredAddress, RegistrationDate]),
      (''bir_cor'', [CompanyName, Tin, RegisteredAddress]),
      (''dti_certificate'', [CompanyName, DtiNumber, RegisteredAddress]),
      (''company_registration'', [CompanyName, Tin, SecNumber, RegisteredAddress, RegistrationDate])] documentType"

fun fieldFormat :: "read_field \<Rightarrow> (string \<Rightarrow> bool) option" where
  "fieldFormat Tin = Some TIN_REGEX"
| "fieldFormat SecNumber = Some SEC_REGEX"
| "fieldFormat DtiNumber = Some DTI_REGEX"
| "fieldFormat IdNumber = Some PHILSYS_PCN_REGEX"
| "fieldFormat _ = None"

definition legibilityExcluded :: "read_field \<Rightarrow> bool" where
  "legibilityExcluded f \<longleftrightarrow> f \<in> {AddressField, RegisteredAddress}"

definition normalizeSex :: "string \<Rightarrow> string" where
  "normalizeSex s =
     (let v = trim s
      in if take 1 v = ''m'' \<or> take 1 v = ''M'' then ''M''
         else if take 1 v = ''f'' \<or> take 1 v = ''F'' then ''F'' else v)"

fun showNat :: "nat \<Rightarrow> string" where
  "showNat n = (if n < 10 then [char_of (48 + n)] else showNat (n div 10) @ [char_of (48 + n mod 10)])"

declare showNat.simps [simp del]

definition pad :: "nat \<Rightarrow> string" where
  "pad n = (if n < 10 then CHR ''0'' # showNat n else showNat n)"

type_synonym date_parser = "string \<Rightarrow> (nat \<times> nat \<times> nat) option"

definition normalizeDate :: "date_parser \<Rightarrow> string \<Rightarrow> string" where
  "normalizeDate parseDate s =
     (let v = map (\<lambda>c. if c = CHR ''/'' then CHR ''-'' else c) (trim s)
      in if groupsMatch [4, 2, 2] v then v
         else case parseDate v of
                None \<Rightarrow> trim s
              | Some (y, m, d) \<Rightarrow> showNat y @ ''-'' @ pad m @ ''-'' @ pad d)"

definition normalizeRead :: "date_parser \<Rightarrow> read_field \<Rightarrow> string \<Rightarrow> string" where
  "normalizeRead parseDate field v =
     (case field of
        Sex \<Rightarrow> normalizeSex v
      | BirthDate \<Rightarrow> normalizeDate parseDate v
      | Tin \<Rightarrow> normalizeTin v
      | IdNumber \<Rightarrow> normalizePcn v
      | _ \<Rightarrow> trim v)"

record reading =
  rdg_value :: string
  rdg_confidence :: number

datatype extraction = FieldsRead "string \<rightharpoonup> reading" | ExtractionUnavailable | ExtractionFailed

text \<open>\<open>Math.min(...confidences)\<close>, null when there are none.\<close>

definition weakest :: "number list \<Rightarrow> number option" where
  "weakest confidences = (case confidences of [] \<Rightarrow> None | c # cs \<Rightarrow> Some (foldl math_min c cs))"

text \<open>The fields of a paper that were read, in the order of the code's loop.\<close>

definition readsOf :: "read_field list \<Rightarrow> (string \<rightharpoonup> reading) \<Rightarrow> (read_field \<times> reading) list" where
  "readsOf wanted found =
     List.bind wanted (\<lambda>f. case Option.bind (map_of READ_FIELDS f) found of None \<Rightarrow> [] | Some r \<Rightarrow> [(f, r)])"

definition passesFormat :: "read_field \<Rightarrow> string \<Rightarrow> bool" where
  "passesFormat field v = (case fieldFormat field of None \<Rightarrow> True | Some re \<Rightarrow> re v)"

record scan_response =
  scan_suggestions :: "read_field \<rightharpoonup> string"
  scan_confidence :: "number option"
  scan_extractionAvailable :: bool

definition suggest :: "date_parser \<Rightarrow> (read_field \<rightharpoonup> string) \<Rightarrow> read_field \<times> reading \<Rightarrow> (read_field \<rightharpoonup> string)" where
  "suggest parseDate sofar fr =
     (let v = normalizeRead parseDate (fst fr) (rdg_value (snd fr))
      in if \<not> passesFormat (fst fr) v then sofar
         else sofar((if fst fr = RegisteredAddress then AddressField else fst fr) \<mapsto> v))"

definition confidencesOf :: "(read_field \<times> reading) list \<Rightarrow> number list" where
  "confidencesOf reads = map (\<lambda>fr. rdg_confidence (snd fr)) (filter (\<lambda>fr. \<not> legibilityExcluded (fst fr)) reads)"

definition scanDocument :: "date_parser \<Rightarrow> ctx \<Rightarrow> string \<Rightarrow> extraction \<Rightarrow> string list \<times> (http_error + scan_response)" where
  "scanDocument parseDate c documentType outcome =
     (if ctx_role c \<noteq> ''customer'' then ([], Inl (Forbidden ''customer_only''))
      else case outcome of
        ExtractionFailed \<Rightarrow> ([], Inl (Internal ''extraction''))
      | ExtractionUnavailable \<Rightarrow> ([''ocr_extraction_unavailable''],
          Inr \<lparr>scan_suggestions = Map.empty, scan_confidence = None, scan_extractionAvailable = False\<rparr>)
      | FieldsRead found \<Rightarrow>
          let reads = readsOf (case SCAN_FIELDS documentType of None \<Rightarrow> [] | Some fs \<Rightarrow> fs) found
          in ([], Inr \<lparr>scan_suggestions = foldl (suggest parseDate) Map.empty reads,
                       scan_confidence = weakest (confidencesOf reads), scan_extractionAvailable = True\<rparr>))"

record document_read =
  dcr_suggestions :: "read_field \<rightharpoonup> string"
  dcr_formatValid :: "(string \<times> bool) list"
  dcr_confidence :: "number option"
  dcr_extractionAvailable :: bool
  dcr_ocrPayload :: "(string \<times> jsonv) list"

definition confidenceKey :: "string \<Rightarrow> string" where
  "confidenceKey key = (if key = ''sec_number'' then ''sec_confidence'' else key @ ''_confidence'')"

definition keyOf :: "read_field \<Rightarrow> string" where
  "keyOf f = (case map_of READ_FIELDS f of None \<Rightarrow> [] | Some k \<Rightarrow> k)"

definition validField :: "(read_field \<rightharpoonup> string) \<Rightarrow> read_field \<Rightarrow> bool" where
  "validField suggestions f = (case nonEmpty (suggestions f) of None \<Rightarrow> False | Some v \<Rightarrow> passesFormat f v)"

text \<open>\<open>analyzeDocument\<close>, with \<open>format_valid\<close> already under the keys it is stored with.\<close>

definition analyzeDocument :: "date_parser \<Rightarrow> string \<Rightarrow> extraction \<Rightarrow> string list \<times> (http_error + document_read)" where
  "analyzeDocument parseDate documentType outcome =
     (case outcome of
        ExtractionFailed \<Rightarrow> ([], Inl (Internal ''extraction''))
      | ExtractionUnavailable \<Rightarrow> ([''ocr_extraction_unavailable''],
          Inr \<lparr>dcr_suggestions = Map.empty,
            dcr_formatValid = map (\<lambda>f. (keyOf f, False)) [Tin, SecNumber, DtiNumber, IdNumber],
            dcr_confidence = None, dcr_extractionAvailable = False, dcr_ocrPayload = []\<rparr>)
      | FieldsRead found \<Rightarrow>
          let printed = (case SCAN_FIELDS documentType of None \<Rightarrow> map fst READ_FIELDS
                | Some fs \<Rightarrow> filter (\<lambda>f. f \<in> set fs) (map fst READ_FIELDS));
              reads = readsOf printed found;
              normal = (\<lambda>fr. normalizeRead parseDate (fst fr) (rdg_value (snd fr)));
              suggestions = map_of (map (\<lambda>fr. (fst fr, normal fr)) reads)
          in ([], Inr \<lparr>dcr_suggestions = suggestions,
                dcr_formatValid = map (\<lambda>f. (keyOf f, validField suggestions f)) [Tin, SecNumber, DtiNumber, IdNumber],
                dcr_confidence = weakest (confidencesOf reads), dcr_extractionAvailable = True,
                dcr_ocrPayload = List.bind reads (\<lambda>fr.
                  [(keyOf (fst fr), JStr (normal fr)),
                   (confidenceKey (keyOf (fst fr)), JNum (rdg_confidence (snd fr)))])\<rparr>))"

text \<open>\<open>{ ...a, ...b }\<close>, and the keys a person wrote.\<close>

definition spread :: "(string \<times> jsonv) list \<Rightarrow> (string \<times> jsonv) list \<Rightarrow> (string \<times> jsonv) list" where
  "spread a b = map (\<lambda>(k, v). (k, case map_of b k of None \<Rightarrow> v | Some v' \<Rightarrow> v')) a @
     filter (\<lambda>kv. fst kv \<notin> fst ` set a) b"

definition hasPrefix :: "string \<Rightarrow> string \<Rightarrow> bool" where
  "hasPrefix p s \<longleftrightarrow> take (length p) s = p"

definition objectOf :: "(string \<times> jsonv) list option \<Rightarrow> (string \<times> jsonv) list" where
  "objectOf payload = (case payload of None \<Rightarrow> [] | Some ob \<Rightarrow> ob)"

definition humanKeys :: "(string \<times> jsonv) list option \<Rightarrow> (string \<times> jsonv) list" where
  "humanKeys payload =
     filter (\<lambda>kv. hasPrefix ''customer_'' (fst kv) \<or> hasPrefix ''confirmed_'' (fst kv)) (objectOf payload)"

text \<open>\<open>toFixed(4)\<close> of a confidence into its \<open>numeric(5, 4)\<close> column.\<close>

definition toFixed4 :: "number \<Rightarrow> int" where
  "toFixed4 x = half_away (val x * 10 ^ 4)"

text \<open>The customer's confirmed fields, in the order of the upload schema.\<close>

record confirmed_fields =
  cnf_firstName :: "string option"
  cnf_middleName :: "string option"
  cnf_lastName :: "string option"
  cnf_idNumber :: "string option"
  cnf_birthDate :: "string option"
  cnf_sex :: "string option"
  cnf_address :: "string option"
  cnf_dtiNumber :: "string option"

definition customerPayload :: "confirmed_fields \<Rightarrow> (string \<times> jsonv) list" where
  "customerPayload c =
     List.bind
       [(''customer_first_name'', cnf_firstName c), (''customer_middle_name'', cnf_middleName c),
        (''customer_last_name'', cnf_lastName c), (''customer_id_number'', cnf_idNumber c),
        (''customer_birth_date'', cnf_birthDate c), (''customer_sex'', cnf_sex c),
        (''customer_address'', cnf_address c), (''customer_dti_number'', cnf_dtiNumber c)]
       (\<lambda>(k, v). case nonEmpty v of None \<Rightarrow> [] | Some s \<Rightarrow> [(k, JStr s)])"

section \<open>Companies and their documents\<close>

record company_create =
  cmp_companyName :: string
  cmp_tin :: "string option"
  cmp_secNumber :: "string option"
  cmp_billingAddress :: string
  cmp_contactMobile :: string

record company_update =
  cup_tin :: "string option"
  cup_secNumber :: "string option"
  cup_billingAddress :: "string option"

definition live_doc :: "kyc_document \<Rightarrow> bool" where
  "live_doc r \<longleftrightarrow> kyd_status r \<noteq> KSuperseded"

definition liveDocuments :: "uuid \<Rightarrow> db \<Rightarrow> kyc_document list" where
  "liveDocuments customerId d = filter (\<lambda>r. kyd_customerId r = customerId \<and> live_doc r) (kycDocuments d)"

definition setCompany :: "uuid \<Rightarrow> (customer \<Rightarrow> customer) \<Rightarrow> db \<Rightarrow> db" where
  "setCompany i f d = d\<lparr>customers := updw (\<lambda>r. cus_id r = i) f (customers d)\<rparr>"

definition setDocuments :: "(kyc_document \<Rightarrow> bool) \<Rightarrow> (kyc_document \<Rightarrow> kyc_document) \<Rightarrow> db \<Rightarrow> db" where
  "setDocuments p f d = d\<lparr>kycDocuments := updw p f (kycDocuments d)\<rparr>"

text \<open>The National ID on file for the login, on whichever of its companies it was last uploaded.\<close>

definition idOnFile :: "ctx \<Rightarrow> db \<Rightarrow> kyc_document option" where
  "idOnFile c d =
     latestBy kyd_createdAt (filter (\<lambda>r. kyd_documentType r = ''government_id'' \<and> live_doc r \<and>
       ownsCustomer c (Some (kyd_customerId r)) d) (kycDocuments d))"

definition createCompany :: "time \<Rightarrow> ctx \<Rightarrow> company_create \<Rightarrow> (db, uuid) body" where
  "createCompany now c body d =
     (if ctx_role c \<noteq> ''customer'' then fails (Forbidden ''customer_only'')
      else
        let row = \<lparr>cus_id = nextId d, cus_tenantId = ctx_tenantId c, cus_userId = Some (ctx_userId c),
              cus_companyName = cmp_companyName body, cus_tin = cmp_tin body, cus_secNumber = cmp_secNumber body,
              cus_billingAddress = Some (cmp_billingAddress body), cus_kycStatus = KycPending,
              cus_reviewComment = None, cus_unlockedFields = [], cus_createdAt = now\<rparr>;
            d1 = (fresh d)\<lparr>customers := customers d @ [row]\<rparr>;
            d2 = (fresh d1)\<lparr>customerContacts := customerContacts d1 @
              [\<lparr>cct_id = nextId d1, cct_tenantId = ctx_tenantId c, cct_customerId = cus_id row,
                cct_contactType = ''phone'', cct_contactValue = cmp_contactMobile body, cct_isPrimary = True\<rparr>]\<rparr>;
            d3 = (case idOnFile c d2 of
                    None \<Rightarrow> d2
                  | Some r \<Rightarrow> (fresh d2)\<lparr>kycDocuments := kycDocuments d2 @
                      [\<lparr>kyd_id = nextId d2, kyd_tenantId = ctx_tenantId c, kyd_customerId = cus_id row,
                        kyd_documentType = kyd_documentType r, kyd_fileUri = kyd_fileUri r,
                        kyd_ocrPayload = kyd_ocrPayload r, kyd_confidence = kyd_confidence r,
                        kyd_status = kyd_status r, kyd_formatValid = kyd_formatValid r,
                        kyd_portalMatchScore = None, kyd_registryStatus = None, kyd_createdAt = now\<rparr>]\<rparr>)
        in ([''company_created''], Inr (cus_id row,
             notifyStaff (ctx_tenantId c) ''company_submitted''
               [(''customer_id'', JId (cus_id row)), (''company_name'', JStr (cmp_companyName body))] d3)))"

text \<open>\<open>Object.keys(body)\<close>, and \<open>set({ ...body })\<close>.\<close>

definition updateKeys :: "company_update \<Rightarrow> string list" where
  "updateKeys body =
     (if cup_tin body = None then [] else [''tin'']) @
     (if cup_secNumber body = None then [] else [''secNumber'']) @
     (if cup_billingAddress body = None then [] else [''billingAddress''])"

definition overwrite :: "'a option \<Rightarrow> 'a option \<Rightarrow> 'a option" where
  "overwrite new old = (case new of None \<Rightarrow> old | Some v \<Rightarrow> Some v)"

definition applyUpdate :: "company_update \<Rightarrow> customer \<Rightarrow> customer" where
  "applyUpdate body r = r\<lparr>cus_tin := overwrite (cup_tin body) (cus_tin r),
     cus_secNumber := overwrite (cup_secNumber body) (cus_secNumber r),
     cus_billingAddress := overwrite (cup_billingAddress body) (cus_billingAddress r)\<rparr>"

definition updateCompany :: "ctx \<Rightarrow> uuid \<Rightarrow> company_update \<Rightarrow> (db, uuid) body" where
  "updateCompany c i body d =
     (if ctx_role c \<noteq> ''customer'' then fails (Forbidden ''customer_only'')
      else if \<not> ownsCustomer c (Some i) d then fails (NotFound ''company_not_found'')
      else case find (\<lambda>r. cus_id r = i) (customers d) of
             None \<Rightarrow> fails (NotFound ''company_not_found'')
           | Some current \<Rightarrow>
               if cus_kycStatus current = KycApproved \<and> (cup_tin body \<noteq> None \<or> cup_secNumber body \<noteq> None)
               then fails (Conflict ''company_verified_fields_locked'')
               else
                 let keys = updateKeys body;
                     locked = filter (\<lambda>k. k \<notin> set (cus_unlockedFields current)) keys
                 in if cus_kycStatus current = KycPending \<and> hasRequiredCompanyDocuments (liveDocuments i d) \<and> locked \<noteq> []
                    then fails (Conflict ''company_locked'')
                    else if keys = [] then returns i d
                    else returns i (setCompany i (\<lambda>r. applyUpdate body
                           (r\<lparr>cus_unlockedFields := filter (\<lambda>k. k \<notin> set keys) (cus_unlockedFields current)\<rparr>)) d))"

record added_document =
  add_id :: uuid
  add_status :: kyc_doc_status

definition storeRead :: "(string \<times> jsonv) list \<Rightarrow> document_read \<Rightarrow> kyc_document \<Rightarrow> kyc_document" where
  "storeRead human r row = row\<lparr>kyd_ocrPayload := Some (spread (dcr_ocrPayload r) human),
     kyd_formatValid := Some (dcr_formatValid r),
     kyd_confidence := (case dcr_confidence r of None \<Rightarrow> kyd_confidence row | Some x \<Rightarrow> Some (toFixed4 x)),
     kyd_status := KNeedsReview\<rparr>"

definition replaceOnFile :: "uuid \<Rightarrow> string \<Rightarrow> db \<Rightarrow> http_error + db" where
  "replaceOnFile customerId documentType d =
     (let live = liveDocuments customerId d
      in if \<not> list_ex (\<lambda>r. kyd_documentType r = documentType) live then Inr d
         else
           let unlocked = (case find (\<lambda>r. cus_id r = customerId) (customers d) of
                 None \<Rightarrow> [] | Some company \<Rightarrow> cus_unlockedFields company)
           in if hasRequiredCompanyDocuments live \<and> documentType \<notin> set unlocked then Inl (Conflict ''document_locked'')
              else Inr (setCompany customerId
                     (cus_unlockedFields_update (\<lambda>_. filter (\<lambda>f. f \<noteq> documentType) unlocked))
                     (setDocuments (\<lambda>r. kyd_customerId r = customerId \<and> kyd_documentType r = documentType \<and> live_doc r)
                       (kyd_status_update (\<lambda>_. KSuperseded)) d)))"

definition addDocument ::
  "date_parser \<Rightarrow> time \<Rightarrow> ctx \<Rightarrow> uuid \<Rightarrow> string \<Rightarrow> string \<Rightarrow> extraction \<Rightarrow> confirmed_fields \<Rightarrow> (db, added_document) body" where
  "addDocument parseDate now c customerId documentType fileUri outcome confirmed d =
     (if ctx_role c \<noteq> ''customer'' then fails (Forbidden ''customer_only'')
      else if \<not> ownsCustomer c (Some customerId) d then fails (NotFound ''company_not_found'')
      else case replaceOnFile customerId documentType d of
        Inl e \<Rightarrow> fails e
      | Inr d1 \<Rightarrow>
          let human = customerPayload confirmed;
              row = \<lparr>kyd_id = nextId d1, kyd_tenantId = ctx_tenantId c, kyd_customerId = customerId,
                kyd_documentType = documentType, kyd_fileUri = fileUri,
                kyd_ocrPayload = (if human = [] then None else Some human), kyd_confidence = None,
                kyd_status = KPending, kyd_formatValid = None, kyd_portalMatchScore = None,
                kyd_registryStatus = None, kyd_createdAt = now\<rparr>;
              d2 = (fresh d1)\<lparr>kycDocuments := kycDocuments d1 @ [row]\<rparr>
          in (case analyzeDocument parseDate documentType outcome of
                (es, Inl e) \<Rightarrow> (es, Inl e)
              | (es, Inr r) \<Rightarrow>
                  if dcr_extractionAvailable r
                  then (es, Inr (\<lparr>add_id = kyd_id row, add_status = KNeedsReview\<rparr>,
                         setDocuments (\<lambda>x. kyd_id x = kyd_id row) (storeRead human r) d2))
                  else (es, Inr (\<lparr>add_id = kyd_id row, add_status = KPending\<rparr>, d2))))"

section \<open>Review\<close>

definition documentKey :: "uuid \<Rightarrow> uuid \<Rightarrow> (db, string) body" where
  "documentKey customerId documentId d =
     (case find (\<lambda>r. kyd_id r = documentId \<and> kyd_customerId r = customerId) (kycDocuments d) of
        None \<Rightarrow> fails (NotFound ''document_not_found'')
      | Some r \<Rightarrow> returns (kyd_fileUri r) d)"

definition ownDocumentKey :: "ctx \<Rightarrow> uuid \<Rightarrow> uuid \<Rightarrow> (db, string) body" where
  "ownDocumentKey c customerId documentId d =
     (if ctx_role c \<noteq> ''customer'' then fails (Forbidden ''customer_only'')
      else if \<not> ownsCustomer c (Some customerId) d then fails (NotFound ''document_not_found'')
      else documentKey customerId documentId d)"

definition readDocument :: "date_parser \<Rightarrow> uuid \<Rightarrow> uuid \<Rightarrow> extraction \<Rightarrow> (db, document_read) body" where
  "readDocument parseDate customerId documentId outcome d =
     (case find (\<lambda>r. kyd_id r = documentId \<and> kyd_customerId r = customerId) (kycDocuments d) of
        None \<Rightarrow> fails (NotFound ''document_not_found'')
      | Some doc \<Rightarrow>
          (case analyzeDocument parseDate (kyd_documentType doc) outcome of
             (es, Inl e) \<Rightarrow> (es, Inl e)
           | (es, Inr r) \<Rightarrow> (es, Inr (r,
               if dcr_extractionAvailable r
               then setDocuments (\<lambda>x. kyd_id x = documentId) (storeRead (humanKeys (kyd_ocrPayload doc)) r) d
               else d))))"

definition notifyOwner :: "ctx \<Rightarrow> customer \<Rightarrow> string \<Rightarrow> (string \<times> jsonv) list \<Rightarrow> db \<Rightarrow> db" where
  "notifyOwner c row notificationType payload d =
     (case cus_userId row of
        None \<Rightarrow> d
      | Some u \<Rightarrow> d\<lparr>notifications := notifications d @
          [\<lparr>ntf_tenantId = ctx_tenantId c, ntf_userId = u, ntf_notificationType = notificationType,
            ntf_payload = payload\<rparr>]\<rparr>)"

definition comment :: "ctx \<Rightarrow> uuid \<Rightarrow> string \<Rightarrow> string list \<Rightarrow> (db, string list) body" where
  "comment c customerId note unlock d =
     (case find (\<lambda>r. cus_id r = customerId) (customers d) of
        None \<Rightarrow> fails (NotFound ''company_not_found'')
      | Some row \<Rightarrow>
          if cus_kycStatus row \<noteq> KycPending then fails (Conflict ''already_decided'')
          else
            let unlockedFields = rev (remdups (rev unlock));
                d1 = setCompany customerId (\<lambda>r. r\<lparr>cus_reviewComment := Some note, cus_unlockedFields := unlockedFields\<rparr>) d
            in returns unlockedFields
                 (notifyOwner c row ''company_review_comment''
                    [(''company_id'', JId customerId), (''company_name'', JStr (cus_companyName row)), (''comment'', JStr note)]
                    (audit c ''UPDATE'' ''customers'' customerId d1)))"

record company_decision =
  dec_approved :: bool
  dec_companyName :: "string option"
  dec_tin :: "string option"
  dec_secNumber :: "string option"
  dec_dtiNumber :: "string option"
  dec_registryChecked :: "uuid list"
  dec_firstName :: "string option"
  dec_middleName :: "string option"
  dec_lastName :: "string option"

definition verdict :: "company_decision \<Rightarrow> kyc_status" where
  "verdict body = (if dec_approved body then KycApproved else KycRejected)"

definition corrections :: "company_decision \<Rightarrow> customer \<Rightarrow> customer" where
  "corrections body r =
     (if \<not> dec_approved body then r
      else r\<lparr>cus_companyName := (case nonEmpty (dec_companyName body) of None \<Rightarrow> cus_companyName r | Some n \<Rightarrow> n),
             cus_tin := overwrite (nonEmpty (dec_tin body)) (cus_tin r),
             cus_secNumber := overwrite (nonEmpty (dec_secNumber body)) (cus_secNumber r)\<rparr>)"

definition writeNames :: "company_decision \<Rightarrow> customer \<Rightarrow> db \<Rightarrow> db" where
  "writeNames body row d =
     (case cus_userId row of
        None \<Rightarrow> d
      | Some u \<Rightarrow>
          if dec_approved body \<and> (nonEmpty (dec_firstName body) \<noteq> None \<or> nonEmpty (dec_lastName body) \<noteq> None)
          then d\<lparr>users := updw (\<lambda>r. usr_id r = u) (\<lambda>r. r\<lparr>
                 usr_firstName := overwrite (nonEmpty (dec_firstName body)) (usr_firstName r),
                 usr_middleName := overwrite (nonEmpty (dec_middleName body)) (usr_middleName r),
                 usr_lastName := overwrite (nonEmpty (dec_lastName body)) (usr_lastName r)\<rparr>) (users d)\<rparr>
          else d)"

definition confirmDti :: "ctx \<Rightarrow> company_decision \<Rightarrow> kyc_document list \<Rightarrow> db \<Rightarrow> db" where
  "confirmDti c body docs d =
     (case (find (\<lambda>r. kyd_documentType r = ''dti_certificate'') docs, nonEmpty (dec_dtiNumber body)) of
        (Some dti, Some n) \<Rightarrow>
          if dec_approved body
          then setDocuments (\<lambda>r. kyd_id r = kyd_id dti)
                 (kyd_ocrPayload_update (\<lambda>_. Some (spread (objectOf (kyd_ocrPayload dti))
                    [(''confirmed_dti_number'', JStr n), (''confirmed_by'', JId (ctx_userId c))]))) d
          else d
      | _ \<Rightarrow> d)"

definition registryDocs :: "kyc_document list \<Rightarrow> kyc_document list" where
  "registryDocs docs = filter (\<lambda>r. kyd_documentType r \<in> set REGISTRY_DOCUMENT_TYPES) docs"

definition decide :: "ctx \<Rightarrow> uuid \<Rightarrow> company_decision \<Rightarrow> (db, kyc_status) body" where
  "decide c customerId body d =
     (case find (\<lambda>r. cus_id r = customerId) (customers d) of
        None \<Rightarrow> fails (NotFound ''company_not_found'')
      | Some row \<Rightarrow>
          if cus_kycStatus row = verdict body then fails (Conflict ''already_decided'')
          else
            let docs = liveDocuments customerId d;
                onRegistry = registryDocs docs;
                unchecked = filter (\<lambda>r. kyd_id r \<notin> set (dec_registryChecked body)) onRegistry
            in if dec_approved body \<and> unchecked \<noteq> [] then fails (Conflict ''registry_check_required'')
               else
                 let d1 = setCompany customerId (\<lambda>r. corrections body
                       (r\<lparr>cus_kycStatus := verdict body, cus_reviewComment := None, cus_unlockedFields := []\<rparr>)) d;
                     d2 = confirmDti c body docs (writeNames body row d1);
                     d3 = (if dec_approved body
                           then setDocuments (\<lambda>r. kyd_id r \<in> set (map kyd_id onRegistry))
                                  (kyd_registryStatus_update (\<lambda>_. Some ''active'')) d2
                           else d2);
                     d4 = setDocuments (\<lambda>r. kyd_customerId r = customerId \<and> live_doc r)
                            (kyd_status_update (\<lambda>_. if dec_approved body then KVerified else KRejected)) d3
                 in returns (verdict body)
                      (notifyOwner c row (if dec_approved body then ''company_verified'' else ''company_rejected'')
                         [(''customer_id'', JId customerId), (''company_name'', JStr (cus_companyName row))]
                         (audit c (if dec_approved body then ''APPROVE'' else ''REJECT'') ''customers'' customerId d4)))"

section \<open>What is shown of a company\<close>

record document_view =
  dvw_id :: uuid
  dvw_documentType :: string
  dvw_status :: kyc_doc_status
  dvw_createdAt :: time
  dvw_confidence :: "number option"
  dvw_ocr :: "(string \<times> string) list"
  dvw_customer :: "(string \<times> string) list"
  dvw_registryChecked :: bool

record company_view =
  cvw_company :: customer
  cvw_names :: "string option \<times> string option \<times> string option"
  cvw_documents :: "document_view list"

definition hasSuffix :: "string \<Rightarrow> string \<Rightarrow> bool" where
  "hasSuffix p s \<longleftrightarrow> hasPrefix (rev p) (rev s)"

definition shownRead :: "string \<times> jsonv \<Rightarrow> (string \<times> string) option" where
  "shownRead kv =
     (case kv of
        (k, JStr v) \<Rightarrow> if hasSuffix ''_confidence'' k \<or> hasPrefix ''confirmed_'' k then None else Some (k, v)
      | _ \<Rightarrow> None)"

definition documentView :: "bool \<Rightarrow> kyc_document \<Rightarrow> document_view" where
  "documentView withReads r =
     (let shown = List.map_filter shownRead (objectOf (kyd_ocrPayload r))
      in \<lparr>dvw_id = kyd_id r, dvw_documentType = kyd_documentType r,
          dvw_status = (if kyd_status r = KResubmit then KPending else kyd_status r),
          dvw_createdAt = kyd_createdAt r,
          dvw_confidence = (if withReads then map_option (numd 4) (kyd_confidence r) else None),
          dvw_ocr = (if withReads then filter (\<lambda>kv. \<not> hasPrefix ''customer_'' (fst kv)) shown else []),
          dvw_customer = (if withReads
            then map (\<lambda>kv. (drop 9 (fst kv), snd kv)) (filter (\<lambda>kv. hasPrefix ''customer_'' (fst kv)) shown) else []),
          dvw_registryChecked = (withReads \<and> kyd_registryStatus r = Some ''active'')\<rparr>)"

definition withDocuments :: "bool \<Rightarrow> customer list \<Rightarrow> db \<Rightarrow> company_view list" where
  "withDocuments withReads rows d =
     (let docs = orderByDesc kyd_createdAt
            (filter (\<lambda>r. kyd_customerId r \<in> set (map cus_id rows) \<and> live_doc r) (kycDocuments d))
      in map (\<lambda>row. \<lparr>cvw_company = row,
           cvw_names = (case Option.bind (cus_userId row) (\<lambda>u. find (\<lambda>r. usr_id r = u) (users d)) of
               None \<Rightarrow> (None, None, None) | Some u \<Rightarrow> (usr_firstName u, usr_middleName u, usr_lastName u)),
           cvw_documents = map (documentView withReads) (filter (\<lambda>r. kyd_customerId r = cus_id row) docs)\<rparr>) rows)"

definition listCompanies :: "ctx \<Rightarrow> (db, company_view list) body" where
  "listCompanies c d =
     (if ctx_role c \<noteq> ''customer'' then fails (Forbidden ''customer_only'')
      else returns (withDocuments False (ownCustomers c d) d) d)"

definition listForReview :: "kyc_status \<Rightarrow> (db, company_view list) body" where
  "listForReview status d =
     returns (withDocuments True
       (take 100 (orderByDesc cus_createdAt (filter (\<lambda>r. cus_kycStatus r = status) (customers d)))) d) d"

section \<open>The customer's own sites and their forecast\<close>

record customer_site =
  cst_customerId :: uuid
  cst_line1 :: string
  cst_barangay :: "string option"
  cst_city :: string
  cst_province :: string
  cst_postalCode :: "string option"
  cst_latitude :: number
  cst_longitude :: number

definition listOwnSites :: "ctx \<Rightarrow> (db, (project_site \<times> address) list) body" where
  "listOwnSites c d =
     (if ctx_role c \<noteq> ''customer'' then fails (Forbidden ''customer_only'')
      else returns (List.bind (orderByDesc site_createdAt (filter (\<lambda>s. ownsCustomer c (site_customerId s) d) (projectSites d)))
             (\<lambda>s. map (Pair s) (filter (\<lambda>a. adr_id a = site_addressId s) (addresses d)))) d)"

definition createOwnSite :: "time \<Rightarrow> ctx \<Rightarrow> customer_site \<Rightarrow> (db, uuid) body" where
  "createOwnSite now c body d =
     (if ctx_role c \<noteq> ''customer'' then fails (Forbidden ''customer_only'')
      else if \<not> ownsCustomer c (Some (cst_customerId body)) d then fails (NotFound ''company_not_found'')
      else
        let address = \<lparr>adr_id = nextId d, adr_tenantId = ctx_tenantId c, adr_line1 = cst_line1 body, adr_line2 = None,
              adr_barangay = nonEmpty (cst_barangay body), adr_city = cst_city body,
              adr_province = cst_province body, adr_postalCode = nonEmpty (cst_postalCode body),
              adr_country = ''PH''\<rparr>;
            d1 = (fresh d)\<lparr>addresses := addresses d @ [address]\<rparr>;
            site = \<lparr>site_id = nextId d1, site_tenantId = ctx_tenantId c, site_addressId = adr_id address,
              site_customerId = Some (cst_customerId body), site_latitude = cold 6 (cst_latitude body),
              site_longitude = cold 6 (cst_longitude body), site_createdAt = now\<rparr>
        in ([''customer_site_created''], Inr (site_id site, (fresh d1)\<lparr>projectSites := projectSites d1 @ [site]\<rparr>)))"

definition FORECAST_TTL_MS :: int where
  "FORECAST_TTL_MS = 30 * 60000"

record daily_forecast =
  dfc_date :: string
  dfc_tempMaxC :: number
  dfc_tempMinC :: number
  dfc_windMaxKph :: number
  dfc_precipMm :: number
  dfc_code :: number

record cached_forecast =
  cfc_days :: "daily_forecast list"
  cfc_fetchedAt :: time
  cfc_at :: time

text \<open>\<open>toFixed(3)\<close> of both coordinates: a sign and thousandths of a degree each.\<close>

type_synonym forecast_key = "(bool \<times> int) \<times> (bool \<times> int)"
type_synonym forecast_cache = "forecast_key \<rightharpoonup> cached_forecast"

definition fixed3 :: "number \<Rightarrow> bool \<times> int" where
  "fixed3 x = (val x < 0, half_away (val x * 1000))"

definition forecastKey :: "project_site \<Rightarrow> forecast_key" where
  "forecastKey s = (fixed3 (numd 6 (site_latitude s)), fixed3 (numd 6 (site_longitude s)))"

definition readForecastCache :: "time \<Rightarrow> forecast_key \<Rightarrow> forecast_cache \<Rightarrow> cached_forecast option \<times> forecast_cache" where
  "readForecastCache now key cache =
     (case cache key of
        None \<Rightarrow> (None, cache)
      | Some hit \<Rightarrow> if FORECAST_TTL_MS < now - cfc_at hit then (None, cache(key := None)) else (Some hit, cache))"

definition ownSite :: "ctx \<Rightarrow> uuid \<Rightarrow> db \<Rightarrow> http_error + project_site" where
  "ownSite c siteId d =
     (if ctx_role c \<noteq> ''customer'' then Inl (Forbidden ''customer_only'')
      else case find (\<lambda>s. site_id s = siteId \<and> ownsCustomer c (site_customerId s) d) (projectSites d) of
             None \<Rightarrow> Inl (NotFound ''site_not_found'')
           | Some s \<Rightarrow> Inr s)"

text \<open>
  The clock is read on looking into the cache and again on writing it; \<open>outlook\<close> is what the weather
  port answers, \<open>None\<close> when it threw.
\<close>

definition siteForecast ::
  "time \<Rightarrow> time \<Rightarrow> ctx \<Rightarrow> uuid \<Rightarrow> daily_forecast list option \<Rightarrow> db \<Rightarrow> forecast_cache \<Rightarrow>
   (http_error + daily_forecast list \<times> time) \<times> forecast_cache" where
  "siteForecast now later c siteId outlook d cache =
     (case ownSite c siteId (rls (ctx_tenantId c) d) of
        Inl e \<Rightarrow> (Inl e, cache)
      | Inr site \<Rightarrow>
          (case readForecastCache now (forecastKey site) cache of
             (Some hit, cache1) \<Rightarrow> (Inr (cfc_days hit, cfc_fetchedAt hit), cache1)
           | (None, cache1) \<Rightarrow>
               (case outlook of
                  None \<Rightarrow> (Inl (Unavailable ''weather_unavailable''), cache1)
                | Some days \<Rightarrow> (Inr (days, later),
                    cache1(forecastKey site \<mapsto> \<lparr>cfc_days = days, cfc_fetchedAt = later, cfc_at = later\<rparr>)))))"

section \<open>Numbers are regrouped, never changed\<close>

lemma dash_no_digit: "\<not> isDigit CHR ''-''"
  by (simp add: isDigit_def charCode_def)

lemma digitsOnly_filter: "digitsOnly a b s \<Longrightarrow> filter isDigit s = s"
  by (simp add: digitsOnly_def list_all_iff)

lemma joinGroups_match:
  "ns \<noteq> [] \<Longrightarrow> list_all isDigit s \<Longrightarrow> length s = sum_list ns \<Longrightarrow>
   groupsMatch ns (joinGroups ns s) \<and> filter isDigit (joinGroups ns s) = s"
proof (induction ns s rule: joinGroups.induct)
  case (3 n m ns s)
  have d: "list_all isDigit (take n s)" "list_all isDigit (drop n s)" "length (drop n s) = sum_list (m # ns)" "length (take n s) = n"
    using "3.prems"(2,3) by (auto simp: list_all_iff dest: in_set_takeD in_set_dropD)
  with "3.IH"[OF _ d(2,3)] have "groupsMatch (m # ns) (joinGroups (m # ns) (drop n s))"
    "filter isDigit (joinGroups (m # ns) (drop n s)) = drop n s" by simp_all
  moreover have "filter isDigit (take n s) = take n s" using d(1) by (simp add: list_all_iff)
  ultimately show ?case using d by (simp add: dash_no_digit)
qed (simp_all add: digitsOnly_def list_all_iff)

lemma match_join:
  "ns \<noteq> [] \<Longrightarrow> groupsMatch ns s \<Longrightarrow> length (filter isDigit s) = sum_list ns \<and> joinGroups ns (filter isDigit s) = s"
proof (induction ns s rule: groupsMatch.induct)
  case (2 n s)
  then show ?case by (simp add: digitsOnly_def list_all_iff)
next
  case (3 n m ns s)
  obtain rest where r: "drop n s = CHR ''-'' # rest" "groupsMatch (m # ns) rest" "list_all isDigit (take n s)"
    using "3.prems"(2) by (auto split: list.split_asm)
  from "3.IH"[OF r(1)] r(2) have ih: "length (filter isDigit rest) = sum_list (m # ns)" "joinGroups (m # ns) (filter isDigit rest) = rest"
    by simp_all
  have n: "length (take n s) = n" using r(1) by (metis drop_eq_Nil length_take linorder_not_less list.distinct(1) min.absorb4 nat_le_linear)
  have s: "s = take n s @ CHR ''-'' # rest" using r(1) by (metis append_take_drop_id)
  have f: "filter isDigit s = take n s @ filter isDigit rest"
    by (subst s) (use r(3) in \<open>simp add: dash_no_digit list_all_iff\<close>)
  show ?case unfolding f using ih n by (simp add: s[symmetric])
qed simp

lemma trim_digits: "filter isDigit (trim s) = filter isDigit s"
proof -
  have sp: "\<not> isDigit c" if "isSpace c" for c using that by (auto simp: isSpace_def isDigit_def charCode_def)
  have dw: "filter isDigit (dropWhile isSpace t) = filter isDigit t" for t
    by (induction t) (simp_all add: sp)
  show ?thesis by (simp add: trim_def rev_filter[symmetric] dw)
qed

lemma regroup_one:
  assumes "list_all (\<lambda>g. g \<noteq> []) gs"
  shows "filter isDigit (regroupDigits s gs) = filter isDigit s"
    and "list_ex (\<lambda>g. groupsMatch g (regroupDigits s gs)) gs \<longleftrightarrow> length (filter isDigit s) \<in> sum_list ` set gs"
proof -
  let ?d = "filter isDigit s"
  have "filter isDigit (regroupDigits s gs) = ?d \<and>
    (list_ex (\<lambda>g. groupsMatch g (regroupDigits s gs)) gs \<longleftrightarrow> length ?d \<in> sum_list ` set gs)"
  proof (cases "find (\<lambda>g. sum_list g = length ?d) gs")
    case None
    then have n: "length ?d \<notin> sum_list ` set gs" by (auto simp: find_None_iff)
    have r: "regroupDigits s gs = trim s" using None by (simp add: regroupDigits_def)
    have "\<not> groupsMatch g (trim s)" if "g \<in> set gs" for g
    proof
      assume m: "groupsMatch g (trim s)"
      have "g \<noteq> []" using assms that by (simp add: list_all_iff)
      from match_join[OF this m] n that show False by (auto simp: trim_digits)
    qed
    then show ?thesis using n by (auto simp: r trim_digits list_ex_iff)
  next
    case (Some g)
    then have g: "g \<in> set gs" "sum_list g = length ?d" by (auto simp: find_Some_iff)
    then have ne: "g \<noteq> []" using assms by (simp add: list_all_iff)
    have "groupsMatch g (joinGroups g ?d) \<and> filter isDigit (joinGroups g ?d) = ?d"
      by (rule joinGroups_match[OF ne]) (simp_all add: list_all_iff g(2))
    moreover have "regroupDigits s gs = joinGroups g ?d" using Some by (simp add: regroupDigits_def)
    moreover have "length ?d \<in> sum_list ` set gs" using g by force
    ultimately show ?thesis using g(1) by (auto simp: list_ex_iff)
  qed
  then show "filter isDigit (regroupDigits s gs) = ?d"
    "list_ex (\<lambda>g. groupsMatch g (regroupDigits s gs)) gs \<longleftrightarrow> length ?d \<in> sum_list ` set gs" by blast+
qed

text \<open>
  A tax number whatever its layout. Normalising a TIN keeps its digits, gives a well-formed number
  exactly when there are nine or twelve of them, leaves a well-formed number as it is, and gives two
  writings of the same number the same form.
\<close>

theorem tin_regrouped:
  "filter isDigit (normalizeTin s) = filter isDigit s \<and>
   (TIN_REGEX (normalizeTin s) \<longleftrightarrow> length (filter isDigit s) \<in> {9, 12}) \<and>
   (TIN_REGEX s \<longrightarrow> normalizeTin s = s) \<and>
   (TIN_REGEX (normalizeTin s) \<longrightarrow> filter isDigit t = filter isDigit s \<longrightarrow> normalizeTin t = normalizeTin s)"
proof -
  let ?gs = "[[3, 3, 3], [3, 3, 3, 3]] :: nat list list"
  have ne: "list_all (\<lambda>g. g \<noteq> []) ?gs" by simp
  have k: "filter isDigit (normalizeTin s) = filter isDigit s"
    unfolding normalizeTin_def by (rule regroup_one(1)[OF ne])
  have v: "TIN_REGEX (normalizeTin s) \<longleftrightarrow> length (filter isDigit s) \<in> {9, 12}"
    unfolding normalizeTin_def TIN_REGEX_def using regroup_one(2)[OF ne, of s] by simp
  have f: "normalizeTin s = s" if r: "TIN_REGEX s"
    using r[unfolded TIN_REGEX_def]
  proof
    assume "groupsMatch [3, 3, 3] s"
    from match_join[OF _ this] have m: "length (filter isDigit s) = sum_list [3, 3, 3]" "joinGroups [3, 3, 3] (filter isDigit s) = s"
      by blast+
    show ?thesis using m(1) by (simp add: normalizeTin_def regroupDigits_def Let_def m(2) del: joinGroups.simps)
  next
    assume "groupsMatch [3, 3, 3, 3] s"
    from match_join[OF _ this] have m: "length (filter isDigit s) = sum_list [3, 3, 3, 3]" "joinGroups [3, 3, 3, 3] (filter isDigit s) = s"
      by blast+
    show ?thesis using m(1) by (simp add: normalizeTin_def regroupDigits_def Let_def m(2) del: joinGroups.simps)
  qed
  have "normalizeTin t = normalizeTin s" if "length (filter isDigit s) \<in> {9, 12}" "filter isDigit t = filter isDigit s"
    using that by (auto simp: normalizeTin_def regroupDigits_def)
  with k v f show ?thesis by blast
qed

theorem tin_regrouped_witness:
  "normalizeTin ''123 456-789'' = ''123-456-789'' \<and> TIN_REGEX (normalizeTin ''123 456-789'')"
proof -
  have d: "filter isDigit ''123 456-789'' = ''123456789''" "filter isDigit ''123456789'' = ''123456789''"
    by (simp_all add: isDigit_def charCode_def)
  have a: "TIN_REGEX (normalizeTin ''123456789'')"
    using tin_regrouped[of "''123456789''" "[]"] d by simp
  have b: "normalizeTin ''123 456-789'' = normalizeTin ''123456789''"
    using tin_regrouped[of "''123456789''" "''123 456-789''"] d a by simp
  have "normalizeTin ''123456789'' = ''123-456-789''"
    by (simp add: normalizeTin_def regroupDigits_def isDigit_def charCode_def)
  with a b show ?thesis by simp
qed

section \<open>What a scan suggests\<close>

definition printedOn :: "string \<Rightarrow> read_field list" where
  "printedOn documentType = (case SCAN_FIELDS documentType of None \<Rightarrow> [] | Some fs \<Rightarrow> fs)"

definition wellTyped :: "string \<Rightarrow> (read_field \<rightharpoonup> string) \<Rightarrow> bool" where
  "wellTyped documentType sg \<longleftrightarrow> (\<forall>f v. sg f = Some v \<longrightarrow> passesFormat f v \<and>
     (f \<in> set (printedOn documentType) \<or> f = AddressField \<and> RegisteredAddress \<in> set (printedOn documentType)))"

lemma foldl_suggest_typed:
  "wellTyped dt sg \<Longrightarrow> set (map fst reads) \<subseteq> set (printedOn dt) \<Longrightarrow> wellTyped dt (foldl (suggest p) sg reads)"
proof (induction reads arbitrary: sg)
  case (Cons r reads)
  obtain f x where r: "r = (f, x)" by force
  have "wellTyped dt (suggest p sg r)"
    using Cons.prems by (auto simp: wellTyped_def suggest_def r Let_def passesFormat_def)
  then show ?case using Cons.IH[of "suggest p sg r"] Cons.prems(2) by simp
qed simp

lemma readsOf_fields: "set (map fst (readsOf fs found)) \<subseteq> set fs"
  by (auto simp: readsOf_def set_list_bind split: option.split_asm)

text \<open>
  C28. What a scan may suggest. A scan of a paper suggests only fields that kind of paper prints (its
  registered address stands for the address), and a suggested TIN, SEC number, DTI number or card
  number always has its registered format.
\<close>

theorem scan_suggestions_typed:
  assumes "snd (scanDocument parseDate c documentType outcome) = Inr r" "scan_suggestions r f = Some v"
  shows "passesFormat f v \<and>
    (f \<in> set (printedOn documentType) \<or> f = AddressField \<and> RegisteredAddress \<in> set (printedOn documentType))"
proof -
  have "wellTyped documentType (scan_suggestions r)"
  proof (cases outcome)
    case (FieldsRead found)
    have "wellTyped documentType Map.empty" by (simp add: wellTyped_def)
    then have "wellTyped documentType (foldl (suggest parseDate) Map.empty (readsOf (printedOn documentType) found))"
      by (rule foldl_suggest_typed[OF _ readsOf_fields])
    then show ?thesis using assms(1)
      by (auto simp: scanDocument_def FieldsRead Let_def printedOn_def split: if_split_asm)
  qed (use assms(1) in \<open>auto simp: scanDocument_def wellTyped_def split: if_split_asm\<close>)
  with assms(2) show ?thesis by (simp add: wellTyped_def)
qed

definition customer_ctx :: ctx where
  "customer_ctx = \<lparr>ctx_tenantId = 1, ctx_userId = 8, ctx_role = ''customer''\<rparr>"

definition demo_form :: extraction where
  "demo_form = FieldsRead [''tin'' \<mapsto> \<lparr>rdg_value = ''12'', rdg_confidence = js 1\<rparr>,
     ''company_name'' \<mapsto> \<lparr>rdg_value = ''Almara'', rdg_confidence = js 1\<rparr>]"

theorem scan_suggestions_typed_witness:
  "\<exists>r. snd (scanDocument (\<lambda>_. None) customer_ctx ''bir_cor'' demo_form) = Inr r \<and>
     scan_suggestions r CompanyName = Some ''Almara'' \<and> CompanyName \<in> set (printedOn ''bir_cor'')"
proof -
  obtain r where r: "snd (scanDocument (\<lambda>_. None) customer_ctx ''bir_cor'' demo_form) = Inr r"
    by (simp add: scanDocument_def customer_ctx_def demo_form_def Let_def)
  then have s: "scan_suggestions r CompanyName = Some ''Almara''"
    by (auto simp: scanDocument_def customer_ctx_def demo_form_def Let_def SCAN_FIELDS_def readsOf_def READ_FIELDS_def
        suggest_def normalizeRead_def trim_def isSpace_def passesFormat_def normalizeTin_def regroupDigits_def TIN_REGEX_def
        isDigit_def charCode_def digitsOnly_def)
  from scan_suggestions_typed[OF r s] s r show ?thesis by auto
qed

section \<open>One paper of a kind on file\<close>

definition docKey :: "kyc_document \<Rightarrow> uuid \<times> string" where
  "docKey r = (kyd_customerId r, kyd_documentType r)"

definition docsOk :: "db \<Rightarrow> bool" where
  "docsOk d \<longleftrightarrow>
     distinct (map docKey (filter live_doc (kycDocuments d))) \<and> distinct (map kyd_id (kycDocuments d)) \<and>
     list_all (\<lambda>r. kyd_id r < nextId d \<and> kyd_customerId r < nextId d) (kycDocuments d) \<and>
     list_all (\<lambda>r. cus_id r < nextId d) (customers d)"

lemma distinct_live_updw:
  assumes "distinct (map docKey (filter live_doc rs))"
    and "\<And>r. r \<in> set rs \<Longrightarrow> p r \<Longrightarrow> docKey (f r) = docKey r \<and> (live_doc (f r) \<longrightarrow> live_doc r)"
  shows "distinct (map docKey (filter live_doc (updw p f rs)))"
  using assms
proof (induction rs)
  case (Cons r rs)
  have sub: "docKey ` set (filter live_doc (updw p f rs)) \<subseteq> docKey ` set (filter live_doc rs)"
  proof
    fix k assume "k \<in> docKey ` set (filter live_doc (updw p f rs))"
    then obtain x y where y: "y \<in> set rs" "x = (if p y then f y else y)" "live_doc x" "k = docKey x"
      by (auto simp: in_updw)
    then have "live_doc y \<and> docKey y = k" using Cons.prems(2)[of y] by (auto split: if_split_asm)
    then show "k \<in> docKey ` set (filter live_doc rs)" using y(1) by auto
  qed
  have ih: "distinct (map docKey (filter live_doc (updw p f rs)))"
    using Cons.IH Cons.prems by (simp split: if_split_asm)
  have r: "docKey (if p r then f r else r) = docKey r" "live_doc (if p r then f r else r) \<Longrightarrow> live_doc r"
    using Cons.prems(2)[of r] by (auto split: if_split_asm)
  have "docKey r \<notin> docKey ` set (filter live_doc rs)" if "live_doc r" using Cons.prems(1) that by auto
  then show ?case using ih r sub by (cases "p r"; auto)
qed simp

lemma below_map:
  "map h rs' = map h rs \<Longrightarrow> list_all (\<lambda>r. h r < (n :: nat)) rs \<Longrightarrow> n \<le> n' \<Longrightarrow> list_all (\<lambda>r. h r < n') rs'"
proof -
  assume a: "map h rs' = map h rs" "list_all (\<lambda>r. h r < n) rs" "n \<le> n'"
  have "list_all (\<lambda>x. x < n') (map h rs)" using a(2,3) by (auto simp: list_all_iff)
  then show ?thesis unfolding a(1)[symmetric] by (simp add: list_all_iff)
qed

lemma docsOkD:
  assumes "docsOk d"
  shows "distinct (map docKey (filter live_doc (kycDocuments d)))" "distinct (map kyd_id (kycDocuments d))"
    "list_all (\<lambda>r. kyd_id r < nextId d) (kycDocuments d)" "list_all (\<lambda>r. kyd_customerId r < nextId d) (kycDocuments d)"
    "list_all (\<lambda>r. cus_id r < nextId d) (customers d)"
  using assms by (simp_all add: docsOk_def list_all_iff)

lemma docsOk_update:
  assumes "docsOk d" "kycDocuments d' = updw p f (kycDocuments d)" "nextId d \<le> nextId d'"
    and "list_all (\<lambda>r. cus_id r < nextId d') (customers d')"
    and "\<And>r. r \<in> set (kycDocuments d) \<Longrightarrow> p r \<Longrightarrow> kyd_id (f r) = kyd_id r \<and> docKey (f r) = docKey r \<and> (live_doc (f r) \<longrightarrow> live_doc r)"
  shows "docsOk d'"
proof -
  have i: "map kyd_id (kycDocuments d') = map kyd_id (kycDocuments d)"
    and c: "map kyd_customerId (kycDocuments d') = map kyd_customerId (kycDocuments d)"
    unfolding assms(2) using assms(5) by (auto simp: updw_def docKey_def)
  have "list_all (\<lambda>r. kyd_id r < nextId d') (kycDocuments d')" "list_all (\<lambda>r. kyd_customerId r < nextId d') (kycDocuments d')"
    using below_map[OF i docsOkD(3)[OF assms(1)] assms(3)] below_map[OF c docsOkD(4)[OF assms(1)] assms(3)] by blast+
  moreover have "distinct (map docKey (filter live_doc (kycDocuments d')))"
    unfolding assms(2) by (rule distinct_live_updw) (use docsOkD[OF assms(1)] assms(5) in auto)
  ultimately show ?thesis using docsOkD(2)[OF assms(1)] i assms(4) by (simp add: docsOk_def list_all_iff)
qed

lemma docsOk_same:
  "docsOk d \<Longrightarrow> kycDocuments d' = kycDocuments d \<Longrightarrow> nextId d \<le> nextId d' \<Longrightarrow>
   list_all (\<lambda>r. cus_id r < nextId d') (customers d') \<Longrightarrow> docsOk d'"
  by (rule docsOk_update[of d d' "\<lambda>_. False" id]) (simp_all add: updw_def)

lemma docsOk_append:
  assumes "docsOk d" "kycDocuments d' = kycDocuments d @ [row]" "nextId d \<le> kyd_id row" "kyd_id row < nextId d'"
    and "kyd_customerId row < nextId d'" "docKey row \<notin> docKey ` set (filter live_doc (kycDocuments d))"
    and "list_all (\<lambda>r. cus_id r < nextId d') (customers d')"
  shows "docsOk d'"
proof -
  have "kyd_id row \<notin> kyd_id ` set (kycDocuments d)" using docsOkD(3)[OF assms(1)] assms(3) by (fastforce simp: list_all_iff)
  then show ?thesis using docsOkD[OF assms(1)] assms(3-7) by (fastforce simp: docsOk_def list_all_iff assms(2))
qed

lemma company_tables [simp]:
  "kycDocuments (setCompany i f d) = kycDocuments d" "nextId (setCompany i f d) = nextId d"
  "customers (setCompany i f d) = updw (\<lambda>r. cus_id r = i) f (customers d)"
  "kycDocuments (setDocuments p g d) = updw p g (kycDocuments d)" "nextId (setDocuments p g d) = nextId d"
  "customers (setDocuments p g d) = customers d"
  "kycDocuments (notifyOwner c r k pl d) = kycDocuments d" "nextId (notifyOwner c r k pl d) = nextId d"
  "customers (notifyOwner c r k pl d) = customers d"
  "kycDocuments (audit c a e j d) = kycDocuments d" "nextId (audit c a e j d) = nextId d"
  "customers (audit c a e j d) = customers d"
  "kycDocuments (writeNames b r d) = kycDocuments d" "nextId (writeNames b r d) = nextId d"
  "customers (writeNames b r d) = customers d"
  "kycDocuments (fresh d) = kycDocuments d" "nextId (fresh d) = Suc (nextId d)" "customers (fresh d) = customers d"
  by (simp_all add: setCompany_def setDocuments_def notifyOwner_def audit_def writeNames_def fresh_def split: option.split)

lemma notifyStaff_tables [simp]:
  "kycDocuments (notifyStaff t k pl d) = kycDocuments d" "customers (notifyStaff t k pl d) = customers d"
  using notify_update(2)[of t k pl d] by auto

lemma below_updw:
  assumes "docsOk d" "customers d' = updw p f (customers d)" "\<And>r. cus_id (f r) = cus_id r" "nextId d \<le> nextId d'"
  shows "list_all (\<lambda>r. cus_id r < nextId d') (customers d')"
  by (rule below_map[OF _ docsOkD(5)[OF assms(1)] assms(4)]) (simp add: assms(2,3) map_updw)

lemma docsOk_createCompany:
  assumes "committed (createCompany now c body d) i d'" "docsOk d"
  shows "docsOk d'"
proof -
  let ?cs = "customers d @ [\<lparr>cus_id = nextId d, cus_tenantId = ctx_tenantId c, cus_userId = Some (ctx_userId c),
              cus_companyName = cmp_companyName body, cus_tin = cmp_tin body, cus_secNumber = cmp_secNumber body,
              cus_billingAddress = Some (cmp_billingAddress body), cus_kycStatus = KycPending,
              cus_reviewComment = None, cus_unlockedFields = [], cus_createdAt = now\<rparr>]"
  have c: "customers d' = ?cs" "nextId d + 2 \<le> nextId d'"
    and k: "kycDocuments d' = kycDocuments d \<or>
      (\<exists>row. kycDocuments d' = kycDocuments d @ [row] \<and> kyd_id row = nextId d + 2 \<and> kyd_customerId row = nextId d \<and>
         nextId d' = nextId d + 3)"
    using assms(1) by (auto simp: createCompany_def Let_def split: if_split_asm option.split_asm)
  have below: "list_all (\<lambda>r. cus_id r < nextId d') (customers d')"
    using docsOkD(5)[OF assms(2)] c by (auto simp: list_all_iff)
  from k show ?thesis
  proof (elim disjE exE conjE)
    assume "kycDocuments d' = kycDocuments d"
    from docsOk_same[OF assms(2) this _ below] c(2) show ?thesis by simp
  next
    fix row assume r: "kycDocuments d' = kycDocuments d @ [row]" "kyd_id row = nextId d + 2" "kyd_customerId row = nextId d"
      "nextId d' = nextId d + 3"
    have "docKey row \<notin> docKey ` set (filter live_doc (kycDocuments d))"
      using docsOkD(4)[OF assms(2)] r(3) by (fastforce simp: docKey_def list_all_iff)
    from docsOk_append[OF assms(2) r(1) _ _ _ this below] r show ?thesis by simp
  qed
qed

lemma docsOk_updateCompany:
  assumes "committed (updateCompany c i body d) j d'" "docsOk d"
  shows "docsOk d'"
proof -
  have "d' = d \<or> (\<exists>fs. d' = setCompany i (\<lambda>r. applyUpdate body (r\<lparr>cus_unlockedFields := fs\<rparr>)) d)"
    using assms(1) by (auto simp: updateCompany_def Let_def split: if_split_asm option.split_asm)
  then show ?thesis
  proof (elim disjE exE)
    fix fs assume d': "d' = setCompany i (\<lambda>r. applyUpdate body (r\<lparr>cus_unlockedFields := fs\<rparr>)) d"
    have "list_all (\<lambda>r. cus_id r < nextId d') (customers d')"
      by (rule below_updw[OF assms(2), of _ "\<lambda>r. cus_id r = i" "\<lambda>r. applyUpdate body (r\<lparr>cus_unlockedFields := fs\<rparr>)"])
        (simp_all add: d' applyUpdate_def)
    from docsOk_same[OF assms(2) _ _ this] show ?thesis by (simp add: d')
  qed (use assms(2) in simp)
qed

lemma docsOk_comment:
  assumes "committed (comment c i note unlock d) j d'" "docsOk d"
  shows "docsOk d'"
proof -
  let ?f = "\<lambda>r. r\<lparr>cus_reviewComment := Some note, cus_unlockedFields := rev (remdups (rev unlock))\<rparr>"
  have t: "kycDocuments d' = kycDocuments d" "nextId d' = nextId d" "customers d' = updw (\<lambda>r. cus_id r = i) ?f (customers d)"
    using assms(1) by (auto simp: comment_def Let_def split: if_split_asm option.split_asm)
  have "list_all (\<lambda>r. cus_id r < nextId d') (customers d')" by (rule below_updw[OF assms(2) t(3)]) (simp_all add: t(2))
  from docsOk_same[OF assms(2) t(1) _ this] show ?thesis by (simp add: t(2))
qed

lemma docsOk_setDocuments:
  assumes "docsOk d"
    and "\<And>r. r \<in> set (kycDocuments d) \<Longrightarrow> p r \<Longrightarrow> kyd_id (f r) = kyd_id r \<and> docKey (f r) = docKey r \<and> (live_doc (f r) \<longrightarrow> live_doc r)"
  shows "docsOk (setDocuments p f d)"
  by (rule docsOk_update[OF assms(1), of _ p f]) (use assms(2) docsOkD(5)[OF assms(1)] in simp_all)

lemma docsOk_setCompany:
  "docsOk d \<Longrightarrow> (\<And>r. cus_id (f r) = cus_id r) \<Longrightarrow> docsOk (setCompany i f d)"
proof -
  assume ok: "docsOk d" and f: "\<And>r. cus_id (f r) = cus_id r"
  have "list_all (\<lambda>r. cus_id r < nextId (setCompany i f d)) (customers (setCompany i f d))"
    by (rule below_updw[OF ok _ f, of _ "\<lambda>r. cus_id r = i"]) simp_all
  from docsOk_same[OF ok _ _ this] show ?thesis by simp
qed

lemma docsOk_tables:
  "docsOk d \<Longrightarrow> docsOk (notifyOwner c r k pl d)" "docsOk d \<Longrightarrow> docsOk (audit c a e j d)" "docsOk d \<Longrightarrow> docsOk (writeNames b r d)"
  by (simp_all add: docsOk_def)

lemma replaceOnFileD:
  assumes "replaceOnFile i t d = Inr d1"
  shows "kycDocuments d1 = updw (\<lambda>r. kyd_customerId r = i \<and> kyd_documentType r = t \<and> live_doc r) (kyd_status_update (\<lambda>_. KSuperseded)) (kycDocuments d)"
    and "nextId d1 = nextId d" and "map cus_id (customers d1) = map cus_id (customers d)"
proof -
  have skip: "updw (\<lambda>r. kyd_customerId r = i \<and> kyd_documentType r = t \<and> live_doc r) f (kycDocuments d) = kycDocuments d"
    if "\<not> list_ex (\<lambda>r. kyd_documentType r = t) (liveDocuments i d)" for f
    by (rule updw_id) (use that in \<open>auto simp: liveDocuments_def list_ex_iff\<close>)
  have "kycDocuments d1 = updw (\<lambda>r. kyd_customerId r = i \<and> kyd_documentType r = t \<and> live_doc r) (kyd_status_update (\<lambda>_. KSuperseded)) (kycDocuments d) \<and>
    nextId d1 = nextId d \<and> map cus_id (customers d1) = map cus_id (customers d)"
  proof (cases "list_ex (\<lambda>r. kyd_documentType r = t) (liveDocuments i d)")
    case True
    then show ?thesis using assms by (auto simp: replaceOnFile_def Let_def map_updw split: if_split_asm)
  next
    case False
    then have "d1 = d" using assms by (simp add: replaceOnFile_def Let_def)
    then show ?thesis using skip[OF False] by simp
  qed
  then show "kycDocuments d1 = updw (\<lambda>r. kyd_customerId r = i \<and> kyd_documentType r = t \<and> live_doc r) (kyd_status_update (\<lambda>_. KSuperseded)) (kycDocuments d)"
    "nextId d1 = nextId d" "map cus_id (customers d1) = map cus_id (customers d)" by blast+
qed

lemma addDocumentD:
  assumes "committed (addDocument p now c i t uri out conf d) a d'"
  obtains d1 row d2 where "ownsCustomer c (Some i) d" "replaceOnFile i t d = Inr d1"
    "kyd_id row = nextId d1" "docKey row = (i, t)" "live_doc row" "d2 = (fresh d1)\<lparr>kycDocuments := kycDocuments d1 @ [row]\<rparr>"
    "d' = d2 \<or> (\<exists>h r. d' = setDocuments (\<lambda>x. kyd_id x = kyd_id row) (storeRead h r) d2)"
proof -
  obtain d1 where r: "replaceOnFile i t d = Inr d1" and o: "ownsCustomer c (Some i) d"
    using assms by (auto simp: addDocument_def Let_def split: if_split_asm sum.split_asm)
  define row where "row = \<lparr>kyd_id = nextId d1, kyd_tenantId = ctx_tenantId c, kyd_customerId = i,
                kyd_documentType = t, kyd_fileUri = uri,
                kyd_ocrPayload = (if customerPayload conf = [] then None else Some (customerPayload conf)), kyd_confidence = None,
                kyd_status = KPending, kyd_formatValid = None, kyd_portalMatchScore = None,
                kyd_registryStatus = None, kyd_createdAt = now\<rparr>"
  define d2 where "d2 = (fresh d1)\<lparr>kycDocuments := kycDocuments d1 @ [row]\<rparr>"
  have "d' = d2 \<or> (\<exists>h r. d' = setDocuments (\<lambda>x. kyd_id x = kyd_id row) (storeRead h r) d2)"
    using assms r o unfolding d2_def row_def
    by (auto simp: addDocument_def Let_def split: if_split_asm prod.split_asm sum.split_asm simp del: company_tables)
  from that[OF o r _ _ _ d2_def this] show ?thesis by (simp add: row_def docKey_def live_doc_def)
qed

lemma docsOk_addDocument:
  assumes "committed (addDocument p now c i t uri out conf d) a d'" "docsOk d"
  shows "docsOk d'"
  using assms(1)
proof (rule addDocumentD)
  fix d1 row d2
  assume o: "ownsCustomer c (Some i) d" and r: "replaceOnFile i t d = Inr d1" and row: "kyd_id row = nextId d1" "docKey row = (i, t)" "live_doc row"
    and d2: "d2 = (fresh d1)\<lparr>kycDocuments := kycDocuments d1 @ [row]\<rparr>"
    and d': "d' = d2 \<or> (\<exists>h r. d' = setDocuments (\<lambda>x. kyd_id x = kyd_id row) (storeRead h r) d2)"
  note t = replaceOnFileD[OF r]
  have b: "list_all (\<lambda>r. cus_id r < nextId d1) (customers d1)" by (rule below_map[OF t(3) docsOkD(5)[OF assms(2)]]) (simp add: t(2))
  have ok1: "docsOk d1"
    by (rule docsOk_update[OF assms(2) t(1) _ b]) (simp_all add: t(2) docKey_def live_doc_def)
  have i: "i < nextId d1" using o docsOkD(5)[OF assms(2)] t(2) by (auto simp: ownsCustomer_iff list_all_iff)
  have fr: "docKey row \<notin> docKey ` set (filter live_doc (kycDocuments d1))"
  proof
    let ?p = "\<lambda>y. kyd_customerId y = i \<and> kyd_documentType y = t \<and> live_doc y"
    assume "docKey row \<in> docKey ` set (filter live_doc (kycDocuments d1))"
    then obtain x where x: "x \<in> set (kycDocuments d1)" "live_doc x" "docKey x = (i, t)" using row(2) by auto
    obtain y where y: "x = (if ?p y then kyd_status_update (\<lambda>_. KSuperseded) y else y)" using x(1) unfolding t(1) in_updw by blast
    show False
    proof (cases "?p y")
      case True then show False using x(2) by (simp add: y live_doc_def)
    next
      case False
      then have "x = y" using y by (simp only: if_False)
      then show False using False x(2,3) by (simp add: docKey_def)
    qed
  qed
  have ci: "kyd_customerId row = i" using row(2) by (simp add: docKey_def)
  have b2: "list_all (\<lambda>r. cus_id r < nextId d2) (customers d2)" by (rule below_map[OF _ b]) (simp_all add: d2)
  have ok2: "docsOk d2"
    by (rule docsOk_append[OF ok1 _ _ _ _ fr b2]) (use row(1) ci i in \<open>simp_all add: d2\<close>)
  show "docsOk d'"
    using d'
  proof (elim disjE exE)
    fix h q assume e: "d' = setDocuments (\<lambda>x. kyd_id x = kyd_id row) (storeRead h q) d2"
    have only: "x = row" if "x \<in> set (kycDocuments d2)" "kyd_id x = kyd_id row" for x
      using that docsOkD(3)[OF ok1] row(1) by (auto simp: d2 list_all_iff)
    show "docsOk d'" unfolding e
    proof (rule docsOk_setDocuments[OF ok2])
      fix x assume "x \<in> set (kycDocuments d2)" "kyd_id x = kyd_id row"
      from only[OF this] row(3) show "kyd_id (storeRead h q x) = kyd_id x \<and> docKey (storeRead h q x) = docKey x \<and>
          (live_doc (storeRead h q x) \<longrightarrow> live_doc x)" by (simp add: storeRead_def docKey_def)
    qed
  qed (use ok2 in simp)
qed

lemma docsOk_readDocument:
  assumes "committed (readDocument p i k out d) r d'" "docsOk d"
    and "list_ex (\<lambda>x. kyd_id x = k \<and> live_doc x) (kycDocuments d)"
  shows "docsOk d'"
proof -
  have "d' = d \<or> (\<exists>h q. d' = setDocuments (\<lambda>x. kyd_id x = k) (storeRead h q) d)"
    using assms(1) by (auto simp: readDocument_def split: if_split_asm option.split_asm prod.split_asm sum.split_asm)
  then show ?thesis
  proof (elim disjE exE)
    fix h q assume e: "d' = setDocuments (\<lambda>x. kyd_id x = k) (storeRead h q) d"
    show ?thesis unfolding e
    proof (rule docsOk_setDocuments[OF assms(2)])
      fix x assume x: "x \<in> set (kycDocuments d)" "kyd_id x = k"
      obtain y where y: "y \<in> set (kycDocuments d)" "kyd_id y = k" "live_doc y" using assms(3) by (auto simp: list_ex_iff)
      have "x = y" using distinct_map_eq[OF docsOkD(2)[OF assms(2)] x(1) y(1)] x(2) y(2) by simp
      then show "kyd_id (storeRead h q x) = kyd_id x \<and> docKey (storeRead h q x) = docKey x \<and>
          (live_doc (storeRead h q x) \<longrightarrow> live_doc x)" using y(3) by (simp add: storeRead_def docKey_def)
    qed
  qed (use assms(2) in simp)
qed

lemma docsOk_confirmDti: "docsOk d \<Longrightarrow> docsOk (confirmDti c body docs d)"
  by (auto simp: confirmDti_def docKey_def live_doc_def split: option.split intro!: docsOk_setDocuments)

lemma docsOk_decide:
  assumes "committed (decide c i body d) v d'" "docsOk d"
  shows "docsOk d'"
proof -
  let ?docs = "liveDocuments i d"
  obtain row where d': "d' = notifyOwner c row (if dec_approved body then ''company_verified'' else ''company_rejected'')
      [(''customer_id'', JId i), (''company_name'', JStr (cus_companyName row))]
      (audit c (if dec_approved body then ''APPROVE'' else ''REJECT'') ''customers'' i
        (setDocuments (\<lambda>r. kyd_customerId r = i \<and> live_doc r) (kyd_status_update (\<lambda>_. if dec_approved body then KVerified else KRejected))
          (let d2 = confirmDti c body ?docs (writeNames body row (setCompany i (\<lambda>r. corrections body
               (r\<lparr>cus_kycStatus := verdict body, cus_reviewComment := None, cus_unlockedFields := []\<rparr>)) d))
           in if dec_approved body
              then setDocuments (\<lambda>r. kyd_id r \<in> set (map kyd_id (registryDocs ?docs))) (kyd_registryStatus_update (\<lambda>_. Some ''active'')) d2
              else d2)))"
    using assms(1) by (auto simp: decide_def Let_def split: if_split_asm option.split_asm simp del: company_tables)
  have ok: "docsOk (confirmDti c body ?docs (writeNames body row (setCompany i (\<lambda>r. corrections body
               (r\<lparr>cus_kycStatus := verdict body, cus_reviewComment := None, cus_unlockedFields := []\<rparr>)) d)))"
    by (intro docsOk_confirmDti docsOk_tables(3) docsOk_setCompany assms(2)) (simp add: corrections_def)
  show ?thesis unfolding d' Let_def
    by (intro docsOk_tables(1,2) docsOk_setDocuments) (auto simp: docKey_def live_doc_def intro!: ok docsOk_setDocuments split: if_split_asm)
qed

text \<open>
  The committed operations on companies, over what the caller's tenant sees. A reviewer's re-read is a
  step only for a paper that has not been replaced: see \<open>reread_revives_paper\<close> below.
\<close>

inductive companyStep :: "db \<Rightarrow> db \<Rightarrow> bool" where
  create: "committed (createCompany now c body d) i d' \<Longrightarrow> companyStep d d'"
| edit: "committed (updateCompany c i upd d) j d' \<Longrightarrow> companyStep d d'"
| upload: "committed (addDocument p now c i t uri out conf d) a d' \<Longrightarrow> companyStep d d'"
| reread: "committed (readDocument p i k out d) r d' \<Longrightarrow>
    list_ex (\<lambda>x. kyd_id x = k \<and> live_doc x) (kycDocuments d) \<Longrightarrow> companyStep d d'"
| annotate: "committed (comment c i text unlock d) fs d' \<Longrightarrow> companyStep d d'"
| decision: "committed (decide c i dec d) v d' \<Longrightarrow> companyStep d d'"

inductive_cases companyStepE: "companyStep d d'"

lemma docsOk_step: "companyStep d d' \<Longrightarrow> docsOk d \<Longrightarrow> docsOk d'"
  by (erule companyStepE)
    (blast dest: docsOk_createCompany docsOk_updateCompany docsOk_addDocument docsOk_readDocument docsOk_comment docsOk_decide)+

lemma distinct_at_most_one:
  "distinct (map k (filter P xs)) \<Longrightarrow> length (filter (\<lambda>x. k x = v \<and> P x) xs) \<le> 1"
proof (induction xs)
  case (Cons x xs)
  have "filter (\<lambda>y. k y = v \<and> P y) xs = []" if "P x" "k x = v"
    using Cons.prems that by (auto simp: filter_empty_conv image_iff)
  then show ?case using Cons by (auto split: if_split_asm)
qed simp

text \<open>
  C27. One paper of a kind. However companies are created, edited, uploaded to, annotated and decided, and
  as long as only papers that are not superseded are re-read, a company never has two papers of one type
  on file that are not superseded. The code does not ask that of a re-read, and \<open>reread_revives_paper\<close>
  below shows that re-reading a superseded paper breaks the invariant.
\<close>

theorem one_live_document:
  assumes "companyStep\<^sup>*\<^sup>* d d'" "docsOk d"
  shows "length (filter (\<lambda>r. docKey r = (customerId, documentType) \<and> live_doc r) (kycDocuments d')) \<le> 1"
proof -
  have "docsOk d'" using assms by (induction rule: rtranclp_induct) (auto intro: docsOk_step)
  from distinct_at_most_one[OF docsOkD(1)[OF this]] show ?thesis .
qed

definition demo_paper :: "uuid \<Rightarrow> string \<Rightarrow> kyc_doc_status \<Rightarrow> kyc_document" where
  "demo_paper k t s = \<lparr>kyd_id = k, kyd_tenantId = 1, kyd_customerId = 30, kyd_documentType = t, kyd_fileUri = ''key'',
     kyd_ocrPayload = None, kyd_confidence = None, kyd_status = s, kyd_formatValid = None,
     kyd_portalMatchScore = None, kyd_registryStatus = None, kyd_createdAt = 0\<rparr>"

definition demo_company :: "kyc_status \<Rightarrow> string list \<Rightarrow> customer" where
  "demo_company s unlocked = \<lparr>cus_id = 30, cus_tenantId = 1, cus_userId = Some 8, cus_companyName = ''Almara'',
     cus_tin = Some ''123-456-789'', cus_secNumber = None, cus_billingAddress = Some ''Pasig'', cus_kycStatus = s,
     cus_reviewComment = None, cus_unlockedFields = unlocked, cus_createdAt = 0\<rparr>"

definition company_db :: "kyc_status \<Rightarrow> string list \<Rightarrow> kyc_document list \<Rightarrow> db" where
  "company_db s unlocked docs = empty_db\<lparr>customers := [demo_company s unlocked], kycDocuments := docs\<rparr>"

definition no_fields :: confirmed_fields where
  "no_fields = \<lparr>cnf_firstName = None, cnf_middleName = None, cnf_lastName = None, cnf_idNumber = None,
     cnf_birthDate = None, cnf_sex = None, cnf_address = None, cnf_dtiNumber = None\<rparr>"

lemmas company_eval =
  company_db_def demo_company_def demo_paper_def no_fields_def customer_ctx_def empty_db_def liveDocuments_def live_doc_def
  ownsCustomer_def ownCustomers_def hasRequiredCompanyDocuments_def isPrimaryRegistration_def
  PRIMARY_REGISTRATION_TYPES_def customerPayload_def nonEmpty_def Let_def

theorem one_live_document_witness:
  "\<exists>a d'. committed (addDocument (\<lambda>_. None) 5 customer_ctx 30 ''bir_cor'' ''new'' ExtractionUnavailable no_fields
       (company_db KycPending [''bir_cor''] [demo_paper 51 ''government_id'' KNeedsReview, demo_paper 52 ''bir_cor'' KNeedsReview])) a d' \<and>
     length (kycDocuments d') = 3 \<and> length (filter (\<lambda>r. docKey r = (30, ''bir_cor'') \<and> live_doc r) (kycDocuments d')) \<le> 1"
proof -
  let ?d = "company_db KycPending [''bir_cor''] [demo_paper 51 ''government_id'' KNeedsReview, demo_paper 52 ''bir_cor'' KNeedsReview]"
  have "\<exists>a d'. committed (addDocument (\<lambda>_. None) 5 customer_ctx 30 ''bir_cor'' ''new'' ExtractionUnavailable no_fields ?d) a d' \<and>
      length (kycDocuments d') = 3"
    by (simp add: addDocument_def replaceOnFile_def analyzeDocument_def company_eval)
  then obtain a d' where c: "committed (addDocument (\<lambda>_. None) 5 customer_ctx 30 ''bir_cor'' ''new'' ExtractionUnavailable no_fields ?d) a d'"
    "length (kycDocuments d') = 3" by blast
  have ok: "docsOk ?d" by (simp add: docsOk_def docKey_def company_eval)
  have "companyStep\<^sup>*\<^sup>* ?d d'" by (rule r_into_rtranclp[of companyStep, OF companyStep.upload[OF c(1)]])
  from one_live_document[OF this ok] c show ?thesis by blast
qed

text \<open>
  A re-read sets the status of whatever paper it is pointed at to \<open>needs_review\<close>: pointed at a paper
  that was replaced, it brings it back beside its replacement, and pointed at one a reviewer verified
  or rejected, it undoes that mark.
\<close>

lemma reread_revives_paper:
  "\<exists>r d'. committed (readDocument (\<lambda>_. None) 30 51 (FieldsRead Map.empty)
       (company_db KycApproved [] [demo_paper 51 ''bir_cor'' KSuperseded, demo_paper 52 ''bir_cor'' KVerified])) r d' \<and>
     length (filter (\<lambda>r. docKey r = (30, ''bir_cor'') \<and> live_doc r) (kycDocuments d')) = 2"
  by (simp add: readDocument_def analyzeDocument_def storeRead_def docKey_def company_eval)

section \<open>Who may change what\<close>

lemma updateCompanyD:
  assumes "committed (updateCompany c i upd d) j d'"
  obtains current where "find (\<lambda>r. cus_id r = i) (customers d) = Some current" "ownsCustomer c (Some i) d"
    "cus_kycStatus current = KycApproved \<Longrightarrow> cup_tin upd = None \<and> cup_secNumber upd = None"
    "cus_kycStatus current = KycPending \<Longrightarrow> hasRequiredCompanyDocuments (liveDocuments i d) \<Longrightarrow>
       set (updateKeys upd) \<subseteq> set (cus_unlockedFields current)"
    "updateKeys upd = [] \<Longrightarrow> d' = d"
    "updateKeys upd \<noteq> [] \<Longrightarrow> d' = setCompany i (\<lambda>r. applyUpdate upd
       (r\<lparr>cus_unlockedFields := filter (\<lambda>k. k \<notin> set (updateKeys upd)) (cus_unlockedFields current)\<rparr>)) d"
  using assms
  by (auto simp: updateCompany_def Let_def filter_empty_conv subset_iff split: if_split_asm option.split_asm simp del: company_tables)

text \<open>
  What a customer may edit. An edit touches at most the one company it names, which is the caller's
  own, and only its TIN, SEC number and billing address. Once the company is approved its TIN and SEC
  number stay; while a complete company waits for review only what the reviewer unlocked changes, and
  it is locked again.
\<close>

theorem edit_within_unlocked:
  assumes "committed (updateCompany c i upd d) j d'" "distinct (map cus_id (customers d))"
  shows "list_all2 (\<lambda>r r'. r' = r \<or>
      cus_id r = i \<and> cus_userId r = Some (ctx_userId c) \<and>
      r' = r\<lparr>cus_tin := cus_tin r', cus_secNumber := cus_secNumber r', cus_billingAddress := cus_billingAddress r',
             cus_unlockedFields := filter (\<lambda>k. k \<notin> set (updateKeys upd)) (cus_unlockedFields r)\<rparr> \<and>
      (cus_kycStatus r = KycApproved \<longrightarrow> cus_tin r' = cus_tin r \<and> cus_secNumber r' = cus_secNumber r) \<and>
      (cus_kycStatus r = KycPending \<and> hasRequiredCompanyDocuments (liveDocuments i d) \<longrightarrow>
         set (updateKeys upd) \<subseteq> set (cus_unlockedFields r)))
    (customers d) (customers d')"
  using assms(1)
proof (rule updateCompanyD)
  fix current
  assume f: "find (\<lambda>r. cus_id r = i) (customers d) = Some current" and o: "ownsCustomer c (Some i) d"
    and a: "cus_kycStatus current = KycApproved \<Longrightarrow> cup_tin upd = None \<and> cup_secNumber upd = None"
    and p: "cus_kycStatus current = KycPending \<Longrightarrow> hasRequiredCompanyDocuments (liveDocuments i d) \<Longrightarrow>
       set (updateKeys upd) \<subseteq> set (cus_unlockedFields current)"
    and none: "updateKeys upd = [] \<Longrightarrow> d' = d"
    and some: "updateKeys upd \<noteq> [] \<Longrightarrow> d' = setCompany i (\<lambda>r. applyUpdate upd
       (r\<lparr>cus_unlockedFields := filter (\<lambda>k. k \<notin> set (updateKeys upd)) (cus_unlockedFields current)\<rparr>)) d"
  have it: "r = current" if "r \<in> set (customers d)" "cus_id r = i" for r
    using distinct_map_eq[OF assms(2) that(1)] find_SomeD[OF f] that(2) by simp
  have own: "cus_userId current = Some (ctx_userId c)" using o it by (auto simp: ownsCustomer_iff)
  show ?thesis
  proof (cases "updateKeys upd = []")
    case True
    then show ?thesis using none by (simp add: list.rel_refl)
  next
    case False
    show ?thesis unfolding some[OF False] company_tables updw_def list_all2_map2
      by (rule list.rel_refl_strong)
        (use it own a p in \<open>auto simp: applyUpdate_def overwrite_def\<close>)
  qed
qed

theorem edit_within_unlocked_witness:
  "\<exists>j d'. committed (updateCompany customer_ctx 30 \<lparr>cup_tin = None, cup_secNumber = None, cup_billingAddress = Some ''Cebu''\<rparr>
       (company_db KycApproved [] [])) j d' \<and> map cus_tin (customers d') = [Some ''123-456-789'']"
proof -
  let ?u = "\<lparr>cup_tin = None, cup_secNumber = None, cup_billingAddress = Some ''Cebu''\<rparr>" and ?d = "company_db KycApproved [] []"
  obtain j d' where c: "committed (updateCompany customer_ctx 30 ?u ?d) j d'"
    by (simp add: updateCompany_def updateKeys_def company_eval)
  have "distinct (map cus_id (customers ?d))" by (simp add: company_eval)
  from edit_within_unlocked[OF c this] have "map cus_tin (customers d') = [Some ''123-456-789'']"
    by (auto simp: company_db_def demo_company_def list_all2_Cons1)
  then show ?thesis by (intro exI[of _ j] exI[of _ d'] conjI c)
qed

lemma decideD:
  assumes "committed (decide c i body d) v d'"
  shows "v = verdict body"
    and "dec_approved body \<Longrightarrow> list_all (\<lambda>r. kyd_id r \<in> set (dec_registryChecked body)) (registryDocs (liveDocuments i d))"
    and "customers d' = updw (\<lambda>r. cus_id r = i) (\<lambda>r. corrections body
           (r\<lparr>cus_kycStatus := verdict body, cus_reviewComment := None, cus_unlockedFields := []\<rparr>)) (customers d)"
proof -
  have dti: "customers (confirmDti c body docs e) = customers e" for docs e
    by (simp add: confirmDti_def split: option.split)
  show "v = verdict body"
    "dec_approved body \<Longrightarrow> list_all (\<lambda>r. kyd_id r \<in> set (dec_registryChecked body)) (registryDocs (liveDocuments i d))"
    "customers d' = updw (\<lambda>r. cus_id r = i) (\<lambda>r. corrections body
           (r\<lparr>cus_kycStatus := verdict body, cus_reviewComment := None, cus_unlockedFields := []\<rparr>)) (customers d)"
    using assms by (auto simp: decide_def Let_def dti filter_empty_conv list_all_iff split: if_split_asm option.split_asm)
qed

lemma status_unless_decided:
  assumes "companyStep d d'" "r' \<in> set (customers d')" "cus_kycStatus r' = KycApproved"
  shows "(\<exists>r \<in> set (customers d). cus_id r = cus_id r' \<and> cus_kycStatus r = KycApproved) \<or>
    (\<exists>c body. committed (decide c (cus_id r') body d) KycApproved d' \<and> dec_approved body)"
  using assms(1)
proof cases
  case (create now c body i)
  have "r' \<in> set (customers d) \<or> cus_kycStatus r' = KycPending"
    using create assms(2) by (auto simp: createCompany_def Let_def split: if_split_asm option.split_asm)
  then show ?thesis using assms(3) by force
next
  case (edit c i upd j)
  have "customers d' = customers d \<or> (\<exists>fs. customers d' = updw (\<lambda>r. cus_id r = i) (\<lambda>r. applyUpdate upd (r\<lparr>cus_unlockedFields := fs\<rparr>)) (customers d))"
    using edit by (auto elim!: updateCompanyD)
  then obtain r where "r \<in> set (customers d)" "cus_id r = cus_id r'" "cus_kycStatus r = cus_kycStatus r'"
    using assms(2) by (force simp: in_updw applyUpdate_def)
  then show ?thesis using assms(3) by auto
next
  case (upload p now c i t uri out conf a)
  obtain d1 where r: "replaceOnFile i t d = Inr d1" and e: "customers d' = customers d1"
    using upload by (auto elim!: addDocumentD)
  have "\<exists>fs. customers d' = updw (\<lambda>r. cus_id r = i) (cus_unlockedFields_update (\<lambda>_. fs)) (customers d) \<or> customers d' = customers d"
    by (rule exI[of _ "filter (\<lambda>f. f \<noteq> t) (case find (\<lambda>r. cus_id r = i) (customers d) of
          None \<Rightarrow> [] | Some company \<Rightarrow> cus_unlockedFields company)"])
      (use r e in \<open>auto simp: replaceOnFile_def Let_def split: if_split_asm\<close>)
  then obtain r where "r \<in> set (customers d)" "cus_id r = cus_id r'" "cus_kycStatus r = cus_kycStatus r'"
    using assms(2) by (force simp: in_updw)
  then show ?thesis using assms(3) by auto
next
  case (reread p i k out r)
  then have "customers d' = customers d"
    by (auto simp: readDocument_def split: if_split_asm option.split_asm prod.split_asm sum.split_asm)
  then show ?thesis using assms(2,3) by auto
next
  case (annotate c i remark unlock fs)
  then have "\<exists>g. customers d' = updw (\<lambda>r. cus_id r = i) (\<lambda>r. r\<lparr>cus_reviewComment := Some remark, cus_unlockedFields := g\<rparr>) (customers d)"
    by (auto simp: comment_def Let_def split: if_split_asm option.split_asm)
  then obtain r where "r \<in> set (customers d)" "cus_id r = cus_id r'" "cus_kycStatus r = cus_kycStatus r'"
    using assms(2) by (force simp: in_updw)
  then show ?thesis using assms(3) by auto
next
  case (decision c i dec v)
  note D = decideD[OF decision]
  obtain r where r: "r \<in> set (customers d)" "r' = (if cus_id r = i then corrections dec
      (r\<lparr>cus_kycStatus := verdict dec, cus_reviewComment := None, cus_unlockedFields := []\<rparr>) else r)"
    using assms(2) unfolding D(3) in_updw by blast
  show ?thesis
  proof (cases "cus_id r = i")
    case True
    then have "cus_id r' = i" "dec_approved dec" using r(2) assms(3) by (auto simp: corrections_def verdict_def split: if_split_asm)
    then show ?thesis using decision D(1) by (auto simp: verdict_def)
  next
    case False
    then have "r' = r" using r(2) by (simp only: if_False)
    then show ?thesis using r(1) assms(3) by auto
  qed
qed

text \<open>
  Approval is a person's. A company that was not approved and now is, after any sequence of
  operations, was approved by a decision among them, and that decision ticked every SEC, BIR and DTI
  paper the company then had on file.
\<close>

theorem approved_only_by_decision:
  assumes "companyStep\<^sup>*\<^sup>* d d'" "r' \<in> set (customers d')" "cus_kycStatus r' = KycApproved"
    and "filter (\<lambda>r. cus_id r = cus_id r' \<and> cus_kycStatus r = KycApproved) (customers d) = []"
  shows "\<exists>e e' c body. companyStep\<^sup>*\<^sup>* d e \<and> committed (decide c (cus_id r') body e) KycApproved e' \<and>
    companyStep\<^sup>*\<^sup>* e' d' \<and> dec_approved body \<and>
    list_all (\<lambda>doc. kyd_id doc \<in> set (dec_registryChecked body)) (registryDocs (liveDocuments (cus_id r') e))"
  using assms(1-3) assms(4)
proof (induction arbitrary: r' rule: rtranclp_induct)
  case base
  then show ?case by (auto simp: filter_empty_conv)
next
  case (step y z)
  from status_unless_decided[OF step.hyps(2) step.prems(1,2)] show ?case
  proof (elim disjE bexE exE conjE)
    fix r assume "r \<in> set (customers y)" "cus_id r = cus_id r'" "cus_kycStatus r = KycApproved"
    with step.IH[of r] step.prems(3) obtain e e' c body where
      "companyStep\<^sup>*\<^sup>* d e" "committed (decide c (cus_id r') body e) KycApproved e'" "companyStep\<^sup>*\<^sup>* e' y" "dec_approved body"
      "list_all (\<lambda>doc. kyd_id doc \<in> set (dec_registryChecked body)) (registryDocs (liveDocuments (cus_id r') e))" by auto
    with step.hyps(2) show ?thesis by (meson rtranclp.rtrancl_into_rtrancl)
  next
    fix c body assume "committed (decide c (cus_id r') body y) KycApproved z" "dec_approved body"
    with decideD(2)[OF this(1,2)] step.hyps(1) show ?thesis by blast
  qed
qed

definition demo_decision :: company_decision where
  "demo_decision = \<lparr>dec_approved = True, dec_companyName = None, dec_tin = None, dec_secNumber = None, dec_dtiNumber = None,
     dec_registryChecked = [52], dec_firstName = None, dec_middleName = None, dec_lastName = None\<rparr>"

lemmas decide_eval =
  decide_def demo_decision_def verdict_def corrections_def confirmDti_def registryDocs_def REGISTRY_DOCUMENT_TYPES_def
  overwrite_def writeNames_def setCompany_def setDocuments_def

theorem approved_only_by_decision_witness:
  "\<exists>e e' c body. committed (decide c 30 body e) KycApproved e' \<and> dec_approved body \<and>
     list_all (\<lambda>doc. kyd_id doc \<in> set (dec_registryChecked body)) (registryDocs (liveDocuments 30 e))"
proof -
  let ?d = "company_db KycPending [] [demo_paper 51 ''government_id'' KNeedsReview, demo_paper 52 ''bir_cor'' KNeedsReview]"
  obtain v d' where c: "committed (decide demo_ctx 30 demo_decision ?d) v d'"
    by (simp add: decide_eval company_eval)
  have "\<exists>r' \<in> set (customers d'). cus_id r' = 30 \<and> cus_kycStatus r' = KycApproved"
    unfolding decideD(3)[OF c] by (simp add: company_eval demo_decision_def verdict_def corrections_def)
  then obtain r' where r': "r' \<in> set (customers d')" "cus_kycStatus r' = KycApproved" "cus_id r' = 30" by blast
  have n: "filter (\<lambda>r. cus_id r = cus_id r' \<and> cus_kycStatus r = KycApproved) (customers ?d) = []"
    by (simp add: company_eval)
  have "companyStep\<^sup>*\<^sup>* ?d d'" by (rule r_into_rtranclp[of companyStep, OF companyStep.decision[OF c]])
  from approved_only_by_decision[OF this r'(1,2) n] show ?thesis unfolding r'(3) by blast
qed

text \<open>A decision looks at no paper but those on a registry: a company without any paper is approved.\<close>

lemma approved_without_papers:
  "\<exists>d'. committed (decide demo_ctx 30 demo_decision (company_db KycPending [] [])) KycApproved d'"
  by (simp add: decide_eval company_eval)

text \<open>
  A forecast is fresh and the caller's. What the forecast of a site returns is either what the
  weather service has just answered or an entry no older than its half hour, and only for a site of
  one of the caller's own companies; a failure answers nothing and is never remembered.
\<close>

theorem forecast_fresh_and_own:
  assumes "siteForecast now later c i outlook d cache = (r, cache')"
  shows "(\<forall>days asOf. r = Inr (days, asOf) \<longrightarrow>
      (\<exists>s \<in> set (projectSites d). site_id s = i \<and> site_tenantId s = ctx_tenantId c \<and>
         (\<exists>co \<in> set (customers d). site_customerId s = Some (cus_id co) \<and> cus_userId co = Some (ctx_userId c)) \<and>
         (outlook = Some days \<and> asOf = later \<or>
          (\<exists>hit. cache (forecastKey s) = Some hit \<and> cfc_days hit = days \<and> now - cfc_at hit \<le> FORECAST_TTL_MS)))) \<and>
    (\<forall>k hit. cache' k = Some hit \<longrightarrow> cache k = Some hit \<or> outlook = Some (cfc_days hit) \<and> cfc_at hit = later)"
proof -
  have own: "\<exists>co \<in> set (customers d). site_customerId s = Some (cus_id co) \<and> cus_userId co = Some (ctx_userId c)"
    "s \<in> set (projectSites d)" "site_id s = i" "site_tenantId s = ctx_tenantId c"
    if "ownSite c i (rls (ctx_tenantId c) d) = Inr s" for s
  proof -
    have f: "find (\<lambda>s. site_id s = i \<and> ownsCustomer c (site_customerId s) (rls (ctx_tenantId c) d)) (projectSites (rls (ctx_tenantId c) d)) = Some s"
      using that by (auto simp: ownSite_def split: if_split_asm option.split_asm)
    note D = find_SomeD[OF f]
    show "s \<in> set (projectSites d)" "site_id s = i" "site_tenantId s = ctx_tenantId c" using D by (simp_all add: rls_def)
    show "\<exists>co \<in> set (customers d). site_customerId s = Some (cus_id co) \<and> cus_userId co = Some (ctx_userId c)"
      using D by (cases "site_customerId s") (auto simp: rls_def ownsCustomer_def ownCustomers_def list_ex_iff)
  qed
  show ?thesis
  proof (cases "ownSite c i (rls (ctx_tenantId c) d)")
    case (Inl e)
    then show ?thesis using assms by (auto simp: siteForecast_def)
  next
    case (Inr s)
    note o = own[OF Inr]
    show ?thesis
    proof (cases "cache (forecastKey s)")
      case None
      then show ?thesis using assms o
        by (cases outlook) (auto simp: siteForecast_def Inr readForecastCache_def split: if_split_asm)
    next
      case (Some hit)
      then show ?thesis using assms o
        by (cases outlook) (auto simp: siteForecast_def Inr readForecastCache_def split: if_split_asm)
    qed
  qed
qed

end
