(* ===== verification/Sessions.thy ===== *)
theory Sessions
  imports Common Formula
begin

text \<open>
  Sign-in (\<open>apps/api/src/auth/auth.service.ts\<close>) and rotating refresh tokens
  (\<open>apps/api/src/auth/refresh-token.service.ts\<close>, the lookups of
  \<open>packages/db/src/auth-lookup.ts\<close> and \<open>tenant-register.ts\<close> with the SQL functions they call). An
  operation that opens several transactions is their sequence \<open>andThen\<close>, so what another request
  can do in between is visible. SHA-256, argon2, TOTP and the random values drawn are arguments; a
  signed token is the claims it carries, \<open>None\<close> when its signature or expiry fails.
\<close>

section \<open>Transactions in sequence\<close>

definition andThen :: "(http_error + 'a) \<times> world \<Rightarrow> ('a \<Rightarrow> world \<Rightarrow> (http_error + 'b) \<times> world) \<Rightarrow> (http_error + 'b) \<times> world" where
  "andThen m k = (case m of (Inl e, w) \<Rightarrow> (Inl e, w) | (Inr a, w) \<Rightarrow> k a w)"

lemma andThen_step: "andThen (Inr a, w) k = k a w" and andThen_stop: "andThen (Inl e, w) k = (Inl e, w)"
  by (simp_all add: andThen_def)

section \<open>Refresh tokens\<close>

definition REFRESH_TOKEN_TTL_MS :: int where
  "REFRESH_TOKEN_TTL_MS = 30 * 24 * 60 * 60 * 1000"

definition insertToken :: "time \<Rightarrow> string \<Rightarrow> uuid \<Rightarrow> ctx \<Rightarrow> (db, unit) body" where
  "insertToken now tokenHash familyId c d =
     (if list_ex (\<lambda>r. rtk_tokenHash r = tokenHash) (refreshTokens d)
      then fails (Internal ''refresh_tokens_token_hash_unique'')
      else returns () ((fresh d)\<lparr>refreshTokens := refreshTokens d @
        [\<lparr>rtk_id = nextId d, rtk_tenantId = ctx_tenantId c, rtk_userId = ctx_userId c, rtk_familyId = familyId,
          rtk_tokenHash = tokenHash, rtk_parentId = None, rtk_status = TokActive,
          rtk_expiresAt = now + REFRESH_TOKEN_TTL_MS, rtk_rotatedAt = None\<rparr>]\<rparr>))"

definition issue :: "(string \<Rightarrow> string) \<Rightarrow> time \<Rightarrow> string \<Rightarrow> uuid \<Rightarrow> ctx \<Rightarrow> world \<Rightarrow> (http_error + unit) \<times> world" where
  "issue sha now raw familyId c w = withTenantTx c (insertToken now (sha raw) familyId c) w"

definition findRefreshToken :: "string \<Rightarrow> db \<Rightarrow> refresh_token option" where
  "findRefreshToken tokenHash d =
     find (\<lambda>r. rtk_tokenHash r = tokenHash \<and>
       list_ex (\<lambda>t. ten_id t = rtk_tenantId r \<and> ten_status t \<noteq> ''suspended'') (tenants d)) (refreshTokens d)"

definition BOOTSTRAP_ROLE :: string where
  "BOOTSTRAP_ROLE = ''system''"

definition roleNameOf :: "user \<Rightarrow> db \<Rightarrow> string option" where
  "roleNameOf u d = map_option rol_name (find (\<lambda>x. rol_id x = usr_roleId u) (roles d))"

definition currentUser :: "uuid \<Rightarrow> (db, string \<times> string) body" where
  "currentUser userId d =
     (case find (\<lambda>r. usr_id r = userId \<and> roleNameOf r d \<noteq> None) (users d) of
        None \<Rightarrow> fails (Unauthorized ''invalid_refresh_token'')
      | Some u \<Rightarrow> returns (the (roleNameOf u d), usr_status u) d)"

definition resolveCurrentUser :: "uuid \<Rightarrow> uuid \<Rightarrow> world \<Rightarrow> (http_error + string \<times> string) \<times> world" where
  "resolveCurrentUser tenantId userId w =
     withTenantTx \<lparr>ctx_tenantId = tenantId, ctx_userId = userId, ctx_role = BOOTSTRAP_ROLE\<rparr> (currentUser userId) w"

definition setTokens :: "(refresh_token \<Rightarrow> bool) \<Rightarrow> (refresh_token \<Rightarrow> refresh_token) \<Rightarrow> (db, unit) body" where
  "setTokens p f d = returns () (d\<lparr>refreshTokens := updw p f (refreshTokens d)\<rparr>)"

definition revokeFamily :: "ctx \<Rightarrow> uuid \<Rightarrow> world \<Rightarrow> (http_error + unit) \<times> world" where
  "revokeFamily c familyId w =
     withTenantTx c (setTokens (\<lambda>r. rtk_familyId r = familyId) (rtk_status_update (\<lambda>_. TokRevoked))) w"

definition revokeAllForUser :: "ctx \<Rightarrow> uuid \<Rightarrow> world \<Rightarrow> (http_error + unit) \<times> world" where
  "revokeAllForUser c targetUserId w =
     withTenantTx c (setTokens (\<lambda>r. rtk_userId r = targetUserId) (rtk_status_update (\<lambda>_. TokRevoked))) w"

text \<open>\<open>rotate\<close> up to its guards, and from the point where it starts to write.\<close>

definition rotateChecks :: "(string \<Rightarrow> string) \<Rightarrow> time \<Rightarrow> string \<Rightarrow> world \<Rightarrow> (http_error + refresh_token \<times> ctx) \<times> world" where
  "rotateChecks sha now raw w =
     (case findRefreshToken (sha raw) (data w) of
        None \<Rightarrow> (Inl (Unauthorized ''invalid_refresh_token''), w)
      | Some existing \<Rightarrow>
          andThen (resolveCurrentUser (rtk_tenantId existing) (rtk_userId existing) w) (\<lambda>(role, status) w1.
            let c = \<lparr>ctx_tenantId = rtk_tenantId existing, ctx_userId = rtk_userId existing, ctx_role = role\<rparr>
            in if status \<noteq> ''active''
               then andThen (revokeFamily c (rtk_familyId existing) w1) (\<lambda>_ w2. (Inl (Unauthorized ''user_inactive''), w2))
               else if rtk_status existing \<noteq> TokActive
               then andThen (revokeFamily c (rtk_familyId existing) w1) (\<lambda>_ w2.
                      andThen (withTenantTx c (\<lambda>d. returns () (audit c ''refresh_reuse_detected'' ''refresh_tokens'' (rtk_id existing) d)) w2)
                        (\<lambda>_ w3. (Inl (Unauthorized ''refresh_reuse_detected''), w3)))
               else if rtk_expiresAt existing < now then (Inl (Unauthorized ''refresh_token_expired''), w1)
               else (Inr (existing, c), w1)))"

definition rotateFinish :: "(string \<Rightarrow> string) \<Rightarrow> time \<Rightarrow> string \<Rightarrow> refresh_token \<Rightarrow> ctx \<Rightarrow> world \<Rightarrow> (http_error + ctx) \<times> world" where
  "rotateFinish sha now newRaw existing c w =
     andThen (withTenantTx c (setTokens (\<lambda>r. rtk_id r = rtk_id existing)
         (\<lambda>r. r\<lparr>rtk_status := TokRotated, rtk_rotatedAt := Some now\<rparr>)) w) (\<lambda>_ w1.
       andThen (issue sha now newRaw (rtk_familyId existing) c w1) (\<lambda>_ w2.
         andThen (withTenantTx c (setTokens (\<lambda>r. rtk_tokenHash r = sha newRaw)
             (rtk_parentId_update (\<lambda>_. Some (rtk_id existing)))) w2) (\<lambda>_ w3. (Inr c, w3))))"

definition rotate :: "(string \<Rightarrow> string) \<Rightarrow> time \<Rightarrow> string \<Rightarrow> string \<Rightarrow> world \<Rightarrow> (http_error + ctx) \<times> world" where
  "rotate sha now raw newRaw w =
     andThen (rotateChecks sha now raw w) (\<lambda>(existing, c). rotateFinish sha now newRaw existing c)"

section \<open>Sign-in\<close>

text \<open>\<open>toLowerCase\<close> of the code units up to 255.\<close>

definition toLower :: "char \<Rightarrow> char" where
  "toLower c = (if 192 \<le> charCode c \<and> charCode c \<le> 222 \<and> charCode c \<noteq> 215 then char_of (charCode c + 32) else lowerCase c)"

definition LOGIN_LOCKOUT_THRESHOLD :: nat where
  "LOGIN_LOCKOUT_THRESHOLD = 5"

definition LOGIN_LOCKOUT_WINDOW_MS :: int where
  "LOGIN_LOCKOUT_WINDOW_MS = 15 * 60000"

definition TWO_FA_ENFORCED_ROLE :: string where
  "TWO_FA_ENFORCED_ROLE = ''timekeeper''"

record attempt_state =
  att_failCount :: nat
  att_windowStart :: time

type_synonym attempts = "string \<rightharpoonup> attempt_state"

definition assertNotLockedOut :: "time \<Rightarrow> string \<Rightarrow> attempts \<Rightarrow> http_error option \<times> attempts" where
  "assertNotLockedOut now email m =
     (case m email of
        None \<Rightarrow> (None, m)
      | Some state \<Rightarrow>
          let elapsedMs = now - att_windowStart state
          in if LOGIN_LOCKOUT_WINDOW_MS < elapsedMs then (None, m(email := None))
             else if LOGIN_LOCKOUT_THRESHOLD \<le> att_failCount state then (Some (TooMany ''login_locked''), m)
             else (None, m))"

definition recordLoginFailure :: "time \<Rightarrow> string \<Rightarrow> attempts \<Rightarrow> attempts" where
  "recordLoginFailure now email m =
     (case m email of
        None \<Rightarrow> m(email \<mapsto> \<lparr>att_failCount = 1, att_windowStart = now\<rparr>)
      | Some state \<Rightarrow>
          if LOGIN_LOCKOUT_WINDOW_MS < now - att_windowStart state
          then m(email \<mapsto> \<lparr>att_failCount = 1, att_windowStart = now\<rparr>)
          else m(email \<mapsto> state\<lparr>att_failCount := Suc (att_failCount state)\<rparr>))"

definition findUserByEmail :: "string \<Rightarrow> string \<Rightarrow> db \<Rightarrow> (user \<times> string) option" where
  "findUserByEmail email slug d =
     (case find (\<lambda>u. usr_email u = email \<and> roleNameOf u d \<noteq> None \<and>
             list_ex (\<lambda>t. ten_id t = usr_tenantId u \<and> ten_slug t = slug \<and> ten_status t \<noteq> ''suspended'') (tenants d)) (users d) of
        None \<Rightarrow> None
      | Some u \<Rightarrow> Some (u, the (roleNameOf u d)))"

text \<open>Access and refresh token of a session, or the challenge a second factor has to answer.\<close>

datatype session = Tokens ctx | TwoFaChallenge ctx

definition getTotpSecret :: "ctx \<Rightarrow> world \<Rightarrow> (http_error + string option) \<times> world" where
  "getTotpSecret c w =
     withTenantTx c (\<lambda>d. returns (Option.bind (find (\<lambda>u. usr_id u = ctx_userId c) (users d)) usr_totpSecret) d) w"

definition issueTokens :: "(string \<Rightarrow> string) \<Rightarrow> time \<Rightarrow> string \<Rightarrow> uuid \<Rightarrow> ctx \<Rightarrow> world \<Rightarrow> (http_error + session) \<times> world" where
  "issueTokens sha now raw familyId c w = andThen (issue sha now raw familyId c w) (\<lambda>_ w1. (Inr (Tokens c), w1))"

text \<open>\<open>refresh\<close>: the rotation, with an access token for the user's present role.\<close>

definition refreshSession :: "(string \<Rightarrow> string) \<Rightarrow> time \<Rightarrow> string \<Rightarrow> string \<Rightarrow> world \<Rightarrow> (http_error + session) \<times> world" where
  "refreshSession sha now raw newRaw w = andThen (rotate sha now raw newRaw w) (\<lambda>c w1. (Inr (Tokens c), w1))"

record drawn =
  drw_raw :: string
  drw_familyId :: uuid

definition login ::
  "(string \<Rightarrow> string) \<Rightarrow> (string \<Rightarrow> string \<Rightarrow> bool) \<Rightarrow> time \<Rightarrow> time \<Rightarrow> drawn \<Rightarrow> string \<Rightarrow> string \<Rightarrow> string \<Rightarrow>
   attempts \<Rightarrow> world \<Rightarrow> (http_error + session) \<times> attempts \<times> world" where
  "login sha passwordMatches t1 t2 seed email password slug m w =
     (let normalizedEmail = map toLower email
      in case assertNotLockedOut t1 normalizedEmail m of
           (Some e, m1) \<Rightarrow> (Inl e, m1, w)
         | (None, m1) \<Rightarrow>
             let refused = (Inl (Unauthorized ''invalid_credentials''), recordLoginFailure t2 normalizedEmail m1, w)
             in (case findUserByEmail normalizedEmail slug (data w) of
                   None \<Rightarrow> refused
                 | Some (u, role) \<Rightarrow>
                     if usr_status u \<noteq> ''active'' then refused
                     else if \<not> passwordMatches (usr_passwordHash u) password then refused
                     else
                       let m2 = m1(normalizedEmail := None);
                           c = \<lparr>ctx_tenantId = usr_tenantId u, ctx_userId = usr_id u, ctx_role = role\<rparr>;
                           tokens = (\<lambda>w1. issueTokens sha t2 (drw_raw seed) (drw_familyId seed) c w1);
                           (r, w') = (if role = TWO_FA_ENFORCED_ROLE
                             then andThen (getTotpSecret c w) (\<lambda>secret w1.
                                    if secret \<noteq> None then (Inr (TwoFaChallenge c), w1) else tokens w1)
                             else tokens w)
                       in (r, m2, w')))"

definition verifyTwoFa ::
  "(string \<Rightarrow> string) \<Rightarrow> (string \<Rightarrow> string \<Rightarrow> bool) \<Rightarrow> time \<Rightarrow> drawn \<Rightarrow> ctx option \<Rightarrow> string \<Rightarrow> world \<Rightarrow> (http_error + session) \<times> world" where
  "verifyTwoFa sha codeValid now seed challenge code w =
     (case challenge of
        None \<Rightarrow> (Inl (Unauthorized ''invalid_2fa_token''), w)
      | Some c \<Rightarrow>
          andThen (getTotpSecret c w) (\<lambda>secret w1.
            case nonEmpty secret of
              None \<Rightarrow> (Inl (Unauthorized ''invalid_totp_code''), w1)
            | Some s \<Rightarrow> if codeValid code s then issueTokens sha now (drw_raw seed) (drw_familyId seed) c w1
                else (Inl (Unauthorized ''invalid_totp_code''), w1)))"

definition enrollConfirm :: "(string \<Rightarrow> string \<Rightarrow> bool) \<Rightarrow> ctx \<Rightarrow> string \<Rightarrow> string \<Rightarrow> world \<Rightarrow> (http_error + unit) \<times> world" where
  "enrollConfirm codeValid c secret code w =
     (if \<not> codeValid code secret then (Inl (Unauthorized ''invalid_totp_code''), w)
      else withTenantTx c (\<lambda>d. returns () (d\<lparr>users :=
             updw (\<lambda>u. usr_id u = ctx_userId c) (usr_totpSecret_update (\<lambda>_. Some secret)) (users d)\<rparr>)) w)"

definition defaultPrefs :: notification_prefs where
  "defaultPrefs = \<lparr>prf_email = True, prf_sms = False, prf_inApp = True\<rparr>"

text \<open>
  \<open>customer_register\<close>: a definer function, it reads and writes the users of every tenant.
\<close>

definition registerCustomerUser :: "string \<Rightarrow> string \<Rightarrow> string \<Rightarrow> db \<Rightarrow> http_error + ctx \<times> db" where
  "registerCustomerUser slug email passwordHash d =
     (case find (\<lambda>t. ten_slug t = slug \<and> ten_status t = ''active'') (tenants d) of
        None \<Rightarrow> Inl (NotFound ''tenant_not_found'')
      | Some t \<Rightarrow>
          if list_ex (\<lambda>u. map toLower (usr_email u) = map toLower email) (users d) then Inl (Conflict ''email_taken'')
          else (case find (\<lambda>r. rol_name r = ''customer'') (roles d) of
                  None \<Rightarrow> Inl (Internal ''customer_role_not_seeded'')
                | Some r \<Rightarrow>
                    Inr (\<lparr>ctx_tenantId = ten_id t, ctx_userId = nextId d, ctx_role = ''customer''\<rparr>,
                      (fresh d)\<lparr>users := users d @
                        [\<lparr>usr_id = nextId d, usr_tenantId = ten_id t, usr_roleId = rol_id r, usr_email = map toLower email,
                          usr_passwordHash = passwordHash, usr_status = ''active'', usr_totpSecret = None,
                          usr_firstName = None, usr_middleName = None, usr_lastName = None, usr_phone = None, usr_address = None,
                          usr_avatarKey = None, usr_notificationPrefs = defaultPrefs\<rparr>]\<rparr>)))"

definition registerCustomer ::
  "(string \<Rightarrow> string) \<Rightarrow> time \<Rightarrow> drawn \<Rightarrow> string \<Rightarrow> string \<Rightarrow> string \<Rightarrow> world \<Rightarrow> (http_error + session) \<times> world" where
  "registerCustomer sha now seed email passwordHash slug w =
     (case registerCustomerUser slug (map toLower email) passwordHash (data w) of
        Inl e \<Rightarrow> (Inl e, w)
      | Inr (c, d) \<Rightarrow> issueTokens sha now (drw_raw seed) (drw_familyId seed) c (w\<lparr>data := d\<rparr>))"

definition forgotPassword :: "string \<Rightarrow> string \<Rightarrow> world \<Rightarrow> (http_error + unit) \<times> world" where
  "forgotPassword email slug w =
     (case findUserByEmail (map toLower email) slug (data w) of
        Some (u, _) \<Rightarrow>
          if usr_status u = ''active''
          then withTenantTx \<lparr>ctx_tenantId = usr_tenantId u, ctx_userId = usr_id u, ctx_role = BOOTSTRAP_ROLE\<rparr>
                 (\<lambda>d. returns () (notifyStaff (usr_tenantId u) ''password_reset_requested''
                    [(''email'', JStr (map toLower email)), (''user_id'', JId (usr_id u))] d)) w
          else (Inr (), w)
      | None \<Rightarrow> (Inr (), w))"

section \<open>Activation\<close>

record activation_claims =
  act_sub :: uuid
  act_tenantId :: uuid
  act_pwv :: string

definition hashForActivation :: "(string \<Rightarrow> string) \<Rightarrow> string \<Rightarrow> string" where
  "hashForActivation sha passwordHash = take 32 (sha passwordHash)"

definition signActivationToken :: "(string \<Rightarrow> string) \<Rightarrow> uuid \<Rightarrow> uuid \<Rightarrow> string \<Rightarrow> activation_claims" where
  "signActivationToken sha tenantId userId passwordHash =
     \<lparr>act_sub = userId, act_tenantId = tenantId, act_pwv = hashForActivation sha passwordHash\<rparr>"

definition setUser :: "uuid \<Rightarrow> (user \<Rightarrow> user) \<Rightarrow> db \<Rightarrow> db" where
  "setUser i f d = d\<lparr>users := updw (\<lambda>u. usr_id u = i) f (users d)\<rparr>"

definition activateUser :: "(string \<Rightarrow> string) \<Rightarrow> activation_claims \<Rightarrow> string \<Rightarrow> (db, unit) body" where
  "activateUser sha payload passwordHash d =
     (case find (\<lambda>u. usr_id u = act_sub payload) (users d) of
        None \<Rightarrow> fails (Unauthorized ''invalid_activation_token'')
      | Some u \<Rightarrow>
          if usr_status u \<noteq> ''invited'' then fails (Unauthorized ''invalid_activation_token'')
          else if hashForActivation sha (usr_passwordHash u) \<noteq> act_pwv payload
          then fails (Unauthorized ''invalid_activation_token'')
          else returns () (setUser (act_sub payload) (\<lambda>u. u\<lparr>usr_passwordHash := passwordHash, usr_status := ''active''\<rparr>) d))"

text \<open>
  \<open>tenants_activate_onboarding\<close>; whether a tenant has an approved application is an argument, since
  the applications are kept by the platform console.
\<close>

definition activateOnboardingTenant :: "(uuid \<Rightarrow> bool) \<Rightarrow> uuid \<Rightarrow> db \<Rightarrow> db" where
  "activateOnboardingTenant hasApproved tenantId d =
     d\<lparr>tenants := updw (\<lambda>t. ten_id t = tenantId \<and> ten_status t = ''onboarding'' \<and> hasApproved (ten_id t))
        (ten_status_update (\<lambda>_. ''active'')) (tenants d)\<rparr>"

definition activate ::
  "(string \<Rightarrow> string) \<Rightarrow> (uuid \<Rightarrow> bool) \<Rightarrow> activation_claims option \<Rightarrow> string \<Rightarrow> world \<Rightarrow> (http_error + unit) \<times> world" where
  "activate sha hasApproved claims passwordHash w =
     (case claims of
        None \<Rightarrow> (Inl (Unauthorized ''invalid_activation_token''), w)
      | Some payload \<Rightarrow>
          andThen (withTenantTx \<lparr>ctx_tenantId = act_tenantId payload, ctx_userId = act_sub payload, ctx_role = BOOTSTRAP_ROLE\<rparr>
              (activateUser sha payload passwordHash) w)
            (\<lambda>_ w1. (Inr (), w1\<lparr>data := activateOnboardingTenant hasApproved (act_tenantId payload) (data w1)\<rparr>)))"

section \<open>At most one live token of a family\<close>

definition activeIn :: "uuid \<Rightarrow> refresh_token list \<Rightarrow> nat" where
  "activeIn fam rs = length (filter (\<lambda>r. rtk_status r = TokActive \<and> rtk_familyId r = fam) rs)"

definition families :: "db \<Rightarrow> uuid set" where
  "families d = rtk_familyId ` set (refreshTokens d)"

lemma activeIn_append [simp]: "activeIn fam (xs @ ys) = activeIn fam xs + activeIn fam ys"
  by (simp add: activeIn_def)

lemma activeIn_Cons: "activeIn fam (r # rs) = (if rtk_status r = TokActive \<and> rtk_familyId r = fam then 1 else 0) + activeIn fam rs"
  by (simp add: activeIn_def)

lemma one_if_mono: "(P \<Longrightarrow> Q) \<Longrightarrow> (if P then 1 else 0) \<le> (if Q then 1 else (0 :: nat))"
  by simp

lemma activeIn_updw_le:
  assumes "\<And>r. rtk_familyId (f r) = rtk_familyId r" "\<And>r. rtk_status (f r) = TokActive \<Longrightarrow> rtk_status r = TokActive"
  shows "activeIn fam (updw p f rs) \<le> activeIn fam rs"
proof (induction rs)
  case (Cons r rs)
  let ?live = "\<lambda>x. rtk_status x = TokActive \<and> rtk_familyId x = fam"
  have h: "?live r" if "?live (if p r then f r else r)"
    using that assms(1)[of r] assms(2)[of r] by (auto split: if_split_asm)
  from add_mono[OF one_if_mono[OF h] Cons] show ?case unfolding updw_Cons activeIn_Cons .
qed simp

lemma activeIn_updw_less:
  assumes "r \<in> set rs" "p r" "rtk_status r = TokActive" "rtk_familyId r = fam"
    and "\<And>r. rtk_familyId (f r) = rtk_familyId r \<and> rtk_status (f r) \<noteq> TokActive"
  shows "activeIn fam (updw p f rs) < activeIn fam rs"
proof -
  obtain xs ys where s: "rs = xs @ r # ys" using assms(1) by (meson split_list)
  have le: "activeIn fam (updw p f zs) \<le> activeIn fam zs" for zs
    by (rule activeIn_updw_le) (use assms(5) in blast)+
  have "activeIn fam (updw p f [r]) = 0" "activeIn fam [r] = 1"
    using assms(2-5) by (simp_all add: activeIn_def)
  with le[of xs] le[of ys] show ?thesis unfolding s
    by (simp add: activeIn_def assms(2-5))
qed

lemma activeIn_0_iff: "activeIn fam rs = 0 \<longleftrightarrow> (\<forall>r \<in> set rs. rtk_status r = TokActive \<longrightarrow> rtk_familyId r \<noteq> fam)"
  by (auto simp: activeIn_def filter_empty_conv)

lemma tokens_split: "activeIn fam (refreshTokens (hidden t d)) + activeIn fam (refreshTokens (rls t d)) = activeIn fam (refreshTokens d)"
proof -
  have "activeIn fam (filter (\<lambda>r. rtk_tenantId r \<noteq> t) rs) + activeIn fam (filter (\<lambda>r. rtk_tenantId r = t) rs) = activeIn fam rs" for rs
    unfolding activeIn_def by (induction rs) simp_all
  then show ?thesis by (simp add: hidden_def rls_def)
qed

lemma tokens_merge: "refreshTokens (merge h v) = refreshTokens h @ refreshTokens v"
  by (simp add: merge_def)

text \<open>A transaction either leaves the tables or commits what its body did to the tenant's rows.\<close>

lemma tx_cases:
  obtains (rolled_back) "data (snd (withTenantTx c body w)) = data w" "\<exists>e. fst (withTenantTx c body w) = Inl e"
  | (commits) a v where "fst (withTenantTx c body w) = Inr a" "committed (body (rls (ctx_tenantId c) (data w))) a v"
      "data (snd (withTenantTx c body w)) = merge (hidden (ctx_tenantId c) (data w)) v"
proof (cases "fst (withTenantTx c body w)")
  case (Inl e)
  with withTenantTx_error[OF Inl] rolled_back show thesis by blast
next
  case (Inr a)
  then obtain w1 where "withTenantTx c body w = (Inr a, w1)" by (cases "withTenantTx c body w") auto
  from withTenantTx_commitD[OF this] commits[of a] this show thesis by (metis fst_conv snd_conv)
qed

lemma tx_active:
  assumes "\<And>a v. committed (body (rls (ctx_tenantId c) (data w))) a v \<Longrightarrow>
      activeIn fam (refreshTokens v) \<le> activeIn fam (refreshTokens (rls (ctx_tenantId c) (data w))) + k"
  shows "activeIn fam (refreshTokens (data (snd (withTenantTx c body w)))) \<le> activeIn fam (refreshTokens (data w)) + k"
proof (cases rule: tx_cases[of c body w])
  case (commits a v)
  show ?thesis unfolding commits(3) tokens_merge
    using assms[OF commits(2)] tokens_split[of fam "ctx_tenantId c" "data w"] by simp
qed simp

lemma tx_families:
  assumes "\<And>a v. committed (body (rls (ctx_tenantId c) (data w))) a v \<Longrightarrow>
      families (rls (ctx_tenantId c) (data w)) \<subseteq> families v \<and> families v \<subseteq> families (rls (ctx_tenantId c) (data w)) \<union> F"
  shows "families (data w) \<subseteq> families (data (snd (withTenantTx c body w)))"
    and "families (data (snd (withTenantTx c body w))) \<subseteq> families (data w) \<union> F"
proof -
  have s: "families (data w) = families (hidden (ctx_tenantId c) (data w)) \<union> families (rls (ctx_tenantId c) (data w))"
    by (auto simp: families_def hidden_def rls_def)
  have "families (data w) \<subseteq> families (data (snd (withTenantTx c body w))) \<and>
      families (data (snd (withTenantTx c body w))) \<subseteq> families (data w) \<union> F"
  proof (cases rule: tx_cases[of c body w])
    case (commits a v)
    have m: "families (merge (hidden (ctx_tenantId c) (data w)) v) = families (hidden (ctx_tenantId c) (data w)) \<union> families v"
      by (auto simp: families_def tokens_merge)
    show ?thesis unfolding commits(3) m s using assms[OF commits(2)] by blast
  qed auto
  then show "families (data w) \<subseteq> families (data (snd (withTenantTx c body w)))"
    "families (data (snd (withTenantTx c body w))) \<subseteq> families (data w) \<union> F" by blast+
qed

text \<open>
  What an operation may do to the tokens: no family gains a live token but \<open>g\<close>, which gains one at
  most, and no family disappears.
\<close>

definition liveTokens :: "uuid \<Rightarrow> world \<Rightarrow> nat" where
  "liveTokens fam w = activeIn fam (refreshTokens (data w))"

definition grows :: "uuid option \<Rightarrow> world \<Rightarrow> world \<Rightarrow> bool" where
  "grows g w w' \<longleftrightarrow> (\<forall>fam. liveTokens fam w' \<le> liveTokens fam w + (if g = Some fam then 1 else 0)) \<and>
     families (data w) \<subseteq> families (data w')"

lemma grows_refl [simp]: "grows g w w"
  by (simp add: grows_def)

lemma growsD:
  "grows g w w' \<Longrightarrow> liveTokens fam w' \<le> liveTokens fam w + (if g = Some fam then 1 else 0)"
  "grows g w w' \<Longrightarrow> families (data w) \<subseteq> families (data w')"
  by (simp_all add: grows_def)

lemma growsI:
  "(\<And>fam. liveTokens fam w' \<le> liveTokens fam w + (if g = Some fam then 1 else 0)) \<Longrightarrow>
   families (data w) \<subseteq> families (data w') \<Longrightarrow> grows g w w'"
  by (simp add: grows_def)

lemma grows_compose:
  assumes "grows g w w1" "grows h w1 w2"
    and "\<And>fam. (if g = Some fam then 1 else 0) + (if h = Some fam then 1 else 0) \<le> (if k = Some fam then 1 else (0 :: nat))"
  shows "grows k w w2"
proof (rule growsI)
  fix fam
  show "liveTokens fam w2 \<le> liveTokens fam w + (if k = Some fam then 1 else 0)"
    using growsD(1)[OF assms(1), of fam] growsD(1)[OF assms(2), of fam] assms(3)[of fam] by linarith
next
  show "families (data w) \<subseteq> families (data w2)" using growsD(2)[OF assms(1)] growsD(2)[OF assms(2)] by (rule subset_trans)
qed

lemma grows_trans: "grows None w w1 \<Longrightarrow> grows g w1 w2 \<Longrightarrow> grows g w w2"
  by (erule grows_compose, assumption) simp

lemma grows_trans': "grows g w w1 \<Longrightarrow> grows None w1 w2 \<Longrightarrow> grows g w w2"
  by (erule grows_compose, assumption) simp

lemma grows_weaken: "grows None w w' \<Longrightarrow> grows g w w'"
  by (erule grows_trans) simp

lemma grows_andThen:
  "grows None w (snd m) \<Longrightarrow> (\<And>a w1. m = (Inr a, w1) \<Longrightarrow> grows g w1 (snd (k a w1))) \<Longrightarrow> grows g w (snd (andThen m k))"
  by (cases m; cases "fst m") (auto simp: andThen_def intro: grows_weaken grows_trans)

lemma grows_andThen':
  "grows g w (snd m) \<Longrightarrow> (\<And>a w1. m = (Inr a, w1) \<Longrightarrow> grows None w1 (snd (k a w1))) \<Longrightarrow> grows g w (snd (andThen m k))"
  by (cases m; cases "fst m") (auto simp: andThen_def intro: grows_trans')

lemma grows_tx:
  assumes "\<And>a v. committed (body (rls (ctx_tenantId c) (data w))) a v \<Longrightarrow>
      (\<exists>p f. refreshTokens v = updw p f (refreshTokens (rls (ctx_tenantId c) (data w))) \<and>
        (\<forall>r. rtk_familyId (f r) = rtk_familyId r) \<and> (\<forall>r. rtk_status (f r) = TokActive \<longrightarrow> rtk_status r = TokActive))"
  shows "grows None w (snd (withTenantTx c body w))"
proof -
  have "liveTokens fam (snd (withTenantTx c body w)) \<le> liveTokens fam w" for fam
  proof -
    have "activeIn fam (refreshTokens (data (snd (withTenantTx c body w)))) \<le> activeIn fam (refreshTokens (data w)) + 0"
    proof (rule tx_active)
      fix a v assume "committed (body (rls (ctx_tenantId c) (data w))) a v"
      from assms[OF this] obtain p f where f: "refreshTokens v = updw p f (refreshTokens (rls (ctx_tenantId c) (data w)))"
        "\<And>r. rtk_familyId (f r) = rtk_familyId r" "\<And>r. rtk_status (f r) = TokActive \<Longrightarrow> rtk_status r = TokActive" by blast
      from activeIn_updw_le[OF f(2,3)] show "activeIn fam (refreshTokens v) \<le> activeIn fam (refreshTokens (rls (ctx_tenantId c) (data w))) + 0"
        by (simp add: f(1))
    qed
    then show ?thesis by (simp add: liveTokens_def)
  qed
  moreover have "families (data w) \<subseteq> families (data (snd (withTenantTx c body w)))"
  proof (rule tx_families(1)[where F = "{}"])
    fix a v assume "committed (body (rls (ctx_tenantId c) (data w))) a v"
    from assms[OF this] obtain p f where f: "refreshTokens v = updw p f (refreshTokens (rls (ctx_tenantId c) (data w)))"
      "\<And>r. rtk_familyId (f r) = rtk_familyId r" by blast
    have "map rtk_familyId (refreshTokens v) = map rtk_familyId (refreshTokens (rls (ctx_tenantId c) (data w)))"
      unfolding f(1) by (rule map_updw) (rule f(2))
    then have "families v = families (rls (ctx_tenantId c) (data w))" unfolding families_def by (metis list.set_map)
    then show "families (rls (ctx_tenantId c) (data w)) \<subseteq> families v \<and> families v \<subseteq> families (rls (ctx_tenantId c) (data w)) \<union> {}"
      by simp
  qed
  ultimately show ?thesis by (simp add: grows_def)
qed

lemma grows_tx_same:
  assumes "\<And>a v. committed (body (rls (ctx_tenantId c) (data w))) a v \<Longrightarrow> refreshTokens v = refreshTokens (rls (ctx_tenantId c) (data w))"
  shows "grows None w (snd (withTenantTx c body w))"
proof (rule grows_tx)
  fix a v assume "committed (body (rls (ctx_tenantId c) (data w))) a v"
  from assms[OF this] show "\<exists>p f. refreshTokens v = updw p f (refreshTokens (rls (ctx_tenantId c) (data w))) \<and>
        (\<forall>r. rtk_familyId (f r) = rtk_familyId r) \<and> (\<forall>r. rtk_status (f r) = TokActive \<longrightarrow> rtk_status r = TokActive)"
    by (intro exI[of _ "\<lambda>_. False"] exI[of _ id]) (simp add: updw_id)
qed

lemma grows_setTokens:
  assumes "\<And>r. rtk_familyId (f r) = rtk_familyId r" "\<And>r. rtk_status (f r) = TokActive \<Longrightarrow> rtk_status r = TokActive"
  shows "grows None w (snd (withTenantTx c (setTokens p f) w))"
proof (rule grows_tx)
  fix a v assume "committed (setTokens p f (rls (ctx_tenantId c) (data w))) a v"
  then have "refreshTokens v = updw p f (refreshTokens (rls (ctx_tenantId c) (data w)))" by (auto simp: setTokens_def)
  with assms show "\<exists>p f. refreshTokens v = updw p f (refreshTokens (rls (ctx_tenantId c) (data w))) \<and>
        (\<forall>r. rtk_familyId (f r) = rtk_familyId r) \<and> (\<forall>r. rtk_status (f r) = TokActive \<longrightarrow> rtk_status r = TokActive)"
    by (intro exI[of _ p] exI[of _ f]) blast
qed

lemma grows_issue: "grows (Some g) w (snd (issue sha now raw g c w))"
proof -
  have "activeIn fam (refreshTokens (data (snd (issue sha now raw g c w)))) \<le> activeIn fam (refreshTokens (data w)) + (if g = fam then 1 else 0)" for fam
    unfolding issue_def by (rule tx_active) (auto simp: insertToken_def activeIn_def split: if_split_asm)
  moreover have "families (data w) \<subseteq> families (data (snd (issue sha now raw g c w)))"
    unfolding issue_def by (rule tx_families(1)[where F = "{g}"]) (auto simp: insertToken_def families_def fresh_def split: if_split_asm)
  ultimately show ?thesis by (simp add: grows_def liveTokens_def)
qed

lemma grows_issueTokens: "grows (Some (drw_familyId s)) w (snd (issueTokens sha now (drw_raw s) (drw_familyId s) c w))"
  unfolding issueTokens_def by (rule grows_andThen'[OF grows_issue]) simp

lemma refresh_rotates: "snd (refreshSession sha now raw newRaw w) = snd (rotate sha now raw newRaw w)"
  by (auto simp: refreshSession_def andThen_def split: prod.split sum.split)

lemma grows_getTotpSecret: "grows None w (snd (getTotpSecret c w))"
  unfolding getTotpSecret_def by (rule grows_tx_same) simp

lemma tokens_readonly:
  assumes "\<And>a v. committed (body (rls (ctx_tenantId c) (data w))) a v \<Longrightarrow> refreshTokens v = refreshTokens (rls (ctx_tenantId c) (data w))"
  shows "set (refreshTokens (data (snd (withTenantTx c body w)))) = set (refreshTokens (data w))"
proof (cases rule: tx_cases[of c body w])
  case (commits a v)
  show ?thesis unfolding commits(3) tokens_merge
    using assms[OF commits(2)] by (auto simp: hidden_def rls_def)
qed simp

lemma currentUser_reads: "committed (currentUser u d) a v \<Longrightarrow> v = d"
  by (auto simp: currentUser_def split: option.split_asm)

lemma grows_resolve: "grows None w (snd (resolveCurrentUser t u w))"
  unfolding resolveCurrentUser_def by (rule grows_tx_same) (auto dest: currentUser_reads)

lemma grows_revokeFamily: "grows None w (snd (revokeFamily c f w))"
  unfolding revokeFamily_def by (rule grows_setTokens) simp_all

lemma grows_revokeAll: "grows None w (snd (revokeAllForUser c u w))"
  unfolding revokeAllForUser_def by (rule grows_setTokens) simp_all

lemma grows_audit: "grows None w (snd (withTenantTx c (\<lambda>d. returns () (audit c a e i d)) w))"
  by (rule grows_tx_same) (auto simp: audit_def)

lemma grows_rotateChecks: "grows None w (snd (rotateChecks sha now raw w))"
proof (cases "findRefreshToken (sha raw) (data w)")
  case (Some existing)
  show ?thesis unfolding rotateChecks_def Some option.case
    by (rule grows_andThen[OF grows_resolve])
      (auto simp: Let_def split: prod.split intro!: grows_andThen grows_revokeFamily grows_audit)
qed (simp add: rotateChecks_def)

lemma rotateChecksD:
  assumes "rotateChecks sha now raw w = (Inr (existing, c), w1)"
  shows "findRefreshToken (sha raw) (data w) = Some existing" "rtk_status existing = TokActive"
    "ctx_tenantId c = rtk_tenantId existing" "existing \<in> set (refreshTokens (data w1))"
proof -
  obtain e where e: "findRefreshToken (sha raw) (data w) = Some e"
    using assms by (auto simp: rotateChecks_def split: option.split_asm)
  obtain role status w0 where r: "resolveCurrentUser (rtk_tenantId e) (rtk_userId e) w = (Inr (role, status), w0)"
    using assms by (cases "resolveCurrentUser (rtk_tenantId e) (rtk_userId e) w"; cases "fst (resolveCurrentUser (rtk_tenantId e) (rtk_userId e) w)")
      (auto simp: rotateChecks_def e andThen_def)
  have s: "existing = e \<and> rtk_status e = TokActive \<and> ctx_tenantId c = rtk_tenantId e \<and> w1 = w0"
    using assms by (auto simp: rotateChecks_def e r andThen_def Let_def split: if_split_asm prod.split_asm sum.split_asm)
  have "set (refreshTokens (data w0)) = set (refreshTokens (data w))"
    using tokens_readonly[of "currentUser (rtk_userId e)" "\<lparr>ctx_tenantId = rtk_tenantId e, ctx_userId = rtk_userId e, ctx_role = BOOTSTRAP_ROLE\<rparr>" w] r
    by (auto simp: resolveCurrentUser_def dest: currentUser_reads)
  moreover have "e \<in> set (refreshTokens (data w))" using find_SomeD[OF e[unfolded findRefreshToken_def]] by blast
  ultimately show "findRefreshToken (sha raw) (data w) = Some existing" "rtk_status existing = TokActive"
    "ctx_tenantId c = rtk_tenantId existing" "existing \<in> set (refreshTokens (data w1))" using s e by simp_all
qed

lemma rotated_once:
  assumes "existing \<in> set (refreshTokens (data w))" "rtk_status existing = TokActive" "ctx_tenantId c = rtk_tenantId existing"
    and "withTenantTx c (setTokens (\<lambda>r. rtk_id r = rtk_id existing) (\<lambda>r. r\<lparr>rtk_status := TokRotated, rtk_rotatedAt := Some now\<rparr>)) w = (Inr a, w1)"
  shows "liveTokens (rtk_familyId existing) w1 < liveTokens (rtk_familyId existing) w"
proof -
  let ?f = "\<lambda>r. r\<lparr>rtk_status := TokRotated, rtk_rotatedAt := Some now\<rparr>"
  let ?t = "ctx_tenantId c"
  obtain v where v: "committed (setTokens (\<lambda>r. rtk_id r = rtk_id existing) ?f (rls ?t (data w))) a v"
    "data w1 = merge (hidden ?t (data w)) v"
    by (rule withTenantTx_commitD[OF assms(4)])
  have "refreshTokens v = updw (\<lambda>r. rtk_id r = rtk_id existing) ?f (refreshTokens (rls ?t (data w)))"
    using v(1) by (auto simp: setTokens_def)
  moreover have "existing \<in> set (refreshTokens (rls ?t (data w)))" using assms(1,3) by (simp add: rls_def)
  ultimately have "activeIn (rtk_familyId existing) (refreshTokens v) < activeIn (rtk_familyId existing) (refreshTokens (rls ?t (data w)))"
    using activeIn_updw_less[of existing _ "\<lambda>r. rtk_id r = rtk_id existing" "rtk_familyId existing" ?f] assms(2) by simp
  then show ?thesis
    unfolding liveTokens_def v(2) tokens_merge using tokens_split[of "rtk_familyId existing" ?t "data w"] by simp
qed

lemma grows_rotateFinish:
  assumes "existing \<in> set (refreshTokens (data w))" "rtk_status existing = TokActive" "ctx_tenantId c = rtk_tenantId existing"
  shows "grows None w (snd (rotateFinish sha now newRaw existing c w))"
proof -
  let ?f = "rtk_familyId existing"
  let ?m = "withTenantTx c (setTokens (\<lambda>r. rtk_id r = rtk_id existing) (\<lambda>r. r\<lparr>rtk_status := TokRotated, rtk_rotatedAt := Some now\<rparr>)) w"
  have g: "grows None w (snd ?m)" by (rule grows_setTokens) simp_all
  show ?thesis
  proof (cases "fst ?m")
    case (Inl e)
    then have "snd (rotateFinish sha now newRaw existing c w) = snd ?m"
      by (cases ?m) (simp add: rotateFinish_def andThen_def)
    with g show ?thesis by simp
  next
    case (Inr u)
    then obtain w1 where m: "?m = (Inr u, w1)" by (cases ?m) simp
    let ?rest = "andThen (issue sha now newRaw ?f c w1) (\<lambda>_ w2.
         andThen (withTenantTx c (setTokens (\<lambda>r. rtk_tokenHash r = sha newRaw)
             (rtk_parentId_update (\<lambda>_. Some (rtk_id existing)))) w2) (\<lambda>_ w3. (Inr c, w3)))"
    have r: "rotateFinish sha now newRaw existing c w = ?rest" by (simp add: rotateFinish_def m andThen_def)
    have s: "grows (Some ?f) w1 (snd ?rest)"
      by (rule grows_andThen'[OF grows_issue], rule grows_andThen', rule grows_setTokens) simp_all
    show ?thesis unfolding r
    proof (rule growsI)
      fix fam
      show "liveTokens fam (snd ?rest) \<le> liveTokens fam w + (if None = Some fam then 1 else 0)"
        using growsD(1)[OF s, of fam] growsD(1)[OF g, of fam] rotated_once[OF assms m] m by (cases "?f = fam") auto
    next
      show "families (data w) \<subseteq> families (data (snd ?rest))"
        using growsD(2)[OF s] growsD(2)[OF g] m by simp
    qed
  qed
qed

lemma grows_rotate: "grows None w (snd (rotate sha now raw newRaw w))"
  unfolding rotate_def
proof (rule grows_andThen[OF grows_rotateChecks])
  fix a w1 assume r: "rotateChecks sha now raw w = (Inr a, w1)"
  obtain existing c where a: "a = (existing, c)" by force
  show "grows None w1 (snd ((case a of (existing, c) \<Rightarrow> rotateFinish sha now newRaw existing c) w1))"
    using grows_rotateFinish[OF rotateChecksD(4,2,3)[OF r[unfolded a]]] by (simp add: a)
qed

text \<open>A sign-in leaves the tables alone, asks for the second factor, or issues a session.\<close>

lemma login_cases:
  assumes "login sha pm t1 t2 s em pw slug m w = (r, m', w')"
  obtains "w' = w" | c where "w' = snd (issueTokens sha t2 (drw_raw s) (drw_familyId s) c w)"
    | c where "w' = snd (andThen (getTotpSecret c w) (\<lambda>secret w1. if secret \<noteq> None then (Inr (TwoFaChallenge c), w1)
        else issueTokens sha t2 (drw_raw s) (drw_familyId s) c w1))"
proof (cases "fst (assertNotLockedOut t1 (map toLower em) m)")
  case e: None
  then obtain m1 where a: "assertNotLockedOut t1 (map toLower em) m = (None, m1)"
    by (cases "assertNotLockedOut t1 (map toLower em) m") simp
  note eval = login_def Let_def a
  show thesis
  proof (cases "findUserByEmail (map toLower em) slug (data w)")
    case None
    then show thesis using assms that(1) by (simp add: eval)
  next
    case f: (Some p)
    obtain u role where p: "p = (u, role)" by force
    show thesis
    proof (cases "usr_status u = ''active'' \<and> pm (usr_passwordHash u) pw")
      case True
      show thesis
      proof (cases "role = TWO_FA_ENFORCED_ROLE")
        case two: True
        from that(3)[of "\<lparr>ctx_tenantId = usr_tenantId u, ctx_userId = usr_id u, ctx_role = role\<rparr>"] assms show thesis
          unfolding eval prod.case option.case f p by (simp only: True two simp_thms if_False if_True prod.case_eq_if prod.inject)
      next
        case one: False
        from that(2)[of "\<lparr>ctx_tenantId = usr_tenantId u, ctx_userId = usr_id u, ctx_role = role\<rparr>"] assms show thesis
          unfolding eval prod.case option.case f p by (simp only: True one simp_thms if_False prod.case_eq_if prod.inject)
      qed
    next
      case False
      then show thesis using assms that(1) by (auto simp: eval f p split: if_split_asm)
    qed
  qed
next
  case (Some x)
  then show thesis using assms that(1) by (cases "assertNotLockedOut t1 (map toLower em) m") (simp add: login_def)
qed

lemma grows_login:
  assumes "login sha pm t1 t2 s em pw slug m w = (r, m', w')"
  shows "grows (Some (drw_familyId s)) w w'"
proof (cases rule: login_cases[OF assms])
  case (2 c)
  show ?thesis unfolding 2 by (rule grows_issueTokens)
next
  case (3 c)
  show ?thesis unfolding 3 by (rule grows_andThen[OF grows_getTotpSecret]) (simp add: grows_issueTokens)
qed simp

lemma grows_verifyTwoFa: "grows (Some (drw_familyId s)) w (snd (verifyTwoFa sha cv now s ch code w))"
  by (auto simp: verifyTwoFa_def split: option.split intro!: grows_andThen[OF grows_getTotpSecret] grows_issueTokens)

lemma grows_registerCustomer: "grows (Some (drw_familyId s)) w (snd (registerCustomer sha now s em ph slug w))"
proof (cases "registerCustomerUser slug (map toLower em) ph (data w)")
  case (Inr x)
  obtain c d where x: "x = (c, d)" by force
  have "refreshTokens d = refreshTokens (data w)"
    using Inr x by (auto simp: registerCustomerUser_def fresh_def split: option.split_asm if_split_asm)
  then have "grows None w (w\<lparr>data := d\<rparr>)" by (simp add: grows_def liveTokens_def families_def)
  from grows_trans[OF this grows_issueTokens] show ?thesis by (simp add: registerCustomer_def Inr x)
qed (simp add: registerCustomer_def)

lemma grows_activate: "grows None w (snd (activate sha ok claims ph w))"
proof (cases claims)
  case (Some p)
  have "grows None w1 (w1\<lparr>data := activateOnboardingTenant ok i (data w1)\<rparr>)" for w1 i
    by (simp add: grows_def liveTokens_def families_def activateOnboardingTenant_def)
  then show ?thesis unfolding activate_def Some option.case
    by (intro grows_andThen grows_tx_same)
      (auto simp: activateUser_def setUser_def split: option.split_asm if_split_asm)
qed (simp add: activate_def)

text \<open>
  The requests that touch sessions, each as a whole: sign-in, second factor and registration draw a
  family of tokens no token has yet.
\<close>

inductive sessStep :: "world \<Rightarrow> world \<Rightarrow> bool" where
  signIn: "login sha pm t1 t2 s em pw slug m w = (r, m', w') \<Longrightarrow> drw_familyId s \<notin> families (data w) \<Longrightarrow> sessStep w w'"
| secondFactor: "drw_familyId s \<notin> families (data w) \<Longrightarrow> sessStep w (snd (verifyTwoFa sha cv now s ch code w))"
| signUp: "drw_familyId s \<notin> families (data w) \<Longrightarrow> sessStep w (snd (registerCustomer sha now s em ph slug w))"
| refresh: "sessStep w (snd (refreshSession sha now raw newRaw w))"
| signOut: "sessStep w (snd (revokeAllForUser c u w))"
| activation: "sessStep w (snd (activate sha ok claims ph w))"

lemma sessStep_grows:
  "sessStep w w' \<Longrightarrow> \<exists>g. grows g w w' \<and> (\<forall>fam. g = Some fam \<longrightarrow> fam \<notin> families (data w))"
proof (induction rule: sessStep.induct)
  case (signIn sha pm t1 t2 s em pw slug m w r m' w')
  with grows_login[OF signIn(1)] show ?case by blast
next
  case (secondFactor s w sha cv now ch code)
  with grows_verifyTwoFa[of s w] show ?case by blast
next
  case (signUp s w sha now em ph slug)
  with grows_registerCustomer[of s w] show ?case by blast
next
  case (refresh w sha now raw newRaw)
  with grows_rotate[of w] show ?case unfolding refresh_rotates by blast
next
  case (signOut w c u)
  with grows_revokeAll[of w] show ?case by blast
next
  case (activation w sha ok claims ph)
  with grows_activate[of w] show ?case by blast
qed

lemma no_family_no_token: "fam \<notin> families (data w) \<Longrightarrow> liveTokens fam w = 0"
  by (auto simp: liveTokens_def activeIn_0_iff families_def)

lemma sessStep_bound:
  assumes "sessStep w w'" "\<forall>fam. liveTokens fam w \<le> 1"
  shows "liveTokens fam w' \<le> 1"
proof -
  obtain g where g: "grows g w w'" "\<forall>fam. g = Some fam \<longrightarrow> fam \<notin> families (data w)" using sessStep_grows[OF assms(1)] by blast
  have "liveTokens fam w = 0" if "g = Some fam" using no_family_no_token g(2) that by blast
  then show ?thesis using growsD(1)[OF g(1), of fam] assms(2) by (cases "g = Some fam") (auto intro: order_trans)
qed

lemma sessStep_dead:
  assumes "sessStep w w'" "fam \<in> families (data w)" "liveTokens fam w = 0"
  shows "fam \<in> families (data w') \<and> liveTokens fam w' = 0"
proof -
  obtain g where g: "grows g w w'" "\<forall>fam. g = Some fam \<longrightarrow> fam \<notin> families (data w)" using sessStep_grows[OF assms(1)] by blast
  then have n: "g \<noteq> Some fam" using assms(2) by blast
  have "liveTokens fam w' = 0" using growsD(1)[OF g(1), of fam] n assms(3) by simp
  then show ?thesis using growsD(2)[OF g(1)] assms(2) by blast
qed

text \<open>
  C29. One live token a session. Whatever requests sign in, refresh, sign out and activate, one after
  another, a family of refresh tokens never has two live tokens.
\<close>

theorem one_live_token:
  assumes "sessStep\<^sup>*\<^sup>* w w'" "\<forall>fam. liveTokens fam w \<le> 1"
  shows "liveTokens fam w' \<le> 1"
proof -
  have "\<forall>fam. liveTokens fam w' \<le> 1" using assms
  proof (induction rule: rtranclp_induct)
    case (step y z)
    then have "\<forall>fam. liveTokens fam y \<le> 1" by blast
    then show ?case using sessStep_bound[OF step.hyps(2)] by blast
  qed blast
  then show ?thesis by blast
qed

section \<open>A token used twice ends its session\<close>

lemma tx_error:
  "withTenantTx c body w = (Inl e, w') \<Longrightarrow> failed (body (rls (ctx_tenantId c) (data w))) e \<or> e = Internal ''row_level_security''"
  by (auto simp: withTenantTx_def Let_def failed_def split: prod.split_asm sum.split_asm if_split_asm)

lemma setTokens_error: "withTenantTx c (setTokens p f) w = (Inl e, w') \<Longrightarrow> e = Internal ''row_level_security''"
  by (drule tx_error) (simp add: setTokens_def)

lemma revoked_family:
  assumes "\<forall>r \<in> set (refreshTokens (data w)). rtk_familyId r = fam \<longrightarrow> rtk_tenantId r = ctx_tenantId c"
    and "revokeFamily c fam w = (Inr u, w1)"
  shows "liveTokens fam w1 = 0"
proof -
  let ?t = "ctx_tenantId c"
  obtain v where v: "committed (setTokens (\<lambda>r. rtk_familyId r = fam) (rtk_status_update (\<lambda>_. TokRevoked)) (rls ?t (data w))) u v"
    "data w1 = merge (hidden ?t (data w)) v"
    by (rule withTenantTx_commitD[OF assms(2)[unfolded revokeFamily_def]])
  have "refreshTokens v = updw (\<lambda>r. rtk_familyId r = fam) (rtk_status_update (\<lambda>_. TokRevoked)) (refreshTokens (rls ?t (data w)))"
    using v(1) by (auto simp: setTokens_def)
  moreover have "rtk_familyId x \<noteq> fam" if "x \<in> set (updw (\<lambda>r. rtk_familyId r = fam) (rtk_status_update (\<lambda>_. TokRevoked)) rs)" "rtk_status x = TokActive" for x rs
  proof -
    from that(1)[unfolded in_updw] obtain y
      where y: "x = (if rtk_familyId y = fam then rtk_status_update (\<lambda>_. TokRevoked) y else y)" by (elim bexE)
    show ?thesis
    proof (cases "rtk_familyId y = fam")
      case True
      then show ?thesis using that(2) y by simp
    qed (use y in simp)
  qed
  ultimately have "activeIn fam (refreshTokens v) = 0" unfolding activeIn_0_iff by metis
  moreover have "activeIn fam (refreshTokens (hidden ?t (data w))) = 0"
    using assms(1) by (auto simp: activeIn_0_iff hidden_def)
  ultimately show ?thesis by (simp add: liveTokens_def v(2) tokens_merge)
qed

lemma reuse_revokes:
  assumes "rotate sha now raw newRaw w = (Inl (Unauthorized ''refresh_reuse_detected''), w1)"
    and tok: "findRefreshToken (sha raw) (data w) = Some tok" and used: "rtk_status tok \<noteq> TokActive"
    and own: "list_all (\<lambda>r. rtk_familyId r = rtk_familyId tok \<longrightarrow> rtk_tenantId r = rtk_tenantId tok) (refreshTokens (data w))"
  shows "liveTokens (rtk_familyId tok) w1 = 0"
proof -
  let ?res = "resolveCurrentUser (rtk_tenantId tok) (rtk_userId tok) w"
  have checks: "rotateChecks sha now raw w = (Inl (Unauthorized ''refresh_reuse_detected''), w1)"
  proof (cases "rotateChecks sha now raw w")
    case (Pair x y)
    show ?thesis
    proof (cases x)
      case (Inr z)
      obtain existing c where z: "z = (existing, c)" by force
      from rotateChecksD(1,2)[OF Pair[unfolded Inr z]] tok used show ?thesis by simp
    qed (use assms(1) Pair in \<open>simp add: rotate_def andThen_def\<close>)
  qed
  obtain role status w0 where r: "?res = (Inr (role, status), w0)"
  proof (cases ?res)
    case (Pair x y)
    show thesis
    proof (cases x)
      case (Inl e)
      from tx_error[OF Pair[unfolded Inl resolveCurrentUser_def]]
      have "e = Unauthorized ''invalid_refresh_token'' \<or> e = Internal ''row_level_security''"
        by (auto simp: currentUser_def split: option.split_asm)
      then show thesis using checks by (auto simp: rotateChecks_def tok Pair Inl andThen_def)
    next
      case (Inr p)
      then show thesis using that[of "fst p" "snd p" y] Pair by simp
    qed
  qed
  let ?c = "\<lparr>ctx_tenantId = rtk_tenantId tok, ctx_userId = rtk_userId tok, ctx_role = role\<rparr>"
  have same: "set (refreshTokens (data w0)) = set (refreshTokens (data w))"
    using tokens_readonly[of "currentUser (rtk_userId tok)" "\<lparr>ctx_tenantId = rtk_tenantId tok, ctx_userId = rtk_userId tok, ctx_role = BOOTSTRAP_ROLE\<rparr>" w] r
    by (auto simp: resolveCurrentUser_def dest: currentUser_reads)
  obtain x w2 where rv: "revokeFamily ?c (rtk_familyId tok) w0 = (x, w2)" by force
  let ?reused = "(Inl (Unauthorized ''refresh_reuse_detected''), w1) :: (http_error + refresh_token \<times> ctx) \<times> world"
  let ?audited = "\<lambda>w2. withTenantTx ?c (\<lambda>d. returns () (audit ?c ''refresh_reuse_detected'' ''refresh_tokens'' (rtk_id tok) d)) w2"
  have e: "(if status \<noteq> ''active''
      then andThen (revokeFamily ?c (rtk_familyId tok) w0) (\<lambda>_ w2. (Inl (Unauthorized ''user_inactive''), w2))
      else andThen (revokeFamily ?c (rtk_familyId tok) w0) (\<lambda>_ w2. andThen (?audited w2)
             (\<lambda>_ w3. (Inl (Unauthorized ''refresh_reuse_detected''), w3)))) = ?reused"
  proof (cases "status = ''active''")
    case True
    then show ?thesis using checks used by (simp add: rotateChecks_def tok r andThen_step Let_def)
  next
    case False
    then show ?thesis using checks by (simp add: rotateChecks_def tok r andThen_step Let_def)
  qed
  have x: "\<exists>u. x = Inr u"
  proof (cases x)
    case (Inl err)
    with rv have "err = Internal ''row_level_security''" using setTokens_error unfolding revokeFamily_def by blast
    then show ?thesis using e by (simp add: rv Inl andThen_stop split: if_split_asm)
  qed simp
  then obtain u where u: "x = Inr u" by blast
  have act: "status = ''active''" using e by (simp add: rv u andThen_step split: if_split_asm)
  then have "andThen (?audited w2) (\<lambda>_ w3. (Inl (Unauthorized ''refresh_reuse_detected''), w3)) = ?reused"
    using e by (simp add: rv u andThen_step)
  then have "w1 = snd (?audited w2)"
    by (cases "?audited w2"; cases "fst (?audited w2)") (simp_all add: andThen_def)
  then have g: "grows None w2 w1" using grows_audit by simp
  have "liveTokens (rtk_familyId tok) w2 = 0"
    by (rule revoked_family[of w0 _ ?c]) (use own same rv u in \<open>simp_all add: list_all_iff\<close>)
  then show ?thesis using growsD(1)[OF g, of "rtk_familyId tok"] by simp
qed

text \<open>
  C30. A refresh token used twice ends the session for good. When a token that is no longer live is
  presented and the reuse is detected, no token of its family is live after it, nor ever again,
  whatever requests follow; every later attempt to refresh with a token of the family fails.
\<close>

theorem reuse_ends_session:
  assumes "rotate sha now raw newRaw w = (Inl (Unauthorized ''refresh_reuse_detected''), w1)"
    and "findRefreshToken (sha raw) (data w) = Some tok" "rtk_status tok \<noteq> TokActive"
    and "list_all (\<lambda>r. rtk_familyId r = rtk_familyId tok \<longrightarrow> rtk_tenantId r = rtk_tenantId tok) (refreshTokens (data w))"
    and "sessStep\<^sup>*\<^sup>* w1 w2"
  shows "liveTokens (rtk_familyId tok) w2 = 0 \<and>
    (\<forall>later. \<forall>t \<in> set (refreshTokens (data w2)). rtk_familyId t = rtk_familyId tok \<longrightarrow>
       (\<forall>raw' newRaw'. findRefreshToken (sha raw') (data w2) = Some t \<longrightarrow>
          (\<exists>e. fst (rotate sha later raw' newRaw' w2) = Inl e)))"
proof -
  have "tok \<in> set (refreshTokens (data w))" using find_SomeD[OF assms(2)[unfolded findRefreshToken_def]] by blast
  then have "rtk_familyId tok \<in> families (data w)" by (simp add: families_def)
  then have f1: "rtk_familyId tok \<in> families (data w1)" using growsD(2)[OF grows_rotate[of w sha now raw newRaw]] assms(1) by auto
  have "rtk_familyId tok \<in> families (data w2) \<and> liveTokens (rtk_familyId tok) w2 = 0"
    using assms(5)
  proof (induction rule: rtranclp_induct)
    case base
    then show ?case using f1 reuse_revokes[OF assms(1-4)] by blast
  next
    case (step y z)
    then show ?case using sessStep_dead[OF step.hyps(2)] by blast
  qed
  then have dead: "liveTokens (rtk_familyId tok) w2 = 0" by blast
  have "\<exists>e. fst (rotate sha later raw' newRaw' w2) = Inl e"
    if t: "t \<in> set (refreshTokens (data w2))" "rtk_familyId t = rtk_familyId tok" "findRefreshToken (sha raw') (data w2) = Some t"
    for later t raw' newRaw'
  proof (cases "rotateChecks sha later raw' w2")
    case (Pair x y)
    show ?thesis
    proof (cases x)
      case (Inr z)
      obtain existing c where z: "z = (existing, c)" by force
      from rotateChecksD(1,2)[OF Pair[unfolded Inr z]] t have "rtk_status t = TokActive" by simp
      with dead t(1,2) have False by (auto simp: liveTokens_def activeIn_0_iff)
      then show ?thesis ..
    qed (simp add: rotate_def Pair andThen_def)
  qed
  with dead show ?thesis by blast
qed

section \<open>A world to run it in\<close>

definition demo_token :: "uuid \<Rightarrow> string \<Rightarrow> token_status \<Rightarrow> refresh_token" where
  "demo_token i h st = \<lparr>rtk_id = i, rtk_tenantId = 3, rtk_userId = 8, rtk_familyId = 70, rtk_tokenHash = h,
     rtk_parentId = None, rtk_status = st, rtk_expiresAt = 1000, rtk_rotatedAt = None\<rparr>"

definition demo_user :: "string \<Rightarrow> user" where
  "demo_user st = \<lparr>usr_id = 8, usr_tenantId = 3, usr_roleId = 9, usr_email = ''a@b'', usr_passwordHash = ''secret'',
     usr_status = st, usr_totpSecret = None, usr_firstName = None, usr_middleName = None, usr_lastName = None,
     usr_phone = None, usr_address = None, usr_avatarKey = None, usr_notificationPrefs = defaultPrefs\<rparr>"

definition session_world :: "string \<Rightarrow> refresh_token list \<Rightarrow> uuid \<Rightarrow> audit_log list \<Rightarrow> world" where
  "session_world st ts n l = \<lparr>data = empty_db\<lparr>tenants := [\<lparr>ten_id = 3, ten_slug = ''almara'', ten_legalName = ''Almara'', ten_status = ''active'', ten_paymongoAccountId = None\<rparr>],
     users := [demo_user st], roles := [\<lparr>rol_id = 9, rol_name = ''admin''\<rparr>], refreshTokens := ts, nextId := n, auditLogs := l\<rparr>, events = []\<rparr>"

abbreviation ownTokens :: "refresh_token list \<Rightarrow> bool" where
  "ownTokens ts \<equiv> list_all (\<lambda>r. rtk_tenantId r = 3) ts"

abbreviation ownLogs :: "audit_log list \<Rightarrow> bool" where
  "ownLogs l \<equiv> list_all (\<lambda>r. aud_tenantId r = 3) l"

lemma filter_all: "list_all P xs \<Longrightarrow> filter P xs = xs"
  by (simp add: list_all_iff)

lemma session_rls: "ownTokens ts \<Longrightarrow> ownLogs l \<Longrightarrow> rls 3 (data (session_world st ts n l)) = data (session_world st ts n l)"
  by (simp add: session_world_def rls_def empty_db_def demo_user_def filter_all)

lemma session_merge:
  "ownTokens ts \<Longrightarrow> ownLogs l \<Longrightarrow> merge (hidden 3 (data (session_world st ts n l))) (data (session_world st ts' n' l')) = data (session_world st ts' n' l')"
proof -
  have "filter (\<lambda>r. rtk_tenantId r \<noteq> 3) ts = []" "filter (\<lambda>r. aud_tenantId r \<noteq> 3) l = []" if "ownTokens ts" "ownLogs l"
    using that by (simp_all add: filter_empty_conv list_all_iff)
  then show "ownTokens ts \<Longrightarrow> ownLogs l \<Longrightarrow> ?thesis"
    by (simp add: session_world_def merge_def hidden_def empty_db_def demo_user_def)
qed

lemma session_tx:
  assumes "body (data (session_world st ts n l)) = returns a (data (session_world st ts' n' l'))" "ctx_tenantId c = 3"
    and "ownTokens ts" "ownLogs l" "ownTokens ts'" "ownLogs l'"
  shows "withTenantTx c body (session_world st ts n l) = (Inr a, session_world st ts' n' l')"
proof -
  have "events (session_world st x m k) = []" for x m k by (simp add: session_world_def)
  then have w: "(session_world st ts n l)\<lparr>events := [], data := data (session_world st ts' n' l')\<rparr> = session_world st ts' n' l'"
    by (cases "session_world st ts' n' l'") (simp add: session_world_def)
  show ?thesis unfolding withTenantTx_def Let_def assms(2) session_rls[OF assms(3,4)] assms(1) returns_def prod.case sum.case
    by (simp add: session_rls[OF assms(5,6)] session_merge[OF assms(3,4)]) (use w in \<open>simp add: session_world_def\<close>)
qed

lemma session_set:
  "ctx_tenantId c = 3 \<Longrightarrow> ownTokens ts \<Longrightarrow> ownLogs l \<Longrightarrow> ownTokens (updw p f ts) \<Longrightarrow>
   withTenantTx c (setTokens p f) (session_world st ts n l) = (Inr (), session_world st (updw p f ts) n l)"
  by (rule session_tx) (simp_all add: setTokens_def session_world_def empty_db_def)

lemma session_issue:
  "ctx_tenantId c = 3 \<Longrightarrow> ctx_userId c = 8 \<Longrightarrow> ownTokens ts \<Longrightarrow> ownLogs l \<Longrightarrow> \<not> list_ex (\<lambda>r. rtk_tokenHash r = sha raw) ts \<Longrightarrow>
   issue sha now raw 70 c (session_world st ts n l) =
     (Inr (), session_world st (ts @ [(demo_token n (sha raw) TokActive)\<lparr>rtk_expiresAt := now + REFRESH_TOKEN_TTL_MS\<rparr>]) (Suc n) l)"
  unfolding issue_def by (rule session_tx) (simp_all add: insertToken_def session_world_def fresh_def demo_token_def empty_db_def)

lemma session_resolve:
  "ownTokens ts \<Longrightarrow> ownLogs l \<Longrightarrow> resolveCurrentUser 3 8 (session_world st ts n l) = (Inr (''admin'', st), session_world st ts n l)"
  unfolding resolveCurrentUser_def
  by (rule session_tx) (simp_all add: currentUser_def session_world_def roleNameOf_def demo_user_def)

lemma session_audit:
  "ctx_tenantId c = 3 \<Longrightarrow> ownTokens ts \<Longrightarrow> ownLogs l \<Longrightarrow>
   withTenantTx c (\<lambda>d. returns () (audit c a e i d)) (session_world st ts n l) = (Inr (), session_world st ts n (l @
     [\<lparr>aud_tenantId = 3, aud_actorId = ctx_userId c, aud_action = a, aud_entity = e, aud_entityId = i, aud_reason = None\<rparr>]))"
  by (rule session_tx) (simp_all add: audit_def session_world_def empty_db_def)

lemma session_find:
  "ownTokens ts \<Longrightarrow> findRefreshToken h (data (session_world st ts n l)) = find (\<lambda>r. rtk_tokenHash r = h) ts"
  unfolding findRefreshToken_def by (rule find_cong) (auto simp: session_world_def list_all_iff)

lemma session_tokens: "refreshTokens (data (session_world st ts n l)) = ts"
  by (simp add: session_world_def)

lemmas session_eval = rotate_def rotateChecks_def rotateFinish_def revokeFamily_def andThen_step andThen_stop Let_def
  session_set session_issue session_resolve session_audit session_find session_tokens demo_token_def updw_def

theorem one_live_token_witness:
  "\<exists>w'. rotate (\<lambda>x. x) 5 ''old'' ''new'' (session_world ''active'' [demo_token 20 ''old'' TokActive] 100 []) =
       (Inr \<lparr>ctx_tenantId = 3, ctx_userId = 8, ctx_role = ''admin''\<rparr>, w') \<and>
     map rtk_tokenHash (refreshTokens (data w')) = [''old'', ''new''] \<and> liveTokens 70 w' \<le> 1"
proof -
  let ?w = "session_world ''active'' [demo_token 20 ''old'' TokActive] 100 []"
  obtain w' where r: "rotate (\<lambda>x. x) 5 ''old'' ''new'' ?w = (Inr \<lparr>ctx_tenantId = 3, ctx_userId = 8, ctx_role = ''admin''\<rparr>, w')"
    "map rtk_tokenHash (refreshTokens (data w')) = [''old'', ''new'']"
    by (simp add: session_eval)
  have "sessStep\<^sup>*\<^sup>* ?w w'" using sessStep.refresh[of ?w "\<lambda>x. x" 5 "''old''" "''new''"] unfolding refresh_rotates r(1) snd_conv by (rule r_into_rtranclp[of sessStep])
  then have m: "(\<forall>fam. liveTokens fam ?w \<le> 1) \<Longrightarrow> liveTokens 70 w' \<le> 1" by (rule one_live_token)
  have "\<forall>fam. liveTokens fam ?w \<le> 1" by (simp add: liveTokens_def activeIn_def session_tokens demo_token_def)
  from r m[OF this] show ?thesis by (intro exI[of _ w'] conjI)
qed

theorem reuse_ends_session_witness:
  "\<exists>w1. rotate (\<lambda>x. x) 5 ''old'' ''mine'' (session_world ''active'' [demo_token 20 ''old'' TokRotated, demo_token 21 ''new'' TokActive] 100 []) =
       (Inl (Unauthorized ''refresh_reuse_detected''), w1) \<and> liveTokens 70 w1 = 0"
proof -
  let ?w = "session_world ''active'' [demo_token 20 ''old'' TokRotated, demo_token 21 ''new'' TokActive] 100 []"
  obtain w1 where r: "rotate (\<lambda>x. x) 5 ''old'' ''mine'' ?w = (Inl (Unauthorized ''refresh_reuse_detected''), w1)"
    by (simp add: session_eval)
  have f: "findRefreshToken ''old'' (data ?w) = Some (demo_token 20 ''old'' TokRotated)" by (simp add: session_eval)
  have t: "rtk_status (demo_token 20 ''old'' TokRotated) \<noteq> TokActive" "rtk_familyId (demo_token 20 ''old'' TokRotated) = 70"
    by (simp_all add: demo_token_def)
  have o1: "list_all (\<lambda>r. rtk_familyId r = rtk_familyId (demo_token 20 ''old'' TokRotated) \<longrightarrow>
      rtk_tenantId r = rtk_tenantId (demo_token 20 ''old'' TokRotated)) (refreshTokens (data ?w))"
    by (simp add: session_eval)
  have "liveTokens 70 w1 = 0" using reuse_ends_session[OF r f t(1) o1 rtranclp.rtrancl_refl] unfolding t(2) by blast
  with r show ?thesis by blast
qed

text \<open>
  A rotation reads the token and marks it in different transactions. Two rotations of one token that
  interleave both pass the guards, neither is a reuse, and the session has two live tokens: the
  bound above is one of whole requests.
\<close>

lemma concurrent_rotation_forks:
  "\<exists>tok c w1 w2. rotateChecks (\<lambda>x. x) 5 ''old'' (session_world ''active'' [demo_token 20 ''old'' TokActive] 100 []) = (Inr (tok, c), w1) \<and>
     rotateChecks (\<lambda>x. x) 5 ''old'' w1 = (Inr (tok, c), w2) \<and>
     (let (_, w3) = rotateFinish (\<lambda>x. x) 5 ''one'' tok c w2; (_, w4) = rotateFinish (\<lambda>x. x) 5 ''two'' tok c w3
      in liveTokens 70 w4 = 2)"
  by (simp add: session_eval liveTokens_def activeIn_def)

section \<open>Guessing a password\<close>

record login_attempt =
  lat_checked :: time
  lat_recorded :: time
  lat_seed :: drawn
  lat_email :: string
  lat_password :: string
  lat_slug :: string

primrec tryAll ::
  "(string \<Rightarrow> string) \<Rightarrow> (string \<Rightarrow> string \<Rightarrow> bool) \<Rightarrow> login_attempt list \<Rightarrow> attempts \<Rightarrow> world \<Rightarrow> (http_error + session) list" where
  "tryAll sha pm [] m w = []"
| "tryAll sha pm (a # as) m w =
     (let (r, m', w') = login sha pm (lat_checked a) (lat_recorded a) (lat_seed a) (lat_email a) (lat_password a) (lat_slug a) m w
      in r # tryAll sha pm as m' w')"

definition wrongPassword :: "http_error + session" where
  "wrongPassword = Inl (Unauthorized ''invalid_credentials'')"

definition lockedOut :: "http_error + session" where
  "lockedOut = Inl (TooMany ''login_locked'')"

definition inWindow :: "time \<Rightarrow> string \<Rightarrow> login_attempt \<Rightarrow> bool" where
  "inWindow t0 email a \<longleftrightarrow> map toLower (lat_email a) = email \<and> t0 \<le> lat_recorded a \<and>
     lat_checked a \<le> t0 + LOGIN_LOCKOUT_WINDOW_MS \<and> lat_recorded a \<le> t0 + LOGIN_LOCKOUT_WINDOW_MS"

lemma issueTokens_error: "issueTokens sha now raw fam c w = (Inl e, w') \<Longrightarrow> \<exists>x. e = Internal x"
  by (auto simp: issueTokens_def andThen_def issue_def insertToken_def split: prod.split_asm sum.split_asm if_split_asm dest!: tx_error)

lemma getTotpSecret_error: "getTotpSecret c w = (Inl e, w') \<Longrightarrow> \<exists>x. e = Internal x"
  by (auto simp: getTotpSecret_def dest!: tx_error)

lemma twoFactor_error:
  assumes "andThen (getTotpSecret c w) (\<lambda>secret w1. if secret \<noteq> None then (Inr (TwoFaChallenge c), w1) else issueTokens sha now raw fam c w1) = (Inl e, w')"
  shows "\<exists>x. e = Internal x"
proof (cases "getTotpSecret c w")
  case (Pair x w1)
  show ?thesis
  proof (cases x)
    case (Inl e')
    then show ?thesis using assms Pair getTotpSecret_error[of c w e' w1] by (simp add: andThen_def)
  next
    case (Inr s)
    then show ?thesis using assms Pair issueTokens_error[of sha now raw fam c w1 e w']
      by (simp add: andThen_def split: if_split_asm)
  qed
qed

lemma login_unlocked:
  assumes "assertNotLockedOut t1 (map toLower em) m = (None, m1)"
    and "login sha pm t1 t2 s em pw slug m w = (r, m', w')" "r \<in> {wrongPassword, lockedOut}"
  shows "r = wrongPassword \<and> m' = recordLoginFailure t2 (map toLower em) m1 \<and> w' = w"
proof (cases "findUserByEmail (map toLower em) slug (data w)")
  case None
  then show ?thesis using assms by (auto simp: login_def Let_def wrongPassword_def)
next
  case (Some p)
  obtain u role where p: "p = (u, role)" by force
  let ?c = "\<lparr>ctx_tenantId = usr_tenantId u, ctx_userId = usr_id u, ctx_role = role\<rparr>"
  show ?thesis
  proof (cases "usr_status u = ''active'' \<and> pm (usr_passwordHash u) pw")
    case False
    then show ?thesis using assms by (auto simp: login_def Let_def wrongPassword_def Some p split: if_split_asm)
  next
    case True
    obtain e where e: "r = Inl e" "\<forall>x. e \<noteq> Internal x" using assms(3) by (auto simp: wrongPassword_def lockedOut_def)
    have "\<exists>x. e = Internal x"
    proof (cases "role = TWO_FA_ENFORCED_ROLE")
      case two: True
      let ?two = "\<lambda>role. andThen (getTotpSecret \<lparr>ctx_tenantId = usr_tenantId u, ctx_userId = usr_id u, ctx_role = role\<rparr> w)
          (\<lambda>secret w1. if secret \<noteq> None then (Inr (TwoFaChallenge \<lparr>ctx_tenantId = usr_tenantId u, ctx_userId = usr_id u, ctx_role = role\<rparr>), w1)
            else issueTokens sha t2 (drw_raw s) (drw_familyId s) \<lparr>ctx_tenantId = usr_tenantId u, ctx_userId = usr_id u, ctx_role = role\<rparr> w1)"
      have "?two TWO_FA_ENFORCED_ROLE = (Inl e, w')"
        using assms(2) True two by (simp add: login_def Let_def assms(1) Some p e(1) split: prod.split_asm)
      then show ?thesis by (rule twoFactor_error)
    next
      case one: False
      have "issueTokens sha t2 (drw_raw s) (drw_familyId s) ?c w = (Inl e, w')"
        using assms(2) True one by (simp add: login_def Let_def assms(1) Some p e(1) split: prod.split_asm)
      then show ?thesis by (rule issueTokens_error)
    qed
    with e(2) show ?thesis by blast
  qed
qed

lemma login_locked:
  assumes "assertNotLockedOut t1 (map toLower em) m = (Some e, m1)"
  shows "login sha pm t1 t2 s em pw slug m w = (Inl e, m1, w)"
  using assms by (simp add: login_def)

lemma window_unlocked:
  assumes "m email = Some st" "now - att_windowStart st \<le> LOGIN_LOCKOUT_WINDOW_MS"
  shows "assertNotLockedOut now email m = (if LOGIN_LOCKOUT_THRESHOLD \<le> att_failCount st then Some (TooMany ''login_locked'') else None, m)"
    and "recordLoginFailure now email m = m(email \<mapsto> st\<lparr>att_failCount := Suc (att_failCount st)\<rparr>)"
  using assms by (simp_all add: assertNotLockedOut_def recordLoginFailure_def)

lemma guesses_left:
  assumes "list_all (inWindow t0 email) as" "set (tryAll sha pm as m w) \<subseteq> {wrongPassword, lockedOut}"
    and "m email = Some st" "t0 \<le> att_windowStart st" "att_failCount st + k = LOGIN_LOCKOUT_THRESHOLD"
  shows "tryAll sha pm as m w = replicate (min k (length as)) wrongPassword @ replicate (length as - k) lockedOut"
  using assms
proof (induction as arbitrary: m w st k)
  case (Cons a as)
  obtain r m' w' where l: "login sha pm (lat_checked a) (lat_recorded a) (lat_seed a) (lat_email a) (lat_password a) (lat_slug a) m w = (r, m', w')"
    by (metis prod_cases3)
  have r: "r \<in> {wrongPassword, lockedOut}" "set (tryAll sha pm as m' w') \<subseteq> {wrongPassword, lockedOut}"
    and a: "inWindow t0 email a" and tail: "list_all (inWindow t0 email) as"
    using Cons.prems by (auto simp: l)
  have em: "map toLower (lat_email a) = email"
    and win: "lat_checked a - att_windowStart st \<le> LOGIN_LOCKOUT_WINDOW_MS" "lat_recorded a - att_windowStart st \<le> LOGIN_LOCKOUT_WINDOW_MS"
    using a Cons.prems(4) by (auto simp: inWindow_def)
  have all: "tryAll sha pm (a # as) m w = r # tryAll sha pm as m' w'" by (simp add: l)
  show ?case
  proof (cases k)
    case 0
    then have "login sha pm (lat_checked a) (lat_recorded a) (lat_seed a) (lat_email a) (lat_password a) (lat_slug a) m w = (lockedOut, m, w)"
      unfolding lockedOut_def using window_unlocked(1)[of m email st, OF Cons.prems(3) win(1)] Cons.prems(5) em by (intro login_locked) simp
    then have e: "r = lockedOut" "m' = m" "w' = w" using l by simp_all
    have "tryAll sha pm as m' w' = replicate (length as) lockedOut"
      using Cons.IH[OF tail r(2), of st 0] Cons.prems(3-5) 0 e by simp
    then show ?thesis unfolding all by (simp add: 0 e(1))
  next
    case (Suc j)
    then have "assertNotLockedOut (lat_checked a) (map toLower (lat_email a)) m = (None, m)"
      using window_unlocked(1)[of m email st, OF Cons.prems(3) win(1)] Cons.prems(5) em by simp
    from login_unlocked[OF this l r(1)] window_unlocked(2)[of m email st, OF Cons.prems(3) win(2)] em
    have s: "r = wrongPassword" "m' email = Some (st\<lparr>att_failCount := Suc (att_failCount st)\<rparr>)" by simp_all
    from Cons.IH[OF tail r(2) s(2), of j] Cons.prems(4,5) Suc show ?thesis unfolding all by (simp add: s(1))
  qed
qed simp

text \<open>
  C31. Five guesses a quarter of an hour. However many times, and over whichever tenants' hosts, an
  address is tried within one lockout window, as long as none of the guesses is right the first five
  are refused for the password and every one after them is locked out before the password is looked at.
\<close>

theorem five_guesses_a_window:
  assumes "list_all (inWindow t0 email) as" "m email = None"
    and "set (tryAll sha pm as m w) \<subseteq> {wrongPassword, lockedOut}"
  shows "tryAll sha pm as m w = replicate (min 5 (length as)) wrongPassword @ replicate (length as - 5) lockedOut"
proof (cases as)
  case (Cons a rest)
  obtain r m' w' where l: "login sha pm (lat_checked a) (lat_recorded a) (lat_seed a) (lat_email a) (lat_password a) (lat_slug a) m w = (r, m', w')"
    by (metis prod_cases3)
  have em: "map toLower (lat_email a) = email" and t: "t0 \<le> lat_recorded a" and r: "r \<in> {wrongPassword, lockedOut}"
    using assms(1,3) by (auto simp: Cons l inWindow_def)
  have "assertNotLockedOut (lat_checked a) (map toLower (lat_email a)) m = (None, m)"
    using assms(2) em by (simp add: assertNotLockedOut_def)
  from login_unlocked[OF this l r] assms(2) em
  have s: "r = wrongPassword" "m' email = Some \<lparr>att_failCount = 1, att_windowStart = lat_recorded a\<rparr>"
    by (simp_all add: recordLoginFailure_def)
  have "tryAll sha pm rest m' w' = replicate (min 4 (length rest)) wrongPassword @ replicate (length rest - 4) lockedOut"
    by (rule guesses_left[where st = "\<lparr>att_failCount = 1, att_windowStart = lat_recorded a\<rparr>" and m = m' and email = email, OF _ _ s(2)]) (use assms(1,3) t in \<open>simp_all add: Cons l LOGIN_LOCKOUT_THRESHOLD_def\<close>)
  then show ?thesis by (simp add: Cons l s(1) numeral_eq_Suc)
qed simp

lemma login_refused:
  assumes "findUserByEmail (map toLower em) slug (data w) = Some (u, role)" "\<not> pm (usr_passwordHash u) pw"
  shows "\<exists>r m'. login sha pm t1 t2 s em pw slug m w = (r, m', w) \<and> r \<in> {wrongPassword, lockedOut}"
proof (cases "assertNotLockedOut t1 (map toLower em) m")
  case (Pair x m1)
  show ?thesis
  proof (cases x)
    case None
    then show ?thesis using assms Pair by (simp add: login_def wrongPassword_def Let_def)
  next
    case (Some e)
    then have "e = TooMany ''login_locked''" using Pair by (auto simp: assertNotLockedOut_def Let_def split: option.split_asm if_split_asm)
    then show ?thesis using login_locked Pair Some by (simp add: lockedOut_def)
  qed
qed

definition demo_attempt :: "time \<Rightarrow> login_attempt" where
  "demo_attempt t = \<lparr>lat_checked = t, lat_recorded = t, lat_seed = \<lparr>drw_raw = ''r'', drw_familyId = 71\<rparr>, lat_email = ''a@b'',
     lat_password = ''guess'', lat_slug = ''almara''\<rparr>"

theorem five_guesses_a_window_witness:
  "tryAll (\<lambda>x. x) (\<lambda>h p. h = p) (map demo_attempt [0, 1, 2, 3, 4, 5, 6]) (\<lambda>_. None) (session_world ''active'' [] 100 []) =
     replicate 5 wrongPassword @ replicate 2 lockedOut"
proof -
  let ?as = "map demo_attempt [0, 1, 2, 3, 4, 5, 6]" and ?w = "session_world ''active'' [] 100 []"
  have found: "findUserByEmail ''a@b'' ''almara'' (data ?w) = Some (demo_user ''active'', ''admin'')"
    by (simp add: findUserByEmail_def session_world_def roleNameOf_def demo_user_def)
  have same: "map toLower ''a@b'' = ''a@b''" by (simp add: toLower_def charCode_def lowerCase_def)
  have one: "\<exists>r m'. login (\<lambda>x. x) (\<lambda>h p. h = p) t t s ''a@b'' ''guess'' ''almara'' m ?w = (r, m', ?w) \<and> r \<in> {wrongPassword, lockedOut}" for t s m
    by (intro login_refused[of _ _ _ "demo_user ''active''" "''admin''"]) (unfold same, rule found, simp add: demo_user_def)
  have answers: "set (tryAll (\<lambda>x. x) (\<lambda>h p. h = p) (map demo_attempt ts) m ?w) \<subseteq> {wrongPassword, lockedOut}" for ts m
  proof (induction ts arbitrary: m)
    case (Cons t ts)
    obtain r m' where "login (\<lambda>x. x) (\<lambda>h p. h = p) t t \<lparr>drw_raw = ''r'', drw_familyId = 71\<rparr> ''a@b'' ''guess'' ''almara'' m ?w = (r, m', ?w)"
      "r \<in> {wrongPassword, lockedOut}" using one by blast
    then show ?case using Cons[of m'] by (simp add: demo_attempt_def)
  qed simp
  have "inWindow 0 ''a@b'' (demo_attempt t)" if "0 \<le> t" "t \<le> 6" for t
    unfolding inWindow_def demo_attempt_def login_attempt.select_convs same using that by (simp add: LOGIN_LOCKOUT_WINDOW_MS_def)
  then have "list_all (inWindow 0 ''a@b'') ?as" by simp
  from five_guesses_a_window[of 0 "''a@b''" ?as "\<lambda>_. None", OF this refl answers]
  have "tryAll (\<lambda>x. x) (\<lambda>h p. h = p) ?as (\<lambda>_. None) ?w = replicate (min 5 (length ?as)) wrongPassword @ replicate (length ?as - 5) lockedOut" .
  moreover have "min 5 (length ?as) = 5 \<and> length ?as - 5 = 2" by simp
  ultimately show ?thesis by (simp only:)
qed

section \<open>An activation link works once\<close>

definition invited :: "db \<Rightarrow> (uuid \<times> uuid) set" where
  "invited d = {(usr_tenantId u, usr_id u) |u. u \<in> set (users d) \<and> usr_status u = ''invited''}"

text \<open>
  What can be told of the requests that touch sessions through a set of keys of the users: a set that
  only users decide and that neither an activation nor a registration enlarges shrinks along all of them.
\<close>

definition shrinks :: "(db \<Rightarrow> 'k set) \<Rightarrow> world \<Rightarrow> world \<Rightarrow> bool" where
  "shrinks K w w' \<longleftrightarrow> K (data w') \<subseteq> K (data w)"

lemma shrinks_refl [simp]: "shrinks K w w"
  by (simp add: shrinks_def)

lemma shrinks_trans: "shrinks K w w1 \<Longrightarrow> shrinks K w1 w2 \<Longrightarrow> shrinks K w w2"
  unfolding shrinks_def by (rule subset_trans)

lemma shrinks_andThen:
  "shrinks K w (snd m) \<Longrightarrow> (\<And>a w1. m = (Inr a, w1) \<Longrightarrow> shrinks K w1 (snd (k a w1))) \<Longrightarrow> shrinks K w (snd (andThen m k))"
  by (cases m; cases "fst m") (auto simp: andThen_def intro: shrinks_trans)

locale user_keys =
  fixes K :: "db \<Rightarrow> 'k set"
  assumes keys_of_users: "users v = users d \<Longrightarrow> nextId d \<le> nextId v \<Longrightarrow> K v \<subseteq> K d"
    and keys_merge: "K v \<subseteq> K (rls t d) \<Longrightarrow> K (merge (hidden t d) v) \<subseteq> K d"
    and keys_activate: "rls t d = d \<Longrightarrow> committed (activateUser sha p ph d) a v \<Longrightarrow> K v \<subseteq> K d"
    and keys_register: "registerCustomerUser slug em ph d = Inr (c, v) \<Longrightarrow> K v \<subseteq> K d"
begin

lemma key_tx:
  assumes "\<And>a v. committed (body (rls (ctx_tenantId c) (data w))) a v \<Longrightarrow> K v \<subseteq> K (rls (ctx_tenantId c) (data w))"
  shows "shrinks K w (snd (withTenantTx c body w))"
proof (cases rule: tx_cases[of c body w])
  case (commits a v)
  show ?thesis unfolding shrinks_def commits(3) by (rule keys_merge, rule assms, rule commits(2))
qed (simp add: shrinks_def)

lemma setTokens_keys: "shrinks K w (snd (withTenantTx c (setTokens p f) w))"
  by (rule key_tx, rule keys_of_users) (auto simp: setTokens_def)

lemma issue_keys: "shrinks K w (snd (issue sha now raw fam c w))"
  unfolding issue_def by (rule key_tx, rule keys_of_users) (auto simp: insertToken_def fresh_def split: if_split_asm)

lemma issueTokens_keys: "shrinks K w (snd (issueTokens sha now raw fam c w))"
  unfolding issueTokens_def by (rule shrinks_andThen[OF issue_keys]) simp

lemma getTotpSecret_keys: "shrinks K w (snd (getTotpSecret c w))"
  unfolding getTotpSecret_def by (rule key_tx) simp

lemma audit_keys: "shrinks K w (snd (withTenantTx c (\<lambda>d. returns () (audit c a e i d)) w))"
  by (rule key_tx, rule keys_of_users) (auto simp: audit_def)

lemma resolve_keys: "shrinks K w (snd (resolveCurrentUser t u w))"
  unfolding resolveCurrentUser_def by (rule key_tx) (auto dest: currentUser_reads)

lemmas op_keys = setTokens_keys issue_keys issueTokens_keys getTotpSecret_keys audit_keys resolve_keys

lemma rotateChecks_keys: "shrinks K w (snd (rotateChecks sha now raw w))"
proof (cases "findRefreshToken (sha raw) (data w)")
  case (Some existing)
  show ?thesis unfolding rotateChecks_def Some option.case revokeFamily_def
    by (rule shrinks_andThen[OF resolve_keys])
      (auto simp: Let_def split: prod.split intro!: shrinks_andThen op_keys)
qed (simp add: rotateChecks_def)

lemma rotate_keys: "shrinks K w (snd (rotate sha now raw newRaw w))"
  unfolding rotate_def rotateFinish_def
  by (rule shrinks_andThen[OF rotateChecks_keys]) (auto intro!: shrinks_andThen op_keys)

lemma activate_keys: "shrinks K w (snd (activate sha ok claims ph w))"
proof (cases claims)
  case (Some p)
  have "shrinks K w1 (w1\<lparr>data := activateOnboardingTenant ok i (data w1)\<rparr>)" for w1 i
    using keys_of_users[of "activateOnboardingTenant ok i (data w1)" "data w1"]
    by (simp add: shrinks_def activateOnboardingTenant_def)
  moreover have "shrinks K w (snd (withTenantTx c (activateUser sha p ph) w))" for c
    by (rule key_tx, rule keys_activate[of "ctx_tenantId c"]) simp_all
  ultimately show ?thesis unfolding activate_def Some option.case by (intro shrinks_andThen) simp_all
qed (simp add: activate_def)

lemma registerCustomer_keys: "shrinks K w (snd (registerCustomer sha now s em ph slug w))"
proof (cases "registerCustomerUser slug (map toLower em) ph (data w)")
  case (Inr x)
  obtain c d where x: "x = (c, d)" by force
  have "shrinks K w (w\<lparr>data := d\<rparr>)" using keys_register[OF Inr[unfolded x]] by (simp add: shrinks_def)
  from shrinks_trans[OF this issueTokens_keys] show ?thesis by (simp add: registerCustomer_def Inr x)
qed (simp add: registerCustomer_def)

lemma login_keys:
  assumes "login sha pm t1 t2 s em pw slug m w = (r, m', w')"
  shows "shrinks K w w'"
proof (cases rule: login_cases[OF assms])
  case (2 c)
  show ?thesis unfolding 2 by (rule issueTokens_keys)
next
  case (3 c)
  show ?thesis unfolding 3 by (rule shrinks_andThen[OF getTotpSecret_keys]) (simp add: issueTokens_keys)
qed simp

lemma key_step: "sessStep w w' \<Longrightarrow> shrinks K w w'"
  by (induction rule: sessStep.induct)
    (auto simp: verifyTwoFa_def revokeAllForUser_def refresh_rotates intro: login_keys registerCustomer_keys rotate_keys activate_keys
      intro!: shrinks_andThen op_keys split: option.split)

lemma key_steps: "sessStep\<^sup>*\<^sup>* w w' \<Longrightarrow> shrinks K w w'"
  by (induction rule: rtranclp_induct) (auto intro: shrinks_trans key_step)

end

lemma rls_users: "rls t d = d \<Longrightarrow> u \<in> set (users d) \<Longrightarrow> usr_tenantId u = t"
proof -
  assume r: "rls t d = d" and u: "u \<in> set (users d)"
  have "users (rls t d) = users d" by (simp only: r)
  with u have "u \<in> set (users (rls t d))" by simp
  then show "usr_tenantId u = t" by (simp add: rls_def)
qed

interpretation invites: user_keys invited
proof (unfold_locales, goal_cases)
  case (1 v d)
  then show ?case by (simp add: invited_def)
next
  case (2 v t d)
  then show ?case by (auto simp: invited_def merge_def hidden_def rls_def)
next
  case (3 t d sha p ph a v)
  then show ?case by (auto simp: activateUser_def setUser_def invited_def in_updw split: option.split_asm if_split_asm)
next
  case (4 slug em ph d c v)
  then show ?case by (auto simp: registerCustomerUser_def fresh_def invited_def split: option.split_asm if_split_asm)
qed

lemma not_invited_dead:
  assumes "(act_tenantId p, act_sub p) \<notin> invited (data w)"
  shows "fst (activate sha ok (Some p) ph w) = Inl (Unauthorized ''invalid_activation_token'')"
    and "data (snd (activate sha ok (Some p) ph w)) = data w"
proof -
  let ?c = "\<lparr>ctx_tenantId = act_tenantId p, ctx_userId = act_sub p, ctx_role = BOOTSTRAP_ROLE\<rparr>"
  have b: "activateUser sha p ph (rls (act_tenantId p) (data w)) = fails (Unauthorized ''invalid_activation_token'')"
  proof (cases "find (\<lambda>u. usr_id u = act_sub p) (users (rls (act_tenantId p) (data w)))")
    case (Some u)
    from find_SomeD[OF Some] assms have "usr_status u \<noteq> ''invited''" by (auto simp: invited_def rls_def)
    then show ?thesis using Some by (simp add: activateUser_def)
  qed (simp add: activateUser_def)
  show "fst (activate sha ok (Some p) ph w) = Inl (Unauthorized ''invalid_activation_token'')"
    "data (snd (activate sha ok (Some p) ph w)) = data w"
    by (simp_all add: activate_def withTenantTx_def Let_def b fails_def andThen_stop)
qed

text \<open>
  C32. An activation link works once. An activation that succeeds sets the password of a user who was
  still invited, under the very password hash the link was signed for; after it, whatever requests
  sign in, refresh, sign out and activate, the same link is refused and changes nothing.
\<close>

theorem activation_single_use:
  assumes "activate sha ok (Some p) ph w = (Inr (), w1)" "sessStep\<^sup>*\<^sup>* w1 w2"
  shows "list_ex (\<lambda>u. usr_tenantId u = act_tenantId p \<and> usr_id u = act_sub p \<and> usr_status u = ''invited'' \<and>
      hashForActivation sha (usr_passwordHash u) = act_pwv p) (users (data w)) \<and>
    fst (activate sha ok (Some p) ph' w2) = Inl (Unauthorized ''invalid_activation_token'') \<and>
    data (snd (activate sha ok (Some p) ph' w2)) = data w2"
proof -
  let ?c = "\<lparr>ctx_tenantId = act_tenantId p, ctx_userId = act_sub p, ctx_role = BOOTSTRAP_ROLE\<rparr>"
  let ?t = "act_tenantId p"
  obtain u w0 where t: "withTenantTx ?c (activateUser sha p ph) w = (Inr u, w0)"
    and w1: "w1 = w0\<lparr>data := activateOnboardingTenant ok ?t (data w0)\<rparr>"
    using assms(1) by (auto simp: activate_def andThen_def split: prod.split_asm sum.split_asm)
  obtain v where v: "committed (activateUser sha p ph (rls ?t (data w))) u v" "data w0 = merge (hidden ?t (data w)) v"
    by (rule withTenantTx_commitD[OF t]) simp
  obtain x where x: "find (\<lambda>u. usr_id u = act_sub p) (users (rls ?t (data w))) = Some x" "usr_status x = ''invited''"
      "hashForActivation sha (usr_passwordHash x) = act_pwv p"
    and new: "v = setUser (act_sub p) (\<lambda>u. u\<lparr>usr_passwordHash := ph, usr_status := ''active''\<rparr>) (rls ?t (data w))"
    using v(1) by (auto simp: activateUser_def split: option.split_asm if_split_asm)
  from find_SomeD[OF x(1)] x(2,3) have was: "list_ex (\<lambda>u. usr_tenantId u = ?t \<and> usr_id u = act_sub p \<and> usr_status u = ''invited'' \<and>
      hashForActivation sha (usr_passwordHash u) = act_pwv p) (users (data w))"
    by (auto simp: list_ex_iff rls_def)
  have "(?t, act_sub p) \<notin> invited (data w0)"
  proof
    assume "(?t, act_sub p) \<in> invited (data w0)"
    then obtain y where y: "y \<in> set (users (data w0))" "usr_tenantId y = ?t" "usr_id y = act_sub p" "usr_status y = ''invited''"
      by (auto simp: invited_def)
    then have "y \<in> set (users v)" by (auto simp: v(2) merge_def hidden_def)
    then obtain z where "y = (if usr_id z = act_sub p then z\<lparr>usr_passwordHash := ph, usr_status := ''active''\<rparr> else z)"
      by (auto simp: new setUser_def in_updw)
    then show False using y(3,4) by (cases "usr_id z = act_sub p") simp_all
  qed
  then have "(?t, act_sub p) \<notin> invited (data w1)" by (simp add: w1 invited_def activateOnboardingTenant_def)
  then have "(?t, act_sub p) \<notin> invited (data w2)" using invites.key_steps[OF assms(2)] by (auto simp: shrinks_def)
  from not_invited_dead[OF this] was show ?thesis by blast
qed

theorem activation_single_use_witness:
  "\<exists>w1. activate (\<lambda>x. x) (\<lambda>_. False) (Some (signActivationToken (\<lambda>x. x) 3 8 ''secret'')) ''new''
       (session_world ''invited'' [] 100 []) = (Inr (), w1) \<and>
     map usr_passwordHash (users (data w1)) = [''new''] \<and>
     fst (activate (\<lambda>x. x) (\<lambda>_. False) (Some (signActivationToken (\<lambda>x. x) 3 8 ''secret'')) ''again'' w1) =
       Inl (Unauthorized ''invalid_activation_token'')"
proof -
  let ?w = "session_world ''invited'' [] 100 []" and ?p = "signActivationToken (\<lambda>x. x) 3 8 ''secret''"
  obtain w1 where a: "activate (\<lambda>x. x) (\<lambda>_. False) (Some ?p) ''new'' ?w = (Inr (), w1)" "map usr_passwordHash (users (data w1)) = [''new'']"
    by (simp add: activate_def activateUser_def signActivationToken_def hashForActivation_def setUser_def andThen_def withTenantTx_def Let_def
        returns_def session_world_def demo_user_def empty_db_def rls_def merge_def hidden_def updw_def activateOnboardingTenant_def)
  from a activation_single_use[OF a(1) rtranclp.rtrancl_refl, of "''again''"] show ?thesis by (intro exI[of _ w1] conjI) blast+
qed

end
