(* ===== verification/Users.thy ===== *)
theory Users
  imports Sessions
begin

text \<open>
  User administration and the profile of a user (\<open>apps/api/src/users/users.service.ts\<close>), with the
  escalation policy \<open>evaluateUserAdminAction\<close> of \<open>packages/shared/src/users.ts\<close>. Which roles hold
  \<open>user:manage\<close>, whether a project site exists in any tenant (foreign keys do not see row-level
  security), argon2, the random placeholder drawn, and the code a database error shows to the
  \<open>catch\<close> around the query are arguments. \<open>revokeAllForUser\<close> opens a transaction of its own inside
  the caller's; the two write different tables, and it is written after the caller's here.
\<close>

section \<open>The escalation policy\<close>

definition ROLE_CODES :: "string list" where
  "ROLE_CODES = [''platform_admin'', ''owner'', ''admin'', ''timekeeper'', ''customer'']"

definition assignableRoles :: "string list" where
  "assignableRoles = [''admin'', ''timekeeper'', ''customer'']"

definition ROLE_ASSIGNABLE_BY :: "string \<rightharpoonup> string list" where
  "ROLE_ASSIGNABLE_BY = [''platform_admin'' \<mapsto> assignableRoles, ''admin'' \<mapsto> assignableRoles, ''owner'' \<mapsto> assignableRoles,
     ''timekeeper'' \<mapsto> [], ''customer'' \<mapsto> []]"

definition ROLE_PROTECTED_FROM :: "string \<rightharpoonup> string list" where
  "ROLE_PROTECTED_FROM = [''platform_admin'' \<mapsto> [''platform_admin''], ''admin'' \<mapsto> [''platform_admin'', ''owner''],
     ''owner'' \<mapsto> [''platform_admin''], ''timekeeper'' \<mapsto> ROLE_CODES, ''customer'' \<mapsto> ROLE_CODES]"

datatype user_admin_denial = SelfMutationForbidden | RoleNotAssignable | TargetRoleProtected | LastUserManager

fun denialText :: "user_admin_denial \<Rightarrow> string" where
  "denialText SelfMutationForbidden = ''self_mutation_forbidden''"
| "denialText RoleNotAssignable = ''role_not_assignable''"
| "denialText TargetRoleProtected = ''target_role_protected''"
| "denialText LastUserManager = ''last_user_manager''"

text \<open>An actor's role outside \<open>ROLE_CODES\<close> has no entry, and looking into it throws.\<close>

definition evaluateUserAdminAction ::
  "string \<Rightarrow> uuid \<Rightarrow> uuid \<Rightarrow> string \<Rightarrow> string option \<Rightarrow> bool \<Rightarrow> http_error + user_admin_denial option" where
  "evaluateUserAdminAction actorRole actorUserId targetUserId targetRole requestedRole wouldLeaveZeroUserManagers =
     (if actorUserId = targetUserId then Inr (Some SelfMutationForbidden)
      else case (ROLE_ASSIGNABLE_BY actorRole, ROLE_PROTECTED_FROM actorRole) of
        (Some grantable, Some untouchable) \<Rightarrow>
          Inr (if (case requestedRole of None \<Rightarrow> False | Some r \<Rightarrow> r \<notin> set grantable) then Some RoleNotAssignable
               else if targetRole \<in> set untouchable then Some TargetRoleProtected
               else if wouldLeaveZeroUserManagers then Some LastUserManager
               else None)
      | _ \<Rightarrow> Inl (Internal ''TypeError''))"

definition refusal :: "http_error + user_admin_denial option \<Rightarrow> http_error option" where
  "refusal verdict = (case verdict of Inl e \<Rightarrow> Some e | Inr None \<Rightarrow> None | Inr (Some r) \<Rightarrow> Some (Forbidden (denialText r)))"

definition assertGrantAllowed :: "string \<Rightarrow> string \<Rightarrow> http_error option" where
  "assertGrantAllowed actorRole requestedRole =
     (case ROLE_ASSIGNABLE_BY actorRole of
        None \<Rightarrow> Some (Internal ''TypeError'')
      | Some grantable \<Rightarrow> if requestedRole \<in> set grantable then None else Some (Forbidden ''role_not_assignable''))"

section \<open>Reading users\<close>

definition selectUserWithRole :: "uuid \<Rightarrow> db \<Rightarrow> (user \<times> string) option" where
  "selectUserWithRole i d =
     (case find (\<lambda>r. usr_id r = i \<and> roleNameOf r d \<noteq> None) (users d) of
        None \<Rightarrow> None
      | Some u \<Rightarrow> Some (u, the (roleNameOf u d)))"

definition loadTargetForMutation :: "ctx \<Rightarrow> uuid \<Rightarrow> bool \<Rightarrow> db \<Rightarrow> http_error + user \<times> string" where
  "loadTargetForMutation c i protect d =
     (case selectUserWithRole i d of
        None \<Rightarrow> Inl (NotFound ''user_not_found'')
      | Some (target, roleName) \<Rightarrow>
          if protect
          then (case evaluateUserAdminAction (ctx_role c) (ctx_userId c) i roleName None False of
                  Inl e \<Rightarrow> Inl e
                | Inr verdict \<Rightarrow> if verdict = Some SelfMutationForbidden then Inl (Forbidden ''self_mutation_forbidden'')
                    else Inr (target, roleName))
          else Inr (target, roleName))"

definition countOtherActiveUserManagers :: "(uuid \<Rightarrow> bool) \<Rightarrow> uuid \<Rightarrow> uuid \<Rightarrow> db \<Rightarrow> nat" where
  "countOtherActiveUserManagers manages tenantId excludeUserId d =
     length (remdups (map usr_id (filter (\<lambda>u. usr_tenantId u = tenantId \<and> usr_status u = ''active'' \<and>
       roleNameOf u d \<noteq> None \<and> manages (usr_roleId u) \<and> usr_id u \<noteq> excludeUserId) (users d))))"

record user_query =
  uqr_status :: "string option"
  uqr_role :: "string option"
  uqr_limit :: nat
  uqr_offset :: nat

definition userMatches :: "db \<Rightarrow> user_query \<Rightarrow> user \<Rightarrow> bool" where
  "userMatches d query u \<longleftrightarrow>
     (case uqr_status query of None \<Rightarrow> True | Some s \<Rightarrow> usr_status u = s) \<and>
     (case uqr_role query of
        None \<Rightarrow> True
      | Some name \<Rightarrow> (case find (\<lambda>r. rol_name r = name) (roles d) of None \<Rightarrow> False | Some roleRow \<Rightarrow> usr_roleId u = rol_id roleRow))"

definition listUsers :: "user_query \<Rightarrow> (db, (user \<times> string) list \<times> nat) body" where
  "listUsers query d =
     (let rows = filter (\<lambda>u. roleNameOf u d \<noteq> None \<and> userMatches d query u) (users d)
      in returns (map (\<lambda>u. (u, the (roleNameOf u d))) (take (uqr_limit query) (drop (uqr_offset query) rows)),
           length (filter (userMatches d query) (users d))) d)"

definition getUser :: "uuid \<Rightarrow> (db, user \<times> string) body" where
  "getUser i d = (case selectUserWithRole i d of None \<Rightarrow> fails (NotFound ''user_not_found'') | Some row \<Rightarrow> returns row d)"

record user_self =
  slf_user :: user
  slf_role :: string
  slf_tenantName :: string
  slf_tenantSlug :: string
  slf_avatarUrl :: "string option"

text \<open>The signed URL of the picture is drawn after the transaction; \<open>None\<close> when Storage fails.\<close>

definition me :: "(string \<Rightarrow> string option) \<Rightarrow> ctx \<Rightarrow> world \<Rightarrow> (http_error + user_self) \<times> world" where
  "me signedUrl c w =
     andThen (withTenantTx c (\<lambda>d. case selectUserWithRole (ctx_userId c) d of
         None \<Rightarrow> fails (NotFound ''user_not_found'')
       | Some (u, role) \<Rightarrow> returns (u, role, find (\<lambda>t. ten_id t = ctx_tenantId c) (tenants d)) d) w)
       (\<lambda>(u, role, tenant) w1. (Inr \<lparr>slf_user = u, slf_role = role,
          slf_tenantName = (case tenant of None \<Rightarrow> '''' | Some t \<Rightarrow> ten_legalName t),
          slf_tenantSlug = (case tenant of None \<Rightarrow> '''' | Some t \<Rightarrow> ten_slug t),
          slf_avatarUrl = Option.bind (nonEmpty (usr_avatarKey u)) signedUrl\<rparr>, w1))"

section \<open>A user's own profile\<close>

record user_self_update =
  upd_phone :: "string option option"
  upd_address :: "string option option"
  upd_notificationPrefs :: "notification_prefs option"

definition present :: "'a option \<Rightarrow> 'a \<Rightarrow> 'a" where
  "present x old = (case x of None \<Rightarrow> old | Some new \<Rightarrow> new)"

definition setOwnRow :: "ctx \<Rightarrow> (user \<Rightarrow> user) \<Rightarrow> world \<Rightarrow> (http_error + unit) \<times> world" where
  "setOwnRow c f w = withTenantTx c (\<lambda>d. returns () (setUser (ctx_userId c) f d)) w"

definition updateSelf :: "(string \<Rightarrow> string option) \<Rightarrow> ctx \<Rightarrow> user_self_update \<Rightarrow> world \<Rightarrow> (http_error + user_self) \<times> world" where
  "updateSelf signedUrl c body w =
     (if body = \<lparr>upd_phone = None, upd_address = None, upd_notificationPrefs = None\<rparr> then me signedUrl c w
      else andThen (setOwnRow c (\<lambda>u. u\<lparr>usr_phone := present (upd_phone body) (usr_phone u),
               usr_address := present (upd_address body) (usr_address u),
               usr_notificationPrefs := present (upd_notificationPrefs body) (usr_notificationPrefs u)\<rparr>) w)
             (\<lambda>_. me signedUrl c))"

definition setAvatar :: "(string \<Rightarrow> string option) \<Rightarrow> ctx \<Rightarrow> string \<Rightarrow> world \<Rightarrow> (http_error + user_self) \<times> world" where
  "setAvatar signedUrl c key w = andThen (setOwnRow c (usr_avatarKey_update (\<lambda>_. Some key)) w) (\<lambda>_. me signedUrl c)"

definition changePassword ::
  "(string \<Rightarrow> string \<Rightarrow> bool) \<Rightarrow> ctx \<Rightarrow> string \<Rightarrow> string \<Rightarrow> world \<Rightarrow> (http_error + unit) \<times> world" where
  "changePassword passwordMatches c currentPassword newHash w =
     andThen (withTenantTx c (\<lambda>d. case find (\<lambda>u. usr_id u = ctx_userId c) (users d) of
         None \<Rightarrow> fails (Unprocessable ''current_password_incorrect'')
       | Some row \<Rightarrow>
           if \<not> passwordMatches (usr_passwordHash row) currentPassword then fails (Unprocessable ''current_password_incorrect'')
           else returns () (setUser (ctx_userId c) (usr_passwordHash_update (\<lambda>_. newHash)) d)) w)
       (\<lambda>_. revokeAllForUser c (ctx_userId c))"

definition signOutEverywhere :: "ctx \<Rightarrow> world \<Rightarrow> (http_error + unit) \<times> world" where
  "signOutEverywhere c w = revokeAllForUser c (ctx_userId c) w"

section \<open>Administration\<close>

definition isUniqueViolation :: "string option \<Rightarrow> bool" where
  "isUniqueViolation code \<longleftrightarrow> code = Some ''23505''"

definition isForeignKeyViolation :: "string option \<Rightarrow> bool" where
  "isForeignKeyViolation code \<longleftrightarrow> code = Some ''23503''"

definition siteRows :: "uuid \<Rightarrow> uuid \<Rightarrow> nat \<Rightarrow> uuid list \<Rightarrow> timekeeper_assignment list" where
  "siteRows t u n sites = map (\<lambda>(i, s). \<lparr>tsa_id = i, tsa_tenantId = t, tsa_userId = u, tsa_projectSiteId = s\<rparr>)
     (zip [n..<n + length sites] sites)"

definition insertSites :: "(string \<Rightarrow> string option) \<Rightarrow> (uuid \<Rightarrow> bool) \<Rightarrow> uuid \<Rightarrow> uuid \<Rightarrow> uuid list \<Rightarrow> db \<Rightarrow> http_error + db" where
  "insertSites codeSeen siteExists t u sites d =
     (let caught = (\<lambda>code. if isForeignKeyViolation (codeSeen code) then Unprocessable ''project_site_not_found'' else Internal code)
      in if sites = [] then Inr d
         else if \<not> distinct sites \<or> list_ex (\<lambda>r. tsa_userId r = u \<and> tsa_projectSiteId r \<in> set sites) (timekeeperSiteAssignments d)
         then Inl (caught ''23505'')
         else if \<not> list_all siteExists sites then Inl (caught ''23503'')
         else Inr (d\<lparr>timekeeperSiteAssignments := timekeeperSiteAssignments d @ siteRows t u (nextId d) sites,
                nextId := nextId d + length sites\<rparr>))"

record user_invite =
  inv_userEmail :: string
  inv_role :: string
  inv_sites :: "uuid list option"

definition invitedUser :: "ctx \<Rightarrow> uuid \<Rightarrow> string \<Rightarrow> string \<Rightarrow> uuid \<Rightarrow> user" where
  "invitedUser c roleId email placeholderHash i =
     \<lparr>usr_id = i, usr_tenantId = ctx_tenantId c, usr_roleId = roleId, usr_email = email, usr_passwordHash = placeholderHash,
      usr_status = ''invited'', usr_totpSecret = None, usr_firstName = None, usr_middleName = None, usr_lastName = None,
      usr_phone = None, usr_address = None, usr_avatarKey = None, usr_notificationPrefs = defaultPrefs\<rparr>"

definition inviteBody ::
  "(string \<Rightarrow> string option) \<Rightarrow> (uuid \<Rightarrow> bool) \<Rightarrow> string \<Rightarrow> ctx \<Rightarrow> user_invite \<Rightarrow> (db, uuid) body" where
  "inviteBody codeSeen siteExists placeholderHash c input d =
     (case find (\<lambda>r. rol_name r = inv_role input) (roles d) of
        None \<Rightarrow> fails (Unprocessable ''role_not_found'')
      | Some roleRow \<Rightarrow>
          if inv_sites input \<noteq> None \<and> inv_role input \<noteq> ''timekeeper'' then fails (Unprocessable ''role_has_no_site_assignments'')
          else
            let email = map toLower (inv_userEmail input); i = nextId d
            in if list_ex (\<lambda>u. usr_email u = email) (users d)
               then fails (if isUniqueViolation (codeSeen ''23505'') then Conflict ''email_taken'' else Internal ''23505'')
               else
                 case insertSites codeSeen siteExists (ctx_tenantId c) i (case inv_sites input of None \<Rightarrow> [] | Some sites \<Rightarrow> sites)
                        ((fresh d)\<lparr>users := users d @ [invitedUser c (rol_id roleRow) email placeholderHash i]\<rparr>) of
                   Inl e \<Rightarrow> fails e
                 | Inr d1 \<Rightarrow> ([''user_invited''], Inr (i, audit c ''CREATE'' ''users'' i d1)))"

definition invite ::
  "(string \<Rightarrow> string) \<Rightarrow> (string \<Rightarrow> string option) \<Rightarrow> (uuid \<Rightarrow> bool) \<Rightarrow> string \<Rightarrow> ctx \<Rightarrow> user_invite \<Rightarrow> world \<Rightarrow>
   (http_error + uuid \<times> activation_claims) \<times> world" where
  "invite sha codeSeen siteExists placeholderHash c input w =
     (case assertGrantAllowed (ctx_role c) (inv_role input) of
        Some e \<Rightarrow> (Inl e, w)
      | None \<Rightarrow> andThen (withTenantTx c (inviteBody codeSeen siteExists placeholderHash c input) w)
          (\<lambda>i w1. (Inr (i, signActivationToken sha (ctx_tenantId c) i placeholderHash), w1)))"

definition reinviteBody :: "string \<Rightarrow> ctx \<Rightarrow> uuid \<Rightarrow> (db, unit) body" where
  "reinviteBody placeholderHash c i d =
     (case find (\<lambda>u. usr_id u = i) (users d) of
        None \<Rightarrow> fails (NotFound ''user_not_found'')
      | Some u \<Rightarrow>
          if usr_status u \<noteq> ''invited'' then fails (Conflict ''user_not_invited'')
          else returns () (audit c ''UPDATE'' ''users'' i (setUser i (usr_passwordHash_update (\<lambda>_. placeholderHash)) d)))"

definition reinvite :: "(string \<Rightarrow> string) \<Rightarrow> string \<Rightarrow> ctx \<Rightarrow> uuid \<Rightarrow> world \<Rightarrow> (http_error + uuid \<times> activation_claims) \<times> world" where
  "reinvite sha placeholderHash c i w =
     andThen (withTenantTx c (reinviteBody placeholderHash c i) w)
       (\<lambda>_ w1. (Inr (i, signActivationToken sha (ctx_tenantId c) i placeholderHash), w1))"

definition resetBody :: "string \<Rightarrow> ctx \<Rightarrow> uuid \<Rightarrow> (db, unit) body" where
  "resetBody placeholderHash c i d =
     (case find (\<lambda>u. usr_id u = i) (users d) of
        None \<Rightarrow> fails (NotFound ''user_not_found'')
      | Some u \<Rightarrow>
          if usr_status u = ''disabled'' then fails (Conflict ''user_disabled'')
          else ([''user_password_reset''], Inr ((), audit c ''UPDATE'' ''users'' i
                 (setUser i (\<lambda>u. u\<lparr>usr_passwordHash := placeholderHash, usr_status := ''invited''\<rparr>) d))))"

definition resetPassword :: "(string \<Rightarrow> string) \<Rightarrow> string \<Rightarrow> ctx \<Rightarrow> uuid \<Rightarrow> world \<Rightarrow> (http_error + uuid \<times> activation_claims) \<times> world" where
  "resetPassword sha placeholderHash c i w =
     andThen (withTenantTx c (resetBody placeholderHash c i) w) (\<lambda>_ w1. andThen (revokeAllForUser c i w1)
       (\<lambda>_ w2. (Inr (i, signActivationToken sha (ctx_tenantId c) i placeholderHash), w2)))"

definition changeRoleBody :: "ctx \<Rightarrow> uuid \<Rightarrow> string \<Rightarrow> (db, unit) body" where
  "changeRoleBody c i role d =
     (case loadTargetForMutation c i True d of
        Inl e \<Rightarrow> fails e
      | Inr (target, roleName) \<Rightarrow>
          (case refusal (evaluateUserAdminAction (ctx_role c) (ctx_userId c) i roleName (Some role) False) of
             Some e \<Rightarrow> fails e
           | None \<Rightarrow>
               (case find (\<lambda>r. rol_name r = role) (roles d) of
                  None \<Rightarrow> fails (Unprocessable ''role_not_found'')
                | Some roleRow \<Rightarrow> ([''user_role_changed''], Inr ((), audit c ''UPDATE'' ''users'' i
                    (setUser i (usr_roleId_update (\<lambda>_. rol_id roleRow)) d))))))"

definition changeRole :: "ctx \<Rightarrow> uuid \<Rightarrow> string \<Rightarrow> world \<Rightarrow> (http_error + unit) \<times> world" where
  "changeRole c i role w = andThen (withTenantTx c (changeRoleBody c i role) w) (\<lambda>_. revokeAllForUser c i)"

definition setStatusBody :: "(uuid \<Rightarrow> bool) \<Rightarrow> ctx \<Rightarrow> uuid \<Rightarrow> string \<Rightarrow> string \<Rightarrow> bool \<Rightarrow> (db, unit) body" where
  "setStatusBody manages c i status eventName checkLastManager d =
     (case loadTargetForMutation c i True d of
        Inl e \<Rightarrow> fails e
      | Inr (target, roleName) \<Rightarrow>
          (case refusal (evaluateUserAdminAction (ctx_role c) (ctx_userId c) i roleName None
                  (checkLastManager \<and> countOtherActiveUserManagers manages (ctx_tenantId c) i d = 0)) of
             Some e \<Rightarrow> fails e
           | None \<Rightarrow> ([eventName], Inr ((), audit c ''UPDATE'' ''users'' i (setUser i (usr_status_update (\<lambda>_. status)) d)))))"

definition setStatus :: "(uuid \<Rightarrow> bool) \<Rightarrow> ctx \<Rightarrow> uuid \<Rightarrow> string \<Rightarrow> string \<Rightarrow> bool \<Rightarrow> world \<Rightarrow> (http_error + unit) \<times> world" where
  "setStatus manages c i status eventName checkLastManager w =
     andThen (withTenantTx c (setStatusBody manages c i status eventName checkLastManager) w)
       (\<lambda>_ w1. if status = ''disabled'' then revokeAllForUser c i w1 else (Inr (), w1))"

definition deactivate :: "(uuid \<Rightarrow> bool) \<Rightarrow> ctx \<Rightarrow> uuid \<Rightarrow> world \<Rightarrow> (http_error + unit) \<times> world" where
  "deactivate manages c i w = setStatus manages c i ''disabled'' ''user_deactivated'' True w"

definition reactivate :: "(uuid \<Rightarrow> bool) \<Rightarrow> ctx \<Rightarrow> uuid \<Rightarrow> world \<Rightarrow> (http_error + unit) \<times> world" where
  "reactivate manages c i w = setStatus manages c i ''active'' ''user_reactivated'' False w"

definition getSiteAssignments :: "ctx \<Rightarrow> uuid \<Rightarrow> (db, uuid list) body" where
  "getSiteAssignments c i d =
     (case loadTargetForMutation c i False d of
        Inl e \<Rightarrow> fails e
      | Inr (_, roleName) \<Rightarrow>
          returns (if roleName \<noteq> ''timekeeper'' then []
            else map tsa_projectSiteId (filter (\<lambda>r. tsa_userId r = i) (timekeeperSiteAssignments d))) d)"

definition setSiteAssignments :: "(string \<Rightarrow> string option) \<Rightarrow> (uuid \<Rightarrow> bool) \<Rightarrow> ctx \<Rightarrow> uuid \<Rightarrow> uuid list \<Rightarrow> (db, unit) body" where
  "setSiteAssignments codeSeen siteExists c i sites d =
     (case loadTargetForMutation c i False d of
        Inl e \<Rightarrow> fails e
      | Inr (_, roleName) \<Rightarrow>
          if roleName \<noteq> ''timekeeper'' then fails (Unprocessable ''role_has_no_site_assignments'')
          else
            (case insertSites codeSeen siteExists (ctx_tenantId c) i sites
                    (d\<lparr>timekeeperSiteAssignments := filter (\<lambda>r. tsa_userId r \<noteq> i) (timekeeperSiteAssignments d)\<rparr>) of
               Inl e \<Rightarrow> fails e
             | Inr d1 \<Rightarrow> ([''user_site_assignments_set''], Inr ((), audit c ''UPDATE'' ''users'' i d1))))"

section \<open>Owners are out of an administrator's reach\<close>

definition protectedUsers :: "db \<Rightarrow> user set" where
  "protectedUsers d = {u \<in> set (users d). roleNameOf u d \<in> {Some ''owner'', Some ''platform_admin''}}"

text \<open>Primary keys of the users and roles, and a counter above them.\<close>

definition usersOk :: "db \<Rightarrow> bool" where
  "usersOk d \<longleftrightarrow> distinct (map usr_id (users d)) \<and> list_all (\<lambda>u. usr_id u < nextId d) (users d) \<and> distinct (map rol_id (roles d))"

text \<open>What the operations that ask the policy do to the users: they keep the protected ones as they are.\<close>

definition governs :: "db \<Rightarrow> db \<Rightarrow> bool" where
  "governs d v \<longleftrightarrow> roles v = roles d \<and> nextId d \<le> nextId v \<and> protectedUsers v = protectedUsers d \<and>
     (\<exists>new. map usr_id (users v) = map usr_id (users d) @ new \<and> distinct new \<and> list_all (\<lambda>i. nextId d \<le> i \<and> i < nextId v) new)"

lemma roleNameOf_roles: "roles v = roles d \<Longrightarrow> roleNameOf u v = roleNameOf u d"
  by (simp add: roleNameOf_def)

lemma governs_same: "users v = users d \<Longrightarrow> roles v = roles d \<Longrightarrow> nextId d \<le> nextId v \<Longrightarrow> governs d v"
  by (auto simp: governs_def protectedUsers_def roleNameOf_def)

lemma usersOk_rls: "usersOk d \<Longrightarrow> usersOk (rls t d)"
  by (auto simp: usersOk_def rls_def distinct_map_filter list_all_iff)

lemma protected_merge:
  assumes "roles v = roles d"
  shows "protectedUsers (merge (hidden t d) v) = {u \<in> protectedUsers d. usr_tenantId u \<noteq> t} \<union> protectedUsers v"
proof -
  have "roleNameOf u (merge (hidden t d) v) = roleNameOf u v" "roleNameOf u v = roleNameOf u d" for u
    using assms by (simp_all add: roleNameOf_def merge_def)
  then show ?thesis by (auto simp: protectedUsers_def merge_def hidden_def)
qed

lemma fresh_keys:
  assumes "distinct xs" "\<forall>i \<in> set xs. i < n" "distinct ys" "list_all (\<lambda>i. n \<le> i \<and> i < m) ys" "n \<le> (m :: nat)"
  shows "distinct (xs @ ys) \<and> (\<forall>i \<in> set (xs @ ys). i < m)"
  using assms by (fastforce simp: list_all_iff)

lemma governs_commit:
  assumes ok: "usersOk d" and g: "governs (rls t d) v"
  shows "usersOk (merge (hidden t d) v)" "protectedUsers (merge (hidden t d) v) = protectedUsers d"
proof -
  have r: "roles v = roles d" "nextId d \<le> nextId v" using g by (simp_all add: governs_def rls_def)
  have "protectedUsers v = {u \<in> protectedUsers d. usr_tenantId u = t}"
    using g by (auto simp: governs_def protectedUsers_def rls_def roleNameOf_def)
  then show "protectedUsers (merge (hidden t d) v) = protectedUsers d" unfolding protected_merge[OF r(1)] by blast
  obtain new where new: "map usr_id (users v) = map usr_id (users (rls t d)) @ new" "distinct new"
    "list_all (\<lambda>i. nextId d \<le> i \<and> i < nextId v) new" using g by (auto simp: governs_def rls_def)
  let ?ids = "map usr_id (filter (\<lambda>u. usr_tenantId u \<noteq> t) (users d)) @ map usr_id (filter (\<lambda>u. usr_tenantId u = t) (users d))"
  have ids: "map usr_id (users (merge (hidden t d) v)) = ?ids @ new"
    using new(1) by (simp add: merge_def hidden_def rls_def)
  have old: "distinct (map usr_id (users d))" "\<forall>u \<in> set (users d). usr_id u < nextId d" using ok by (auto simp: usersOk_def list_all_iff)
  have "distinct ?ids" using old(1) by (auto simp: distinct_map inj_on_def)
  moreover have "\<forall>i \<in> set ?ids. i < nextId d" using old(2) by auto
  ultimately have "distinct (?ids @ new) \<and> (\<forall>i \<in> set (?ids @ new). i < nextId v)"
    by (rule fresh_keys[OF _ _ new(2,3) r(2)])
  then have "distinct (map usr_id (users (merge (hidden t d) v)))" "\<forall>i \<in> set (map usr_id (users (merge (hidden t d) v))). i < nextId v"
    unfolding ids by (rule conjunct1, rule conjunct2)
  moreover have "nextId (merge (hidden t d) v) = nextId v" "roles (merge (hidden t d) v) = roles d" using r(1) by (simp_all add: merge_def)
  ultimately show "usersOk (merge (hidden t d) v)" using ok by (simp add: usersOk_def list_all_iff)
qed

text \<open>A world whose users an operation governs.\<close>

definition governed :: "world \<Rightarrow> world \<Rightarrow> bool" where
  "governed w w' \<longleftrightarrow> usersOk (data w') \<and> protectedUsers (data w') = protectedUsers (data w)"

lemma governed_tx:
  assumes "usersOk (data w)" "\<And>a v. committed (body (rls (ctx_tenantId c) (data w))) a v \<Longrightarrow> governs (rls (ctx_tenantId c) (data w)) v"
  shows "governed w (snd (withTenantTx c body w))"
proof (cases rule: tx_cases[of c body w])
  case rolled_back
  then show ?thesis using assms(1) by (simp add: governed_def)
next
  case (commits a v)
  show ?thesis unfolding governed_def commits(3) using governs_commit[OF assms(1) assms(2)[OF commits(2)]] by blast
qed

lemma governed_andThen:
  "governed w (snd m) \<Longrightarrow> (\<And>a w1. m = (Inr a, w1) \<Longrightarrow> usersOk (data w1) \<Longrightarrow> governed w1 (snd (k a w1))) \<Longrightarrow> governed w (snd (andThen m k))"
  by (cases m; cases "fst m") (auto simp: andThen_def governed_def)

lemma governed_revokeAll: "usersOk (data w) \<Longrightarrow> governed w (snd (revokeAllForUser c i w))"
  unfolding revokeAllForUser_def by (rule governed_tx) (auto simp: setTokens_def intro!: governs_same)

lemma governed_refl: "usersOk (data w) \<Longrightarrow> governed w w"
  by (simp add: governed_def)

text \<open>Writing to a user whom the policy lets the administrator touch.\<close>

lemma unique_user: "distinct (map usr_id (users d)) \<Longrightarrow> u \<in> set (users d) \<Longrightarrow> x \<in> set (users d) \<Longrightarrow> usr_id u = usr_id x \<Longrightarrow> u = x"
  by (auto simp: distinct_map inj_on_def)

lemma governs_setUser:
  assumes "usersOk d" "x \<in> set (users d)" "usr_id x = i" "x \<notin> protectedUsers d" "usr_id (f x) = i"
    and "roleNameOf (f x) d \<notin> {Some ''owner'', Some ''platform_admin''}"
  shows "governs d (audit c a e j (setUser i f d))"
proof -
  let ?v = "audit c a e j (setUser i f d)"
  have uq: "u = x" if "u \<in> set (users d)" "usr_id u = i" for u
    using unique_user[OF _ that(1) assms(2)] assms(1,3) that(2) by (simp add: usersOk_def)
  have us: "users ?v = updw (\<lambda>u. usr_id u = i) f (users d)" and ro: "roles ?v = roles d" and ne: "nextId ?v = nextId d"
    by (simp_all add: audit_def setUser_def)
  have "usr_id (if usr_id u = i then f u else u) = usr_id u" if "u \<in> set (users d)" for u
    using uq[OF that] assms(5) by (cases "usr_id u = i") simp_all
  then have "map usr_id (users ?v) = map usr_id (users d)" unfolding us updw_def by simp
  moreover have "protectedUsers ?v = protectedUsers d"
  proof (intro equalityI subsetI)
    fix u assume u: "u \<in> protectedUsers ?v"
    then obtain y where y: "y \<in> set (users d)" "u = (if usr_id y = i then f y else y)"
      by (auto simp: protectedUsers_def us in_updw)
    have r: "roleNameOf u d \<in> {Some ''owner'', Some ''platform_admin''}"
      using u by (simp add: protectedUsers_def roleNameOf_roles[OF ro])
    show "u \<in> protectedUsers d"
    proof (cases "usr_id y = i")
      case True
      with r y(2) uq[OF y(1)] assms(6) show ?thesis by simp
    next
      case False
      with r y show ?thesis by (simp add: protectedUsers_def)
    qed
  next
    fix u assume u: "u \<in> protectedUsers d"
    then have m: "u \<in> set (users d)" by (simp add: protectedUsers_def)
    have "usr_id u \<noteq> i" using uq[OF m] u assms(4) by blast
    with m have "u \<in> set (users ?v)" unfolding us in_updw by (intro bexI[of _ u]) simp_all
    then show "u \<in> protectedUsers ?v" using u by (simp add: protectedUsers_def roleNameOf_roles[OF ro])
  qed
  ultimately show ?thesis by (simp add: governs_def ro ne)
qed

lemma loadTargetD:
  assumes "loadTargetForMutation c i protect d = Inr (x, roleName)"
  shows "x \<in> set (users d)" "usr_id x = i" "roleNameOf x d = Some roleName"
proof -
  have "selectUserWithRole i d = Some (x, roleName)"
    using assms by (auto simp: loadTargetForMutation_def split: option.split_asm if_split_asm sum.split_asm)
  then obtain y where "find (\<lambda>r. usr_id r = i \<and> roleNameOf r d \<noteq> None) (users d) = Some y" "x = y" "roleName = the (roleNameOf y d)"
    by (auto simp: selectUserWithRole_def split: option.split_asm)
  with find_SomeD[OF this(1)] show "x \<in> set (users d)" "usr_id x = i" "roleNameOf x d = Some roleName" by auto
qed

lemma policy_protects:
  assumes "refusal (evaluateUserAdminAction ''admin'' a i roleName requested z) = None"
  shows "roleName \<notin> {''owner'', ''platform_admin''}" "requested = Some r \<Longrightarrow> r \<in> set assignableRoles"
  using assms by (auto simp: evaluateUserAdminAction_def refusal_def ROLE_ASSIGNABLE_BY_def ROLE_PROTECTED_FROM_def
      split: if_split_asm option.split_asm)

lemma role_by_id: "usersOk d \<Longrightarrow> x \<in> set (roles d) \<Longrightarrow> usr_roleId u = rol_id x \<Longrightarrow> roleNameOf u d = Some (rol_name x)"
proof -
  assume "usersOk d" "x \<in> set (roles d)" "usr_roleId u = rol_id x"
  moreover obtain y where "find (\<lambda>r. rol_id r = usr_roleId u) (roles d) = Some y"
    using \<open>x \<in> set (roles d)\<close> \<open>usr_roleId u = rol_id x\<close> by (cases "find (\<lambda>r. rol_id r = usr_roleId u) (roles d)") (auto simp: find_None_iff)
  moreover from find_SomeD[OF this] have "rol_id y = usr_roleId u" "y \<in> set (roles d)" by simp_all
  ultimately have "y = x" by (auto simp: usersOk_def distinct_map inj_on_def)
  with \<open>find _ _ = Some y\<close> show "roleNameOf u d = Some (rol_name x)" by (simp add: roleNameOf_def)
qed

lemma governs_setStatus:
  assumes "usersOk d" "ctx_role c = ''admin''" "committed (setStatusBody manages c i st ev chk d) a v"
  shows "governs d v"
proof -
  obtain x roleName where x: "loadTargetForMutation c i True d = Inr (x, roleName)"
    and allowed: "refusal (evaluateUserAdminAction (ctx_role c) (ctx_userId c) i roleName None
       (chk \<and> countOtherActiveUserManagers manages (ctx_tenantId c) i d = 0)) = None"
    and v: "v = audit c ''UPDATE'' ''users'' i (setUser i (usr_status_update (\<lambda>_. st)) d)"
    using assms(3) by (auto simp: setStatusBody_def split: sum.split_asm option.split_asm)
  note role = loadTargetD(3)[OF x] policy_protects(1)[OF allowed[unfolded assms(2)]]
  show ?thesis unfolding v
    by (rule governs_setUser[OF assms(1) loadTargetD(1,2)[OF x]]) (use role loadTargetD(2)[OF x] in \<open>auto simp: protectedUsers_def roleNameOf_def\<close>)
qed

lemma governs_changeRole:
  assumes "usersOk d" "ctx_role c = ''admin''" "committed (changeRoleBody c i role d) a v"
  shows "governs d v"
proof -
  obtain x roleName row where x: "loadTargetForMutation c i True d = Inr (x, roleName)"
    and allowed: "refusal (evaluateUserAdminAction (ctx_role c) (ctx_userId c) i roleName (Some role) False) = None"
    and row: "find (\<lambda>r. rol_name r = role) (roles d) = Some row"
    and v: "v = audit c ''UPDATE'' ''users'' i (setUser i (usr_roleId_update (\<lambda>_. rol_id row)) d)"
    using assms(3) by (auto simp: changeRoleBody_def split: sum.split_asm option.split_asm)
  have new: "roleNameOf (x\<lparr>usr_roleId := rol_id row\<rparr>) d = Some role"
    using role_by_id[OF assms(1), of row] find_SomeD[OF row] by simp
  note policy = policy_protects[OF allowed[unfolded assms(2)]]
  have r: "role \<notin> {''owner'', ''platform_admin''}" using policy(2)[OF refl] by (auto simp: assignableRoles_def)
  show ?thesis unfolding v
  proof (rule governs_setUser[OF assms(1) loadTargetD(1,2)[OF x]])
    show "x \<notin> protectedUsers d" using loadTargetD(3)[OF x] policy(1) by (simp add: protectedUsers_def)
    show "roleNameOf (x\<lparr>usr_roleId := rol_id row\<rparr>) d \<notin> {Some ''owner'', Some ''platform_admin''}" using new r by simp
  qed (simp add: loadTargetD(2)[OF x])
qed

lemma insertSitesD:
  assumes "insertSites codeSeen ex t u sites d = Inr v"
  shows "users v = users d" "roles v = roles d" "nextId d \<le> nextId v"
  using assms by (auto simp: insertSites_def Let_def split: if_split_asm)

lemma governs_setSites:
  assumes "committed (setSiteAssignments codeSeen ex c i sites d) a v"
  shows "governs d v"
proof -
  obtain d1 where "insertSites codeSeen ex (ctx_tenantId c) i sites
      (d\<lparr>timekeeperSiteAssignments := filter (\<lambda>r. tsa_userId r \<noteq> i) (timekeeperSiteAssignments d)\<rparr>) = Inr d1"
    "v = audit c ''UPDATE'' ''users'' i d1"
    using assms by (auto simp: setSiteAssignments_def split: sum.split_asm prod.split_asm if_split_asm)
  with insertSitesD[OF this(1)] show ?thesis by (intro governs_same) (simp_all add: audit_def)
qed

lemma governs_invite:
  assumes "usersOk d" "inv_role input \<in> set assignableRoles" "committed (inviteBody codeSeen ex ph c input d) a v"
  shows "governs d v"
proof -
  obtain row d1 where row: "find (\<lambda>r. rol_name r = inv_role input) (roles d) = Some row"
    and ins: "insertSites codeSeen ex (ctx_tenantId c) (nextId d) (case inv_sites input of None \<Rightarrow> [] | Some sites \<Rightarrow> sites)
        ((fresh d)\<lparr>users := users d @ [invitedUser c (rol_id row) (map toLower (inv_userEmail input)) ph (nextId d)]\<rparr>) = Inr d1"
    and v: "v = audit c ''CREATE'' ''users'' (nextId d) d1"
    using assms(3) by (auto simp: inviteBody_def Let_def split: sum.split_asm option.split_asm if_split_asm)
  let ?u = "invitedUser c (rol_id row) (map toLower (inv_userEmail input)) ph (nextId d)"
  have p: "users v = users d @ [?u]" "roles v = roles d" "Suc (nextId d) \<le> nextId v"
    using insertSitesD[OF ins] by (simp_all add: v audit_def fresh_def)
  have "usr_roleId ?u = rol_id row" by (simp add: invitedUser_def)
  from role_by_id[OF assms(1) _ this] find_SomeD[OF row] have "roleNameOf ?u d = Some (inv_role input)" by auto
  with assms(2) have "roleNameOf ?u d \<notin> {Some ''owner'', Some ''platform_admin''}" by (auto simp: assignableRoles_def)
  then have "protectedUsers v = protectedUsers d"
    unfolding protectedUsers_def roleNameOf_roles[OF p(2)] p(1) by auto
  with p show ?thesis by (auto simp: governs_def invitedUser_def)
qed

text \<open>The operations that ask the policy: invitations, role changes, (de)activations and site assignments.\<close>

inductive governStep :: "ctx \<Rightarrow> world \<Rightarrow> world \<Rightarrow> bool" for c where
  inviting: "governStep c w (snd (invite sha codeSeen ex ph c input w))"
| roleChanging: "governStep c w (snd (changeRole c i role w))"
| deactivating: "governStep c w (snd (deactivate manages c i w))"
| reactivating: "governStep c w (snd (reactivate manages c i w))"
| assigning: "governStep c w (snd (withTenantTx c (setSiteAssignments codeSeen ex c i sites) w))"

lemma governed_setStatus:
  assumes "usersOk (data w)" "ctx_role c = ''admin''"
  shows "governed w (snd (setStatus manages c i st ev chk w))"
  unfolding setStatus_def
  by (rule governed_andThen[OF governed_tx[OF assms(1)]])
    (use assms in \<open>auto intro: governs_setStatus usersOk_rls governed_revokeAll governed_refl\<close>)

lemma governStep_governed:
  assumes "governStep c w w'" "ctx_role c = ''admin''" "usersOk (data w)"
  shows "governed w w'"
  using assms
proof (induction rule: governStep.induct)
  case (inviting w sha codeSeen ex ph input)
  show ?case
  proof (cases "assertGrantAllowed (ctx_role c) (inv_role input)")
    case None
    then have r: "inv_role input \<in> set assignableRoles"
      using inviting(1) by (auto simp: assertGrantAllowed_def ROLE_ASSIGNABLE_BY_def split: if_split_asm)
    show ?thesis unfolding invite_def None option.case
      by (rule governed_andThen[OF governed_tx[OF inviting(2)]])
        (use inviting r in \<open>auto intro: governs_invite usersOk_rls governed_refl\<close>)
  qed (use inviting in \<open>simp add: invite_def governed_refl\<close>)
next
  case (roleChanging w i role)
  then show ?case unfolding changeRole_def
    by (intro governed_andThen[OF governed_tx]) (auto intro: governs_changeRole usersOk_rls governed_revokeAll)
next
  case (deactivating w manages i)
  then show ?case unfolding deactivate_def by (intro governed_setStatus)
next
  case (reactivating w manages i)
  then show ?case unfolding reactivate_def by (intro governed_setStatus)
next
  case (assigning w codeSeen ex i sites)
  then show ?case by (intro governed_tx governs_setSites)
qed

text \<open>
  C33. An administrator cannot touch or make an owner. Whatever users with the role admin invite,
  change the role of, deactivate, reactivate and assign to sites, the users who are owner or
  platform_admin stay exactly those, row by row.
\<close>

theorem owners_untouched:
  assumes "(\<lambda>a b. \<exists>c. ctx_role c = ''admin'' \<and> governStep c a b)\<^sup>*\<^sup>* w w'" "usersOk (data w)"
  shows "protectedUsers (data w') = protectedUsers (data w)"
proof -
  have "governed w w'" using assms(1)
  proof (induction rule: rtranclp_induct)
    case base
    then show ?case using assms(2) by (simp add: governed_def)
  next
    case (step y z)
    then obtain c where "ctx_role c = ''admin''" "governStep c y z" by blast
    from governStep_governed[OF this(2,1)] step.IH show ?case by (simp add: governed_def)
  qed
  then show ?thesis by (simp add: governed_def)
qed

section \<open>A company with an owner, an administrator and a timekeeper\<close>

lemma hidden_own: "rls t d = d \<Longrightarrow> merge (hidden t d) v = v"
proof -
  have f: "filter (\<lambda>r. g r \<noteq> t) xs = []" if "filter (\<lambda>r. g r = t) xs = xs" for g :: "'z \<Rightarrow> uuid" and xs
    using that by (simp add: filter_id_conv filter_empty_conv)
  show "rls t d = d \<Longrightarrow> merge (hidden t d) v = v"
    by (cases d; cases v) (simp add: rls_def hidden_def merge_def f)
qed

lemma own_tx:
  assumes "ctx_tenantId c = t" "rls t (data w) = data w" "body (data w) = (es, Inr (a, v))" "rls t v = v"
  shows "withTenantTx c body w = (Inr a, w\<lparr>events := events w @ map (Pair t) es, data := v\<rparr>)"
  using assms by (simp add: withTenantTx_def hidden_own)

definition staff :: "uuid \<Rightarrow> uuid \<Rightarrow> string \<Rightarrow> string \<Rightarrow> string \<Rightarrow> user" where
  "staff i roleId email passwordHash st = (demo_user st)\<lparr>usr_id := i, usr_roleId := roleId, usr_email := email, usr_passwordHash := passwordHash\<rparr>"

definition company_data :: "user list \<Rightarrow> refresh_token list \<Rightarrow> audit_log list \<Rightarrow> db" where
  "company_data us ts l = empty_db\<lparr>
     tenants := [\<lparr>ten_id = 3, ten_slug = ''almara'', ten_legalName = ''Almara'', ten_status = ''active'', ten_paymongoAccountId = None\<rparr>],
     users := us, roles := [\<lparr>rol_id = 9, rol_name = ''owner''\<rparr>, \<lparr>rol_id = 10, rol_name = ''admin''\<rparr>, \<lparr>rol_id = 11, rol_name = ''timekeeper''\<rparr>],
     refreshTokens := ts, auditLogs := l\<rparr>"

abbreviation ownUsers :: "user list \<Rightarrow> bool" where
  "ownUsers us \<equiv> list_all (\<lambda>u. usr_tenantId u = 3) us"

lemma company_rls: "ownUsers us \<Longrightarrow> ownTokens ts \<Longrightarrow> ownLogs l \<Longrightarrow> rls 3 (company_data us ts l) = company_data us ts l"
  by (simp add: company_data_def rls_def empty_db_def filter_all)

lemma company_tx:
  assumes "ctx_tenantId c = 3" "body (company_data us ts l) = (es, Inr (a, company_data us' ts' l'))"
    and "ownUsers us" "ownTokens ts" "ownLogs l" "ownUsers us'" "ownTokens ts'" "ownLogs l'"
  shows "withTenantTx c body \<lparr>data = company_data us ts l, events = ev\<rparr> =
     (Inr a, \<lparr>data = company_data us' ts' l', events = ev @ map (Pair 3) es\<rparr>)"
  using own_tx[of c 3 "\<lparr>data = company_data us ts l, events = ev\<rparr>" body] assms by (simp add: company_rls)

definition auditRow :: "ctx \<Rightarrow> string \<Rightarrow> uuid \<Rightarrow> audit_log" where
  "auditRow c action i = \<lparr>aud_tenantId = ctx_tenantId c, aud_actorId = ctx_userId c, aud_action = action, aud_entity = ''users'',
     aud_entityId = i, aud_reason = None\<rparr>"

lemma company_writes:
  "audit c action ''users'' i (company_data us ts l) = company_data us ts (l @ [auditRow c action i])"
  "setUser j f (company_data us ts l) = company_data (updw (\<lambda>u. usr_id u = j) f us) ts l"
  by (simp_all add: audit_def setUser_def company_data_def empty_db_def auditRow_def)

lemma company_reads:
  "users (company_data us ts l) = us" "refreshTokens (company_data us ts l) = ts" "nextId (company_data us ts l) = 100"
  "roleNameOf u (company_data us ts l) = (if usr_roleId u = 9 then Some ''owner'' else if usr_roleId u = 10 then Some ''admin''
     else if usr_roleId u = 11 then Some ''timekeeper'' else None)"
  "map rol_id (roles (company_data us ts l)) = [9, 10, 11]"
  by (auto simp: company_data_def empty_db_def roleNameOf_def)

lemma company_signs_out:
  "ctx_tenantId c = 3 \<Longrightarrow> ownUsers us \<Longrightarrow> ownTokens ts \<Longrightarrow> ownLogs l \<Longrightarrow>
   ownTokens (updw (\<lambda>r. rtk_userId r = i) (rtk_status_update (\<lambda>_. TokRevoked)) ts) \<Longrightarrow>
   revokeAllForUser c i \<lparr>data = company_data us ts l, events = ev\<rparr> =
     (Inr (), \<lparr>data = company_data us (updw (\<lambda>r. rtk_userId r = i) (rtk_status_update (\<lambda>_. TokRevoked)) ts) l, events = ev\<rparr>)"
  unfolding revokeAllForUser_def
  by (subst company_tx[where es = "[]" and us' = us and l' = l]) (simp_all add: setTokens_def returns_def company_data_def empty_db_def)

definition office :: "string \<Rightarrow> string \<Rightarrow> string \<Rightarrow> user list" where
  "office ownerHash ownerStatus keeperStatus = [staff 8 9 ''o@b'' ownerHash ownerStatus, staff 7 10 ''a@b'' ''h7'' ''active'',
     staff 6 11 ''t@b'' ''h6'' keeperStatus]"

definition admin_ctx :: ctx where
  "admin_ctx = \<lparr>ctx_tenantId = 3, ctx_userId = 7, ctx_role = ''admin''\<rparr>"

lemmas office_simps = office_def staff_def demo_user_def admin_ctx_def

lemma office_own: "ownUsers (office h s k)"
  by (simp add: office_simps)

lemma admin_deactivates_timekeeper:
  "deactivate (\<lambda>_. True) admin_ctx 6 \<lparr>data = company_data (office ''h8'' ''active'' ''active'') [] [], events = []\<rparr> =
     (Inr (), \<lparr>data = company_data (office ''h8'' ''active'' ''disabled'') [] [auditRow admin_ctx ''UPDATE'' 6], events = [(3, ''user_deactivated'')]\<rparr>)"
proof -
  let ?d = "company_data (office ''h8'' ''active'' ''active'') [] []"
  have "setStatusBody (\<lambda>_. True) admin_ctx 6 ''disabled'' ''user_deactivated'' True ?d =
      ([''user_deactivated''], Inr ((), company_data (office ''h8'' ''active'' ''disabled'') [] [auditRow admin_ctx ''UPDATE'' 6]))"
    by (simp add: setStatusBody_def loadTargetForMutation_def selectUserWithRole_def company_reads company_writes office_simps
        evaluateUserAdminAction_def refusal_def ROLE_ASSIGNABLE_BY_def ROLE_PROTECTED_FROM_def countOtherActiveUserManagers_def)
  from company_tx[where ev = "[]" and c = admin_ctx and body = "setStatusBody (\<lambda>_. True) admin_ctx 6 ''disabled'' ''user_deactivated'' True", OF _ this]
  have "withTenantTx admin_ctx (setStatusBody (\<lambda>_. True) admin_ctx 6 ''disabled'' ''user_deactivated'' True)
      \<lparr>data = ?d, events = []\<rparr> = (Inr (), \<lparr>data = company_data (office ''h8'' ''active'' ''disabled'') [] [auditRow admin_ctx ''UPDATE'' 6],
        events = [(3, ''user_deactivated'')]\<rparr>)"
    by (simp add: office_own admin_ctx_def auditRow_def)
  then show ?thesis
    by (simp add: deactivate_def setStatus_def andThen_step company_signs_out office_own admin_ctx_def auditRow_def)
qed

theorem owners_untouched_witness:
  "\<exists>w'. deactivate (\<lambda>_. True) admin_ctx 6 \<lparr>data = company_data (office ''h8'' ''active'' ''active'') [] [], events = []\<rparr> = (Inr (), w') \<and>
     map usr_status (users (data w')) = [''active'', ''active'', ''disabled''] \<and>
     protectedUsers (data w') = protectedUsers (company_data (office ''h8'' ''active'' ''active'') [] []) \<and>
     staff 8 9 ''o@b'' ''h8'' ''active'' \<in> protectedUsers (data w')"
proof -
  let ?w = "\<lparr>data = company_data (office ''h8'' ''active'' ''active'') [] [], events = []\<rparr>"
  note d = admin_deactivates_timekeeper
  have "governStep admin_ctx ?w (snd (deactivate (\<lambda>_. True) admin_ctx 6 ?w))" by (rule governStep.deactivating)
  then have s: "(\<lambda>a b. \<exists>c. ctx_role c = ''admin'' \<and> governStep c a b)\<^sup>*\<^sup>* ?w (snd (deactivate (\<lambda>_. True) admin_ctx 6 ?w))"
    by (intro r_into_rtranclp exI[of _ admin_ctx] conjI) (simp add: admin_ctx_def)
  have ok: "usersOk (data ?w)" by (simp add: usersOk_def company_reads office_simps)
  have "staff 8 9 ''o@b'' ''h8'' ''active'' \<in> protectedUsers (data ?w)"
    by (simp add: protectedUsers_def company_reads) (simp add: office_simps)
  with owners_untouched[OF s ok] show ?thesis unfolding d by (simp add: company_reads office_simps)
qed

text \<open>
  A password reset asks no policy. The administrator who may not even deactivate the owner resets the
  owner's password, answers with the activation token, chooses a password and signs in as the owner.
\<close>

lemma reset_takes_over_owner:
  defines "w \<equiv> \<lparr>data = company_data (office ''h8'' ''active'' ''active'') [] [], events = []\<rparr>"
  shows "fst (deactivate (\<lambda>_. True) admin_ctx 8 w) = Inl (Forbidden ''target_role_protected'')"
    and "\<exists>claims w1 w2. resetPassword (\<lambda>x. x) ''rnd'' admin_ctx 8 w = (Inr (8, claims), w1) \<and>
      activate (\<lambda>x. x) (\<lambda>_. False) (Some claims) ''mine'' w1 = (Inr (), w2) \<and>
      (\<exists>role. findUserByEmail ''o@b'' ''almara'' (data w2) = Some (staff 8 9 ''o@b'' ''mine'' ''active'', role) \<and> role = ''owner'')"
proof -
  let ?ev = "[(3, ''user_password_reset'')]"
  have "setStatusBody (\<lambda>_. True) admin_ctx 8 ''disabled'' ''user_deactivated'' True (company_data (office ''h8'' ''active'' ''active'') [] []) =
      fails (Forbidden ''target_role_protected'')"
    by (simp add: setStatusBody_def loadTargetForMutation_def selectUserWithRole_def company_reads office_simps
        evaluateUserAdminAction_def refusal_def ROLE_ASSIGNABLE_BY_def ROLE_PROTECTED_FROM_def)
  moreover have "rls 3 (company_data (office ''h8'' ''active'' ''active'') [] []) = company_data (office ''h8'' ''active'' ''active'') [] []"
    by (simp add: company_rls office_own)
  moreover have "ctx_tenantId admin_ctx = 3" by (simp add: admin_ctx_def)
  ultimately show "fst (deactivate (\<lambda>_. True) admin_ctx 8 w) = Inl (Forbidden ''target_role_protected'')"
    by (simp add: w_def deactivate_def setStatus_def withTenantTx_def fails_def andThen_stop)
  have reset: "resetPassword (\<lambda>x. x) ''rnd'' admin_ctx 8 w = (Inr (8, signActivationToken (\<lambda>x. x) 3 8 ''rnd''),
      \<lparr>data = company_data (office ''rnd'' ''invited'' ''active'') [] [auditRow admin_ctx ''UPDATE'' 8], events = ?ev\<rparr>)"
  proof -
    have "resetBody ''rnd'' admin_ctx 8 (company_data (office ''h8'' ''active'' ''active'') [] []) =
        ([''user_password_reset''], Inr ((), company_data (office ''rnd'' ''invited'' ''active'') [] [auditRow admin_ctx ''UPDATE'' 8]))"
      by (simp add: resetBody_def company_reads company_writes office_simps)
    from company_tx[where ev = "[]" and c = admin_ctx and body = "resetBody ''rnd'' admin_ctx 8", OF _ this] show ?thesis
      by (simp add: w_def resetPassword_def andThen_step company_signs_out office_own admin_ctx_def auditRow_def)
  qed
  let ?c = "\<lparr>ctx_tenantId = 3, ctx_userId = 8, ctx_role = BOOTSTRAP_ROLE\<rparr>"
  have "activateUser (\<lambda>x. x) (signActivationToken (\<lambda>x. x) 3 8 ''rnd'') ''mine''
      (company_data (office ''rnd'' ''invited'' ''active'') [] [auditRow admin_ctx ''UPDATE'' 8]) =
      ([], Inr ((), company_data (office ''mine'' ''active'' ''active'') [] [auditRow admin_ctx ''UPDATE'' 8]))"
    by (simp add: activateUser_def signActivationToken_def hashForActivation_def company_reads company_writes office_simps returns_def)
  from company_tx[where ev = ?ev and c = ?c and body = "activateUser (\<lambda>x. x) (signActivationToken (\<lambda>x. x) 3 8 ''rnd'') ''mine''", OF _ this]
  have act: "activate (\<lambda>x. x) (\<lambda>_. False) (Some (signActivationToken (\<lambda>x. x) 3 8 ''rnd'')) ''mine''
      \<lparr>data = company_data (office ''rnd'' ''invited'' ''active'') [] [auditRow admin_ctx ''UPDATE'' 8], events = ?ev\<rparr> =
      (Inr (), \<lparr>data = activateOnboardingTenant (\<lambda>_. False) 3 (company_data (office ''mine'' ''active'' ''active'') [] [auditRow admin_ctx ''UPDATE'' 8]),
        events = ?ev\<rparr>)"
    by (simp add: activate_def andThen_step office_own admin_ctx_def auditRow_def) (simp add: signActivationToken_def andThen_step)
  have "findUserByEmail ''o@b'' ''almara'' (activateOnboardingTenant (\<lambda>_. False) 3
      (company_data (office ''mine'' ''active'' ''active'') [] [auditRow admin_ctx ''UPDATE'' 8])) =
      Some (staff 8 9 ''o@b'' ''mine'' ''active'', ''owner'')"
    by (simp add: findUserByEmail_def activateOnboardingTenant_def company_data_def empty_db_def office_simps roleNameOf_def updw_def)
  with reset act show "\<exists>claims w1 w2. resetPassword (\<lambda>x. x) ''rnd'' admin_ctx 8 w = (Inr (8, claims), w1) \<and>
      activate (\<lambda>x. x) (\<lambda>_. False) (Some claims) ''mine'' w1 = (Inr (), w2) \<and>
      (\<exists>role. findUserByEmail ''o@b'' ''almara'' (data w2) = Some (staff 8 9 ''o@b'' ''mine'' ''active'', role) \<and> role = ''owner'')"
    by auto
qed

text \<open>
  Reactivation looks at no status: pointed at a user who never answered the invitation it makes an
  active account whose password nobody knows, and the invitation is dead.
\<close>

lemma reactivation_kills_invitation:
  defines "d \<equiv> company_data (office ''h8'' ''active'' ''invited'') [] []"
  shows "\<exists>es v. setStatusBody manages admin_ctx 6 ''active'' ''user_reactivated'' False d = (es, Inr ((), v)) \<and>
    (6, ''active'', ''h6'') \<in> set (map (\<lambda>u. (usr_id u, usr_status u, usr_passwordHash u)) (users v)) \<and>
    activateUser sha (signActivationToken sha 3 6 ''h6'') ph v = fails (Unauthorized ''invalid_activation_token'')"
proof -
  let ?v = "company_data (office ''h8'' ''active'' ''active'') [] [auditRow admin_ctx ''UPDATE'' 6]"
  have "setStatusBody manages admin_ctx 6 ''active'' ''user_reactivated'' False d = ([''user_reactivated''], Inr ((), ?v))"
    by (simp add: d_def setStatusBody_def loadTargetForMutation_def selectUserWithRole_def company_reads company_writes office_simps
        evaluateUserAdminAction_def refusal_def ROLE_ASSIGNABLE_BY_def ROLE_PROTECTED_FROM_def)
  moreover have "(6, ''active'', ''h6'') \<in> set (map (\<lambda>u. (usr_id u, usr_status u, usr_passwordHash u)) (users ?v))"
    "activateUser sha (signActivationToken sha 3 6 ''h6'') ph ?v = fails (Unauthorized ''invalid_activation_token'')"
    by (simp_all add: activateUser_def signActivationToken_def company_reads office_simps)
  ultimately show ?thesis by blast
qed

section \<open>A deactivated user is out\<close>

text \<open>The keys of users who are not disabled, and the keys no user has yet.\<close>

definition unfrozen :: "db \<Rightarrow> (uuid \<times> uuid) set" where
  "unfrozen d = {(t, i). nextId d \<le> i} \<union> {(usr_tenantId u, usr_id u) |u. u \<in> set (users d) \<and> usr_status u \<noteq> ''disabled''}"

interpretation thawed: user_keys unfrozen
proof (unfold_locales, goal_cases)
  case (1 v d)
  then show ?case by (auto simp: unfrozen_def)
next
  case (2 v t d)
  have "nextId (merge (hidden t d) v) = nextId v" "users (merge (hidden t d) v) = filter (\<lambda>u. usr_tenantId u \<noteq> t) (users d) @ users v"
    by (simp_all add: merge_def hidden_def)
  then have "unfrozen (merge (hidden t d) v) \<subseteq> unfrozen v \<union> {(usr_tenantId u, usr_id u) |u. u \<in> set (users d) \<and> usr_status u \<noteq> ''disabled''}"
    by (auto simp: unfrozen_def)
  also have "\<dots> \<subseteq> unfrozen d" using 2 by (auto simp: unfrozen_def rls_def)
  finally show ?case .
next
  case (3 t d sha p ph a v)
  obtain x where x: "find (\<lambda>u. usr_id u = act_sub p) (users d) = Some x" "usr_status x = ''invited''"
    and v: "v = setUser (act_sub p) (\<lambda>u. u\<lparr>usr_passwordHash := ph, usr_status := ''active''\<rparr>) d"
    using 3(2) by (auto simp: activateUser_def split: option.split_asm if_split_asm)
  note f = find_SomeD[OF x(1)]
  have k: "(t, act_sub p) \<in> unfrozen d"
    using f x(2) rls_users[OF 3(1), of x] by (force simp: unfrozen_def)
  show ?case
  proof
    fix key assume "key \<in> unfrozen v"
    then consider "nextId d \<le> snd key" | u where "u \<in> set (users v)" "usr_status u \<noteq> ''disabled''" "key = (usr_tenantId u, usr_id u)"
      by (auto simp: unfrozen_def v setUser_def)
    then show "key \<in> unfrozen d"
    proof cases
      case 1
      then show ?thesis by (cases key) (simp add: unfrozen_def)
    next
      case (2 u)
      obtain y where y: "y \<in> set (users d)"
          "u = (if usr_id y = act_sub p then y\<lparr>usr_passwordHash := ph, usr_status := ''active''\<rparr> else y)"
        using 2(1) by (auto simp: v setUser_def in_updw)
      show ?thesis
      proof (cases "usr_id y = act_sub p")
        case True
        with k y(2) 2(3) rls_users[OF 3(1) y(1)] show ?thesis by simp
      next
        case False
        with y 2(2,3) show ?thesis by (auto simp: unfrozen_def)
      qed
    qed
  qed
next
  case (4 slug em ph d c v)
  then show ?case by (auto simp: registerCustomerUser_def fresh_def unfrozen_def split: option.split_asm if_split_asm)
qed

lemma active_unfrozen: "u \<in> set (users d) \<Longrightarrow> usr_status u = ''active'' \<Longrightarrow> (usr_tenantId u, usr_id u) \<in> unfrozen d"
  by (auto simp: unfrozen_def)

lemma rotate_unfrozen:
  assumes "fst (rotate sha now raw newRaw w) = Inr c"
  shows "(ctx_tenantId c, ctx_userId c) \<in> unfrozen (data w)"
proof -
  obtain existing w1 where chk: "rotateChecks sha now raw w = (Inr (existing, c), w1)"
  proof (cases "rotateChecks sha now raw w")
    case (Pair x y)
    show thesis
    proof (cases x)
      case (Inr z)
      obtain existing c' where z: "z = (existing, c')" by force
      have "c' = c" using assms
        by (simp add: rotate_def Pair Inr z andThen_step rotateFinish_def) (auto simp: andThen_def split: prod.split_asm sum.split_asm)
      with that Pair Inr z show thesis by simp
    qed (use assms Pair in \<open>simp add: rotate_def andThen_stop\<close>)
  qed
  obtain e where e: "findRefreshToken (sha raw) (data w) = Some e"
    using chk by (auto simp: rotateChecks_def split: option.split_asm)
  obtain x y where r: "resolveCurrentUser (rtk_tenantId e) (rtk_userId e) w = (x, y)" by force
  obtain role status where rs: "x = Inr (role, status)"
    using chk by (cases x) (auto simp: rotateChecks_def e r andThen_stop)
  have s: "status = ''active''" "ctx_tenantId c = rtk_tenantId e" "ctx_userId c = rtk_userId e"
    using chk by (auto simp: rotateChecks_def e r rs andThen_def Let_def split: if_split_asm prod.split_asm sum.split_asm)
  obtain v where "committed (currentUser (rtk_userId e) (rls (rtk_tenantId e) (data w))) (role, status) v"
    by (rule withTenantTx_commitD[OF r[unfolded resolveCurrentUser_def rs]]) simp
  then obtain u where u: "find (\<lambda>r. usr_id r = rtk_userId e \<and> roleNameOf r (rls (rtk_tenantId e) (data w)) \<noteq> None) (users (rls (rtk_tenantId e) (data w))) = Some u"
      "usr_status u = ''active''"
    using s(1) by (auto simp: currentUser_def split: option.split_asm)
  from find_SomeD[OF u(1)] have "u \<in> set (users (data w))" "usr_tenantId u = rtk_tenantId e" "usr_id u = rtk_userId e"
    by (auto simp: rls_def)
  with active_unfrozen[OF this(1) u(2)] s(2,3) show ?thesis by simp
qed

fun sessionOf :: "session \<Rightarrow> ctx" where
  "sessionOf (Tokens c) = c"
| "sessionOf (TwoFaChallenge c) = c"

lemma issueTokens_session: "fst (issueTokens sha now raw fam c w) = Inr x \<Longrightarrow> sessionOf x = c"
  by (auto simp: issueTokens_def andThen_def split: prod.split_asm sum.split_asm)

lemma twoFactor_session:
  "fst (andThen (getTotpSecret c w) (\<lambda>secret w1. if secret \<noteq> None then (Inr (TwoFaChallenge c), w1) else issueTokens sha now raw fam c w1)) = Inr x \<Longrightarrow>
   sessionOf x = c"
  by (auto simp: andThen_def[of "getTotpSecret c w"] split: prod.split_asm sum.split_asm if_split_asm intro: issueTokens_session)

lemma login_unfrozen:
  assumes "fst (login sha pm t1 t2 s em pw slug m w) = Inr x"
  shows "(ctx_tenantId (sessionOf x), ctx_userId (sessionOf x)) \<in> unfrozen (data w)"
proof -
  obtain m1 where a: "assertNotLockedOut t1 (map toLower em) m = (None, m1)"
    using assms by (cases "assertNotLockedOut t1 (map toLower em) m"; cases "fst (assertNotLockedOut t1 (map toLower em) m)")
      (auto simp: login_locked)
  obtain u role where f: "findUserByEmail (map toLower em) slug (data w) = Some (u, role)" and act: "usr_status u = ''active''"
    and ok: "pm (usr_passwordHash u) pw"
    using assms by (auto simp: login_def Let_def a split: option.split_asm if_split_asm prod.split_asm)
  let ?c = "\<lambda>role. \<lparr>ctx_tenantId = usr_tenantId u, ctx_userId = usr_id u, ctx_role = role\<rparr>"
  have "sessionOf x = ?c role"
  proof (cases "role = TWO_FA_ENFORCED_ROLE")
    case True
    have "fst (andThen (getTotpSecret (?c TWO_FA_ENFORCED_ROLE) w) (\<lambda>secret w1. if secret \<noteq> None then (Inr (TwoFaChallenge (?c TWO_FA_ENFORCED_ROLE)), w1)
        else issueTokens sha t2 (drw_raw s) (drw_familyId s) (?c TWO_FA_ENFORCED_ROLE) w1)) = Inr x"
      using assms act ok True by (simp add: login_def Let_def a f case_prod_beta)
    from twoFactor_session[OF this] True show ?thesis by simp
  next
    case False
    have "fst (issueTokens sha t2 (drw_raw s) (drw_familyId s) (?c role) w) = Inr x"
      using assms act ok False by (simp add: login_def Let_def a f case_prod_beta)
    then show ?thesis by (rule issueTokens_session)
  qed
  moreover have "u \<in> set (users (data w))"
    using f by (auto simp: findUserByEmail_def split: option.split_asm dest: find_SomeD)
  ultimately show ?thesis using active_unfrozen[OF _ act] by simp
qed

lemma deactivated_frozen:
  assumes "deactivate manages c i w = (Inr u, w1)" "list_all (\<lambda>r. usr_id r < nextId (data w)) (users (data w))"
  shows "(ctx_tenantId c, i) \<notin> unfrozen (data w1)"
    and "list_all (\<lambda>r. \<not> (rtk_tenantId r = ctx_tenantId c \<and> rtk_userId r = i \<and> rtk_status r = TokActive)) (refreshTokens (data w1))"
proof -
  let ?t = "ctx_tenantId c"
  obtain x w0 where s: "withTenantTx c (setStatusBody manages c i ''disabled'' ''user_deactivated'' True) w = (Inr x, w0)"
    and rv: "revokeAllForUser c i w0 = (Inr u, w1)"
    using assms(1) by (auto simp: deactivate_def setStatus_def andThen_def split: prod.split_asm sum.split_asm)
  obtain v where v: "committed (setStatusBody manages c i ''disabled'' ''user_deactivated'' True (rls ?t (data w))) x v"
    "data w0 = merge (hidden ?t (data w)) v" by (rule withTenantTx_commitD[OF s])
  obtain y roleName where y: "loadTargetForMutation c i True (rls ?t (data w)) = Inr (y, roleName)"
    and e: "v = audit c ''UPDATE'' ''users'' i (setUser i (usr_status_update (\<lambda>_. ''disabled'')) (rls ?t (data w)))"
    using v(1) by (auto simp: setStatusBody_def split: sum.split_asm option.split_asm)
  have "i < nextId (data w)" using assms(2) loadTargetD(1,2)[OF y] by (auto simp: rls_def list_all_iff)
  moreover have "nextId (data w0) = nextId (data w)" by (simp add: v(2) e merge_def audit_def setUser_def rls_def)
  moreover have "usr_status r = ''disabled''" if r: "r \<in> set (users (data w0))" "usr_tenantId r = ?t" "usr_id r = i" for r
  proof -
    have "r \<in> set (users v)" using r(1,2) by (auto simp: v(2) merge_def hidden_def)
    then obtain z where z: "r = (if usr_id z = i then z\<lparr>usr_status := ''disabled''\<rparr> else z)"
      by (auto simp: e audit_def setUser_def in_updw)
    then show ?thesis using r(3) by (cases "usr_id z = i") simp_all
  qed
  ultimately have f: "(?t, i) \<notin> unfrozen (data w0)" by (auto simp: unfrozen_def)
  have "shrinks unfrozen w0 w1" using thawed.setTokens_keys[of w0 c] rv unfolding revokeAllForUser_def by (metis snd_conv)
  with f show "(?t, i) \<notin> unfrozen (data w1)" by (auto simp: shrinks_def)
  obtain v' where v': "committed (setTokens (\<lambda>r. rtk_userId r = i) (rtk_status_update (\<lambda>_. TokRevoked)) (rls ?t (data w0))) u v'"
    "data w1 = merge (hidden ?t (data w0)) v'" by (rule withTenantTx_commitD[OF rv[unfolded revokeAllForUser_def]])
  have ts: "refreshTokens v' = updw (\<lambda>r. rtk_userId r = i) (rtk_status_update (\<lambda>_. TokRevoked)) (refreshTokens (rls ?t (data w0)))"
    using v'(1) by (auto simp: setTokens_def)
  have "\<not> (rtk_tenantId r = ?t \<and> rtk_userId r = i \<and> rtk_status r = TokActive)" if r: "r \<in> set (refreshTokens (data w1))" for r
  proof (rule notI)
    assume a: "rtk_tenantId r = ?t \<and> rtk_userId r = i \<and> rtk_status r = TokActive"
    then have "r \<in> set (refreshTokens v')" using r by (auto simp: v'(2) merge_def hidden_def)
    then obtain z where z: "r = (if rtk_userId z = i then rtk_status_update (\<lambda>_. TokRevoked) z else z)" by (auto simp: ts in_updw)
    with a show False by (cases "rtk_userId z = i") simp_all
  qed
  then show "list_all (\<lambda>r. \<not> (rtk_tenantId r = ?t \<and> rtk_userId r = i \<and> rtk_status r = TokActive)) (refreshTokens (data w1))"
    by (simp add: list_all_iff)
qed

text \<open>
  C34. A deactivated user is out. A successful deactivation leaves the user no live refresh token, and
  whatever requests sign in, refresh, sign out and activate after it, no password opens a session as
  that user and no refresh token continues one.
\<close>

theorem deactivation_bites:
  assumes "deactivate manages c i w = (Inr u, w1)" "list_all (\<lambda>r. usr_id r < nextId (data w)) (users (data w))"
    and "sessStep\<^sup>*\<^sup>* w1 w2"
  shows "list_all (\<lambda>r. \<not> (rtk_tenantId r = ctx_tenantId c \<and> rtk_userId r = i \<and> rtk_status r = TokActive)) (refreshTokens (data w1)) \<and>
    fst (rotate sha now raw newRaw w2) \<noteq> Inr \<lparr>ctx_tenantId = ctx_tenantId c, ctx_userId = i, ctx_role = role\<rparr> \<and>
    fst (login sha pm t1 t2 s em pw slug m w2) \<noteq> Inr (Tokens \<lparr>ctx_tenantId = ctx_tenantId c, ctx_userId = i, ctx_role = role\<rparr>) \<and>
    fst (login sha pm t1 t2 s em pw slug m w2) \<noteq> Inr (TwoFaChallenge \<lparr>ctx_tenantId = ctx_tenantId c, ctx_userId = i, ctx_role = role\<rparr>)"
proof -
  have a: "list_all (\<lambda>r. \<not> (rtk_tenantId r = ctx_tenantId c \<and> rtk_userId r = i \<and> rtk_status r = TokActive)) (refreshTokens (data w1))"
    by (rule deactivated_frozen(2)[OF assms(1,2)])
  have out: "(ctx_tenantId c, i) \<notin> unfrozen (data w2)"
    using deactivated_frozen(1)[OF assms(1,2)] thawed.key_steps[OF assms(3)] by (auto simp: shrinks_def)
  have b: "fst (rotate sha now raw newRaw w2) \<noteq> Inr \<lparr>ctx_tenantId = ctx_tenantId c, ctx_userId = i, ctx_role = role\<rparr>"
    using rotate_unfrozen[of sha now raw newRaw w2] out by fastforce
  have l: "fst (login sha pm t1 t2 s em pw slug m w2) \<noteq> Inr (Tokens \<lparr>ctx_tenantId = ctx_tenantId c, ctx_userId = i, ctx_role = role\<rparr>)"
    "fst (login sha pm t1 t2 s em pw slug m w2) \<noteq> Inr (TwoFaChallenge \<lparr>ctx_tenantId = ctx_tenantId c, ctx_userId = i, ctx_role = role\<rparr>)"
    using login_unfrozen[of sha pm t1 t2 s em pw slug m w2] out by fastforce+
  from a b l show ?thesis by blast
qed

theorem deactivation_bites_witness:
  "\<exists>w1. deactivate (\<lambda>_. True) admin_ctx 6 \<lparr>data = company_data (office ''h8'' ''active'' ''active'') [] [], events = []\<rparr> = (Inr (), w1) \<and>
     fst (login (\<lambda>x. x) (\<lambda>_ _. True) 0 0 \<lparr>drw_raw = ''r'', drw_familyId = 71\<rparr> ''t@b'' ''pw'' ''almara'' (\<lambda>_. None) w1) \<noteq>
       Inr (Tokens \<lparr>ctx_tenantId = 3, ctx_userId = 6, ctx_role = ''timekeeper''\<rparr>)"
proof -
  let ?w = "\<lparr>data = company_data (office ''h8'' ''active'' ''active'') [] [], events = []\<rparr>"
  obtain w1 where d: "deactivate (\<lambda>_. True) admin_ctx 6 ?w = (Inr (), w1)" using admin_deactivates_timekeeper by blast
  have "list_all (\<lambda>r. usr_id r < nextId (data ?w)) (users (data ?w))" by (simp add: company_reads office_simps)
  from deactivation_bites[OF d this rtranclp.rtrancl_refl] have "fst (login (\<lambda>x. x) (\<lambda>_ _. True) 0 0 \<lparr>drw_raw = ''r'', drw_familyId = 71\<rparr> ''t@b'' ''pw'' ''almara'' (\<lambda>_. None) w1) \<noteq>
       Inr (Tokens \<lparr>ctx_tenantId = 3, ctx_userId = 6, ctx_role = ''timekeeper''\<rparr>)"
    by (simp add: admin_ctx_def)
  with d show ?thesis by blast
qed

text \<open>
  The second factor reads no status: a challenge handed out before the deactivation still opens a session after it.
\<close>

lemma challenge_outlives_deactivation:
  fixes u and w :: world
  defines "u \<equiv> (staff 6 11 ''t@b'' ''h6'' ''disabled'')\<lparr>usr_totpSecret := Some ''key''\<rparr>"
    and "w \<equiv> \<lparr>data = company_data [u] [] [], events = []\<rparr>"
    and "c \<equiv> \<lparr>ctx_tenantId = 3, ctx_userId = 6, ctx_role = ''timekeeper''\<rparr>"
  shows "fst (verifyTwoFa (\<lambda>x. x) (\<lambda>_ _. True) 0 \<lparr>drw_raw = ''r'', drw_familyId = 71\<rparr> (Some c) ''123456'' w) = Inr (Tokens c)"
proof -
  have own: "ctx_tenantId c = 3" "rls 3 (data w) = data w"
    by (simp_all add: c_def w_def u_def company_rls staff_def demo_user_def)
  have t: "getTotpSecret c w = (Inr (Some ''key''), w)"
    unfolding getTotpSecret_def by (subst own_tx[OF own, where es = "[]" and v = "data w"])
      (simp_all add: returns_def own(2), simp_all add: w_def company_reads u_def c_def staff_def)
  have "\<exists>v. insertToken 0 ''r'' 71 c (data w) = ([], Inr ((), v)) \<and> rls 3 v = v"
    by (simp add: insertToken_def w_def company_reads returns_def fresh_def company_data_def empty_db_def rls_def u_def c_def staff_def demo_user_def)
  then obtain v where "insertToken 0 ''r'' 71 c (data w) = ([], Inr ((), v))" "rls 3 v = v" by blast
  from own_tx[where body = "insertToken 0 ''r'' 71 c", OF own this] have "fst (issue (\<lambda>x. x) 0 ''r'' 71 c w) = Inr ()" by (simp add: issue_def)
  then show ?thesis by (cases "issue (\<lambda>x. x) 0 ''r'' 71 c w") (simp add: verifyTwoFa_def andThen_step t nonEmpty_def issueTokens_def)
qed

end
