(* ===== verification/EdtrSheet.thy ===== *)
theory EdtrSheet
  imports Companies SiteWeather Reconciliation
begin

text \<open>
  The paper time sheet (\<open>packages/shared/src/edtr-sheet.ts\<close>): the tables the extraction service found
  on a scan, the columns of the printed form, and the reading of each dated row. Strings are code units
  up to 255; the two letters whose capital lies beyond are left as they are, they match nothing here.
\<close>

section \<open>Text\<close>

fun collapse :: "bool \<Rightarrow> string \<Rightarrow> string" where
  "collapse inSpace [] = []"
| "collapse inSpace (c # cs) =
     (if isSpace c then (if inSpace then collapse True cs else CHR '' '' # collapse True cs) else c # collapse False cs)"

definition upper :: "char \<Rightarrow> string" where
  "upper c =
     (if charCode c = 223 then ''SS''
      else if 97 \<le> charCode c \<and> charCode c \<le> 122 \<or> 224 \<le> charCode c \<and> charCode c \<le> 254 \<and> charCode c \<noteq> 247
      then [char_of (charCode c - 32)] else [c])"

definition norm :: "string \<Rightarrow> string" where
  "norm s = concat (map upper (trim (collapse False s)))"

definition containsText :: "string \<Rightarrow> string \<Rightarrow> bool" where
  "containsText needle s \<longleftrightarrow> list_ex (\<lambda>i. beginsWith needle (drop i s)) [0..<Suc (length s)]"

definition endsWith :: "string \<Rightarrow> string \<Rightarrow> bool" where
  "endsWith u s \<longleftrightarrow> length u \<le> length s \<and> drop (length s - length u) s = u"

fun joinComma :: "string list \<Rightarrow> string" where
  "joinComma [] = []"
| "joinComma [s] = s"
| "joinComma (s # t # ss) = s @ '','' @ joinComma (t # ss)"

text \<open>
  \<open>Number(t)\<close>: a decimal literal with an optional sign, fraction and exponent, \<open>Infinity\<close>, or digits
  after a radix prefix; anything else is not a number. An empty text is zero.
\<close>

definition exponentPart :: "string \<Rightarrow> int option" where
  "exponentPart s =
     (case s of
        [] \<Rightarrow> Some 0
      | c # cs \<Rightarrow>
          if c \<noteq> CHR ''e'' \<and> c \<noteq> CHR ''E'' then None
          else let neg = startsWith (\<lambda>x. x = CHR ''-'') cs;
                   ds = (if neg \<or> startsWith (\<lambda>x. x = CHR ''+'') cs then tl cs else cs)
               in if ds \<noteq> [] \<and> list_all isDigit ds
                  then Some (if neg then - int (digitsValue 0 ds) else int (digitsValue 0 ds)) else None)"

definition decimalLiteral :: "string \<Rightarrow> rat option" where
  "decimalLiteral s =
     (let whole = takeWhile isDigit s;
          r = dropWhile isDigit s;
          dotted = startsWith (\<lambda>x. x = CHR ''.'') r;
          frac = (if dotted then takeWhile isDigit (tl r) else []);
          r2 = (if dotted then dropWhile isDigit (tl r) else r)
      in if whole = [] \<and> frac = [] then None
         else (case exponentPart r2 of
                 None \<Rightarrow> None
               | Some e \<Rightarrow> Some (of_nat (digitsValue 0 (whole @ frac)) / 10 ^ length frac * 10 powi e)))"

definition digitOf :: "char \<Rightarrow> nat" where
  "digitOf c = (if isDigit c then charCode c - 48
     else if 65 \<le> charCode c \<and> charCode c \<le> 90 then charCode c - 55
     else if 97 \<le> charCode c \<and> charCode c \<le> 122 then charCode c - 87 else 99)"

fun radixValue :: "nat \<Rightarrow> nat \<Rightarrow> string \<Rightarrow> nat option" where
  "radixValue b k [] = Some k"
| "radixValue b k (c # cs) = (if digitOf c < b then radixValue b (b * k + digitOf c) cs else None)"

definition radixOf :: "string \<Rightarrow> nat option" where
  "radixOf prefix = (if prefix \<in> {''0x'', ''0X''} then Some 16 else if prefix \<in> {''0o'', ''0O''} then Some 8
     else if prefix \<in> {''0b'', ''0B''} then Some 2 else None)"

definition unsignedNumber :: "string \<Rightarrow> number" where
  "unsignedNumber s =
     (if s = ''Infinity'' then Inf False
      else case decimalLiteral s of None \<Rightarrow> NaN | Some q \<Rightarrow> js q)"

definition toNumber :: "string \<Rightarrow> number" where
  "toNumber t =
     (let s = trim t
      in if s = [] then js 0
         else case radixOf (take 2 s) of
           Some b \<Rightarrow> (case (drop 2 s, radixValue b 0 (drop 2 s)) of
                (_ # _, Some n) \<Rightarrow> js (of_nat n) | _ \<Rightarrow> NaN)
         | None \<Rightarrow>
             if startsWith (\<lambda>x. x = CHR ''-'') s then - unsignedNumber (tl s)
             else if startsWith (\<lambda>x. x = CHR ''+'') s then unsignedNumber (tl s)
             else unsignedNumber s)"

section \<open>The calendar\<close>

definition leap :: "int \<Rightarrow> bool" where
  "leap y \<longleftrightarrow> 4 dvd y \<and> (\<not> 100 dvd y \<or> 400 dvd y)"

definition monthLen :: "int \<Rightarrow> nat \<Rightarrow> nat" where
  "monthLen y m = (if m = 2 then (if leap y then 29 else 28) else if m \<in> {4, 6, 9, 11} then 30 else 31)"

definition leapsBefore :: "int \<Rightarrow> int" where
  "leapsBefore y = (y - 1) div 4 - (y - 1) div 100 + (y - 1) div 400"

text \<open>\<open>Date.UTC\<close> in days: the days from 1970 to a day of the Gregorian calendar.\<close>

definition daysFrom :: "int \<Rightarrow> nat \<Rightarrow> nat \<Rightarrow> date" where
  "daysFrom y m d =
     365 * (y - 1970) + leapsBefore y - leapsBefore 1970 + int (\<Sum>k\<leftarrow>[1..<m]. monthLen y k) + int d - 1"

lemma year_grows: "daysFrom y 1 1 < daysFrom (y + 1) 1 1"
proof -
  have "(y - 1) div 4 \<le> y div 4" "(y - 1) div 400 \<le> y div 400" "y div 100 \<le> (y - 1) div 100 + 1"
    using div_pos_pos_trivial by (auto intro: zdiv_mono1)
  then show ?thesis by (simp add: daysFrom_def leapsBefore_def)
qed

function yearUp :: "int \<Rightarrow> date \<Rightarrow> int" where
  "yearUp y n = (if daysFrom (y + 1) 1 1 \<le> n then yearUp (y + 1) n else y)"
  by pat_completeness auto
termination
proof (relation "measure (\<lambda>(y, n). nat (n - daysFrom y 1 1))")
  fix y n assume "daysFrom (y + 1) 1 1 \<le> n"
  with year_grows[of y] show "((y + 1, n), (y, n)) \<in> measure (\<lambda>(y, n). nat (n - daysFrom y 1 1))" by simp
qed simp

function yearDown :: "int \<Rightarrow> date \<Rightarrow> int" where
  "yearDown y n = (if n < daysFrom y 1 1 then yearDown (y - 1) n else y)"
  by pat_completeness auto
termination
proof (relation "measure (\<lambda>(y, n). nat (daysFrom y 1 1 - n))")
  fix y n assume "n < daysFrom y 1 1"
  with year_grows[of "y - 1"] show "((y - 1, n), (y, n)) \<in> measure (\<lambda>(y, n). nat (daysFrom y 1 1 - n))" by simp
qed simp

declare yearUp.simps [simp del] yearDown.simps [simp del]

definition yearOf :: "date \<Rightarrow> int" where
  "yearOf n = (if 0 \<le> n then yearUp 1970 n else yearDown 1970 n)"

definition isoDate :: "int \<Rightarrow> nat \<Rightarrow> nat \<Rightarrow> string" where
  "isoDate y m d = showNat (nat y) @ ''-'' @ pad m @ ''-'' @ pad d"

section \<open>The grid\<close>

record bounding_region =
  brg_page :: number
  brg_polygon :: "number list"

record extracted_cell =
  xcl_rowIndex :: int
  xcl_columnIndex :: int
  xcl_content :: string
  xcl_confidence :: number
  xcl_boundingRegion :: "bounding_region option"

record extracted_table =
  xtb_rowCount :: nat
  xtb_columnCount :: nat
  xtb_cells :: "extracted_cell list"

record grid =
  grd_rows :: "string list list"
  grd_confidences :: "number list list"
  grd_regions :: "bounding_region option list list"
  grd_rowCount :: nat
  grd_columnCount :: nat

definition setCell :: "int \<Rightarrow> int \<Rightarrow> 'a \<Rightarrow> 'a list list \<Rightarrow> 'a list list" where
  "setCell r c x m = m[nat r := (m ! nat r)[nat c := x]]"

definition putCell :: "extracted_cell \<Rightarrow> grid \<Rightarrow> grid" where
  "putCell cell g = g\<lparr>
     grd_rows := setCell (xcl_rowIndex cell) (xcl_columnIndex cell) (xcl_content cell) (grd_rows g),
     grd_confidences := setCell (xcl_rowIndex cell) (xcl_columnIndex cell) (xcl_confidence cell) (grd_confidences g),
     grd_regions := setCell (xcl_rowIndex cell) (xcl_columnIndex cell) (xcl_boundingRegion cell) (grd_regions g)\<rparr>"

definition toGrid :: "extracted_table \<Rightarrow> grid option" where
  "toGrid table =
     (let rows = xtb_rowCount table; columns = xtb_columnCount table
      in if list_ex (\<lambda>cell. int rows \<le> xcl_rowIndex cell \<or> int columns \<le> xcl_columnIndex cell \<or>
             xcl_rowIndex cell < 0 \<or> xcl_columnIndex cell < 0) (xtb_cells table)
         then None
         else Some (foldl (\<lambda>g cell. putCell cell g)
           \<lparr>grd_rows = replicate rows (replicate columns []), grd_confidences = replicate rows (replicate columns (js 0)),
            grd_regions = replicate rows (replicate columns None), grd_rowCount = rows, grd_columnCount = columns\<rparr>
           (xtb_cells table)))"

record columns =
  col_date :: nat
  col_total :: nat
  col_pairs :: "(nat \<times> nat) list"
  col_am :: "(nat \<times> nat) option"
  col_pm :: "(nat \<times> nat) option"
  col_idleHours :: "nat option"
  col_idleReason :: "nat option"
  col_weatherAm :: "nat option"
  col_weatherPm :: "nat option"

definition HEADER_ROWS :: nat where
  "HEADER_ROWS = 2"

definition findIndex :: "('a \<Rightarrow> bool) \<Rightarrow> 'a list \<Rightarrow> nat option" where
  "findIndex p xs = find (\<lambda>i. p (xs ! i)) [0..<length xs]"

text \<open>The columns under a group's label: up to the next different label of the first header row.\<close>

definition groupBlock :: "string \<Rightarrow> string list \<Rightarrow> nat \<Rightarrow> nat list" where
  "groupBlock label row0 start =
     start # takeWhile (\<lambda>c. norm (row0 ! c) = '''' \<or> norm (row0 ! c) = label) [Suc start..<length row0]"

definition groupPair :: "string list \<Rightarrow> string list \<Rightarrow> string \<Rightarrow> (nat \<times> nat) option" where
  "groupPair row0 row1 label =
     (case findIndex (\<lambda>c. norm c = label) row0 of
        None \<Rightarrow> None
      | Some start \<Rightarrow>
          let block = groupBlock label row0 start
          in (case (filter (\<lambda>c. norm (row1 ! c) = ''IN'') block, filter (\<lambda>c. norm (row1 ! c) = ''OUT'') block) of
                ([i], [k]) \<Rightarrow> Some (i, k)
              | _ \<Rightarrow> None))"

definition GROUPS :: "string list" where
  "GROUPS = [''AM'', ''PM'', ''OVERTIME'']"

definition findColumns :: "grid \<Rightarrow> columns option" where
  "findColumns g =
     (case grd_rows g of
        row0 # row1 # _ \<Rightarrow>
          (case (findIndex (\<lambda>c. containsText ''DATE'' (norm c)) row0, findIndex (\<lambda>c. containsText ''TOTAL'' (norm c)) row0) of
             (Some dateCol, Some totalCol) \<Rightarrow>
               let labelled = (\<lambda>label. findIndex (\<lambda>c. norm c = label) row0)
               in Some \<lparr>col_date = dateCol, col_total = totalCol,
                    col_pairs = map the (filter (\<lambda>p. p \<noteq> None) (map (groupPair row0 row1) GROUPS)),
                    col_am = groupPair row0 row1 ''AM'', col_pm = groupPair row0 row1 ''PM'',
                    col_idleHours = labelled ''IDLE HRS'', col_idleReason = labelled ''IDLE REASON'',
                    col_weatherAm = labelled ''WEATHER AM'', col_weatherPm = labelled ''WEATHER PM''\<rparr>
           | _ \<Rightarrow> None)
      | _ \<Rightarrow> None)"

definition findTimesheet :: "extracted_table list \<Rightarrow> (grid \<times> columns) option" where
  "findTimesheet tables =
     foldl (\<lambda>best table.
        case toGrid table of
          None \<Rightarrow> best
        | Some g \<Rightarrow>
            (case findColumns g of
               None \<Rightarrow> best
             | Some cols \<Rightarrow>
                 (case best of
                    None \<Rightarrow> Some (g, cols)
                  | Some b \<Rightarrow> if grd_rowCount (fst b) < grd_rowCount g then Some (g, cols) else best)))
       None tables"

section \<open>Cells\<close>

definition parseTime :: "string \<Rightarrow> nat option" where
  "parseTime raw =
     (let t = norm raw; h = takeWhile isDigit t; rest = dropWhile isDigit t
      in if length h \<in> {1, 2} \<and> length rest = 3 \<and> (hd rest = CHR '':'' \<or> hd rest = CHR ''.'') \<and> list_all isDigit (tl rest)
         then (let hours = digitsValue 0 h; minutes = digitsValue 0 (tl rest)
               in if 23 < hours \<or> 59 < minutes then None else Some (hours * 60 + minutes))
         else None)"

definition stripUnit :: "string \<Rightarrow> string" where
  "stripUnit t =
     (case find (\<lambda>u. endsWith u t) [''HRS'', ''HR'', ''HOURS'', ''HOUR''] of
        None \<Rightarrow> t
      | Some u \<Rightarrow> rev (dropWhile isSpace (rev (take (length t - length u) t))))"

definition parseHours :: "string \<Rightarrow> number option" where
  "parseHours raw =
     (let t = stripUnit (norm raw)
      in if t = [] then None
         else let n = toNumber t in if isFinite n \<and> js 0 \<le> n \<and> n \<le> js 24 then Some n else None)"

definition isIso :: "string \<Rightarrow> bool" where
  "isIso t \<longleftrightarrow> length t = 10 \<and> list_all isDigit (take 4 t) \<and> t ! 4 = CHR ''-'' \<and> list_all isDigit (take 2 (drop 5 t)) \<and>
     t ! 7 = CHR ''-'' \<and> list_all isDigit (drop 8 t)"

definition monthDay :: "string \<Rightarrow> (nat \<times> nat) option" where
  "monthDay t =
     (let m = takeWhile isDigit t; rest = dropWhile isDigit t; d = tl rest
      in if length m \<in> {1, 2} \<and> rest \<noteq> [] \<and> hd rest \<in> {CHR ''/'', CHR ''-'', CHR ''.''} \<and> length d \<in> {1, 2} \<and> list_all isDigit d
         then Some (digitsValue 0 m, digitsValue 0 d) else None)"

text \<open>
  The year of a bare month and day is the one that puts it nearest the capture, the earlier one when
  two are as near. The capture date is a stored date, so it always has a calendar date.
\<close>

definition nearestYear :: "nat \<Rightarrow> nat \<Rightarrow> date \<Rightarrow> int option" where
  "nearestYear month day capture =
     (let y = yearOf capture
      in foldl (\<lambda>best year.
           if monthLen year month < day then best
           else case best of
                  None \<Rightarrow> Some year
                | Some b \<Rightarrow> if \<bar>daysFrom year month day - capture\<bar> < \<bar>daysFrom b month day - capture\<bar> then Some year else best)
         None [y - 1, y, y + 1])"

definition resolveSheetDate :: "string \<Rightarrow> date \<Rightarrow> string option" where
  "resolveSheetDate raw capture =
     (let t = norm raw
      in if isIso t then Some t
         else case monthDay t of
                None \<Rightarrow> None
              | Some (month, day) \<Rightarrow>
                  if month < 1 \<or> 12 < month \<or> day < 1 \<or> 31 < day then None
                  else map_option (\<lambda>year. isoDate year month day) (nearestYear month day capture))"

definition sheetWindow :: "string list \<Rightarrow> (nat \<times> nat) option \<Rightarrow> minutes option" where
  "sheetWindow row pair =
     (case pair of
        None \<Rightarrow> None
      | Some (i, k) \<Rightarrow>
          (case (parseTime (row ! i), parseTime (row ! k)) of
             (Some start, Some finish) \<Rightarrow> if start < finish then Some (int start, int finish) else None
           | _ \<Rightarrow> None))"

record sheet_v2 =
  shv_idleHours :: "number option"
  shv_idleReason :: "idle_reason option"
  shv_weatherAm :: "weather_code option"
  shv_weatherPm :: "weather_code option"
  shv_amWindow :: "minutes option"
  shv_pmWindow :: "minutes option"

definition tick :: "string list \<Rightarrow> number list \<Rightarrow> nat option \<Rightarrow> 'a list \<Rightarrow> 'a option" where
  "tick row confidences c options =
     (case c of None \<Rightarrow> None | Some i \<Rightarrow> readTickGroup (row ! i) options (confidences ! i) CONFIDENCE_GATE)"

definition readV2 :: "string list \<Rightarrow> number list \<Rightarrow> columns \<Rightarrow> sheet_v2 option" where
  "readV2 row confidences cols =
     (if col_weatherAm cols = None \<and> col_weatherPm cols = None \<and> col_idleReason cols = None then None
      else Some \<lparr>shv_idleHours = Option.bind (col_idleHours cols) (\<lambda>i. parseHours (row ! i)),
        shv_idleReason = tick row confidences (col_idleReason cols) IDLE_REASONS,
        shv_weatherAm = tick row confidences (col_weatherAm cols) WEATHER_CODES,
        shv_weatherPm = tick row confidences (col_weatherPm cols) WEATHER_CODES,
        shv_amWindow = sheetWindow row (col_am cols), shv_pmWindow = sheetWindow row (col_pm cols)\<rparr>)"

fun computeFrom :: "string list \<Rightarrow> (nat \<times> nat) list \<Rightarrow> nat \<Rightarrow> bool \<Rightarrow> number option" where
  "computeFrom row [] minutes sawPair = (if sawPair then Some (js (of_nat minutes) / js 60) else None)"
| "computeFrom row ((i, k) # pairs) minutes sawPair =
     (case (parseTime (row ! i), parseTime (row ! k)) of
        (None, None) \<Rightarrow> computeFrom row pairs minutes sawPair
      | (Some start, Some finish) \<Rightarrow>
          if finish < start then None else computeFrom row pairs (minutes + (finish - start)) True
      | _ \<Rightarrow> None)"

definition computeHours :: "string list \<Rightarrow> (nat \<times> nat) list \<Rightarrow> number option" where
  "computeHours row pairs = computeFrom row pairs 0 False"

section \<open>The sheet\<close>

record sheet_day =
  shd_reportDate :: string
  shd_hoursActive :: number
  shd_computedHours :: "number option"
  shd_totalMismatch :: bool
  shd_confidence :: number
  shd_boundingRegion :: "bounding_region option"
  shd_v2 :: "sheet_v2 option"

datatype sheet_parse = SheetRead "sheet_day list" | SheetRefused string

datatype row_reading = BlankRow | UnreadableDate string | UnreadableTotal string | DayRow sheet_day

definition dayOf :: "grid \<Rightarrow> columns \<Rightarrow> number \<Rightarrow> nat \<Rightarrow> string \<Rightarrow> number \<Rightarrow> sheet_day" where
  "dayOf g cols tolerance r reportDate hoursActive =
     (let row = grd_rows g ! r; confidences = grd_confidences g ! r; computed = computeHours row (col_pairs cols)
      in \<lparr>shd_reportDate = reportDate, shd_hoursActive = hoursActive, shd_computedHours = computed,
          shd_totalMismatch = (case computed of None \<Rightarrow> False | Some c \<Rightarrow> tolerance < math_abs (c - hoursActive)),
          shd_confidence = math_min (confidences ! col_date cols) (confidences ! col_total cols),
          shd_boundingRegion = grd_regions g ! r ! col_total cols, shd_v2 = readV2 row confidences cols\<rparr>)"

definition readRow :: "grid \<Rightarrow> columns \<Rightarrow> date \<Rightarrow> number \<Rightarrow> nat \<Rightarrow> row_reading" where
  "readRow g cols captureDate tolerance r =
     (let row = grd_rows g ! r; rawDate = row ! col_date cols
      in if norm rawDate = [] then BlankRow
         else case resolveSheetDate rawDate captureDate of
                None \<Rightarrow> UnreadableDate rawDate
              | Some reportDate \<Rightarrow>
                  (case parseHours (row ! col_total cols) of
                     None \<Rightarrow> UnreadableTotal reportDate
                   | Some hoursActive \<Rightarrow> DayRow (dayOf g cols tolerance r reportDate hoursActive)))"

fun duplicatesFrom :: "string list \<Rightarrow> string list \<Rightarrow> string list" where
  "duplicatesFrom seen [] = []"
| "duplicatesFrom seen (d # ds) = (if d \<in> set seen then d # duplicatesFrom seen ds else duplicatesFrom (d # seen) ds)"

fun onlyFirst :: "string list \<Rightarrow> string list" where
  "onlyFirst [] = []"
| "onlyFirst (d # ds) = d # filter (\<lambda>x. x \<noteq> d) (onlyFirst ds)"

fun badDates :: "row_reading list \<Rightarrow> string list" where
  "badDates [] = []"
| "badDates (UnreadableDate s # rs) = s # badDates rs"
| "badDates (_ # rs) = badDates rs"

fun badTotals :: "row_reading list \<Rightarrow> string list" where
  "badTotals [] = []"
| "badTotals (UnreadableTotal s # rs) = s # badTotals rs"
| "badTotals (_ # rs) = badTotals rs"

fun dayRows :: "row_reading list \<Rightarrow> sheet_day list" where
  "dayRows [] = []"
| "dayRows (DayRow d # rs) = d # dayRows rs"
| "dayRows (_ # rs) = dayRows rs"

definition parseEdtrSheet :: "extracted_table list option \<Rightarrow> date \<Rightarrow> number \<Rightarrow> sheet_parse" where
  "parseEdtrSheet tables captureDate tolerance =
     (case findTimesheet (case tables of None \<Rightarrow> [] | Some ts \<Rightarrow> ts) of
        None \<Rightarrow> SheetRefused ''no_timesheet_table''
      | Some (g, cols) \<Rightarrow>
          let readings = map (readRow g cols captureDate tolerance) [HEADER_ROWS..<grd_rowCount g];
              days = dayRows readings;
              duplicates = duplicatesFrom [] (map shd_reportDate days)
          in if badDates readings \<noteq> [] then SheetRefused (''unreadable_date:'' @ joinComma (badDates readings))
             else if badTotals readings \<noteq> [] then SheetRefused (''unreadable_total_hours:'' @ joinComma (badTotals readings))
             else if duplicates \<noteq> [] then SheetRefused (''duplicate_date:'' @ joinComma (onlyFirst duplicates))
             else if days = [] then SheetRefused ''no_dated_rows''
             else SheetRead days)"

section \<open>The sheet is read in full or refused\<close>

lemma duplicatesFrom_none: "duplicatesFrom seen ds = [] \<longleftrightarrow> distinct ds \<and> set ds \<inter> set seen = {}"
  by (induction ds arbitrary: seen) auto

definition dated :: "grid \<Rightarrow> columns \<Rightarrow> nat \<Rightarrow> bool" where
  "dated g cols r \<longleftrightarrow> norm (grd_rows g ! r ! col_date cols) \<noteq> []"

definition datedRows :: "grid \<Rightarrow> columns \<Rightarrow> nat list" where
  "datedRows g cols = filter (dated g cols) [HEADER_ROWS..<grd_rowCount g]"

text \<open>The day a dated row says: the date resolved, the total written, and nothing else decides it.\<close>

definition readsAs :: "grid \<Rightarrow> columns \<Rightarrow> date \<Rightarrow> number \<Rightarrow> nat \<Rightarrow> sheet_day \<Rightarrow> bool" where
  "readsAs g cols captureDate tolerance r day \<longleftrightarrow>
     resolveSheetDate (grd_rows g ! r ! col_date cols) captureDate = Some (shd_reportDate day) \<and>
     parseHours (grd_rows g ! r ! col_total cols) = Some (shd_hoursActive day) \<and>
     day = dayOf g cols tolerance r (shd_reportDate day) (shd_hoursActive day)"

lemma dayOf_reads: "shd_reportDate (dayOf g cols tol r dt h) = dt" "shd_hoursActive (dayOf g cols tol r dt h) = h"
  by (simp_all add: dayOf_def Let_def)

lemma readRow_cases:
  obtains (blank) "\<not> dated g cols r" "readRow g cols cap tol r = BlankRow"
  | (no_date) s where "dated g cols r" "readRow g cols cap tol r = UnreadableDate s" "\<And>day. \<not> readsAs g cols cap tol r day"
  | (no_total) s where "dated g cols r" "readRow g cols cap tol r = UnreadableTotal s" "\<And>day. \<not> readsAs g cols cap tol r day"
  | (day) day where "dated g cols r" "readRow g cols cap tol r = DayRow day" "\<And>x. readsAs g cols cap tol r x \<longleftrightarrow> x = day"
proof (cases "dated g cols r")
  case False
  then show thesis using blank by (simp add: readRow_def dated_def)
next
  case d: True
  show thesis
  proof (cases "resolveSheetDate (grd_rows g ! r ! col_date cols) cap")
    case None
    then show thesis using no_date[OF d] d by (simp add: readRow_def dated_def readsAs_def)
  next
    case dt: (Some dt)
    show thesis
    proof (cases "parseHours (grd_rows g ! r ! col_total cols)")
      case None
      then show thesis using no_total[OF d] d dt by (simp add: readRow_def dated_def readsAs_def)
    next
      case (Some h)
      have "readsAs g cols cap tol r x \<longleftrightarrow> x = dayOf g cols tol r dt h" for x
        using dt Some by (auto simp: readsAs_def dayOf_reads)
      with d dt Some show thesis by (intro day) (simp_all add: readRow_def dated_def)
    qed
  qed
qed

lemma readings_all:
  "badDates (map (readRow g cols cap tol) rs) = [] \<and> badTotals (map (readRow g cols cap tol) rs) = [] \<and>
     dayRows (map (readRow g cols cap tol) rs) = days \<longleftrightarrow>
   list_all2 (readsAs g cols cap tol) (filter (dated g cols) rs) days"
proof (induction rs arbitrary: days)
  case (Cons r rs)
  show ?case
  proof (cases rule: readRow_cases[of g cols r cap tol])
    case (day x)
    then show ?thesis using Cons.IH by (cases days) (auto simp: list_all2_Cons1)
  qed (use Cons.IH in \<open>auto simp: list_all2_Cons1\<close>)
qed auto

text \<open>
  C35. A sheet is read in full or not at all. What the parser accepts of a time sheet is exactly one
  day for every row that carries a date, in the order of the rows, each with the date resolved and the
  hours written, and no date twice; otherwise the whole sheet is refused.
\<close>

theorem sheet_read_in_full:
  assumes "findTimesheet ts = Some (g, cols)"
  shows "parseEdtrSheet (Some ts) captureDate tolerance = SheetRead days \<longleftrightarrow>
     list_all2 (readsAs g cols captureDate tolerance) (datedRows g cols) days \<and>
     distinct (map shd_reportDate days) \<and> days \<noteq> []"
  using readings_all[of g cols captureDate tolerance "[HEADER_ROWS..<grd_rowCount g]" days]
  by (auto simp: parseEdtrSheet_def assms Let_def duplicatesFrom_none datedRows_def)

text \<open>Of the years around the capture, the one chosen puts the row nearest to it.\<close>

lemma nearest_year:
  assumes "nearestYear month day capture = Some year" "y \<in> {yearOf capture - 1, yearOf capture, yearOf capture + 1}" "day \<le> monthLen y month"
  shows "\<bar>daysFrom year month day - capture\<bar> \<le> \<bar>daysFrom y month day - capture\<bar>"
  using assms by (auto simp: nearestYear_def Let_def split: if_split_asm option.split_asm)

definition demo_cell :: "int \<Rightarrow> int \<Rightarrow> string \<Rightarrow> extracted_cell" where
  "demo_cell r c s = \<lparr>xcl_rowIndex = r, xcl_columnIndex = c, xcl_content = s, xcl_confidence = js 1, xcl_boundingRegion = None\<rparr>"

definition demo_sheet :: extracted_table where
  "demo_sheet = \<lparr>xtb_rowCount = 4, xtb_columnCount = 2,
     xtb_cells = [demo_cell 0 0 ''DATE'', demo_cell 0 1 ''TOTAL'', demo_cell 2 0 ''2026-03-01'', demo_cell 2 1 ''4'']\<rparr>"

definition demo_grid :: grid where
  "demo_grid = \<lparr>grd_rows = [[''DATE'', ''TOTAL''], [[], []], [''2026-03-01'', ''4''], [[], []]],
     grd_confidences = [[js 1, js 1], [js 0, js 0], [js 1, js 1], [js 0, js 0]],
     grd_regions = [[None, None], [None, None], [None, None], [None, None]], grd_rowCount = 4, grd_columnCount = 2\<rparr>"

definition demo_columns :: columns where
  "demo_columns = \<lparr>col_date = 0, col_total = 1, col_pairs = [], col_am = None, col_pm = None, col_idleHours = None,
     col_idleReason = None, col_weatherAm = None, col_weatherPm = None\<rparr>"

lemma demo_norms:
  "norm ''DATE'' = ''DATE''" "norm ''TOTAL'' = ''TOTAL''" "norm [] = []" "norm ''2026-03-01'' = ''2026-03-01''" "norm ''4'' = ''4''"
  by (simp_all add: norm_def trim_def isSpace_def upper_def charCode_def)

lemma demo_contains:
  "containsText ''DATE'' ''DATE''" "\<not> containsText ''TOTAL'' ''DATE''" "containsText ''TOTAL'' ''TOTAL''"
  by (simp_all add: containsText_def beginsWith_def)

lemma demo_found: "findTimesheet [demo_sheet] = Some (demo_grid, demo_columns)"
proof -
  have g: "toGrid demo_sheet = Some demo_grid"
    by (simp add: toGrid_def demo_sheet_def demo_cell_def demo_grid_def Let_def putCell_def setCell_def eval_nat_numeral)
  have "findColumns demo_grid = Some demo_columns"
    by (simp add: findColumns_def demo_grid_def demo_columns_def findIndex_def demo_norms demo_contains groupPair_def GROUPS_def)
  with g show ?thesis by (simp add: findTimesheet_def)
qed

lemma demo_reading: "readsAs demo_grid demo_columns 20513 tol 2 (dayOf demo_grid demo_columns tol 2 ''2026-03-01'' (js 4))"
proof -
  have n: "toNumber ''4'' = js 4"
    by (simp add: toNumber_def trim_def isSpace_def radixOf_def startsWith_def unsignedNumber_def decimalLiteral_def isDigit_def charCode_def
        exponentPart_def Let_def)
  have "stripUnit ''4'' = ''4''" by (simp add: stripUnit_def endsWith_def)
  moreover have "isFinite (js 4) \<and> js 0 \<le> js 4 \<and> js 4 \<le> js 24"
    using isn_less_eq[OF js_isn[of 0] js_isn[of 4]] isn_less_eq[OF js_isn[of 4] js_isn[of 24]] fl_of_int[of 4] fl_of_int[of 24] js_isn[of 4]
    by (auto simp: fl_def isn_def)
  ultimately have h: "parseHours ''4'' = Some (js 4)" by (simp add: parseHours_def demo_norms n)
  have "isIso ''2026-03-01''" by (simp add: isIso_def isDigit_def charCode_def)
  then have d: "resolveSheetDate ''2026-03-01'' 20513 = Some ''2026-03-01''" by (simp add: resolveSheetDate_def demo_norms)
  show ?thesis using h d by (simp add: readsAs_def dayOf_reads) (simp add: demo_grid_def demo_columns_def)
qed

theorem sheet_read_in_full_witness:
  "parseEdtrSheet (Some [demo_sheet]) 20513 DEFAULT_TOLERANCE_HOURS =
     SheetRead [dayOf demo_grid demo_columns DEFAULT_TOLERANCE_HOURS 2 ''2026-03-01'' (js 4)]"
proof -
  have "datedRows demo_grid demo_columns = [2]"
    by (simp add: datedRows_def dated_def demo_grid_def demo_columns_def HEADER_ROWS_def demo_norms upt_conv_Cons)
  then show ?thesis using demo_reading[of DEFAULT_TOLERANCE_HOURS] unfolding sheet_read_in_full[OF demo_found] by simp
qed

end
