(* ===== verification/OcrWorker.thy ===== *)
theory OcrWorker
  imports EdtrSheet EdtrService
begin

text \<open>
  The worker that reads paper time sheets (\<open>jobs/src/edtr-ocr-worker.ts\<close>): it releases the rows a dead
  worker left locked, claims a batch, reads each scan, and stores the days of a sheet as logs of their
  own in one transaction. It runs outside row-level security, with the tenant of the claimed row. What
  storage and the extraction service return for a file, the time and the feature flag are arguments.
\<close>

definition MAX_ATTEMPTS :: nat where
  "MAX_ATTEMPTS = 5"

definition CLAIM_BATCH_SIZE :: nat where
  "CLAIM_BATCH_SIZE = 10"

definition STALE_LOCK_MS :: int where
  "STALE_LOCK_MS = 15 * 60 * 1000"

type_synonym scan_reader = "string \<Rightarrow> string + extracted_table list option"

section \<open>Storing one day\<close>

text \<open>\<open>OcrPayloadSchema.parse\<close> refuses a confidence outside 0 to 1.\<close>

definition EDTR_MODEL_ID :: string where
  "EDTR_MODEL_ID = ''arkilaunch-edtr-layout-table''"

definition toOcrPayload :: "string \<Rightarrow> sheet_day \<Rightarrow> ocr_payload option" where
  "toOcrPayload analyzedAt day =
     (let confidence = shd_confidence day;
          field = (\<lambda>name value. \<lparr>ofl_name = name, ofl_value = JNum value, ofl_confidence = confidence\<rparr>)
      in if js 0 \<le> confidence \<and> confidence \<le> js 1
         then Some \<lparr>opl_model_id = EDTR_MODEL_ID, opl_analyzed_at = analyzedAt,
           opl_fields = field ''hours_active'' (shd_hoursActive day) #
             (case shd_computedHours day of None \<Rightarrow> [] | Some c \<Rightarrow> [field ''hours_computed_from_times'' c]),
           opl_min_field_confidence = Some confidence\<rparr>
         else None)"

text \<open>A \<open>date\<close> column takes a text only when it is a day of the calendar.\<close>

definition toDateColumn :: "string \<Rightarrow> date option" where
  "toDateColumn t =
     (let y = int (digitsValue 0 (take 4 t)); m = digitsValue 0 (take 2 (drop 5 t)); d = digitsValue 0 (drop 8 t)
      in if isIso t \<and> 1 \<le> y \<and> 1 \<le> m \<and> m \<le> 12 \<and> 1 \<le> d \<and> d \<le> monthLen y m then Some (daysFrom y m d) else None)"

definition siteReadingsOn :: "uuid \<Rightarrow> uuid \<Rightarrow> date \<Rightarrow> db \<Rightarrow> timed_reading list option" where
  "siteReadingsOn tenantId rentalId reportDate d =
     (case find (\<lambda>r. ren_id r = rentalId) (rentals d) of
        None \<Rightarrow> None
      | Some r \<Rightarrow>
          let dayStart = reportDate * DAY_MS - 8 * 3600000;
              rows = filter (\<lambda>a. wal_tenantId a = tenantId \<and> wal_projectSiteId a = ren_projectSiteId r \<and>
                dayStart \<le> wal_effectiveAt a \<and> wal_effectiveAt a < dayStart + DAY_MS \<and> wal_observed a \<noteq> None) (weatherAlerts d)
          in Some (map (\<lambda>a. \<lparr>tmr_minute = (wal_effectiveAt a - dayStart) div 60000, tmr_observed = the (wal_observed a)\<rparr>) rows))"

definition reportedDay :: "sheet_v2 \<Rightarrow> number \<Rightarrow> reported_day" where
  "reportedDay v hoursActive =
     \<lparr>rpd_weatherAm = shv_weatherAm v, rpd_weatherPm = shv_weatherPm v, rpd_idleHours = shv_idleHours v,
      rpd_idleReason = shv_idleReason v, rpd_hoursActive = hoursActive, rpd_amWindow = shv_amWindow v, rpd_pmWindow = shv_pmWindow v\<rparr>"

definition weatherFlags :: "edtr \<Rightarrow> date \<Rightarrow> sheet_day \<Rightarrow> db \<Rightarrow> discrepancy list" where
  "weatherFlags row reportDate day d =
     (case shd_v2 day of
        None \<Rightarrow> []
      | Some v \<Rightarrow>
          (case siteReadingsOn (edtr_tenantId row) (edtr_rentalId row) reportDate d of
             None \<Rightarrow> []
           | Some readings \<Rightarrow> compareReportedWeather (reportedDay v (shd_hoursActive day)) readings DEFAULT_WEATHER_THRESHOLDS))"

fun halfText :: "half \<Rightarrow> string" where
  "halfText AM = ''am''"
| "halfText PM = ''pm''"
| "halfText WholeDay = ''day''"

fun flagText :: "discrepancy \<Rightarrow> string" where
  "flagText (D1 v) = ''D1:day''"
| "flagText (D2 h code v) = ''D2:'' @ halfText h"

definition updateEdtr :: "uuid \<Rightarrow> (edtr \<Rightarrow> edtr) \<Rightarrow> db \<Rightarrow> db" where
  "updateEdtr i f d = d\<lparr>edtrs := updw (\<lambda>r. edtr_id r = i) f (edtrs d)\<rparr>"

definition holdForReview :: "uuid \<Rightarrow> (edtr \<Rightarrow> (string \<times> number list) option) \<Rightarrow> db \<Rightarrow> db" where
  "holdForReview i reason d = updateEdtr i (\<lambda>r. r\<lparr>edtr_status := Review, edtr_lastError := reason r\<rparr>) d"

definition mismatchReason :: "sheet_day \<Rightarrow> string \<times> number list" where
  "mismatchReason day = (''total_mismatch:written=,computed='', shd_hoursActive day #
     (case shd_computedHours day of None \<Rightarrow> [] | Some c \<Rightarrow> [c]))"

definition weatherReason :: "sheet_day \<Rightarrow> discrepancy list \<Rightarrow> edtr \<Rightarrow> (string \<times> number list) option" where
  "weatherReason day flags r =
     (let reason = ''weather_'' @ joinComma (map flagText flags)
      in if shd_totalMismatch day
         then (case edtr_lastError r of None \<Rightarrow> Some (reason, []) | Some (t, ns) \<Rightarrow> Some (t @ '';'' @ reason, ns))
         else Some (reason, []))"

text \<open>The claimed row hosts the first dated line, the others become rows of their own.\<close>

definition hostDay :: "time \<Rightarrow> edtr \<Rightarrow> nat \<Rightarrow> date \<Rightarrow> ocr_payload \<Rightarrow> db \<Rightarrow> uuid \<times> db" where
  "hostDay now row index reportDate payload d =
     (if index = 0
      then (edtr_id row, updateEdtr (edtr_id row) (\<lambda>r. r\<lparr>edtr_status := Extracted, edtr_reportDate := reportDate,
             edtr_ocrPayload := Some payload, edtr_lockedAt := None, edtr_lastError := None\<rparr>) d)
      else (nextId d, (fresh d)\<lparr>edtrs := edtrs d @
             [\<lparr>edtr_id = nextId d, edtr_tenantId = edtr_tenantId row, edtr_rentalId = edtr_rentalId row,
               edtr_equipmentId = edtr_equipmentId row, edtr_source = edtr_source row, edtr_reportDate = reportDate,
               edtr_rawFileUri = edtr_rawFileUri row, edtr_ocrPayload = Some payload, edtr_status = Extracted,
               edtr_attempts = 0, edtr_lockedAt = None, edtr_lastError = None, edtr_createdAt = now\<rparr>]\<rparr>))"

definition insertHours :: "uuid \<Rightarrow> uuid \<Rightarrow> number \<Rightarrow> db \<Rightarrow> string + db" where
  "insertHours tenantId i hoursActive d =
     (if list_ex (\<lambda>l. eli_edtrId l = i) (edtrLineItems d) then Inl ''edtr_line_items_edtr_id_uq''
      else Inr ((fresh d)\<lparr>edtrLineItems := edtrLineItems d @
        [\<lparr>eli_id = nextId d, eli_tenantId = tenantId, eli_edtrId = i, eli_hoursActive = col2 hoursActive, eli_hoursIdle = None\<rparr>]\<rparr>))"

definition storeDay :: "string \<Rightarrow> time \<Rightarrow> edtr \<Rightarrow> nat \<Rightarrow> sheet_day \<Rightarrow> db \<Rightarrow> string + db \<times> string list" where
  "storeDay analyzedAt now row index day d =
     (case (toOcrPayload analyzedAt day, toDateColumn (shd_reportDate day)) of
        (None, _) \<Rightarrow> Inl ''ZodError''
      | (Some _, None) \<Rightarrow> Inl ''invalid input syntax for type date''
      | (Some payload, Some reportDate) \<Rightarrow>
          let (i, d1) = hostDay now row index reportDate payload d
          in (case insertHours (edtr_tenantId row) i (shd_hoursActive day) d1 of
                Inl e \<Rightarrow> Inl e
              | Inr d2 \<Rightarrow>
                  (case reconcileEdtr (edtr_tenantId row) i d2 of
                     Inl e \<Rightarrow> Inl ''edtr_not_found''
                   | Inr (_, d3) \<Rightarrow>
                       let d4 = (if shd_totalMismatch day then holdForReview i (\<lambda>_. Some (mismatchReason day)) d3 else d3);
                           flags = weatherFlags row reportDate day d4;
                           d5 = (if flags \<noteq> [] then holdForReview i (weatherReason day flags) d4 else d4)
                       in Inr (d5, map (\<lambda>_. ''ocr_field_confidence'') (opl_fields payload) @
                            map (\<lambda>_. ''edtr_weather_discrepancy'') flags))))"

fun storeDays :: "string \<Rightarrow> time \<Rightarrow> edtr \<Rightarrow> nat \<Rightarrow> sheet_day list \<Rightarrow> db \<Rightarrow> string + db \<times> string list" where
  "storeDays analyzedAt now row index [] d = Inr (d, [])"
| "storeDays analyzedAt now row index (day # days) d =
     (case storeDay analyzedAt now row index day d of
        Inl e \<Rightarrow> Inl e
      | Inr (d1, es) \<Rightarrow>
          (case storeDays analyzedAt now row (Suc index) days d1 of
             Inl e \<Rightarrow> Inl e
           | Inr (d2, fs) \<Rightarrow> Inr (d2, es @ fs)))"

section \<open>One claimed row\<close>

definition hardFail :: "uuid \<Rightarrow> string \<Rightarrow> db \<Rightarrow> db" where
  "hardFail i reason d =
     updateEdtr i (\<lambda>r. r\<lparr>edtr_status := HardFailed, edtr_lockedAt := None, edtr_lastError := Some (reason, [])\<rparr>) d"

definition retryLater :: "edtr \<Rightarrow> string \<Rightarrow> db \<Rightarrow> db" where
  "retryLater row err d =
     (let attempts = edtr_attempts row + 1
      in updateEdtr (edtr_id row) (\<lambda>r. r\<lparr>edtr_status := (if MAX_ATTEMPTS \<le> attempts then Review else Queued),
           edtr_lockedAt := None, edtr_attempts := attempts, edtr_lastError := Some (err, [])\<rparr>) d)"

definition processRow :: "scan_reader \<Rightarrow> string \<Rightarrow> time \<Rightarrow> edtr \<Rightarrow> world \<Rightarrow> world" where
  "processRow extract analyzedAt now row w =
     (case nonEmpty (edtr_rawFileUri row) of
        None \<Rightarrow> w\<lparr>data := hardFail (edtr_id row) ''missing_raw_file_uri'' (data w)\<rparr>
      | Some key \<Rightarrow>
          (case extract key of
             Inl e \<Rightarrow> w\<lparr>data := retryLater row e (data w)\<rparr>
           | Inr tables \<Rightarrow>
               (case parseEdtrSheet tables (edtr_reportDate row) DEFAULT_TOLERANCE_HOURS of
                  SheetRefused reason \<Rightarrow> w\<lparr>data := hardFail (edtr_id row) reason (data w)\<rparr>
                | SheetRead days \<Rightarrow>
                    (case storeDays analyzedAt now row 0 days (data w) of
                       Inl e \<Rightarrow> w\<lparr>data := retryLater row e (data w)\<rparr>
                     | Inr (d, es) \<Rightarrow> w\<lparr>data := d, events := events w @ map (Pair (edtr_tenantId row)) es\<rparr>))))"

section \<open>A run\<close>

definition stale :: "time \<Rightarrow> edtr \<Rightarrow> bool" where
  "stale now r \<longleftrightarrow> edtr_status r = Extracting \<and>
     (case edtr_lockedAt r of None \<Rightarrow> False | Some t \<Rightarrow> t < now - STALE_LOCK_MS)"

definition reap :: "time \<Rightarrow> db \<Rightarrow> db" where
  "reap now d = d\<lparr>edtrs := updw (stale now)
     (\<lambda>r. r\<lparr>edtr_status := Queued, edtr_lockedAt := None, edtr_attempts := edtr_attempts r + 1,
        edtr_lastError := Some (''stale_lock_reclaimed'', [])\<rparr>) (edtrs d)\<rparr>"

definition claimable :: "edtr \<Rightarrow> bool" where
  "claimable r \<longleftrightarrow> edtr_status r = Queued \<and> edtr_lockedAt r = None \<and> edtr_attempts r < MAX_ATTEMPTS"

definition claimedIds :: "db \<Rightarrow> uuid list" where
  "claimedIds d = map edtr_id (take CLAIM_BATCH_SIZE (sort_key edtr_createdAt (filter claimable (edtrs d))))"

definition claim :: "time \<Rightarrow> db \<Rightarrow> edtr list \<times> db" where
  "claim now d =
     (let ids = claimedIds d;
          rows = updw (\<lambda>r. edtr_id r \<in> set ids) (\<lambda>r. r\<lparr>edtr_status := Extracting, edtr_lockedAt := Some now\<rparr>) (edtrs d)
      in (filter (\<lambda>r. edtr_id r \<in> set ids) rows, d\<lparr>edtrs := rows\<rparr>))"

definition runEdtrOcrWorker :: "bool \<Rightarrow> bool \<Rightarrow> scan_reader \<Rightarrow> string \<Rightarrow> time \<Rightarrow> world \<Rightarrow> world" where
  "runEdtrOcrWorker flagOn available extract analyzedAt now w =
     (if \<not> flagOn then w
      else if \<not> available
      then w\<lparr>events := events w @ map (\<lambda>t. (t, ''external_dependency_degraded''))
        (remdups (map edtr_tenantId (filter (\<lambda>r. edtr_status r = Queued) (edtrs (data w)))))\<rparr>
      else let (batch, d) = claim now (reap now (data w))
           in foldl (\<lambda>w row. processRow extract analyzedAt now row w) (w\<lparr>data := d\<rparr>) batch)"

section \<open>No row is left behind\<close>

definition extractingIds :: "db \<Rightarrow> uuid set" where
  "extractingIds d = edtr_id ` {r \<in> set (edtrs d). edtr_status r = Extracting}"

definition logIds :: "db \<Rightarrow> uuid set" where
  "logIds d = edtr_id ` set (edtrs d)"

text \<open>What says which log a row is: everything of it but its reading and its progress.\<close>

definition logKey :: "edtr \<Rightarrow> uuid \<times> uuid \<times> uuid \<times> uuid \<times> edtr_source \<times> date" where
  "logKey r = (edtr_id r, edtr_tenantId r, edtr_rentalId r, edtr_equipmentId r, edtr_source r, edtr_reportDate r)"

text \<open>A step that moves statuses and verdicts only, and starts no extraction.\<close>

definition settling :: "db \<Rightarrow> db \<Rightarrow> bool" where
  "settling d d' \<longleftrightarrow> map logKey (edtrs d') = map logKey (edtrs d) \<and> extractingIds d' \<subseteq> extractingIds d \<and>
     edtrLineItems d' = edtrLineItems d \<and> invoices d' = invoices d \<and> depositAccruals d' = depositAccruals d"

lemma settling_refl [simp]: "settling d d"
  by (simp add: settling_def)

lemma settling_trans [trans]: "settling a b \<Longrightarrow> settling b c \<Longrightarrow> settling a c"
  by (auto simp: settling_def)

lemma ids_of_keys: "map logKey xs = map logKey ys \<Longrightarrow> map edtr_id xs = map edtr_id ys"
proof -
  have "map edtr_id zs = map fst (map logKey zs)" for zs by (simp add: logKey_def comp_def)
  then show "map logKey xs = map logKey ys \<Longrightarrow> map edtr_id xs = map edtr_id ys" by metis
qed

lemma extracting_updated:
  assumes "\<And>r. edtr_id (f r) = edtr_id r" "\<And>r. edtr_status (f r) \<noteq> Extracting"
  shows "extractingIds (updateEdtr i f d) = extractingIds d - {i}"
  using assms by (auto simp: extractingIds_def updateEdtr_def set_updw image_iff)

lemma settling_update:
  assumes "\<And>r. logKey (f r) = logKey r" "\<And>r. edtr_status (f r) \<noteq> Extracting"
  shows "settling d (updateEdtr i f d)"
proof -
  have "edtr_id (f r) = edtr_id r" for r using assms(1)[of r] by (simp add: logKey_def)
  then have "extractingIds (updateEdtr i f d) \<subseteq> extractingIds d" by (auto simp: extracting_updated[OF _ assms(2)])
  then show ?thesis by (simp add: settling_def updateEdtr_def map_updw[where g = logKey, OF assms(1)])
qed

lemma settling_setStatus: "s \<noteq> Extracting \<Longrightarrow> settling d (setEdtrStatus i s d)"
  using settling_update[of "edtr_status_update (\<lambda>_. s)" d i] by (simp add: setEdtrStatus_def updateEdtr_def logKey_def)

lemma settling_hold: "settling d (holdForReview i reason d)"
  unfolding holdForReview_def by (rule settling_update) (simp_all add: logKey_def)

lemma settling_verdict: "writeVerdict t e ex cp delta tol st adj d = (rid, d1) \<Longrightarrow> settling d d1"
  by (auto simp: writeVerdict_def settling_def extractingIds_def fresh_def split: option.splits)

lemma settling_reconcile:
  assumes "reconcileEdtr t i d = Inr (res, d')"
  shows "settling d d'"
  using assms
  by (auto simp: reconcileEdtr_def Let_def split: option.splits if_splits prod.splits dest!: settling_verdict
      intro!: settling_trans[OF _ settling_setStatus] settling_trans[OF settling_trans[OF _ settling_setStatus] settling_setStatus])

text \<open>Storing a day is hosting it, writing its hours, and settling.\<close>

lemma storeDayE:
  assumes "storeDay a now row n day d = Inr (d', es)"
  obtains p date i d1 d2 where "toOcrPayload a day = Some p" "toDateColumn (shd_reportDate day) = Some date"
    "hostDay now row n date p d = (i, d1)" "insertHours (edtr_tenantId row) i (shd_hoursActive day) d1 = Inr d2" "settling d2 d'"
proof -
  obtain p date where p: "toOcrPayload a day = Some p" and t: "toDateColumn (shd_reportDate day) = Some date"
    using assms by (auto simp: storeDay_def split: option.splits)
  obtain i d1 where h: "hostDay now row n date p d = (i, d1)" by fastforce
  obtain d2 where l: "insertHours (edtr_tenantId row) i (shd_hoursActive day) d1 = Inr d2"
    using assms by (auto simp: storeDay_def p t h split: sum.splits)
  obtain res d3 where r: "reconcileEdtr (edtr_tenantId row) i d2 = Inr (res, d3)"
    using assms by (auto simp: storeDay_def p t h l split: sum.splits)
  define d4 where "d4 = (if shd_totalMismatch day then holdForReview i (\<lambda>_. Some (mismatchReason day)) d3 else d3)"
  have "d' = (if weatherFlags row date day d4 \<noteq> [] then holdForReview i (weatherReason day (weatherFlags row date day d4)) d4 else d4)"
    using assms by (simp add: storeDay_def p t h l r Let_def d4_def split: if_splits)
  then have "settling d4 d'" by (simp add: settling_hold)
  moreover have "settling d3 d4" by (simp add: d4_def settling_hold)
  ultimately have "settling d2 d'" using settling_reconcile[OF r] by (blast intro: settling_trans)
  with p t h l show thesis by (rule that)
qed

lemma sheet_days: "parseEdtrSheet tables captureDate tol = SheetRead days \<Longrightarrow> days \<noteq> []"
  by (auto simp: parseEdtrSheet_def Let_def split: option.splits prod.splits if_splits)

lemma image_updw: "(\<And>r. g (f r) = g r) \<Longrightarrow> g ` set (updw p f rows) = g ` set rows"
  by (simp only: set_map[symmetric] map_updw)

lemma logIds_updated: "(\<And>r. edtr_id (f r) = edtr_id r) \<Longrightarrow> logIds (updateEdtr i f d) = logIds d"
  by (simp add: logIds_def updateEdtr_def image_updw)

lemma logIds_settling: "settling d d' \<Longrightarrow> logIds d' = logIds d"
  unfolding logIds_def set_map[symmetric] settling_def by (metis ids_of_keys)

lemma hosted_new: "extractingIds ((fresh d)\<lparr>edtrs := edtrs d @ [r]\<rparr>) = (if edtr_status r = Extracting then insert (edtr_id r) (extractingIds d) else extractingIds d)"
  by (auto simp: extractingIds_def)

lemma extracting_host:
  assumes "hostDay now row n date p d = (i, d1)"
  shows "extractingIds d1 = (if n = 0 then extractingIds d - {edtr_id row} else extractingIds d)" and "logIds d \<subseteq> logIds d1"
proof -
  show "extractingIds d1 = (if n = 0 then extractingIds d - {edtr_id row} else extractingIds d)"
    using assms by (cases "n = 0") (auto simp: hostDay_def extracting_updated hosted_new)
  show "logIds d \<subseteq> logIds d1"
    using assms by (cases "n = 0") (auto simp: hostDay_def logIds_updated, auto simp: logIds_def)
qed

lemma insertHours_tables: "insertHours t i h d = Inr d2 \<Longrightarrow> edtrs d2 = edtrs d \<and> invoices d2 = invoices d \<and> depositAccruals d2 = depositAccruals d"
  by (auto simp: insertHours_def fresh_def split: if_splits)

lemma extracting_day:
  assumes "storeDay a now row n day d = Inr (d', es)"
  shows "extractingIds d' \<subseteq> (if n = 0 then extractingIds d - {edtr_id row} else extractingIds d)" and "logIds d \<subseteq> logIds d'"
proof -
  from assms obtain p date i d1 d2 where h: "hostDay now row n date p d = (i, d1)"
    and l: "insertHours (edtr_tenantId row) i (shd_hoursActive day) d1 = Inr d2" and s: "settling d2 d'" by (rule storeDayE)
  have e: "extractingIds d2 = extractingIds d1" "logIds d2 = logIds d1"
    using insertHours_tables[OF l] by (simp_all add: extractingIds_def logIds_def)
  have "extractingIds d' \<subseteq> extractingIds d2" using s by (simp add: settling_def)
  then show "extractingIds d' \<subseteq> (if n = 0 then extractingIds d - {edtr_id row} else extractingIds d)"
    unfolding e extracting_host(1)[OF h] .
  show "logIds d \<subseteq> logIds d'" unfolding logIds_settling[OF s] e by (rule extracting_host(2)[OF h])
qed

lemma extracting_days:
  "storeDays a now row n days d = Inr (d', es) \<Longrightarrow> extractingIds d' \<subseteq> extractingIds d \<and>
     (n = 0 \<and> days \<noteq> [] \<longrightarrow> edtr_id row \<notin> extractingIds d') \<and> logIds d \<subseteq> logIds d'"
proof (induction days arbitrary: n d es)
  case (Cons day days)
  then obtain d1 es1 es2 where o: "storeDay a now row n day d = Inr (d1, es1)" "storeDays a now row (Suc n) days d1 = Inr (d', es2)"
    by (auto split: sum.splits prod.splits)
  from Cons.IH[OF o(2)] extracting_day[OF o(1)] show ?case by (auto split: if_splits)
qed simp

lemma failed_extracting:
  "extractingIds (hardFail i reason d) = extractingIds d - {i}" "logIds (hardFail i reason d) = logIds d"
  "extractingIds (retryLater row e d) = extractingIds d - {edtr_id row}" "logIds (retryLater row e d) = logIds d"
  by (simp_all add: hardFail_def retryLater_def Let_def extracting_updated logIds_updated)

lemma extracting_processed:
  "extractingIds (data (processRow x a now row w)) \<subseteq> extractingIds (data w) - {edtr_id row} \<and>
   logIds (data w) \<subseteq> logIds (data (processRow x a now row w))"
  by (auto simp: processRow_def failed_extracting split: option.splits sum.splits sheet_parse.splits dest: extracting_days sheet_days)

lemma extracting_batch:
  "extractingIds (data (foldl (\<lambda>w row. processRow x a now row w) w batch)) \<subseteq> extractingIds (data w) - edtr_id ` set batch \<and>
   logIds (data w) \<subseteq> logIds (data (foldl (\<lambda>w row. processRow x a now row w) w batch))"
proof (induction batch arbitrary: w)
  case (Cons row batch)
  from Cons.IH[of "processRow x a now row w"] extracting_processed[of x a now row w] show ?case by auto
qed simp

lemma claim_extracting:
  assumes "claim now d = (batch, d')"
  shows "extractingIds d' \<subseteq> extractingIds d \<union> edtr_id ` set batch" "logIds d' = logIds d"
proof -
  have d': "edtrs d' = updw (\<lambda>r. edtr_id r \<in> set (claimedIds d)) (\<lambda>r. r\<lparr>edtr_status := Extracting, edtr_lockedAt := Some now\<rparr>) (edtrs d)"
    and b: "batch = filter (\<lambda>r. edtr_id r \<in> set (claimedIds d)) (edtrs d')"
    using assms by (auto simp: claim_def Let_def)
  show "extractingIds d' \<subseteq> extractingIds d \<union> edtr_id ` set batch"
  proof
    fix k assume "k \<in> extractingIds d'"
    then obtain r where r: "r \<in> set (edtrs d')" "edtr_status r = Extracting" "k = edtr_id r" by (auto simp: extractingIds_def)
    show "k \<in> extractingIds d \<union> edtr_id ` set batch"
    proof (cases "k \<in> set (claimedIds d)")
      case False
      then have "r \<in> set (edtrs d)" using r by (auto simp: d' in_updw split: if_splits)
      then show ?thesis using r by (auto simp: extractingIds_def)
    qed (use r b in auto)
  qed
  show "logIds d' = logIds d" by (simp add: logIds_def d' image_updw)
qed

lemma reap_extracting:
  "extractingIds (reap now d) = edtr_id ` {r \<in> set (edtrs d). edtr_status r = Extracting \<and> \<not> stale now r}"
  "logIds (reap now d) = logIds d"
  by (auto simp: reap_def extractingIds_def set_updw stale_def) (auto simp: reap_def logIds_def image_updw)

text \<open>
  C36. No claimed scan is lost. After a run of the worker, whatever storage, the extraction service and
  the sheets answered, the logs still marked as being extracted are only those that were so before the
  run and not stale (locked no longer ago than the stale limit, or without a lock time): every row this run
  claimed, and every stale row a dead worker had left, is at rest again (queued, extracted, reconciled, in review or failed), and no row disappears.
\<close>

theorem no_claimed_row_left:
  "extractingIds (data (runEdtrOcrWorker True True x a now w)) \<subseteq>
     edtr_id ` {r \<in> set (edtrs (data w)). edtr_status r = Extracting \<and> \<not> stale now r} \<and>
   edtr_id ` set (edtrs (data w)) \<subseteq> edtr_id ` set (edtrs (data (runEdtrOcrWorker True True x a now w)))"
proof -
  obtain batch d where c: "claim now (reap now (data w)) = (batch, d)" by fastforce
  have r: "runEdtrOcrWorker True True x a now w = foldl (\<lambda>w row. processRow x a now row w) (w\<lparr>data := d\<rparr>) batch"
    by (simp add: runEdtrOcrWorker_def c)
  show ?thesis
    using extracting_batch[of x a now "w\<lparr>data := d\<rparr>" batch] claim_extracting[OF c]
    unfolding r by (auto simp: reap_extracting logIds_def[symmetric])
qed

section \<open>A sheet is stored whole or not at all\<close>

text \<open>The line the table keeps of a day: on a log of its own of the captured machine, with the hours written and no idle hours.\<close>

definition recordedAs :: "edtr \<Rightarrow> db \<Rightarrow> sheet_day \<Rightarrow> edtr_line_item \<Rightarrow> bool" where
  "recordedAs row d day l \<longleftrightarrow> eli_tenantId l = edtr_tenantId row \<and> eli_hoursActive l = col2 (shd_hoursActive day) \<and> eli_hoursIdle l = None \<and>
     (\<exists>date. toDateColumn (shd_reportDate day) = Some date \<and>
        (eli_edtrId l, edtr_tenantId row, edtr_rentalId row, edtr_equipmentId row, edtr_source row, date) \<in> logKey ` set (edtrs d))"

definition moneyKept :: "db \<Rightarrow> db \<Rightarrow> bool" where
  "moneyKept d d' \<longleftrightarrow> invoices d' = invoices d \<and> depositAccruals d' = depositAccruals d"

lemma keys_of_settled: "settling d d' \<Longrightarrow> logKey ` set (edtrs d') = logKey ` set (edtrs d)"
  unfolding settling_def set_map[symmetric] by simp

lemma host_recorded:
  assumes "hostDay now row n date p d = (i, d1)" "n = 0 \<longrightarrow> logKey row \<in> logKey ` set (edtrs d)"
  shows "(i, edtr_tenantId row, edtr_rentalId row, edtr_equipmentId row, edtr_source row, date) \<in> logKey ` set (edtrs d1)"
    and "n \<noteq> 0 \<longrightarrow> logKey ` set (edtrs d) \<subseteq> logKey ` set (edtrs d1)"
    and "edtrLineItems d1 = edtrLineItems d \<and> moneyKept d d1"
proof -
  show "(i, edtr_tenantId row, edtr_rentalId row, edtr_equipmentId row, edtr_source row, date) \<in> logKey ` set (edtrs d1)"
  proof (cases "n = 0")
    case True
    then obtain r where r: "r \<in> set (edtrs d)" "logKey r = logKey row" using assms(2) by auto
    define r' where "r' = r\<lparr>edtr_status := Extracted, edtr_reportDate := date, edtr_ocrPayload := Some p, edtr_lockedAt := None, edtr_lastError := None\<rparr>"
    have "r' \<in> set (edtrs d1)" using r assms(1) True by (auto simp: hostDay_def updateEdtr_def in_updw logKey_def r'_def)
    moreover have "logKey r' = (i, edtr_tenantId row, edtr_rentalId row, edtr_equipmentId row, edtr_source row, date)"
      using r assms(1) True by (auto simp: hostDay_def logKey_def r'_def)
    ultimately show ?thesis by (metis image_eqI)
  qed (use assms(1) in \<open>auto simp: hostDay_def logKey_def\<close>)
  show "n \<noteq> 0 \<longrightarrow> logKey ` set (edtrs d) \<subseteq> logKey ` set (edtrs d1)"
    using assms(1) by (auto simp: hostDay_def)
  show "edtrLineItems d1 = edtrLineItems d \<and> moneyKept d d1"
    using assms(1) by (auto simp: hostDay_def moneyKept_def updateEdtr_def fresh_def split: if_splits)
qed

lemma recorded_grows: "recordedAs row d day l \<Longrightarrow> logKey ` set (edtrs d) \<subseteq> logKey ` set (edtrs d') \<Longrightarrow> recordedAs row d' day l"
  unfolding recordedAs_def by blast

lemma day_recorded:
  assumes "storeDay a now row n day d = Inr (d', es)" "n = 0 \<longrightarrow> logKey row \<in> logKey ` set (edtrs d)"
  obtains l where "edtrLineItems d' = edtrLineItems d @ [l]" "recordedAs row d' day l" "eli_edtrId l \<notin> eli_edtrId ` set (edtrLineItems d)"
    "moneyKept d d'" "n \<noteq> 0 \<longrightarrow> logKey ` set (edtrs d) \<subseteq> logKey ` set (edtrs d')"
proof -
  from assms(1) obtain p date i d1 d2 where t: "toDateColumn (shd_reportDate day) = Some date" and h: "hostDay now row n date p d = (i, d1)"
    and l: "insertHours (edtr_tenantId row) i (shd_hoursActive day) d1 = Inr d2" and s: "settling d2 d'" by (rule storeDayE)
  note host = host_recorded[OF h assms(2)]
  define x where "x = \<lparr>eli_id = nextId d1, eli_tenantId = edtr_tenantId row, eli_edtrId = i, eli_hoursActive = col2 (shd_hoursActive day), eli_hoursIdle = None\<rparr>"
  have x: "edtrLineItems d2 = edtrLineItems d1 @ [x]" "i \<notin> eli_edtrId ` set (edtrLineItems d1)" "edtrs d2 = edtrs d1" "moneyKept d1 d2"
    using l by (auto simp: insertHours_def x_def moneyKept_def fresh_def list_ex_iff split: if_splits)
  have k: "logKey ` set (edtrs d') = logKey ` set (edtrs d1)" using keys_of_settled[OF s] x(3) by simp
  have i: "edtrLineItems d' = edtrLineItems d @ [x]" using s x(1) host(3) by (simp add: settling_def)
  have r: "recordedAs row d' day x" using host(1) by (simp add: recordedAs_def t k) (simp add: x_def)
  have f: "eli_edtrId x \<notin> eli_edtrId ` set (edtrLineItems d)" using x(2) host(3) by (simp add: x_def)
  have m: "moneyKept d d'" using s x(4) host(3) by (simp add: settling_def moneyKept_def)
  from that[OF i r f m] host(2) show thesis by (simp add: k)
qed

lemma days_recorded:
  "storeDays a now row n days d = Inr (d', es) \<Longrightarrow> n = 0 \<longrightarrow> logKey row \<in> logKey ` set (edtrs d) \<Longrightarrow>
   \<exists>ls. edtrLineItems d' = edtrLineItems d @ ls \<and> list_all2 (recordedAs row d') days ls \<and> distinct (map eli_edtrId ls) \<and>
     eli_edtrId ` set ls \<inter> eli_edtrId ` set (edtrLineItems d) = {} \<and> moneyKept d d' \<and>
     (n \<noteq> 0 \<longrightarrow> logKey ` set (edtrs d) \<subseteq> logKey ` set (edtrs d'))"
proof (induction days arbitrary: n d es)
  case Nil
  then show ?case by (auto simp: moneyKept_def)
next
  case (Cons day days)
  then obtain d1 es1 es2 where o: "storeDay a now row n day d = Inr (d1, es1)" "storeDays a now row (Suc n) days d1 = Inr (d', es2)"
    by (auto split: sum.splits prod.splits)
  from day_recorded[OF o(1) Cons.prems(2)] obtain l where
    l: "edtrLineItems d1 = edtrLineItems d @ [l]" "recordedAs row d1 day l" "eli_edtrId l \<notin> eli_edtrId ` set (edtrLineItems d)"
    "moneyKept d d1" "n \<noteq> 0 \<longrightarrow> logKey ` set (edtrs d) \<subseteq> logKey ` set (edtrs d1)" .
  from Cons.IH[OF o(2)] obtain ls where
    ls: "edtrLineItems d' = edtrLineItems d1 @ ls" "list_all2 (recordedAs row d') days ls" "distinct (map eli_edtrId ls)"
    "eli_edtrId ` set ls \<inter> eli_edtrId ` set (edtrLineItems d1) = {}" "moneyKept d1 d'" "logKey ` set (edtrs d1) \<subseteq> logKey ` set (edtrs d')"
    by auto
  have "recordedAs row d' day l" using recorded_grows[OF l(2) ls(6)] .
  moreover have "n \<noteq> 0 \<longrightarrow> logKey ` set (edtrs d) \<subseteq> logKey ` set (edtrs d')" using l(5) ls(6) by blast
  moreover have "edtrLineItems d' = edtrLineItems d @ l # ls" "moneyKept d d'" using l ls by (simp_all add: moneyKept_def)
  moreover have "distinct (map eli_edtrId (l # ls))" "eli_edtrId ` set (l # ls) \<inter> eli_edtrId ` set (edtrLineItems d) = {}"
    using l ls by auto
  ultimately show ?case using ls(2) by (intro exI[of _ "l # ls"]) simp
qed

text \<open>
  C37. A sheet is stored whole or not at all. When the worker processes a claimed row, either every day
  the sheet says is on a log of its own of the captured rental and machine, dated as the paper says,
  with the hours written and one line each, and no invoice or deposit moved; or nothing is stored and
  no event sent: the row alone changes, back to the queue, to review or to failure, and is the same log of the
  same day with the payload it had.
\<close>

theorem sheet_all_or_nothing:
  assumes "row \<in> set (edtrs (data w))" "w' = processRow x a now row w"
  shows "(\<exists>key tables days ls. edtr_rawFileUri row = Some key \<and> x key = Inr tables \<and>
       parseEdtrSheet tables (edtr_reportDate row) DEFAULT_TOLERANCE_HOURS = SheetRead days \<and>
       edtrLineItems (data w') = edtrLineItems (data w) @ ls \<and> list_all2 (recordedAs row (data w')) days ls \<and>
       distinct (map eli_edtrId ls) \<and> moneyKept (data w) (data w')) \<or>
     events w' = events w \<and> (\<exists>f. data w' = updateEdtr (edtr_id row) f (data w) \<and>
       (\<forall>r. logKey (f r) = logKey r \<and> edtr_ocrPayload (f r) = edtr_ocrPayload r \<and> edtr_status (f r) \<in> {Queued, Review, HardFailed}))"
proof -
  have failed: "\<exists>f. hardFail (edtr_id row) reason d = updateEdtr (edtr_id row) f d \<and>
      (\<forall>r. logKey (f r) = logKey r \<and> edtr_ocrPayload (f r) = edtr_ocrPayload r \<and> edtr_status (f r) \<in> {Queued, Review, HardFailed})" for reason d
    unfolding hardFail_def by (rule exI, rule conjI, rule refl) (simp add: logKey_def)
  have retried: "\<exists>f. retryLater row err d = updateEdtr (edtr_id row) f d \<and>
      (\<forall>r. logKey (f r) = logKey r \<and> edtr_ocrPayload (f r) = edtr_ocrPayload r \<and> edtr_status (f r) \<in> {Queued, Review, HardFailed})" for err d
    unfolding retryLater_def Let_def by (rule exI, rule conjI, rule refl) (simp add: logKey_def)
  note defs = assms(2) processRow_def
  show ?thesis
  proof (cases "nonEmpty (edtr_rawFileUri row)")
    case (Some key)
    then have uri: "edtr_rawFileUri row = Some key" by (auto simp: nonEmpty_def split: option.splits list.splits)
    show ?thesis
    proof (cases "x key")
      case (Inr tables)
      show ?thesis
      proof (cases "parseEdtrSheet tables (edtr_reportDate row) DEFAULT_TOLERANCE_HOURS")
        case (SheetRead days)
        show ?thesis
        proof (cases "storeDays a now row 0 days (data w)")
          case (Inr r)
          then obtain d es where r: "storeDays a now row 0 days (data w) = Inr (d, es)" by (cases r) auto
          moreover have "logKey row \<in> logKey ` set (edtrs (data w))" using assms(1) by simp
          ultimately obtain ls where "edtrLineItems d = edtrLineItems (data w) @ ls" "list_all2 (recordedAs row d) days ls"
            "distinct (map eli_edtrId ls)" "moneyKept (data w) d" using days_recorded[OF r] by blast
          then show ?thesis using uri \<open>x key = Inr tables\<close> SheetRead r Some by (simp add: defs)
        qed (use Some Inr SheetRead retried in \<open>simp add: defs\<close>)
      qed (use Some Inr failed in \<open>simp add: defs\<close>)
    qed (use Some retried in \<open>simp add: defs\<close>)
  qed (use failed in \<open>simp add: defs\<close>)
qed

lemma reconcile_found: "find (\<lambda>r. edtr_id r = i) (edtrs d) = Some r \<Longrightarrow> \<exists>x. reconcileEdtr t i d = Inr x"
  by (cases "counterpartOf t r d") (simp_all add: reconcileEdtr_def Let_def split: prod.split)

lemma day_stored:
  assumes "toOcrPayload a day = Some p" "toDateColumn (shd_reportDate day) = Some date"
    and "row \<in> set (edtrs d)" "edtrLineItems d = []"
  shows "\<exists>r. storeDay a now row 0 day d = Inr r"
proof -
  define d1 where "d1 = snd (hostDay now row 0 date p d)"
  have h: "hostDay now row 0 date p d = (edtr_id row, d1)" by (simp add: d1_def hostDay_def)
  have "edtr_id row \<in> logIds d1" using extracting_host(2)[OF h] assms(3) by (auto simp: logIds_def)
  then have n: "edtrLineItems d1 = []" "\<exists>r \<in> set (edtrs d1). edtr_id r = edtr_id row"
    using assms(4) by (auto simp: d1_def hostDay_def updateEdtr_def logIds_def)
  then obtain d2 where l: "insertHours (edtr_tenantId row) (edtr_id row) (shd_hoursActive day) d1 = Inr d2" by (auto simp: insertHours_def)
  have "find (\<lambda>r. edtr_id r = edtr_id row) (edtrs d2) \<noteq> None"
    using n insertHours_tables[OF l] by (auto simp: find_None_iff)
  then obtain res where "reconcileEdtr (edtr_tenantId row) (edtr_id row) d2 = Inr res" using reconcile_found by fastforce
  then show ?thesis using assms h l by (simp add: storeDay_def Let_def split: prod.splits)
qed

definition demo_log :: edtr where
  "demo_log = \<lparr>edtr_id = 4, edtr_tenantId = 2, edtr_rentalId = 5, edtr_equipmentId = 9, edtr_source = PaperOcr,
     edtr_reportDate = 20513, edtr_rawFileUri = Some ''scan'', edtr_ocrPayload = None, edtr_status = Extracting,
     edtr_attempts = 0, edtr_lockedAt = Some 0, edtr_lastError = None, edtr_createdAt = 0\<rparr>"

definition demo_capture :: world where
  "demo_capture = \<lparr>data = empty_db\<lparr>edtrs := [demo_log]\<rparr>, events = []\<rparr>"

definition demo_day :: sheet_day where
  "demo_day = dayOf demo_grid demo_columns DEFAULT_TOLERANCE_HOURS 2 ''2026-03-01'' (js 4)"

lemma demo_parsed: "parseEdtrSheet (Some [demo_sheet]) 20513 DEFAULT_TOLERANCE_HOURS = SheetRead [demo_day]"
proof -
  have "readRow demo_grid demo_columns 20513 DEFAULT_TOLERANCE_HOURS 2 = DayRow demo_day"
    using demo_reading[of DEFAULT_TOLERANCE_HOURS] unfolding demo_day_def
    by (cases rule: readRow_cases[of demo_grid demo_columns 2 20513 DEFAULT_TOLERANCE_HOURS])
       (auto simp: dated_def demo_grid_def demo_columns_def demo_norms)
  moreover have "readRow demo_grid demo_columns 20513 DEFAULT_TOLERANCE_HOURS 3 = BlankRow"
    by (simp add: readRow_def demo_grid_def demo_columns_def demo_norms Let_def)
  moreover have "[HEADER_ROWS..<grd_rowCount demo_grid] = [2, 3]" by (simp add: HEADER_ROWS_def demo_grid_def upt_conv_Cons)
  ultimately show ?thesis by (simp add: parseEdtrSheet_def demo_found Let_def)
qed

lemma demo_stored: "\<exists>r. storeDays a now demo_log 0 [demo_day] (data demo_capture) = Inr r"
proof -
  have "math_min (js 1) (js 1) = js 1" by (cases "js 1 :: number") auto
  then have c: "shd_confidence demo_day = js 1" by (simp add: demo_day_def dayOf_def Let_def demo_grid_def demo_columns_def)
  have "js 0 \<le> js 1 \<and> js 1 \<le> js 1"
    using isn_less_eq[OF js_isn[of 0] js_isn[of 1]] isn_less_eq[OF js_isn[of 1] js_isn[of 1]] fl_of_int[of 1] by simp
  then obtain p where p: "toOcrPayload a demo_day = Some p" by (simp add: toOcrPayload_def c Let_def)
  have "isIso ''2026-03-01''" by (simp add: isIso_def isDigit_def charCode_def)
  then obtain date where t: "toDateColumn (shd_reportDate demo_day) = Some date"
    by (simp add: toDateColumn_def demo_day_def dayOf_reads Let_def charCode_def monthLen_def)
  have "demo_log \<in> set (edtrs (data demo_capture))" "edtrLineItems (data demo_capture) = []" by (simp_all add: demo_capture_def empty_db_def)
  from day_stored[OF p t this] obtain d es where "storeDay a now demo_log 0 demo_day (data demo_capture) = Inr (d, es)" by fastforce
  then show ?thesis by simp
qed

theorem sheet_all_or_nothing_witness:
  "\<exists>l. edtrLineItems (data (processRow (\<lambda>_. Inr (Some [demo_sheet])) ''2026-03-02'' 0 demo_log demo_capture)) = [l] \<and>
     eli_hoursActive l = col2 (js 4) \<and> eli_hoursIdle l = None"
proof -
  let ?w = "processRow (\<lambda>_. Inr (Some [demo_sheet])) ''2026-03-02'' 0 demo_log demo_capture"
  have r: "demo_log \<in> set (edtrs (data demo_capture))" and n: "edtrLineItems (data demo_capture) = []"
    by (simp_all add: demo_capture_def empty_db_def)
  have k: "edtr_reportDate demo_log = 20513" "nonEmpty (edtr_rawFileUri demo_log) = Some ''scan''"
    by (simp_all add: demo_log_def nonEmpty_def)
  obtain d es where s: "storeDays ''2026-03-02'' 0 demo_log 0 [demo_day] (data demo_capture) = Inr (d, es)" using demo_stored by fastforce
  then have d: "data ?w = d" by (simp add: processRow_def k demo_parsed)
  have "edtrLineItems d \<noteq> []" using days_recorded[OF s] r by fastforce
  then have "data ?w \<noteq> updateEdtr (edtr_id demo_log) f (data demo_capture)" for f by (auto simp: d updateEdtr_def n)
  then obtain days ls where "parseEdtrSheet (Some [demo_sheet]) (edtr_reportDate demo_log) DEFAULT_TOLERANCE_HOURS = SheetRead days"
    "edtrLineItems (data ?w) = edtrLineItems (data demo_capture) @ ls" "list_all2 (recordedAs demo_log (data ?w)) days ls"
    using sheet_all_or_nothing[OF r refl, of "\<lambda>_. Inr (Some [demo_sheet])" "''2026-03-02''" 0] by auto
  then show ?thesis by (auto simp: k demo_parsed n list_all2_Cons1 recordedAs_def demo_day_def dayOf_reads)
qed

section \<open>What the worker does not do\<close>

text \<open>
  A row that kills the worker again and again is taken back with its fifth attempt counted, still queued;
  the claim asks for fewer than five. It is never taken again, and nothing sends it to review.
\<close>

lemma stale_row_stranded:
  assumes "r \<in> set (edtrs d)" "stale now r" "MAX_ATTEMPTS \<le> edtr_attempts r + 1"
  shows "\<exists>r' \<in> set (edtrs (reap now d)). edtr_id r' = edtr_id r \<and> edtr_status r' = Queued \<and> \<not> claimable r'"
proof -
  define r' where "r' = r\<lparr>edtr_status := Queued, edtr_lockedAt := None, edtr_attempts := edtr_attempts r + 1,
    edtr_lastError := Some (''stale_lock_reclaimed'', [])\<rparr>"
  have "r' \<in> set (edtrs (reap now d))" using assms(1,2) unfolding reap_def r'_def by (auto simp: set_updw)
  then show ?thesis using assms(3) by (intro bexI[of _ r']) (auto simp: r'_def claimable_def)
qed

text \<open>
  A sheet that contradicts itself is put in review after the reconciliation, whose verdict stays: a match
  is still a match, and the approval, which reads the verdict and not the status of the log, goes through as before.
\<close>

lemma held_find:
  "find (\<lambda>r. edtr_id r = k) (edtrs (holdForReview i reason d)) =
   map_option (\<lambda>r. if edtr_id r = i then r\<lparr>edtr_status := Review, edtr_lastError := reason r\<rparr> else r) (find (\<lambda>r. edtr_id r = k) (edtrs d))"
  by (simp add: holdForReview_def updateEdtr_def find_updw)

lemma held_row_still_approvable:
  "map_sum id snd (approveGuards e k body (holdForReview i reason d)) = map_sum id snd (approveGuards e k body d)"
proof -
  have t: "edtrReconciliations (holdForReview i reason d) = edtrReconciliations d" by (simp add: holdForReview_def updateEdtr_def)
  define g where "g r = (if edtr_id r = i then r\<lparr>edtr_status := Review, edtr_lastError := reason r\<rparr> else r)" for r :: edtr
  have f: "find (\<lambda>r. edtr_id r = j) (edtrs (holdForReview i reason d)) = map_option g (find (\<lambda>r. edtr_id r = j) (edtrs d))" for j
    unfolding g_def by (rule held_find)
  have "edtr_ocrPayload (g r) = edtr_ocrPayload r" for r by (simp add: g_def)
  then have m: "modelSourced (g r) x (holdForReview i reason d) = modelSourced r x d" for r x
    by (auto simp: modelSourced_def Let_def f split: option.splits)
  have c: "reconOf j (holdForReview i reason d) = reconOf j d" for j by (simp add: reconOf_def t)
  show ?thesis
    by (cases "find (\<lambda>r. edtr_id r = k) (edtrs d)"; cases "find (\<lambda>x. rec_id x = apr_reconciliationId body) (edtrReconciliations d)")
       (auto simp: approveGuards_def f t m c cong: option.case_cong)
qed

text \<open>
  A date written in full is taken as written: a day that does not exist is read, and only the database
  refuses it, so the sheet is tried again and again instead of being refused as unreadable.
\<close>

lemma impossible_date_read:
  "resolveSheetDate ''2026-02-30'' captureDate = Some ''2026-02-30''" "toDateColumn ''2026-02-30'' = None"
proof -
  have i: "isIso ''2026-02-30''" by (simp add: isIso_def isDigit_def charCode_def)
  have n: "norm ''2026-02-30'' = ''2026-02-30''" by (simp add: norm_def trim_def isSpace_def upper_def charCode_def)
  show "resolveSheetDate ''2026-02-30'' captureDate = Some ''2026-02-30''" by (simp add: resolveSheetDate_def n i)
  show "toDateColumn ''2026-02-30'' = None" by (simp add: toDateColumn_def Let_def monthLen_def leap_def charCode_def)
qed

end
