(* ===== verification/PricingAdmin.thy ===== *)
theory PricingAdmin
  imports EdtrSheet Pricing
begin

text \<open>
  The administration of prices (\<open>apps/api/src/pricing/pricing.service.ts\<close>, \<open>packages/db/src/diesel-manual-entry.ts\<close>,
  \<open>jobs/src/diesel.ts\<close>): rate cards and pricing parameters with a window of validity, billing settings, and
  the national diesel reading, entered by hand or averaged over the stations GasWatch publishes. The
  answer of GasWatch, the time and the day are arguments.
\<close>

section \<open>Diesel readings\<close>

definition PRICE_SANE_MIN :: number where
  "PRICE_SANE_MIN = js 20"

definition PRICE_SANE_MAX :: number where
  "PRICE_SANE_MAX = js 150"

text \<open>
  What a station's \<open>diesel.p\<close> may be and what \<open>Number\<close> makes of it; a list or an object is the text it converts to.
\<close>

datatype price_value = PriceNumber number | PriceText string | PriceFlag bool | PriceNull | PriceAbsent

fun numberOf :: "price_value \<Rightarrow> number" where
  "numberOf (PriceNumber n) = n"
| "numberOf (PriceText t) = toNumber t"
| "numberOf (PriceFlag b) = (if b then js 1 else js 0)"
| "numberOf PriceNull = js 0"
| "numberOf PriceAbsent = NaN"

definition sanePrice :: "number \<Rightarrow> bool" where
  "sanePrice p \<longleftrightarrow> isFinite p \<and> PRICE_SANE_MIN \<le> p \<and> p \<le> PRICE_SANE_MAX"

definition averageGasWatchDiesel :: "price_value list option \<Rightarrow> number option" where
  "averageGasWatchDiesel overrides =
     (case overrides of
        None \<Rightarrow> None
      | Some stations \<Rightarrow>
          let prices = filter sanePrice (map numberOf stations)
          in if prices = [] then None
             else Some (math_round (foldl (+) (js 0) prices / js (of_nat (length prices)) * js 100) / js 100))"

text \<open>
  The three definer functions insert the reading under a source of their own, and the table's \<open>price_sane\<close>
  check refuses a price outside 20 to 150.
\<close>

definition recordReading :: "string \<Rightarrow> int \<Rightarrow> date \<Rightarrow> string \<Rightarrow> db \<Rightarrow> string + diesel_reading \<times> db" where
  "recordReading region pricePhp observedDate source d =
     (if pricePhp < 20 * 10000 \<or> 150 * 10000 < pricePhp then Inl ''price_sane''
      else let reading = \<lparr>dpr_id = nextId d, dpr_region = region, dpr_pricePhp = pricePhp, dpr_observedDate = observedDate, dpr_source = source\<rparr>
           in Inr (reading, (fresh d)\<lparr>dieselPriceReadings := dieselPriceReadings d @ [reading]\<rparr>))"

definition recordManualDieselReading :: "string \<Rightarrow> number \<Rightarrow> date \<Rightarrow> db \<Rightarrow> string + diesel_reading \<times> db" where
  "recordManualDieselReading region pricePhp observedDate d = recordReading region (cold 4 pricePhp) observedDate ''platform_manual'' d"

definition recordScrapeDieselReading :: "string \<Rightarrow> number \<Rightarrow> date \<Rightarrow> db \<Rightarrow> string + diesel_reading \<times> db" where
  "recordScrapeDieselReading region pricePhp observedDate d = recordReading region (cold 4 pricePhp) observedDate ''doe_scrape'' d"

type_synonym gaswatch_answer = "string + price_value list option"

definition recordGasWatchDieselReading :: "gaswatch_answer \<Rightarrow> date \<Rightarrow> string \<Rightarrow> db \<Rightarrow> string + diesel_reading \<times> db" where
  "recordGasWatchDieselReading response today region d =
     (case response of
        Inl e \<Rightarrow> Inl e
      | Inr overrides \<Rightarrow>
          (case averageGasWatchDiesel overrides of
             None \<Rightarrow> Inl ''GasWatch returned no usable diesel price''
           | Some price \<Rightarrow> recordReading region (cold 4 price) today ''gaswatch'' d))"

definition auditReading :: "ctx \<Rightarrow> uuid \<Rightarrow> world \<Rightarrow> (http_error + unit) \<times> world" where
  "auditReading c i w = withTenantTx c (\<lambda>d. returns () (audit c ''CREATE'' ''diesel_price_readings'' i d)) w"

definition recordDieselPrice :: "ctx \<Rightarrow> string \<Rightarrow> number \<Rightarrow> date \<Rightarrow> world \<Rightarrow> (http_error + diesel_reading) \<times> world" where
  "recordDieselPrice c region pricePhp observedDate w =
     (case recordManualDieselReading region pricePhp observedDate (data w) of
        Inl e \<Rightarrow> (Inl (Internal e), w)
      | Inr (reading, d) \<Rightarrow>
          (case auditReading c (dpr_id reading) (w\<lparr>data := d\<rparr>) of
             (Inl e, w1) \<Rightarrow> (Inl e, w1)
           | (Inr _, w1) \<Rightarrow> (Inr reading, w1)))"

text \<open>The latest by day, and of a day the one captured last; rows are in the order of their capture.\<close>

definition latestDieselPrice :: "string \<Rightarrow> db \<Rightarrow> (number \<times> date \<times> string) option" where
  "latestDieselPrice region d =
     map_option (\<lambda>r. (numd 4 (dpr_pricePhp r), dpr_observedDate r, dpr_source r))
       (latestBy dpr_observedDate (rev (filter (\<lambda>r. dpr_region r = region) (dieselPriceReadings d))))"

definition fetchGasWatchDiesel ::
  "gaswatch_answer \<Rightarrow> date \<Rightarrow> ctx \<Rightarrow> string \<Rightarrow> world \<Rightarrow> (http_error + (number \<times> date \<times> string) option) \<times> world" where
  "fetchGasWatchDiesel response today c region w =
     (case recordGasWatchDieselReading response today region (data w) of
        Inl e \<Rightarrow> (Inl (BadGateway ''gaswatch_unavailable''), w)
      | Inr (reading, d) \<Rightarrow>
          (case auditReading c (dpr_id reading) (w\<lparr>data := d\<rparr>) of
             (Inl e, w1) \<Rightarrow> (Inl e, w1)
           | (Inr _, w1) \<Rightarrow> (Inr (latestDieselPrice region (data w1)), w1)))"

text \<open>The weekly job: the events it sends belong to no tenant.\<close>

definition runDieselRefresh :: "bool \<Rightarrow> gaswatch_answer \<Rightarrow> date \<Rightarrow> db \<Rightarrow> string list \<times> db" where
  "runDieselRefresh flagOn response today d =
     (if \<not> flagOn then ([], d)
      else case recordGasWatchDieselReading response today ''NCR'' d of
             Inl e \<Rightarrow> ([''external_dependency_degraded''], d)
           | Inr (_, d1) \<Rightarrow> ([], d1))"

section \<open>Pricing parameters\<close>

record params_input =
  pin_region :: string
  pin_operatorHourlyPhp :: number
  pin_maintenanceHourlyPhp :: number
  pin_bufferPct :: number
  pin_fuelLPerHour :: number
  pin_fuelLPerKm :: number
  pin_transportPhpPerKm :: number
  pin_dieselOverridePhp :: "number option"
  pin_dieselOverrideDate :: "date option"

definition openParams :: "uuid \<Rightarrow> string \<Rightarrow> pricing_params \<Rightarrow> bool" where
  "openParams tenantId region p \<longleftrightarrow> pp_tenantId p = tenantId \<and> pp_region p = region \<and> pp_effectiveTo p = None"

definition setPricingParameters :: "time \<Rightarrow> ctx \<Rightarrow> params_input \<Rightarrow> (db, pricing_params) body" where
  "setPricingParameters now c body d =
     (let params = \<lparr>pp_id = nextId d, pp_tenantId = ctx_tenantId c, pp_region = pin_region body,
            pp_operatorHourlyPhp = col2 (pin_operatorHourlyPhp body), pp_maintenanceHourlyPhp = col2 (pin_maintenanceHourlyPhp body),
            pp_bufferPct = cold 4 (pin_bufferPct body), pp_fuelLPerHour = cold 3 (pin_fuelLPerHour body),
            pp_fuelLPerKm = cold 3 (pin_fuelLPerKm body), pp_transportPhpPerKm = col2 (pin_transportPhpPerKm body),
            pp_dieselOverridePhp = map_option (cold 4) (pin_dieselOverridePhp body),
            pp_dieselOverrideDate = pin_dieselOverrideDate body, pp_effectiveFrom = now, pp_effectiveTo = None\<rparr>;
          d1 = (fresh d)\<lparr>pricingParameters :=
            updw (openParams (ctx_tenantId c) (pin_region body)) (pp_effectiveTo_update (\<lambda>_. Some now)) (pricingParameters d) @ [params]\<rparr>
      in returns params (audit c (if pin_dieselOverridePhp body \<noteq> None then ''UPDATE'' else ''CREATE'') ''pricing_parameters'' (pp_id params) d1))"

definition getPricingParameters :: "time \<Rightarrow> ctx \<Rightarrow> string \<Rightarrow> (db, pricing_params option) body" where
  "getPricingParameters now c region d =
     returns (latestBy pp_effectiveFrom (filter (\<lambda>p. pp_tenantId p = ctx_tenantId c \<and> pp_region p = region \<and>
       pp_effectiveFrom p \<le> now \<and> (case pp_effectiveTo p of None \<Rightarrow> True | Some t \<Rightarrow> now < t)) (pricingParameters d))) d"

section \<open>Rate cards\<close>

definition FAR_FUTURE :: time where
  "FAR_FUTURE = 253402214400000"

definition endsAfter :: "time \<Rightarrow> rate_card \<Rightarrow> bool" where
  "endsAfter t r \<longleftrightarrow> (case rc_effectiveTo r of None \<Rightarrow> True | Some e \<Rightarrow> t < e)"

definition listRateCards :: "time \<Rightarrow> uuid option \<Rightarrow> string option \<Rightarrow> bool \<Rightarrow> nat \<Rightarrow> nat \<Rightarrow> (db, rate_card list \<times> nat) body" where
  "listRateCards now equipmentTypeId rateType includeSuperseded count offset d =
     (let rows = filter (\<lambda>r. (case equipmentTypeId of None \<Rightarrow> True | Some t \<Rightarrow> rc_equipmentTypeId r = t) \<and>
            (case rateType of None \<Rightarrow> True | Some t \<Rightarrow> rc_rateType r = t) \<and>
            (includeSuperseded \<or> rc_effectiveFrom r \<le> now \<and> endsAfter now r)) (rateCards d)
      in returns (take count (drop offset (orderByDesc rc_effectiveFrom rows)), length rows) d)"

record card_input =
  cin_equipmentTypeId :: uuid
  cin_equipmentId :: "uuid option"
  cin_rateType :: string
  cin_rateValue :: number
  cin_effectiveFrom :: "time option"
  cin_effectiveTo :: "time option"

definition overlappingCards :: "card_input \<Rightarrow> time \<Rightarrow> db \<Rightarrow> rate_card list" where
  "overlappingCards body effectiveFrom d =
     filter (\<lambda>r. rc_equipmentTypeId r = cin_equipmentTypeId body \<and> rc_equipmentId r = cin_equipmentId body \<and>
         rc_rateType r = cin_rateType body \<and>
         rc_effectiveFrom r \<le> (case cin_effectiveTo body of None \<Rightarrow> FAR_FUTURE | Some t \<Rightarrow> t) \<and> endsAfter effectiveFrom r) (rateCards d)"

definition createRateCard :: "time \<Rightarrow> ctx \<Rightarrow> card_input \<Rightarrow> (db, rate_card) body" where
  "createRateCard now c body d =
     (let effectiveFrom = (case cin_effectiveFrom body of None \<Rightarrow> now | Some t \<Rightarrow> t)
      in if (case cin_equipmentId body of
               None \<Rightarrow> False
             | Some i \<Rightarrow>
                 (case find (\<lambda>e. eqp_id e = i) (equipments d) of
                    None \<Rightarrow> True
                  | Some u \<Rightarrow> eqp_equipmentTypeId u \<noteq> cin_equipmentTypeId body))
         then fails (NotFound ''equipment_not_found'')
         else if overlappingCards body effectiveFrom d \<noteq> [] then fails (Conflict ''rate_card_window_overlap'')
         else let card = \<lparr>rc_id = nextId d, rc_tenantId = ctx_tenantId c, rc_equipmentTypeId = cin_equipmentTypeId body,
                    rc_equipmentId = cin_equipmentId body, rc_rateType = cin_rateType body, rc_rateValue = col2 (cin_rateValue body),
                    rc_effectiveFrom = effectiveFrom, rc_effectiveTo = cin_effectiveTo body\<rparr>
              in returns card (audit c ''CREATE'' ''rate_cards'' (rc_id card) ((fresh d)\<lparr>rateCards := rateCards d @ [card]\<rparr>)))"

definition closeCard :: "uuid \<Rightarrow> time \<Rightarrow> db \<Rightarrow> db" where
  "closeCard i t d = d\<lparr>rateCards := updw (\<lambda>r. rc_id r = i) (rc_effectiveTo_update (\<lambda>_. Some t)) (rateCards d)\<rparr>"

definition supersedeRateCard :: "time \<Rightarrow> ctx \<Rightarrow> uuid \<Rightarrow> number \<Rightarrow> time option \<Rightarrow> (db, uuid) body" where
  "supersedeRateCard now c i rateValue given d =
     (case find (\<lambda>r. rc_id r = i) (rateCards d) of
        None \<Rightarrow> fails (NotFound ''rate_card_not_found'')
      | Some existing \<Rightarrow>
          let effectiveFrom = (case given of None \<Rightarrow> now | Some t \<Rightarrow> t);
              d1 = closeCard i effectiveFrom d;
              successor = \<lparr>rc_id = nextId d, rc_tenantId = ctx_tenantId c, rc_equipmentTypeId = rc_equipmentTypeId existing,
                rc_equipmentId = rc_equipmentId existing, rc_rateType = rc_rateType existing, rc_rateValue = col2 rateValue,
                rc_effectiveFrom = effectiveFrom, rc_effectiveTo = None\<rparr>
          in returns (rc_id successor) (audit c ''UPDATE'' ''rate_cards'' (rc_id successor) ((fresh d1)\<lparr>rateCards := rateCards d1 @ [successor]\<rparr>)))"

definition retireRateCard :: "time \<Rightarrow> ctx \<Rightarrow> uuid \<Rightarrow> (db, uuid) body" where
  "retireRateCard now c i d =
     (case find (\<lambda>r. rc_id r = i) (rateCards d) of
        None \<Rightarrow> fails (NotFound ''rate_card_not_found'')
      | Some existing \<Rightarrow> returns i (audit c ''UPDATE'' ''rate_cards'' i (closeCard i now d)))"

section \<open>Billing settings\<close>

definition readBillingSettings :: "ctx \<Rightarrow> (db, settings) body" where
  "readBillingSettings c d = returns (getBillingSettings (ctx_tenantId c) d) d"

definition setBillingSettings :: "ctx \<Rightarrow> settings \<Rightarrow> (db, settings) body" where
  "setBillingSettings c body d =
     (let row = \<lparr>bs_tenantId = ctx_tenantId c, bs_dailyHours = col2 (dailyHours body), bs_minDepositPhp = col2 (minDepositPhp body),
            bs_lowBalancePct = col2 (lowBalancePct body), bs_depositPct = col2 (depositPct body),
            bs_mobilizationPhp = col2 (mobilizationPhp body), bs_demobilizationPhp = col2 (demobilizationPhp body),
            bs_minHours = col2 (minHours body)\<rparr>;
          rows = (if list_ex (\<lambda>r. bs_tenantId r = ctx_tenantId c) (billingSettings d)
            then updw (\<lambda>r. bs_tenantId r = ctx_tenantId c) (\<lambda>_. row) (billingSettings d)
            else billingSettings d @ [row])
      in returns body (audit c ''UPDATE'' ''billing_settings'' (ctx_tenantId c) (d\<lparr>billingSettings := rows\<rparr>)))"

section \<open>The history of prices\<close>

text \<open>What a card or a set of parameters says, whatever the end of its window.\<close>

definition cardTerms :: "rate_card \<Rightarrow> rate_card" where
  "cardTerms r = r\<lparr>rc_effectiveTo := None\<rparr>"

definition paramTerms :: "pricing_params \<Rightarrow> pricing_params" where
  "paramTerms p = p\<lparr>pp_effectiveTo := None\<rparr>"

inductive priceStep :: "db \<Rightarrow> db \<Rightarrow> bool" where
  parameters: "committed (setPricingParameters now c params d) p d' \<Longrightarrow> priceStep d d'"
| card: "committed (createRateCard now c body d) r d' \<Longrightarrow> priceStep d d'"
| supersede: "committed (supersedeRateCard now c i rate given d) r d' \<Longrightarrow> priceStep d d'"
| retirement: "committed (retireRateCard now c i d) r d' \<Longrightarrow> priceStep d d'"
| settings: "committed (setBillingSettings c s d) r d' \<Longrightarrow> priceStep d d'"

lemma closeCard_tables [simp]:
  "map cardTerms (rateCards (closeCard i t d)) = map cardTerms (rateCards d)" "pricingParameters (closeCard i t d) = pricingParameters d"
  by (simp_all add: closeCard_def map_updw cardTerms_def)

lemma terms_step:
  assumes "priceStep d d'"
  shows "(\<exists>new. map cardTerms (rateCards d') = map cardTerms (rateCards d) @ new) \<and>
    (\<exists>new. map paramTerms (pricingParameters d') = map paramTerms (pricingParameters d) @ new)"
  using assms
proof cases
  case (parameters now c params p)
  then show ?thesis by (auto simp: setPricingParameters_def Let_def audit_def fresh_def map_updw paramTerms_def)
next
  case (card now c body r)
  then show ?thesis by (auto simp: createRateCard_def Let_def audit_def fresh_def split: if_split_asm)
next
  case (supersede now c i rate given r)
  then show ?thesis by (auto simp: supersedeRateCard_def Let_def audit_def fresh_def split: option.split_asm)
next
  case (retirement now c i r)
  then show ?thesis by (auto simp: retireRateCard_def audit_def split: option.split_asm)
next
  case (settings c s r)
  then show ?thesis by (auto simp: setBillingSettings_def Let_def audit_def)
qed

text \<open>
  C38. The history of prices is append-only. Whatever sequence of price administration requests runs, every rate
  card and every set of parameters there was is still there, in its place and with its terms: the machine or
  type, the rate, the parameters and the start of its window. Only the end of a window moves.
\<close>

theorem rate_history_append_only:
  assumes "priceStep\<^sup>*\<^sup>* d d'"
  shows "(\<exists>new. map cardTerms (rateCards d') = map cardTerms (rateCards d) @ new) \<and>
    (\<exists>new. map paramTerms (pricingParameters d') = map paramTerms (pricingParameters d) @ new)"
  using assms
proof (induction rule: rtranclp_induct)
  case (step y z)
  from step.IH terms_step[OF step.hyps(2)] show ?case by (metis append.assoc)
qed simp

definition demo_rate :: rate_card where
  "demo_rate = \<lparr>rc_id = 7, rc_tenantId = 2, rc_equipmentTypeId = 3, rc_equipmentId = None, rc_rateType = ''hourly'',
     rc_rateValue = 120000, rc_effectiveFrom = 0, rc_effectiveTo = None\<rparr>"

theorem rate_history_append_only_witness:
  "\<exists>d' rest. priceStep (empty_db\<lparr>nextId := 50, rateCards := [demo_rate]\<rparr>) d' \<and>
     map rc_effectiveTo (rateCards d') = [Some 5, None] \<and> map cardTerms (rateCards d') = demo_rate # rest"
proof -
  let ?d = "empty_db\<lparr>nextId := 50, rateCards := [demo_rate]\<rparr>"
  obtain r d' where s: "committed (supersedeRateCard 5 (\<lparr>ctx_tenantId = 2, ctx_userId = 8, ctx_role = ''owner''\<rparr>) 7 (js 1300) None ?d) r d'"
    and e: "map rc_effectiveTo (rateCards d') = [Some 5, None]"
    by (simp add: supersedeRateCard_def closeCard_def demo_rate_def audit_def fresh_def)
  then have p: "priceStep ?d d'" by (blast intro: priceStep.supersede)
  from rate_history_append_only[OF r_into_rtranclp[of priceStep, OF p]] obtain rest where "map cardTerms (rateCards d') = demo_rate # rest"
    by (auto simp: demo_rate_def cardTerms_def)
  with p e show ?thesis by (intro exI conjI)
qed

section \<open>One price at a time\<close>

definition sameTariff :: "rate_card \<Rightarrow> rate_card \<Rightarrow> bool" where
  "sameTariff a b \<longleftrightarrow> rc_equipmentTypeId a = rc_equipmentTypeId b \<and> rc_equipmentId a = rc_equipmentId b \<and> rc_rateType a = rc_rateType b"

definition inForce :: "time \<Rightarrow> rate_card \<Rightarrow> bool" where
  "inForce t r \<longleftrightarrow> rc_effectiveFrom r \<le> t \<and> endsAfter t r"

definition oneInForce :: "db \<Rightarrow> bool" where
  "oneInForce d \<longleftrightarrow> (\<forall>t \<le> FAR_FUTURE. \<forall>a \<in> set (rateCards d). \<forall>b \<in> set (rateCards d).
     sameTariff a b \<and> inForce t a \<and> inForce t b \<longrightarrow> rc_id a = rc_id b)"

definition oneOpenParams :: "db \<Rightarrow> bool" where
  "oneOpenParams d \<longleftrightarrow> (\<forall>u region. length (filter (openParams u region) (pricingParameters d)) \<le> 1)"

text \<open>
  The requests under which a tariff stays single. A card may be superseded, whether its window is open-ended or has a
  scheduled end, from a moment at which it is not over and from which on no other card of its tariff is in force; a
  card may be retired while it is not over. The code asks for neither: \<open>supersede_forks\<close> and \<open>retirement_reopens\<close>
  below show what happens otherwise.
\<close>

definition unfollowed :: "uuid \<Rightarrow> time \<Rightarrow> db \<Rightarrow> bool" where
  "unfollowed i t d \<longleftrightarrow> (\<forall>a \<in> set (rateCards d). \<forall>b \<in> set (rateCards d). rc_id a = i \<and> rc_id b \<noteq> i \<and> sameTariff a b \<longrightarrow>
     (case rc_effectiveTo b of None \<Rightarrow> False | Some e \<Rightarrow> e \<le> t \<or> e \<le> rc_effectiveFrom b))"

definition notOver :: "uuid \<Rightarrow> time \<Rightarrow> db \<Rightarrow> bool" where
  "notOver i t d \<longleftrightarrow> (\<forall>r \<in> set (rateCards d). rc_id r = i \<longrightarrow> (case rc_effectiveTo r of None \<Rightarrow> True | Some e \<Rightarrow> t \<le> e))"

inductive orderlyStep :: "db \<Rightarrow> db \<Rightarrow> bool" where
  parameters: "committed (setPricingParameters now c params d) p d' \<Longrightarrow> orderlyStep d d'"
| card: "committed (createRateCard now c body d) r d' \<Longrightarrow> orderlyStep d d'"
| supersede: "committed (supersedeRateCard now c i rate given d) r d' \<Longrightarrow>
    notOver i (case given of None \<Rightarrow> now | Some t \<Rightarrow> t) d \<Longrightarrow>
    unfollowed i (case given of None \<Rightarrow> now | Some t \<Rightarrow> t) d \<Longrightarrow> orderlyStep d d'"
| retirement: "committed (retireRateCard now c i d) r d' \<Longrightarrow> notOver i now d \<Longrightarrow> orderlyStep d d'"
| settings: "committed (setBillingSettings c s d) r d' \<Longrightarrow> orderlyStep d d'"

lemma sameTariff_sym: "sameTariff a b \<Longrightarrow> sameTariff b a"
  by (simp add: sameTariff_def)

lemma sameTariff_closed [simp]:
  "sameTariff (rc_effectiveTo_update f a) b = sameTariff a b" "sameTariff b (rc_effectiveTo_update f a) = sameTariff b a"
  by (simp_all add: sameTariff_def)

lemma oneInForce_add:
  assumes "oneInForce d" "rateCards d' = rateCards d @ [n]"
    and "\<And>t r. t \<le> FAR_FUTURE \<Longrightarrow> r \<in> set (rateCards d) \<Longrightarrow> sameTariff r n \<Longrightarrow> inForce t r \<Longrightarrow> inForce t n \<Longrightarrow> False"
  shows "oneInForce d'"
  unfolding oneInForce_def
proof (intro allI ballI impI)
  fix t a b assume h: "t \<le> FAR_FUTURE" "a \<in> set (rateCards d')" "b \<in> set (rateCards d')" "sameTariff a b \<and> inForce t a \<and> inForce t b"
  then consider "a \<in> set (rateCards d)" "b \<in> set (rateCards d)" | "a \<in> set (rateCards d)" "b = n" | "a = n" "b \<in> set (rateCards d)" | "a = n" "b = n"
    unfolding assms(2) by auto
  then show "rc_id a = rc_id b"
  proof cases
    case 1
    then show ?thesis using assms(1) h unfolding oneInForce_def by blast
  next
    case 3
    then show ?thesis using assms(3)[of t b] h sameTariff_sym[of a b] by blast
  qed (use assms(3)[of t a] h in auto)
qed

lemma oneInForce_narrow:
  assumes "oneInForce d" "rateCards d' = updw (\<lambda>r. rc_id r = i) (rc_effectiveTo_update (\<lambda>_. Some e)) (rateCards d)"
    and "\<And>r t. r \<in> set (rateCards d) \<Longrightarrow> rc_id r = i \<Longrightarrow> t < e \<Longrightarrow> endsAfter t r"
  shows "oneInForce d'"
proof -
  have ante: "\<exists>r \<in> set (rateCards d). rc_id r = rc_id a \<and> (\<forall>x. sameTariff a x = sameTariff r x \<and> sameTariff x a = sameTariff x r) \<and> (inForce t a \<longrightarrow> inForce t r)"
    if "a \<in> set (rateCards d')" for a t
  proof -
    from that assms(2) obtain r where r: "r \<in> set (rateCards d)" "a = (if rc_id r = i then rc_effectiveTo_update (\<lambda>_. Some e) r else r)"
      by (auto simp: in_updw)
    have "inForce t a \<longrightarrow> inForce t r"
      using assms(3)[OF r(1), of t] r(2) by (auto simp: inForce_def endsAfter_def split: if_splits)
    with r show ?thesis by (intro bexI[of _ r]) auto
  qed
  show ?thesis
    unfolding oneInForce_def
  proof (intro allI ballI impI)
    fix t a b assume h: "t \<le> FAR_FUTURE" "a \<in> set (rateCards d')" "b \<in> set (rateCards d')" "sameTariff a b \<and> inForce t a \<and> inForce t b"
    from ante[OF h(2), of t] obtain r where r: "r \<in> set (rateCards d)" "rc_id r = rc_id a" "\<And>x. sameTariff a x = sameTariff r x" "inForce t r"
      using h(4) by auto
    from ante[OF h(3), of t] obtain s where s: "s \<in> set (rateCards d)" "rc_id s = rc_id b" "\<And>x. sameTariff x b = sameTariff x s" "inForce t s"
      using h(4) by auto
    have "sameTariff r s" using h(4) r(3) s(3) by simp
    with assms(1) h(1) r s show "rc_id a = rc_id b" unfolding oneInForce_def by metis
  qed
qed

lemma created_alone:
  assumes "committed (createRateCard now c body d) r d'" "oneInForce d"
  shows "oneInForce d'"
proof -
  define start where "start = (case cin_effectiveFrom body of None \<Rightarrow> now | Some t \<Rightarrow> t)"
  define n where "n = \<lparr>rc_id = nextId d, rc_tenantId = ctx_tenantId c, rc_equipmentTypeId = cin_equipmentTypeId body,
    rc_equipmentId = cin_equipmentId body, rc_rateType = cin_rateType body, rc_rateValue = col2 (cin_rateValue body),
    rc_effectiveFrom = start, rc_effectiveTo = cin_effectiveTo body\<rparr>"
  have o: "overlappingCards body start d = []" and d': "rateCards d' = rateCards d @ [n]"
    using assms(1) by (auto simp: createRateCard_def Let_def audit_def fresh_def n_def start_def split: if_split_asm)
  show ?thesis
  proof (rule oneInForce_add[OF assms(2) d'])
    fix t r assume h: "t \<le> FAR_FUTURE" "r \<in> set (rateCards d)" "sameTariff r n" "inForce t r" "inForce t n"
    have "endsAfter start r" using h(4,5) by (auto simp: inForce_def endsAfter_def n_def split: option.splits)
    moreover have "rc_effectiveFrom r \<le> (case cin_effectiveTo body of None \<Rightarrow> FAR_FUTURE | Some t \<Rightarrow> t)"
      using h(1,4,5) by (auto simp: inForce_def endsAfter_def n_def split: option.splits)
    ultimately have "r \<in> set (overlappingCards body start d)" using h(2,3) by (simp add: overlappingCards_def sameTariff_def n_def)
    then show False by (simp add: o)
  qed
qed

lemma superseded_alone:
  assumes "committed (supersedeRateCard now c i rate given d) r d'" "oneInForce d"
    and live: "notOver i (case given of None \<Rightarrow> now | Some t \<Rightarrow> t) d"
    and last: "unfollowed i (case given of None \<Rightarrow> now | Some t \<Rightarrow> t) d"
  shows "oneInForce d'"
proof -
  define start where "start = (case given of None \<Rightarrow> now | Some t \<Rightarrow> t)"
  obtain x where x: "find (\<lambda>r. rc_id r = i) (rateCards d) = Some x"
    using assms(1) by (auto simp: supersedeRateCard_def split: option.split_asm)
  define n where "n = \<lparr>rc_id = nextId d, rc_tenantId = ctx_tenantId c, rc_equipmentTypeId = rc_equipmentTypeId x,
    rc_equipmentId = rc_equipmentId x, rc_rateType = rc_rateType x, rc_rateValue = col2 rate,
    rc_effectiveFrom = start, rc_effectiveTo = None\<rparr>"
  have d': "rateCards d' = rateCards (closeCard i start d) @ [n]"
    using assms(1) x by (simp add: supersedeRateCard_def Let_def audit_def fresh_def n_def start_def)
  have xs: "x \<in> set (rateCards d)" "rc_id x = i" using find_SomeD[OF x] by auto
  have ends: "endsAfter t y" if "y \<in> set (rateCards d)" "rc_id y = i" "t < start" for y t
    using live[folded start_def] that by (auto simp: notOver_def endsAfter_def split: option.splits)
  have "oneInForce (closeCard i start d)"
    by (rule oneInForce_narrow[OF assms(2), of _ i start]) (simp add: closeCard_def, use ends in blast)
  then show ?thesis
  proof (rule oneInForce_add[OF _ d'])
    fix t r assume h: "t \<le> FAR_FUTURE" "r \<in> set (rateCards (closeCard i start d))" "sameTariff r n" "inForce t r" "inForce t n"
    have t: "start \<le> t" using h(5) by (simp add: inForce_def n_def)
    obtain y where y: "y \<in> set (rateCards d)" "r = (if rc_id y = i then rc_effectiveTo_update (\<lambda>_. Some start) y else y)"
      using h(2) by (auto simp: closeCard_def in_updw)
    have "rc_id y \<noteq> i"
    proof
      assume "rc_id y = i"
      then have "rc_effectiveTo r = Some start" using y(2) by simp
      then show False using h(4) t by (simp add: inForce_def endsAfter_def)
    qed
    then have r: "r \<in> set (rateCards d)" "rc_id r \<noteq> i" using y by auto
    have "sameTariff x r" using h(3) by (simp add: sameTariff_def n_def)
    then have "case rc_effectiveTo r of None \<Rightarrow> False | Some e \<Rightarrow> e \<le> start \<or> e \<le> rc_effectiveFrom r"
      using last[folded start_def] xs r unfolding unfollowed_def by blast
    then show False using h(4) t by (auto simp: inForce_def endsAfter_def split: option.splits)
  qed
qed

lemma params_open_once:
  assumes "committed (setPricingParameters now c params d) p d'" "oneOpenParams d"
  shows "oneOpenParams d'"
proof -
  define u where "u = ctx_tenantId c"
  obtain n where d': "pricingParameters d' = updw (openParams u (pin_region params)) (pp_effectiveTo_update (\<lambda>_. Some now)) (pricingParameters d) @ [n]"
    and n: "pp_tenantId n = u" "pp_region n = pin_region params"
    using assms(1) by (auto simp: setPricingParameters_def Let_def audit_def fresh_def u_def)
  have "length (filter (openParams v region) (pricingParameters d')) \<le> 1" for v region
  proof (cases "v = u \<and> region = pin_region params")
    case True
    have "\<not> openParams u (pin_region params) x"
      if "x \<in> set (updw (openParams u (pin_region params)) (pp_effectiveTo_update (\<lambda>_. Some now)) (pricingParameters d))" for x
    proof -
      from that obtain y where y: "x = (if openParams u (pin_region params) y then pp_effectiveTo_update (\<lambda>_. Some now) y else y)"
        by (auto simp: in_updw)
      show ?thesis unfolding y by (simp add: openParams_def)
    qed
    then have "filter (openParams v region) (updw (openParams u (pin_region params)) (pp_effectiveTo_update (\<lambda>_. Some now)) (pricingParameters d)) = []"
      using True by (simp add: filter_empty_conv)
    then show ?thesis by (simp add: d')
  next
    case False
    then have "filter (openParams v region) (updw (openParams u (pin_region params)) (pp_effectiveTo_update (\<lambda>_. Some now)) (pricingParameters d)) =
        filter (openParams v region) (pricingParameters d)"
      by (intro filter_updw_skip) (auto simp: openParams_def)
    then show ?thesis using assms(2) n False by (auto simp: d' oneOpenParams_def openParams_def)
  qed
  then show ?thesis by (simp add: oneOpenParams_def)
qed

lemma oneInForce_same: "rateCards d' = rateCards d \<Longrightarrow> oneInForce d \<Longrightarrow> oneInForce d'"
  by (simp add: oneInForce_def)

lemma orderly_keeps:
  assumes "orderlyStep d d'" "oneInForce d" "oneOpenParams d"
  shows "oneInForce d' \<and> oneOpenParams d'"
  using assms(1)
proof cases
  case (parameters now c params p)
  then have "rateCards d' = rateCards d" by (auto simp: setPricingParameters_def Let_def audit_def fresh_def)
  then show ?thesis using params_open_once[OF parameters assms(3)] oneInForce_same assms(2) by blast
next
  case (card now c body r)
  then have "pricingParameters d' = pricingParameters d" by (auto simp: createRateCard_def Let_def audit_def fresh_def split: if_split_asm)
  then show ?thesis using created_alone[OF card assms(2)] assms(3) by (simp add: oneOpenParams_def)
next
  case (supersede now c i rate given r)
  then have "pricingParameters d' = pricingParameters d" by (auto simp: supersedeRateCard_def Let_def audit_def fresh_def split: option.split_asm)
  then show ?thesis using superseded_alone[OF supersede(1) assms(2) supersede(2,3)] assms(3) by (simp add: oneOpenParams_def)
next
  case (retirement now c i r)
  then have d': "rateCards d' = updw (\<lambda>r. rc_id r = i) (rc_effectiveTo_update (\<lambda>_. Some now)) (rateCards d)" "pricingParameters d' = pricingParameters d"
    by (auto simp: retireRateCard_def closeCard_def audit_def split: option.split_asm)
  have "oneInForce d'"
    by (rule oneInForce_narrow[OF assms(2) d'(1)]) (use retirement(2) in \<open>auto simp: notOver_def endsAfter_def split: option.splits\<close>)
  then show ?thesis using assms(3) d'(2) by (simp add: oneOpenParams_def)
next
  case (settings c s r)
  then have "rateCards d' = rateCards d" "pricingParameters d' = pricingParameters d" by (auto simp: setBillingSettings_def Let_def audit_def)
  then show ?thesis using assms(2,3) oneInForce_same by (simp add: oneOpenParams_def)
qed

text \<open>
  C39. One price at a time. As long as the administrators supersede a card only from a moment at which it is not over
  and from which on no other card of its tariff is in force, and retire only a card that is not over, no sequence of
  their requests ever leaves two rate cards for one machine or type and unit in force at the same instant up to the
  end of year 9999, nor two open sets of pricing parameters for a tenant's region.
\<close>

theorem one_card_in_force:
  assumes "orderlyStep\<^sup>*\<^sup>* d d'" "oneInForce d" "oneOpenParams d"
  shows "oneInForce d' \<and> oneOpenParams d'"
  using assms
proof (induction rule: rtranclp_induct)
  case (step y z)
  then show ?case using orderly_keeps[OF step.hyps(2)] by blast
qed simp

theorem one_card_in_force_witness:
  "\<exists>d'. orderlyStep (empty_db\<lparr>nextId := 50, rateCards := [demo_rate\<lparr>rc_effectiveTo := Some 100\<rparr>]\<rparr>) d' \<and>
     map rc_effectiveTo (rateCards d') = [Some 5, None] \<and> oneInForce d'"
proof -
  let ?d = "empty_db\<lparr>nextId := 50, rateCards := [demo_rate\<lparr>rc_effectiveTo := Some 100\<rparr>]\<rparr>"
  obtain r d' where s: "committed (supersedeRateCard 5 (\<lparr>ctx_tenantId = 2, ctx_userId = 8, ctx_role = ''owner''\<rparr>) 7 (js 1300) None ?d) r d'"
    and e: "map rc_effectiveTo (rateCards d') = [Some 5, None]"
    by (simp add: supersedeRateCard_def closeCard_def demo_rate_def audit_def fresh_def)
  have "notOver 7 (case None of None \<Rightarrow> 5 | Some t \<Rightarrow> t) ?d" "unfollowed 7 (case None of None \<Rightarrow> 5 | Some t \<Rightarrow> t) ?d"
    by (simp_all add: notOver_def unfollowed_def demo_rate_def)
  with s have p: "orderlyStep ?d d'" by (rule orderlyStep.supersede)
  have "oneInForce ?d" "oneOpenParams ?d" by (simp_all add: oneInForce_def oneOpenParams_def empty_db_def)
  with one_card_in_force[OF r_into_rtranclp[of orderlyStep, OF p]] have "oneInForce d'" by simp
  with p e show ?thesis by (intro exI conjI)
qed

text \<open>
  Outside that discipline nothing stops two prices at once. Superseding a card that another one of its tariff follows,
  one already superseded or one with a scheduled end and a scheduled successor, opens a second price beside that one;
  and retiring a card that was over puts it back in force up to now.
\<close>

lemma supersede_forks:
  assumes "find (\<lambda>r. rc_id r = i) (rateCards d) = Some a" "b \<in> set (rateCards d)" "rc_id b \<noteq> i" "rc_id b < nextId d"
    and "sameTariff a b" "inForce t b" "(case given of None \<Rightarrow> now | Some s \<Rightarrow> s) \<le> t"
    and "committed (supersedeRateCard now c i rate given d) r d'"
  shows "\<exists>n \<in> set (rateCards d'). \<exists>m \<in> set (rateCards d'). sameTariff n m \<and> rc_id n \<noteq> rc_id m \<and> inForce t n \<and> inForce t m"
proof -
  define start where "start = (case given of None \<Rightarrow> now | Some s \<Rightarrow> s)"
  define n where "n = \<lparr>rc_id = nextId d, rc_tenantId = ctx_tenantId c, rc_equipmentTypeId = rc_equipmentTypeId a,
    rc_equipmentId = rc_equipmentId a, rc_rateType = rc_rateType a, rc_rateValue = col2 rate, rc_effectiveFrom = start, rc_effectiveTo = None\<rparr>"
  have d': "rateCards d' = rateCards (closeCard i start d) @ [n]"
    using assms(8) by (simp add: supersedeRateCard_def assms(1) Let_def audit_def fresh_def n_def start_def)
  have "b \<in> set (rateCards (closeCard i start d))" using assms(2,3) by (auto simp: closeCard_def set_updw)
  then have "n \<in> set (rateCards d')" "b \<in> set (rateCards d')" by (simp_all add: d')
  moreover have "sameTariff n b" "rc_id n \<noteq> rc_id b" using assms(4,5) by (auto simp: n_def sameTariff_def)
  moreover have "inForce t n" using assms(7)[folded start_def] by (simp add: n_def inForce_def endsAfter_def)
  ultimately show ?thesis using assms(6) by blast
qed

lemma retirement_reopens:
  assumes "find (\<lambda>r. rc_id r = i) (rateCards d) = Some a" "rc_effectiveTo a = Some e" "rc_effectiveFrom a \<le> t" "e \<le> t" "t < now"
    and "committed (retireRateCard now c i d) r d'"
  shows "\<not> inForce t a \<and> (\<exists>n \<in> set (rateCards d'). rc_id n = i \<and> inForce t n)"
proof -
  have d': "rateCards d' = updw (\<lambda>r. rc_id r = i) (rc_effectiveTo_update (\<lambda>_. Some now)) (rateCards d)"
    using assms(6) by (simp add: retireRateCard_def assms(1) closeCard_def audit_def)
  have "rc_effectiveTo_update (\<lambda>_. Some now) a \<in> set (rateCards d')" using find_SomeD[OF assms(1)] by (auto simp: d' set_updw)
  moreover have "inForce t (rc_effectiveTo_update (\<lambda>_. Some now) a)" using assms(3,5) by (simp add: inForce_def endsAfter_def)
  moreover have "rc_id (rc_effectiveTo_update (\<lambda>_. Some now) a) = i" using find_SomeD[OF assms(1)] by simp
  moreover have "\<not> inForce t a" using assms(2,4) by (simp add: inForce_def endsAfter_def)
  ultimately show ?thesis by blast
qed

section \<open>The average diesel price\<close>

lemma plus_finite:
  assumes "isn x a" "isFinite y" "\<bar>a + val y\<bar> \<le> 2 ^ 200"
  shows "isn (x + y) (fl (a + val y))"
proof -
  obtain s m where x: "x = Num s m" and a: "val x = a" using assms(1) by (auto simp: isn_def)
  obtain t n where y: "y = Num t n" using assms(2) by (cases y) auto
  have "x + y = (if a + val y = 0 then Num (s \<and> t) 0 else mk (a + val y < 0) \<bar>a + val y\<bar>)"
    unfolding a[symmetric] unfolding x y by (simp only: plus_number.simps Let_def)
  then show ?thesis using mk_fl[OF assms(3)] by (simp add: isn_def[of "Num _ 0"])
qed

lemma sane_value:
  assumes "sanePrice p"
  shows "isFinite p" "20 \<le> val p" "val p \<le> 150"
proof -
  obtain s m where p: "p = Num s m" using assms by (cases p) (auto simp: sanePrice_def)
  have "isn (js 20) 20" "isn (js 150) 150" using isn_int[of 20] isn_int[of 150] by simp_all
  then obtain t u n k where "js 20 = Num t n" "val (js 20) = 20" "js 150 = Num u k" "val (js 150) = 150"
    by (metis isn_E isn_val)
  with assms show "isFinite p" "20 \<le> val p" "val p \<le> 150"
    by (auto simp: sanePrice_def PRICE_SANE_MIN_def PRICE_SANE_MAX_def p simp del: val.simps)
qed

lemma prices_sum:
  assumes "\<forall>p \<in> set ps. sanePrice p" "length ps \<le> 65536"
  shows "\<exists>v. isn (foldl (+) (js 0) ps) v \<and> of_nat (length ps) * (20 - 1 / 1000) \<le> v \<and> v \<le> of_nat (length ps) * (150 + 1 / 1000)"
  using assms
proof (induction ps rule: rev_induct)
  case Nil
  show ?case using js_isn[of 0] by (intro exI[of _ 0]) simp
next
  case (snoc p ps)
  then obtain v where v: "isn (foldl (+) (js 0) ps) v" "of_nat (length ps) * (20 - 1 / 1000) \<le> v" "v \<le> of_nat (length ps) * (150 + 1 / 1000)"
    by auto
  have p: "isFinite p" "20 \<le> val p" "val p \<le> 150" using snoc.prems by (auto dest: sane_value)
  have n: "0 \<le> (of_nat (length ps) :: rat)" "(of_nat (length ps) :: rat) \<le> 65536"
    using of_nat_mono[where 'a = rat, of "length ps" 65536] snoc.prems(2) by simp_all
  have e: "0 \<le> v + val p" "v + val p \<le> 10000000" using v(2,3) p(2,3) n by auto
  have "isn (foldl (+) (js 0) (ps @ [p])) (fl (v + val p))" using plus_finite[OF v(1) p(1)] e by simp
  moreover have "\<bar>fl (v + val p) - (v + val p)\<bar> \<le> 1 / 1000"
    using dbl.rd_bound[of "v + val p" 10000000] e by simp
  then have "v + val p - 1 / 1000 \<le> fl (v + val p)" "fl (v + val p) \<le> v + val p + 1 / 1000" by linarith+
  ultimately show ?case using v(2,3) p(2,3) by (intro exI[of _ "fl (v + val p)"]) (auto simp: algebra_simps)
qed

text \<open>
  C40. The published price is always a price the table takes. When GasWatch lists up to 65536 stations, whatever each
  reports, the average computed in binary64 over the sane ones is a whole number of centavos from 20.00 to 150.00, so
  the reading it becomes passes the table's check and stores exactly that price.
\<close>

theorem gaswatch_reading_sane:
  assumes "averageGasWatchDiesel (Some stations) = Some p" "length stations \<le> 65536"
  shows "\<exists>k r d'. 2000 \<le> k \<and> k \<le> 15000 \<and> amt p k \<and>
     recordGasWatchDieselReading (Inr (Some stations)) today region d = Inr (r, d') \<and>
     dpr_pricePhp r = 100 * k \<and> dieselPriceReadings d' = dieselPriceReadings d @ [r]"
proof -
  define ps where "ps = filter sanePrice (map numberOf stations)"
  define n where "n = (of_nat (length ps) :: rat)"
  have ne: "ps \<noteq> []" and p: "p = math_round (foldl (+) (js 0) ps / js n * js 100) / js 100"
    using assms(1) by (auto simp: averageGasWatchDiesel_def Let_def ps_def n_def split: if_splits)
  have "length ps \<le> length (map numberOf stations)" unfolding ps_def by (rule length_filter_le)
  then have len: "length ps \<le> 65536" using assms(2) by simp
  have n: "1 \<le> n" "n \<le> 65536"
    using of_nat_mono[where 'a = rat, of "length ps" 65536] of_nat_mono[where 'a = rat, of 1 "length ps"] len ne
    by (simp_all add: n_def Suc_le_eq)
  obtain v where v: "isn (foldl (+) (js 0) ps) v" "n * (20 - 1 / 1000) \<le> v" "v \<le> n * (150 + 1 / 1000)"
    using prices_sum[of ps] len by (auto simp: ps_def n_def)
  have jn: "isn (js n) n" using isn_int[of "int (length ps)"] len by (simp add: n_def)
  have q: "20 - 1 / 1000 \<le> v / n" "v / n \<le> 150 + 1 / 1000" using v(2,3) n by (simp_all add: le_divide_eq divide_le_eq mult.commute)
  have "\<bar>v / n\<bar> \<le> 200" by (rule abs_leI) (use q in linarith)+
  then have "\<bar>v / n\<bar> \<le> 2 ^ 200" by (rule order_trans) simp
  then have 1: "isn (foldl (+) (js 0) ps / js n) (fl (v / n))" using n by (intro isn_divide[OF v(1) jn]) auto
  have "\<bar>fl (v / n) - v / n\<bar> \<le> 1 / 1000" using dbl.rd_bound[of "v / n" 200] \<open>\<bar>v / n\<bar> \<le> 200\<close> by simp
  then have f: "20 - 2 / 1000 \<le> fl (v / n)" "fl (v / n) \<le> 150 + 2 / 1000" using q by linarith+
  have 2: "isn (foldl (+) (js 0) ps / js n * js 100) (fl (fl (v / n) * 100))" using isn_times[OF 1 isn_100] f by simp
  define h where "h = fl (fl (v / n) * 100)"
  have "\<bar>h - fl (v / n) * 100\<bar> \<le> 1 / 1000" unfolding h_def using dbl.rd_bound[of "fl (v / n) * 100" 20000] f by simp
  then have h: "1999 + 7 / 10 \<le> h" "h \<le> 15000 + 3 / 10" using f by linarith+
  define k where "k = \<lfloor>h + 1 / 2\<rfloor>"
  have k: "2000 \<le> k" "k \<le> 15000" using h by (simp_all add: k_def le_floor_iff floor_le_iff)
  have "isn (math_round (foldl (+) (js 0) ps / js n * js 100)) (of_int k)" using isn_math_round[OF 2] by (simp add: k_def h_def)
  from isn_divide[OF this isn_100] k have "isn p (fl (of_int k / 100))" by (simp add: p)
  then have a: "amt p k" by (simp add: amt_def dbl.cv_def)
  then have pv: "val p = dbl.cv k" by (simp add: amt_def isn_val)
  have dv: "decimal (dbl.cv k) = of_int k / 100" using k by (intro decimal_cv) simp
  have "cold 4 p = half_away (of_int (100 * k))" unfolding cold_def pv dv by simp
  then have c: "cold 4 p = 100 * k" by (simp only: half_away_of_int)
  then show ?thesis using a k assms(1) by (simp add: recordGasWatchDieselReading_def recordReading_def Let_def fresh_def)
qed

theorem gaswatch_reading_sane_witness:
  "\<exists>k r d'. 2000 \<le> k \<and> k \<le> 15000 \<and>
     recordGasWatchDieselReading (Inr (Some [PriceNull, PriceNumber (js 60)])) 20513 ''NCR'' empty_db = Inr (r, d') \<and> dpr_pricePhp r = 100 * k"
proof -
  have "sanePrice (js 60)"
    using isn_less_eq[OF isn_int[of 20] isn_int[of 60]] isn_less_eq[OF isn_int[of 60] isn_int[of 150]] isn_finite[OF isn_int[of 60]]
    by (simp add: sanePrice_def PRICE_SANE_MIN_def PRICE_SANE_MAX_def)
  moreover have "\<not> sanePrice (js 0)" using isn_less_eq[OF isn_int[of 20] isn_int[of 0]] by (simp add: sanePrice_def PRICE_SANE_MIN_def)
  ultimately obtain p where "averageGasWatchDiesel (Some [PriceNull, PriceNumber (js 60)]) = Some p"
    by (simp add: averageGasWatchDiesel_def Let_def)
  from gaswatch_reading_sane[OF this, of 20513 "''NCR''" empty_db] show ?thesis by auto
qed

end
