(* ===== verification/Spec2Isabelle.thy ===== *)
theory Spec2Isabelle
  imports EdtrService WeeklyBilling PaymentEvents TruckPrices Quotes Sites SiteWeather Companies Users OcrWorker PricingAdmin
begin

text \<open>
  ArkiLaunch is the operating system of a company that rents out heavy equipment: a storefront where
  customers register their companies, book machines, accept quotes and pay, and a back office that
  prices, deploys, maintains, bills and reconciles. It is a NestJS API (\<open>apps/api\<close>) and a few cron jobs
  (\<open>jobs\<close>) over one PostgreSQL database shared by many tenants (\<open>packages/db\<close>), with pure rules in
  \<open>packages/shared\<close> and a React client (\<open>apps/web\<close>). This library models the API's services, the
  jobs that move money or status, and the rules they share.

  How the parts interact. Every request runs in one or more transactions under row-level security
  (\<open>packages/db/src/with-tenant-tx.ts\<close>), a service's operation is the body of one of them, and services
  meet in the tables they share. A customer signs in (Sessions), is verified through the papers of a
  company (Companies), and books machines for a window in which they are free (Availability, Bookings).
  A quote prices the hire from rate cards, diesel readings and parameters (Pricing, Quotes); accepting it
  opens a contract. Checkout charges the agreed price through PayMongo or cash, and webhooks settle
  invoices (Payments, Paymongo, PaymentProtocol, PaymentEvents). Machines go to a site (Sites, Fleet),
  whose weather is polled (SiteWeather); their hours are logged twice, digitally and on paper (whose scans a job reads, EdtrSheet and OcrWorker), reconciled
  and approved against the deposit (EdtrService, Reconciliation, OcrAccuracy, DepositLedger), and what the
  deposit does not cover is billed weekly (WeeklyBilling). A truck may bring the machine, at a price the
  tenant's own formula sets (Trucks, TruckPrices, Formula, PhTolls). Users and their roles are
  administered in Users.

  The theories, in the order of their imports, and the code they model:
  \<^item> Prelude: identifiers, HTTP errors, transaction bodies, the list operations that stand for SQL, and
    the locale \<open>simulation\<close>.
  \<^item> JsNumber and Centavo: TypeScript's \<open>number\<close> as IEEE binary64 computed on rationals, and money in
    hundredths. The locale \<open>rounding\<close> states what of the rounding the money lemmas use and is interpreted
    on the binary64 rounding; its lemmas say when a computation in doubles is exact to the centavo.
  \<^item> Schema (\<open>packages/db/src/schema\<close>, \<open>rls.ts\<close>, \<open>with-tenant-tx.ts\<close>): one record per table, the
    database \<open>db\<close>, the tenant's view \<open>rls\<close>, and \<open>withTenantTx\<close>, which commits the view back, rolls back
    on an error and refuses rows of another tenant. Its lemmas: isolation of the tenants.
  \<^item> Common (\<open>apps/api/src/common\<close>): customer scope and notifications.
  \<^item> DepositLedger (\<open>packages/db/src/deposit-ledger.ts\<close>): the split of a charge between deposit and
    accrual; the locale \<open>deposit_split\<close> is its contract, interpreted on the code's split.
  \<^item> Pricing (\<open>pricing-engine.service.ts\<close>) and Quotes (\<open>quotes.service.ts\<close>): rates in force, exact totals,
    one live quote a booking, acceptance. PricingAdmin (\<open>pricing.service.ts\<close>, \<open>diesel-manual-entry.ts\<close>,
    \<open>jobs/src/diesel.ts\<close>): the append-only history of rate cards and parameters, one price of a tariff at
    a time, and the published diesel price.
  \<^item> Reconciliation (\<open>packages/db/src/reconciliation.ts\<close>, \<open>packages/shared/src/edtr.ts\<close>), OcrAccuracy
    (\<open>ocr-accuracy.ts\<close>) and EdtrService (\<open>edtr.service.ts\<close>): what a match certifies of the hours, that a
    decision is never overwritten, that a pair is charged once, the money of an approval.
  \<^item> EdtrSheet (\<open>packages/shared/src/edtr-sheet.ts\<close>) and OcrWorker (\<open>jobs/src/edtr-ocr-worker.ts\<close>): the
    printed time sheet, read in full or refused, and the job that claims scans and stores their days as
    logs, all of a sheet or none, leaving no claimed row behind.
  \<^item> WeeklyBilling (\<open>jobs/src/weekly-billing.ts\<close>): each accrual on one invoice.
  \<^item> Availability (\<open>equipment-availability.ts\<close>), Bookings (\<open>bookings.service.ts\<close>) and Sites
    (\<open>sites.service.ts\<close>): no machine is promised twice, over the operations of both services; the locale
    \<open>exclusive_schedule\<close> is the argument they share.
  \<^item> Paymongo (\<open>signature.ts\<close>, \<open>return-origin.ts\<close>, the port), Payments (\<open>payments.service.ts\<close>),
    PaymentProtocol and PaymentEvents: which webhooks are accepted, a protocol of invoices and payments as
    abstract specification, the proof that every operation of the service is a step of it (through
    \<open>simulation\<close>), and the money of checkouts, settlements and replays.
  \<^item> Formula (\<open>formula.ts\<close>): tokenizer and recursive-descent evaluator against a grammar and a
    denotation, with termination and error behaviour. PhTolls (\<open>ph-tolls.ts\<close>), Trucks
    (\<open>trucks.service.ts\<close>) and TruckPrices: the cap a customer agrees to.
  \<^item> Fleet (\<open>fleet.service.ts\<close>): retirement, maintenance, reports.
  \<^item> SiteWeather (\<open>weather.ts\<close>, \<open>weather-attestation.ts\<close>, \<open>jobs/src/weather-poll.ts\<close>).
  \<^item> Companies (\<open>customers.service.ts\<close>, \<open>customers.ts\<close>, \<open>kyc.ts\<close>): papers, reads, reviews, decisions.
  \<^item> Sessions (\<open>refresh-token.service.ts\<close>, \<open>auth.service.ts\<close>) and Users (\<open>users.service.ts\<close>): one live
    token a session, reuse ends it, lockout, single-use activation, the reach of an administrator,
    deactivation. The locale \<open>user_keys\<close> carries a set of user keys through every sign-in request and is
    interpreted on the invited and on the not-disabled users.

  Conventions. A table is the list of its rows, so \<open>LIMIT 1\<close> is the first that matches and an unordered
  read is in insertion order. A \<open>numeric(_, 2)\<close> column is an integer of hundredths, a timestamp an
  integer of milliseconds, a date an integer of days, an id a natural drawn from the counter \<open>nextId\<close>.
  Strings are lists of code units up to 255. What the program draws or reads from outside (clocks, random
  values, hashes, HTTP services, mail, storage, environment variables) is an argument of the operation.
  \<open>EventsService.emit\<close> commits each event in a transaction of its own, so events are kept apart from
  the tables and survive a rollback.

  Restricted steps. Some step relations leave out requests the code accepts, because they break the invariant;
  the text of the property says so and a lemma shows a break: in \<open>companyStep\<close> the re-read of a superseded
  paper (\<open>reread_revives_paper\<close>); in \<open>orderlyStep\<close> the supersession of a rate card that is over or that
  another card of its tariff follows (\<open>supersede_forks\<close>) and the retirement of a card that is over
  (\<open>retirement_reopens\<close>); in \<open>quoteStep\<close> the revision of a quote that is not the newest of its
  booking, with every quote created later than those there are.

  Bounds and fuel. The evaluator of formulas has fuel, three calls for each token and three more; the
  termination property states that this is always enough. The recursion to the year of a date ends by a
  measure, so it needs no fuel. Exactness of money is claimed under the bounds
  its statements give (amounts of the \<open>numeric(12, 2)\<close> columns, a number of lines); no other recursion is
  bounded.

  Not modelled, and why: the web client (presentation); controllers, guards, zod parsing and JWT
  verification (framework configuration; a request reaches the model parsed, a token as its claims); the
  adapters of the extraction, weather, storage, mail and payment services (I/O behind ports that are
  arguments here); tenant registration and the platform console (single calls of SQL functions whose
  bodies are migrations); paginated reads of billing, notifications, catalog and reference data (no
  invariant of their own); the maintenance digest and the tooling jobs;
  CHECK constraints other than uniqueness where the services rely on it; interleavings of transactions
  other than those stated, since an operation runs its transactions one after another here.
\<close>

end
